(* ===== verification/Prelude.thy ===== *)
theory Prelude
  imports Complex_Main
    "HOL-Library.AList"
    "HOL-Library.Char_ord"
    "HOL-Library.List_Lexorder"
    "HOL-Library.Product_Lexorder"
    "HOL-Library.Multiset"
begin

text \<open>
  What the components share: the Python idioms the code is written in (dictionaries that keep
  their insertion order, \<open>min\<close> with a key, \<open>itertools.combinations\<close>, the first element a loop
  accepts, tuple indexing), JSON values, exceptions as values, and times.

  Times are microseconds since the epoch (\<open>datetime\<close> has that resolution); floats are exact
  rationals, so rounding of the source's floating-point arithmetic is not modelled.
\<close>

named_theorems model_defs \<open>definitions the component proofs unfold together\<close>

section \<open>Times and numbers\<close>

type_synonym datetime = int

definition total_seconds :: "int \<Rightarrow> rat" where
  "total_seconds d = of_int d / 1000000"

definition timestamp :: "datetime \<Rightarrow> rat" where
  "timestamp t = of_int t / 1000000"

lemma total_seconds_mono: "a \<le> b \<Longrightarrow> total_seconds a \<le> total_seconds b"
  by (simp add: total_seconds_def divide_right_mono)

section \<open>Dictionaries in insertion order\<close>

type_synonym ('k, 'v) dict = "('k \<times> 'v) list"

definition setdefault :: "'k \<Rightarrow> 'v \<Rightarrow> ('k, 'v) dict \<Rightarrow> ('k, 'v) dict" where
  "setdefault k v d = (case map_of d k of None \<Rightarrow> d @ [(k, v)] | Some _ \<Rightarrow> d)"

abbreviation keys :: "('k, 'v) dict \<Rightarrow> 'k list" where
  "keys d \<equiv> map fst d"

abbreviation vals :: "('k, 'v) dict \<Rightarrow> 'v list" where
  "vals d \<equiv> map snd d"

lemma map_of_setdefault:
  "map_of (setdefault k v d) k' =
     (if k' = k \<and> map_of d k = None then Some v else map_of d k')"
  by (auto simp: setdefault_def map_add_def split: option.splits)

lemma setdefault_present [simp]: "k \<in> fst ` set d \<Longrightarrow> setdefault k v d = d"
  by (auto simp: setdefault_def map_of_eq_None_iff split: option.splits)

lemma setdefault_absent [simp]: "k \<notin> fst ` set d \<Longrightarrow> setdefault k v d = d @ [(k, v)]"
  by (auto simp: setdefault_def map_of_eq_None_iff [symmetric])

lemma distinct_setdefault: "distinct (keys d) \<Longrightarrow> distinct (keys (setdefault k v d))"
  by (cases "k \<in> fst ` set d") auto

lemma set_keys_setdefault [simp]: "fst ` set (setdefault k v d) = insert k (fst ` set d)"
  by (cases "k \<in> fst ` set d") auto

lemma list_all_setdefault: "list_all P d \<Longrightarrow> P (k, v) \<Longrightarrow> list_all P (setdefault k v d)"
  by (cases "k \<in> fst ` set d") auto

lemma keys_update_set: "set (keys (AList.update k v d)) = insert k (set (keys d))"
  by (induction d) auto

lemma keys_update_present: "k \<in> fst ` set d \<Longrightarrow> keys (AList.update k v d) = keys d"
  by (induction d) auto

lemma distinct_update: "distinct (keys d) \<Longrightarrow> distinct (keys (AList.update k v d))"
  by (rule AList.distinct_update)

lemma update_split:
  assumes "distinct (keys d)" and "map_of d k = Some v"
  shows "\<exists>l r. d = l @ (k, v) # r \<and> AList.update k v' d = l @ (k, v') # r
    \<and> k \<notin> fst ` set l \<and> k \<notin> fst ` set r"
  using assms
proof (induction d)
  case Nil
  then show ?case by simp
next
  case (Cons p d)
  show ?case
  proof (cases "fst p = k")
    case True
    with Cons.prems have "p = (k, v)" "k \<notin> fst ` set d"
      by (cases p; auto)+
    then have "p # d = [] @ (k, v) # d" "AList.update k v' (p # d) = [] @ (k, v') # d" by auto
    with \<open>k \<notin> fst ` set d\<close> show ?thesis by (metis empty_iff image_empty list.set(1))
  next
    case False
    with Cons.prems have "distinct (keys d)" "map_of d k = Some v" by (cases p; auto)+
    from Cons.IH [OF this] obtain l r where
      "d = l @ (k, v) # r" "AList.update k v' d = l @ (k, v') # r"
      "k \<notin> fst ` set l" "k \<notin> fst ` set r" by blast
    with False have "p # d = (p # l) @ (k, v) # r"
      "AList.update k v' (p # d) = (p # l) @ (k, v') # r" "k \<notin> fst ` set (p # l)"
      by (cases p; auto)+
    with \<open>k \<notin> fst ` set r\<close> show ?thesis by blast
  qed
qed

lemma update_absent: "k \<notin> set (keys d) \<Longrightarrow> AList.update k v d = d @ [(k, v)]"
  by (induction d) auto

lemma delete_filter: "AList.delete k d = filter (\<lambda>e. fst e \<noteq> k) d"
  by (induction d) auto

lemma delete_absent: "k \<notin> set (keys d) \<Longrightarrow> AList.delete k d = d"
  by (auto simp: delete_filter filter_id_conv image_iff)

lemma keys_delete: "keys (AList.delete k d) = filter (\<lambda>x. x \<noteq> k) (keys d)"
  by (induction d) (auto simp: delete_filter)

lemma update_snoc: "k \<notin> set (keys d) \<Longrightarrow> AList.update k v (d @ [(k, w)]) = d @ [(k, v)]"
  by (induction d) auto

lemma delete_snoc: "k \<notin> set (keys d) \<Longrightarrow> AList.delete k (d @ [(k, w)]) = d"
  by (induction d) auto

lemma delete_split:
  assumes "distinct (keys d)" "map_of d k = Some v"
  shows "\<exists>l r. d = l @ (k, v) # r \<and> AList.delete k d = l @ r"
proof -
  from update_split [OF assms, of v] obtain l r where
    d: "d = l @ (k, v) # r" "k \<notin> set (keys l)" "k \<notin> set (keys r)" by auto
  then have "AList.delete k d = AList.delete k l @ AList.delete k r"
    by (simp add: delete_filter)
  also have "\<dots> = l @ r" using d by (simp add: delete_absent)
  finally show ?thesis using d by blast
qed

lemma sum_update_vals:
  fixes f :: "'v \<Rightarrow> int"
  assumes "distinct (keys d)" "(k, v) \<in> set d"
  shows "sum_list (map (f \<circ> snd) (AList.update k v' d)) = sum_list (map (f \<circ> snd) d) - f v + f v'"
  using update_split [of d k v v'] assms by auto

lemma sum_delete_vals:
  fixes f :: "'v \<Rightarrow> int"
  assumes "distinct (keys d)" "(k, v) \<in> set d"
  shows "sum_list (map (f \<circ> snd) (AList.delete k d)) = sum_list (map (f \<circ> snd) d) - f v"
  using delete_split [of d k v] assms by auto

lemma set_keys_delete: "fst ` set (AList.delete k d) = fst ` set d - {k}"
  by (auto simp: delete_filter)

lemma distinct_delete: "distinct (keys d) \<Longrightarrow> distinct (keys (AList.delete k d))"
  by (rule AList.distinct_delete)

lemma mset_concat_update:
  assumes "distinct (keys d)" "map_of d k = Some v"
  shows "mset (concat (vals (AList.update k v' d))) + mset v
    = mset (concat (vals d)) + mset v'"
  using update_split [OF assms, of v'] by auto

lemma mset_concat_delete:
  assumes "distinct (keys d)" "map_of d k = Some v"
  shows "mset (concat (vals (AList.delete k d))) + mset v = mset (concat (vals d))"
  using delete_split [OF assms] by auto

lemma vals_update_subset: "set (vals (AList.update k v d)) \<subseteq> insert v (set (vals d))"
  by (induction d) auto

lemma vals_delete_subset: "set (vals (AList.delete k d)) \<subseteq> set (vals d)"
  by (auto simp: delete_filter)

lemma list_all_update:
  "list_all P d \<Longrightarrow> P (k, v) \<Longrightarrow> list_all P (AList.update k v d)"
  by (induction d) auto

lemma list_all_delete: "list_all P d \<Longrightarrow> list_all P (AList.delete k d)"
  by (auto simp: delete_filter list_all_iff)

lemma list_all_map_ofD: "list_all P d \<Longrightarrow> map_of d k = Some v \<Longrightarrow> P (k, v)"
  by (auto simp: list_all_iff dest: map_of_SomeD)

lemma map_of_delete: "map_of (AList.delete k d) k' = (if k' = k then None else map_of d k')"
  by (simp add: AList.delete_conv)

lemma map_of_update: "map_of (AList.update k v d) k' = (if k' = k then Some v else map_of d k')"
  by (simp add: AList.update_conv')

section \<open>min with a key, the first accepted element\<close>

text \<open>Python's \<open>min\<close> returns the first of several least elements.\<close>

fun min_on :: "('a \<Rightarrow> 'k::linorder) \<Rightarrow> 'a list \<Rightarrow> 'a option" where
  "min_on key [] = None"
| "min_on key (x # xs) =
     (case min_on key xs of
        None \<Rightarrow> Some x
      | Some y \<Rightarrow> if key y < key x then Some y else Some x)"

lemma min_on_None [simp]: "min_on key xs = None \<longleftrightarrow> xs = []"
  by (cases xs) (auto split: option.splits)

lemma min_on_in: "min_on key xs = Some x \<Longrightarrow> x \<in> set xs"
  by (induction xs arbitrary: x) (auto split: option.splits if_splits)

lemma min_on_le: "min_on key xs = Some x \<Longrightarrow> y \<in> set xs \<Longrightarrow> key x \<le> key y"
proof (induction xs arbitrary: x)
  case Nil
  then show ?case by simp
next
  case (Cons a xs)
  show ?case
  proof (cases "min_on key xs")
    case None
    with Cons.prems show ?thesis by auto
  next
    case (Some z)
    with Cons.prems Cons.IH [OF Some] show ?thesis
      by (auto split: if_splits)
  qed
qed

text \<open>The loop \<open>for x in xs: if (r := f(x)) is not None: return r\<close>.\<close>

fun first_some :: "('a \<Rightarrow> 'b option) \<Rightarrow> 'a list \<Rightarrow> 'b option" where
  "first_some f [] = None"
| "first_some f (x # xs) = (case f x of None \<Rightarrow> first_some f xs | Some y \<Rightarrow> Some y)"

lemma first_some_SomeD: "first_some f xs = Some y \<Longrightarrow> \<exists>x \<in> set xs. f x = Some y"
  by (induction xs) (auto split: option.splits)

lemma first_some_None: "first_some f xs = None \<longleftrightarrow> (\<forall>x \<in> set xs. f x = None)"
  by (induction xs) (auto split: option.splits)

lemma find_SomeD: "find P xs = Some x \<Longrightarrow> x \<in> set xs \<and> P x"
  by (auto simp: find_Some_iff)

section \<open>itertools.combinations\<close>

fun combinations :: "'a list \<Rightarrow> nat \<Rightarrow> 'a list list" where
  "combinations xs 0 = [[]]"
| "combinations [] (Suc k) = []"
| "combinations (x # xs) (Suc k) = map ((#) x) (combinations xs k) @ combinations xs (Suc k)"

lemma combinations_length: "ys \<in> set (combinations xs k) \<Longrightarrow> length ys = k"
  by (induction xs k arbitrary: ys rule: combinations.induct) auto

lemma combinations_subset: "ys \<in> set (combinations xs k) \<Longrightarrow> set ys \<subseteq> set xs"
  by (induction xs k arbitrary: ys rule: combinations.induct) fastforce+

lemma combinations_distinct:
  "ys \<in> set (combinations xs k) \<Longrightarrow> distinct xs \<Longrightarrow> distinct ys"
  by (induction xs k arbitrary: ys rule: combinations.induct)
    (auto dest: subsetD [OF combinations_subset])

lemma combinations_subseqs: "set (combinations xs k) = {ys \<in> set (subseqs xs). length ys = k}"
proof (induction xs k rule: combinations.induct)
  case (1 xs)
  have "[] \<in> set (subseqs xs)" by (induction xs) (auto simp: Let_def)
  then show ?case by auto
next
  case (2 k)
  then show ?case by auto
next
  case (3 x xs k)
  then show ?case by (auto simp: Let_def image_iff)
qed

text \<open>
  The search \<open>for count in range(1, len(xs) + 1)\<close> over \<open>combinations\<close> that stops at the first
  count with an accepted selection: all accepted selections of that count.
\<close>

fun first_level :: "('a list \<Rightarrow> bool) \<Rightarrow> 'a list \<Rightarrow> nat list \<Rightarrow> 'a list list" where
  "first_level ok xs [] = []"
| "first_level ok xs (c # cs) =
     (let found = [ys \<leftarrow> combinations xs c. ok ys]
      in if found \<noteq> [] then found else first_level ok xs cs)"

definition least_selections :: "('a list \<Rightarrow> bool) \<Rightarrow> 'a list \<Rightarrow> 'a list list" where
  "least_selections ok xs = first_level ok xs [1..<Suc (length xs)]"

lemma first_level_mem:
  "ys \<in> set (first_level ok xs cs) \<Longrightarrow>
     ok ys \<and> set ys \<subseteq> set xs \<and> length ys \<in> set cs"
  by (induction cs) (auto simp: Let_def combinations_length dest: combinations_subset split: if_splits)

lemma first_level_empty:
  "first_level ok xs cs = [] \<longleftrightarrow> (\<forall>c \<in> set cs. \<forall>ys \<in> set (combinations xs c). \<not> ok ys)"
  by (induction cs) (auto simp: Let_def filter_empty_conv)

lemma first_level_least:
  assumes "ys \<in> set (first_level ok xs cs)" and "sorted cs"
    and "zs \<in> set (combinations xs c)" and "c \<in> set cs" and "ok zs"
  shows "length ys \<le> length zs"
  using assms
proof (induction cs)
  case Nil
  then show ?case by simp
next
  case (Cons d cs)
  show ?case
  proof (cases "[ys \<leftarrow> combinations xs d. ok ys] = []")
    case True
    with Cons show ?thesis by (auto simp: Let_def filter_empty_conv)
  next
    case False
    with Cons.prems have "length ys = d"
      by (auto simp: Let_def dest: combinations_length split: if_splits)
    with Cons.prems show ?thesis by (auto dest: combinations_length)
  qed
qed

lemma least_selections_mem:
  assumes "ys \<in> set (least_selections ok xs)"
  shows "ok ys" "set ys \<subseteq> set xs" "ys \<noteq> []"
  using first_level_mem [OF assms [unfolded least_selections_def]] by auto

lemma least_selections_empty:
  "least_selections ok xs = [] \<longleftrightarrow> (\<forall>ys \<in> set (subseqs xs). ys \<noteq> [] \<longrightarrow> \<not> ok ys)"
proof -
  have len: "length ys \<le> length xs" if "ys \<in> set (subseqs xs)" for ys
    using that by (induction xs arbitrary: ys) (auto simp: Let_def dest: le_SucI)
  have "length ys \<in> set [1..<Suc (length xs)] \<longleftrightarrow> ys \<noteq> []"
    if "ys \<in> set (subseqs xs)" for ys
    using len [OF that] by (auto simp: Suc_le_eq less_Suc_eq_le)
  then show ?thesis
    by (auto simp: least_selections_def first_level_empty combinations_subseqs simp del: upt_Suc set_upt)
qed

lemma least_selections_least:
  assumes "ys \<in> set (least_selections ok xs)" "zs \<in> set (subseqs xs)" "zs \<noteq> []" "ok zs"
  shows "length ys \<le> length zs"
proof -
  have "length zs \<le> length xs"
    using assms(2) by (induction xs arbitrary: zs) (auto simp: Let_def dest: le_SucI)
  with assms(2,3) have "zs \<in> set (combinations xs (length zs))"
    "length zs \<in> set [1..<Suc (length xs)]"
    by (auto simp: combinations_subseqs Suc_le_eq simp del: upt_Suc)
  with assms(1,4) show ?thesis
    using first_level_least by (metis least_selections_def sorted_upt)
qed

section \<open>Tuple indexing\<close>

text \<open>\<open>xs.index(x)\<close> where \<open>x\<close> is known to be in \<open>xs\<close>.\<close>

fun index_of :: "'a \<Rightarrow> 'a list \<Rightarrow> nat" where
  "index_of x [] = 0"
| "index_of x (y # ys) = (if x = y then 0 else Suc (index_of x ys))"

lemma index_of_less: "x \<in> set xs \<Longrightarrow> index_of x xs < length xs"
  by (induction xs) auto

lemma nth_index_of: "x \<in> set xs \<Longrightarrow> xs ! index_of x xs = x"
  by (induction xs) auto

lemma index_of_nth: "distinct xs \<Longrightarrow> i < length xs \<Longrightarrow> index_of (xs ! i) xs = i"
  by (induction xs arbitrary: i) (auto simp: nth_Cons split: nat.splits)

section \<open>Sums over filtered lists\<close>

lemma sum_list_filter_split:
  fixes f :: "'a \<Rightarrow> 'b::comm_monoid_add"
  shows "(\<Sum>x\<leftarrow>xs. f x) = (\<Sum>x\<leftarrow>filter P xs. f x) + (\<Sum>x\<leftarrow>[x\<leftarrow>xs. \<not> P x]. f x)"
  by (induction xs) (auto simp: ac_simps)

lemma sum_list_map_if:
  fixes f :: "'a \<Rightarrow> 'b::comm_monoid_add"
  shows "(\<Sum>x\<leftarrow>xs. if P x then f x else 0) = (\<Sum>x\<leftarrow>filter P xs. f x)"
  by (induction xs) auto

lemma set_sort_key_iff [simp]: "x \<in> set (sort_key f xs) \<longleftrightarrow> x \<in> set xs"
  by simp

end
