(* ===== verification/Domain.thy ===== *)
theory Domain
  imports Prelude
begin

text \<open>
  The data model: \<^verbatim>\<open>src/src/llm_rio/domain.py\<close> (the string enums, GPU devices, the machine
  inventory, placement profiles and worker placements) and the errors of
  \<^verbatim>\<open>src/src/llm_rio/errors.py\<close>. Record fields carry a two-letter prefix of their class, since
  Isabelle's record fields are global names; JSON values are a datatype.
\<close>

section \<open>JSON values\<close>

datatype json =
    JNull
  | JBool bool
  | JInt int
  | JFloat rat
  | JStr string
  | JList "json list"
  | JDict "(string \<times> json) list"

section \<open>Enumerations\<close>

datatype role = USER | TA | ADMIN

datatype catalog_state =
    REQUESTED
  | DOWNLOADING
  | VALIDATION_PENDING
  | VALIDATING
  | AVAILABLE
  | NEEDS_ADMIN_REVIEW
  | DISABLED

datatype runtime_state =
    COLD
  | LOADING
  | READY
  | DRAINING
  | OFFLOADING
  | SLEEPING
  | WAKING
  | STOPPING

text \<open>\<open>ServiceMode.DRAINING\<close> is \<open>MODE_DRAINING\<close>: the name is taken by the worker state.\<close>

datatype service_mode = ACTIVE | MODE_DRAINING | MAINTENANCE_READY

datatype engine = VLLM | LLAMA_CPP

section \<open>Devices and the machine\<close>

record gpu_device =
  gd_uuid :: string
  gd_index :: int
  gd_name :: string
  gd_total_vram_mib :: int
  gd_compute_capability :: "string option"
  gd_pci_bus_id :: "string option"
  gd_numa_node :: "int option"

record machine_inventory =
  mi_machine_id :: string
  mi_driver_version :: string
  mi_cuda_driver_version :: "string option"
  mi_gpus :: "gpu_device list"
  mi_topology_hash :: string
  mi_fingerprint :: string
  mi_topology :: "(string, (string, string) dict) dict"

section \<open>Placement profiles and workers\<close>

record placement_profile =
  pf_id :: string
  pf_model_id :: string
  pf_model_revision :: string
  pf_engine :: engine
  pf_engine_version :: string
  pf_machine_fingerprint :: string
  pf_gpu_count :: int
  pf_tensor_parallel_size :: int
  pf_pipeline_parallel_size :: int
  pf_eligible_gpu_sets :: "string list list"
  pf_dtype :: string
  pf_quantization :: "string option"
  pf_max_model_len :: int
  pf_max_num_seqs :: "int option"
  pf_max_num_batched_tokens :: "int option"
  pf_predicted_tokens_per_second :: rat
  pf_load_and_warmup_seconds :: rat
  pf_idle_vram :: "int list"
  pf_peak_vram :: "int list"
  pf_headroom :: "int list"
  pf_capabilities :: "string set"
  pf_launch_args :: "(string, json) dict"
  pf_gpu_memory_utilization :: rat
  pf_kv_cache_capacity_tokens :: "int option"
  pf_max_full_length_concurrency :: "rat option"
  pf_memory_backend :: string
  pf_sleep_vram :: "int list option"
  pf_offload_seconds :: "rat option"
  pf_activation_seconds :: "rat option"

record worker =
  wk_id :: string
  wk_profile :: placement_profile
  wk_gpu_uuids :: "string list"
  wk_port :: int
  wk_state :: runtime_state
  wk_admitted :: "string set"
  wk_accepted :: int
  wk_outstanding :: int
  wk_ready_at :: "datetime option"
  wk_last_demand_at :: datetime
  wk_drain_started_at :: "datetime option"
  wk_sleeping_at :: "datetime option"
  wk_last_activation :: "rat option"
  wk_last_offload :: "rat option"
  wk_host_cached :: bool
  wk_pid :: "int option"

definition wk_model_id :: "worker \<Rightarrow> string" where
  "wk_model_id w = pf_model_id (wk_profile w)"

definition is_routable :: "worker \<Rightarrow> bool" where
  "is_routable w \<longleftrightarrow> wk_state w = READY"

text \<open>The constructor's defaults: a worker starts LOADING with no admitted request.\<close>

definition new_worker ::
  "string \<Rightarrow> placement_profile \<Rightarrow> string list \<Rightarrow> int \<Rightarrow> datetime \<Rightarrow> worker" where
  "new_worker wid p gpus port now =
     \<lparr>wk_id = wid, wk_profile = p, wk_gpu_uuids = gpus, wk_port = port, wk_state = LOADING,
      wk_admitted = {}, wk_accepted = 0, wk_outstanding = 0, wk_ready_at = None,
      wk_last_demand_at = now, wk_drain_started_at = None, wk_sleeping_at = None,
      wk_last_activation = None, wk_last_offload = None, wk_host_cached = False,
      wk_pid = None\<rparr>"

lemmas wk_model_id_simps [simp] = wk_model_id_def

section \<open>Errors\<close>

record rio_error =
  re_code :: string
  re_message :: string
  re_status :: int
  re_details :: "(string, json) dict"

text \<open>\<open>RioError\<close>'s body: the details are merged over the three fixed keys.\<close>

definition openai_body :: "rio_error \<Rightarrow> json" where
  "openai_body e = JDict [(''error'', JDict
     (fold (\<lambda>(k, v). AList.update k v) (re_details e)
       [(''message'', JStr (re_message e)), (''type'', JStr (re_code e)),
        (''code'', JStr (re_code e))]))]"

definition AuthenticationError :: "string \<Rightarrow> rio_error" where
  "AuthenticationError msg =
     \<lparr>re_code = ''invalid_api_key'', re_message = msg, re_status = 401, re_details = []\<rparr>"

definition AuthorizationError :: rio_error where
  "AuthorizationError =
     \<lparr>re_code = ''permission_denied'', re_message = ''This operation is not permitted'',
      re_status = 403, re_details = []\<rparr>"

definition QuotaExceededError :: "int \<Rightarrow> int \<Rightarrow> rio_error" where
  "QuotaExceededError available requested =
     \<lparr>re_code = ''quota_exceeded'',
      re_message = ''The quota account has insufficient token credit'', re_status = 429,
      re_details = [(''available_tokens'', JInt available), (''requested_tokens'', JInt requested)]\<rparr>"

definition QueueFullError :: rio_error where
  "QueueFullError =
     \<lparr>re_code = ''queue_full'', re_message = ''The model queue is at capacity'',
      re_status = 429, re_details = []\<rparr>"

definition MaintenanceError :: rio_error where
  "MaintenanceError =
     \<lparr>re_code = ''service_maintenance'',
      re_message = ''The service is draining or in maintenance'', re_status = 503,
      re_details = []\<rparr>"

text \<open>
  What an operation can raise. \<open>Rio\<close> carries the application's error; the others are the Python
  and SQLite exceptions the code raises or lets through.
\<close>

datatype exn =
    Rio rio_error
  | RuntimeError string
  | KeyError string
  | IndexError
  | ValueError
  | IntegrityError string
  | WorkerLaunchError string
  | TypeError string
  | AttributeError string

definition rio :: "string \<Rightarrow> string \<Rightarrow> int \<Rightarrow> (string, json) dict \<Rightarrow> exn" where
  "rio c m st ds =
     Rio \<lparr>re_code = c, re_message = m, re_status = st, re_details = ds\<rparr>"

text \<open>The HTTP status the application's exception handlers answer with.\<close>

fun exn_code :: "exn \<Rightarrow> string" where
  "exn_code (Rio e) = re_code e"
| "exn_code (IntegrityError _) = ''state_conflict''"
| "exn_code _ = ''internal''"

lemma exn_code_rio [simp]: "exn_code (rio c m st ds) = c"
  by (simp add: rio_def)

lemma rio_eq_iff [simp]:
  "rio c m st ds = rio c' m' st' ds' \<longleftrightarrow> c = c' \<and> m = m' \<and> st = st' \<and> ds = ds'"
  by (auto simp: rio_def)

end
