(* ===== verification/Queueing.thy ===== *)
theory Queueing
  imports Domain "HOL-Library.Sublist"
begin

text \<open>
  \<^verbatim>\<open>src/src/llm_rio/queueing.py\<close>: the per-tenant deficit round robin queue of one model
  (\<open>DeficitRoundRobinQueue\<close>) and the queues of all models (\<open>ModelQueues\<close>).

  A queue is a record; its \<open>OrderedDict\<close> of tenants is an association list in insertion order,
  so \<open>popitem(last=False)\<close> takes the head and storing a missing key appends. An operation
  returns the new queue with its result, \<open>Inl\<close> for a raise. The \<open>while\<close> of \<open>pop\<close> is
  \<open>drr_pop_loop\<close>, a partial function (\<open>None\<close> is a loop that never returns); \<open>pop_iter\<close> runs it
  for a bounded number of iterations and \<open>pop_iter_bound\<close> says how many are enough.
  The locale \<open>tenant_queue\<close> is what the scheduler relies on; it is interpreted on the DRR queue.
\<close>

section \<open>The queue of one model\<close>

text \<open>
  \<open>rq_assignment\<close> is the handle of the future a waiting request handler holds; the futures
  themselves are part of the scheduler's state.
\<close>

record request =
  rq_id :: string
  rq_model_id :: string
  rq_tenant_id :: string
  rq_estimated_tokens :: int
  rq_payload :: "(string, json) dict"
  rq_reservation_id :: string
  rq_is_stream :: bool
  rq_enqueued_at :: datetime
  rq_assignment :: "nat option"

record drr =
  dq_total_capacity :: "int option"
  dq_tenant_capacity :: "int option"
  dq_quantum :: int
  dq_queues :: "(string, request list) dict"
  dq_deficits :: "(string, int) dict"
  dq_size :: int

definition drr_new :: "int option \<Rightarrow> int option \<Rightarrow> drr" where
  "drr_new total_cap tenant_cap =
     \<lparr>dq_total_capacity = total_cap, dq_tenant_capacity = tenant_cap, dq_quantum = 4096,
      dq_queues = [], dq_deficits = [], dq_size = 0\<rparr>"

definition drr_tenants :: "drr \<Rightarrow> int" where
  "drr_tenants q = int (length (dq_queues q))"

definition drr_len :: "drr \<Rightarrow> int" where
  "drr_len q = dq_size q"

definition estimated_token_work :: "drr \<Rightarrow> int" where
  "estimated_token_work q =
     (\<Sum>r\<leftarrow>concat (vals (dq_queues q)). rq_estimated_tokens r)"

definition oldest_enqueued_at :: "drr \<Rightarrow> datetime option" where
  "oldest_enqueued_at q =
     (case [rq_enqueued_at (hd tq). tq \<leftarrow> vals (dq_queues q), tq \<noteq> []] of
        [] \<Rightarrow> None
      | v # vs \<Rightarrow> Some (Min (set (v # vs))))"

definition tenant_view :: "drr \<Rightarrow> string \<Rightarrow> request list" where
  "tenant_view q t = (case map_of (dq_queues q) t of None \<Rightarrow> [] | Some tq \<Rightarrow> tq)"

definition at_capacity :: "int option \<Rightarrow> int \<Rightarrow> bool" where
  "at_capacity cap n \<longleftrightarrow> (case cap of None \<Rightarrow> False | Some c \<Rightarrow> n \<ge> c)"

definition drr_put :: "drr \<Rightarrow> request \<Rightarrow> drr \<times> (exn + unit)" where
  "drr_put q r =
     (let t = rq_tenant_id r;
          qs = setdefault t [] (dq_queues q);
          tq = tenant_view q t
      in if at_capacity (dq_total_capacity q) (dq_size q)
            \<or> at_capacity (dq_tenant_capacity q) (int (length tq))
         then (q\<lparr>dq_queues := (if tq = [] then AList.delete t qs else qs)\<rparr>,
               Inl (Rio QueueFullError))
         else (q\<lparr>dq_queues := AList.update t (tq @ [r]) qs,
                 dq_deficits := setdefault t 0 (dq_deficits q),
                 dq_size := dq_size q + 1\<rparr>, Inr ()))"

text \<open>
  One iteration of \<open>pop\<close>'s loop: \<open>None\<close> goes round again, \<open>Some\<close> leaves the method with a
  value or a raise (a missing deficit is a \<open>KeyError\<close>, an empty tenant queue an \<open>IndexError\<close>).
\<close>

definition pop_body :: "drr \<Rightarrow> drr \<times> (exn + request option) option" where
  "pop_body q =
     (case dq_queues q of
        [] \<Rightarrow> (q, Some (Inr None))
      | (t, tq) # rest \<Rightarrow>
          (case map_of (dq_deficits q) t of
             None \<Rightarrow> (q\<lparr>dq_queues := rest\<rparr>, Some (Inl (KeyError t)))
           | Some d \<Rightarrow>
               (let d' = d + dq_quantum q;
                    q1 = q\<lparr>dq_queues := rest,
                            dq_deficits := AList.update t d' (dq_deficits q)\<rparr>
                in case tq of
                     [] \<Rightarrow> (q1, Some (Inl IndexError))
                   | r # tail \<Rightarrow>
                       if rq_estimated_tokens r \<le> d'
                       then
                         (let ds = AList.update t (d' - rq_estimated_tokens r) (dq_deficits q1);
                              q2 = q1\<lparr>dq_size := dq_size q - 1\<rparr>
                          in (if tail \<noteq> []
                              then q2\<lparr>dq_queues := AList.update t tail rest, dq_deficits := ds\<rparr>
                              else q2\<lparr>dq_deficits := AList.delete t ds\<rparr>,
                              Some (Inr (Some r))))
                       else (q1\<lparr>dq_queues := AList.update t tq rest\<rparr>, None))))"

partial_function (option) drr_pop_loop ::
  "drr \<Rightarrow> (drr \<times> (exn + request option)) option" where
  "drr_pop_loop q =
     (case pop_body q of
        (q', Some res) \<Rightarrow> Some (q', res)
      | (q', None) \<Rightarrow> drr_pop_loop q')"

definition drr_pop :: "drr \<Rightarrow> (drr \<times> (exn + request option)) option" where
  "drr_pop q = (if dq_size q = 0 then Some (q, Inr None) else drr_pop_loop q)"

fun pop_iter :: "nat \<Rightarrow> drr \<Rightarrow> (drr \<times> (exn + request option)) option" where
  "pop_iter 0 q = None"
| "pop_iter (Suc n) q =
     (case pop_body q of
        (q', Some res) \<Rightarrow> Some (q', res)
      | (q', None) \<Rightarrow> pop_iter n q')"

text \<open>
  \<open>remove\<close> scans the tenants in order for the request. \<open>deque.remove\<close> deletes the first equal
  element, which is the one found: an earlier equal one would have the same id.
\<close>

fun remove_scan :: "string \<Rightarrow> (string, request list) dict \<Rightarrow> (string \<times> request) option" where
  "remove_scan rid [] = None"
| "remove_scan rid ((t, tq) # rest) =
     (case find (\<lambda>r. rq_id r = rid) tq of
        Some r \<Rightarrow> Some (t, r)
      | None \<Rightarrow> remove_scan rid rest)"

definition drr_remove :: "drr \<Rightarrow> string \<Rightarrow> drr \<times> request option" where
  "drr_remove q rid =
     (case remove_scan rid (dq_queues q) of
        None \<Rightarrow> (q, None)
      | Some (t, r) \<Rightarrow>
          (let tq = remove1 r (tenant_view q t);
               q1 = q\<lparr>dq_size := dq_size q - 1\<rparr>
           in (if tq = []
               then q1\<lparr>dq_queues := AList.delete t (dq_queues q),
                       dq_deficits := AList.delete t (dq_deficits q)\<rparr>
               else q1\<lparr>dq_queues := AList.update t tq (dq_queues q)\<rparr>,
               Some r)))"

definition drr_drain :: "drr \<Rightarrow> drr \<times> request list" where
  "drr_drain q =
     (q\<lparr>dq_queues := [], dq_deficits := [], dq_size := 0\<rparr>, concat (vals (dq_queues q)))"

section \<open>The queues of all models\<close>

record model_queues =
  mq_total_capacity :: "int option"
  mq_tenant_capacity :: "int option"
  mq_models :: "(string, drr) dict"

text \<open>\<open>for_model\<close> creates the queue on first use, so it returns the dictionary too.\<close>

definition for_model :: "model_queues \<Rightarrow> string \<Rightarrow> model_queues \<times> drr" where
  "for_model m model =
     (let ms = setdefault model (drr_new (mq_total_capacity m) (mq_tenant_capacity m))
                 (mq_models m)
      in (m\<lparr>mq_models := ms\<rparr>,
          case map_of ms model of
            Some q \<Rightarrow> q
          | None \<Rightarrow> drr_new (mq_total_capacity m) (mq_tenant_capacity m)))"

definition set_model :: "model_queues \<Rightarrow> string \<Rightarrow> drr \<Rightarrow> model_queues" where
  "set_model m model q = m\<lparr>mq_models := AList.update model q (mq_models m)\<rparr>"

definition pending_models :: "model_queues \<Rightarrow> string list" where
  "pending_models m = [model. (model, q) \<leftarrow> mq_models m, drr_len q \<noteq> 0]"

definition mq_remove :: "model_queues \<Rightarrow> string \<Rightarrow> string \<Rightarrow> model_queues \<times> request option" where
  "mq_remove m model rid =
     (case map_of (mq_models m) model of
        None \<Rightarrow> (m, None)
      | Some q \<Rightarrow>
          if drr_len q = 0 then (m, None)
          else (let (q', r) = drr_remove q rid in (set_model m model q', r)))"

definition mq_drain_all :: "model_queues \<Rightarrow> model_queues \<times> request list" where
  "mq_drain_all m =
     (m\<lparr>mq_models := [(model, fst (drr_drain q)). (model, q) \<leftarrow> mq_models m]\<rparr>,
      concat [snd (drr_drain q). (model, q) \<leftarrow> mq_models m])"

section \<open>The invariant\<close>

definition queue_entry_ok :: "string \<times> request list \<Rightarrow> bool" where
  "queue_entry_ok e \<longleftrightarrow> snd e \<noteq> [] \<and> (\<forall>r \<in> set (snd e). rq_tenant_id r = fst e)"

definition drr_wf :: "drr \<Rightarrow> bool" where
  "drr_wf q \<longleftrightarrow>
     distinct (keys (dq_queues q)) \<and> distinct (keys (dq_deficits q)) \<and>
     set (keys (dq_deficits q)) = set (keys (dq_queues q)) \<and>
     list_all queue_entry_ok (dq_queues q) \<and>
     dq_size q = (\<Sum>tq\<leftarrow>vals (dq_queues q). int (length tq)) \<and>
     dq_quantum q > 0 \<and> list_all (\<lambda>e. 0 \<le> snd e) (dq_deficits q)"

lemma drr_new_wf: "drr_wf (drr_new a b)"
  by (simp add: drr_wf_def drr_new_def)

lemma tenant_view_new [simp]: "tenant_view (drr_new a b) t = []"
  by (simp add: tenant_view_def drr_new_def)

section \<open>Each operation keeps the invariant\<close>

lemma drr_wfD:
  assumes "drr_wf q"
  shows "distinct (keys (dq_queues q))" "distinct (keys (dq_deficits q))"
    "fst ` set (dq_deficits q) = fst ` set (dq_queues q)"
    "list_all queue_entry_ok (dq_queues q)"
    "dq_size q = (\<Sum>tq\<leftarrow>vals (dq_queues q). int (length tq))"
    "0 < dq_quantum q" "list_all (\<lambda>e. 0 \<le> snd e) (dq_deficits q)"
  using assms by (auto simp: drr_wf_def)

lemma drr_wfI:
  assumes "distinct (keys (dq_queues q))" "distinct (keys (dq_deficits q))"
    "fst ` set (dq_deficits q) = fst ` set (dq_queues q)"
    "list_all queue_entry_ok (dq_queues q)"
    "dq_size q = (\<Sum>tq\<leftarrow>vals (dq_queues q). int (length tq))"
    "0 < dq_quantum q" "list_all (\<lambda>e. 0 \<le> snd e) (dq_deficits q)"
  shows "drr_wf q"
  using assms by (auto simp: drr_wf_def)

lemma tenant_view_entry:
  assumes "drr_wf q" "map_of (dq_queues q) t = Some tq"
  shows "tq \<noteq> []" "\<forall>r \<in> set tq. rq_tenant_id r = t"
  using list_all_map_ofD [OF drr_wfD(4) [OF assms(1)] assms(2)] by (auto simp: queue_entry_ok_def)

lemma tenant_view_absent [simp]: "t \<notin> fst ` set (dq_queues q) \<Longrightarrow> tenant_view q t = []"
  by (metis map_of_eq_None_iff option.case(1) tenant_view_def)

lemma tenant_view_tenant: "drr_wf q \<Longrightarrow> r \<in> set (tenant_view q t) \<Longrightarrow> rq_tenant_id r = t"
  using tenant_view_entry(2) by (cases "map_of (dq_queues q) t") (auto simp: tenant_view_def)

lemma drr_put_full:
  assumes "drr_wf q" "at_capacity (dq_total_capacity q) (dq_size q)
    \<or> at_capacity (dq_tenant_capacity q) (int (length (tenant_view q (rq_tenant_id r))))"
  shows "drr_put q r = (q, Inl (Rio QueueFullError))"
proof (cases "map_of (dq_queues q) (rq_tenant_id r)")
  case None
  then have "rq_tenant_id r \<notin> fst ` set (dq_queues q)" by (simp add: map_of_eq_None_iff)
  with assms(2) None show ?thesis
    by (simp add: drr_put_def Let_def tenant_view_def delete_snoc)
next
  case (Some tq)
  with tenant_view_entry [OF assms(1) Some] assms show ?thesis
    by (auto simp: drr_put_def Let_def tenant_view_def setdefault_def)
qed

lemma drr_put_ok:
  assumes "\<not> at_capacity (dq_total_capacity q) (dq_size q)"
    "\<not> at_capacity (dq_tenant_capacity q) (int (length (tenant_view q (rq_tenant_id r))))"
  shows "drr_put q r =
    (q\<lparr>dq_queues := AList.update (rq_tenant_id r) (tenant_view q (rq_tenant_id r) @ [r])
         (setdefault (rq_tenant_id r) [] (dq_queues q)),
       dq_deficits := setdefault (rq_tenant_id r) 0 (dq_deficits q),
       dq_size := dq_size q + 1\<rparr>, Inr ())"
  using assms by (simp add: drr_put_def Let_def)

lemma put_queues:
  assumes "drr_wf q"
  shows "AList.update t (tenant_view q t @ [r]) (setdefault t [] (dq_queues q)) =
    AList.update t (tenant_view q t @ [r]) (dq_queues q)"
proof (cases "t \<in> fst ` set (dq_queues q)")
  case False
  then show ?thesis by (simp add: update_absent update_snoc)
qed simp

lemma drr_put_wf:
  assumes "drr_wf q"
  shows "drr_wf (fst (drr_put q r))"
proof (cases "at_capacity (dq_total_capacity q) (dq_size q)
    \<or> at_capacity (dq_tenant_capacity q) (int (length (tenant_view q (rq_tenant_id r))))")
  case True
  with drr_put_full [OF assms] assms show ?thesis by simp
next
  case False
  let ?t = "rq_tenant_id r"
  note wf = drr_wfD [OF assms]
  have sz: "(\<Sum>tq\<leftarrow>vals (AList.update ?t (tenant_view q ?t @ [r]) (dq_queues q)). int (length tq))
    = dq_size q + 1"
  proof (cases "map_of (dq_queues q) ?t")
    case None
    then have "?t \<notin> fst ` set (dq_queues q)" by (simp add: map_of_eq_None_iff)
    then show ?thesis using wf(5) by (simp add: update_absent)
  next
    case (Some tq)
    then show ?thesis using wf(1,5) by (simp add: sum_update_vals tenant_view_def)
  qed
  from wf have "drr_wf (q\<lparr>dq_queues := AList.update ?t (tenant_view q ?t @ [r]) (dq_queues q),
       dq_deficits := setdefault ?t 0 (dq_deficits q), dq_size := dq_size q + 1\<rparr>)"
    using sz tenant_view_tenant [OF assms]
    by (intro drr_wfI)
      (auto simp: distinct_update distinct_setdefault dom_update queue_entry_ok_def
         intro!: list_all_update list_all_setdefault)
  with False show ?thesis by (simp add: drr_put_ok put_queues [OF assms])
qed


lemma drr_wf_front:
  assumes "drr_wf q" "dq_queues q = (t, tq) # rest"
  obtains r tail d where "tq = r # tail" "map_of (dq_deficits q) t = Some d" "0 \<le> d"
    "t \<notin> fst ` set rest" "\<forall>x \<in> set tq. rq_tenant_id x = t"
proof -
  note wf = drr_wfD [OF assms(1)]
  from wf(3) assms(2) have "t \<in> fst ` set (dq_deficits q)" by auto
  then obtain d where d: "map_of (dq_deficits q) t = Some d"
    by (metis map_of_eq_None_iff not_None_eq set_map)
  from list_all_map_ofD [OF wf(7) d] have "0 \<le> d" by simp
  moreover from wf(1,4) assms(2) have "t \<notin> fst ` set rest" "tq \<noteq> []" "\<forall>x \<in> set tq. rq_tenant_id x = t"
    by (auto simp: queue_entry_ok_def)
  ultimately show thesis using d that by (cases tq) auto
qed

lemma drr_wf_rest: "drr_wf q \<Longrightarrow> dq_queues q = (t, tq) # rest \<Longrightarrow> t \<notin> fst ` set rest"
  using drr_wfD(1) [of q] by simp

lemma pop_body_skip:
  assumes "drr_wf q" "dq_queues q = (t, r # tail) # rest" "map_of (dq_deficits q) t = Some d"
    "rq_estimated_tokens r > d + dq_quantum q"
  shows "pop_body q = (q\<lparr>dq_queues := rest @ [(t, r # tail)],
    dq_deficits := AList.update t (d + dq_quantum q) (dq_deficits q)\<rparr>, None)"
  using assms(2-4) drr_wf_rest [OF assms(1,2)] by (simp add: pop_body_def Let_def update_absent)

lemma pop_body_serve:
  assumes "drr_wf q" "dq_queues q = (t, r # tail) # rest" "map_of (dq_deficits q) t = Some d"
    "rq_estimated_tokens r \<le> d + dq_quantum q"
  shows "pop_body q =
    (q\<lparr>dq_queues := (if tail = [] then rest else rest @ [(t, tail)]),
       dq_deficits := (if tail = [] then AList.delete t (dq_deficits q)
         else AList.update t (d + dq_quantum q - rq_estimated_tokens r) (dq_deficits q)),
       dq_size := dq_size q - 1\<rparr>, Some (Inr (Some r)))"
  using assms(2-4) drr_wf_rest [OF assms(1,2)]
  by (simp add: pop_body_def Let_def update_absent delete_update_same)

lemma pop_body_wf:
  assumes "drr_wf q"
  shows "drr_wf (fst (pop_body q))"
proof (cases "dq_queues q")
  case Nil
  with assms show ?thesis by (simp add: pop_body_def)
next
  case (Cons e rest)
  obtain t tq where e: "e = (t, tq)" by (cases e)
  from drr_wf_front [OF assms Cons [unfolded e]] obtain r tail d where
    f: "tq = r # tail" "map_of (dq_deficits q) t = Some d" "0 \<le> d"
      "t \<notin> fst ` set rest" "\<forall>x \<in> set tq. rq_tenant_id x = t" by metis
  note q = Cons [unfolded e f(1)] and wf = drr_wfD [OF assms]
  have present: "t \<in> fst ` set (dq_deficits q)" using q wf(3) by auto
  have upd: "fst ` set (AList.update t v (dq_deficits q)) = fst ` set (dq_deficits q)" for v
    using keys_update_present [OF present, of v] by (metis set_map)
  show ?thesis
  proof (cases "rq_estimated_tokens r \<le> d + dq_quantum q")
    case True
    show ?thesis
    proof (cases "tail = []")
      case t: True
      have "drr_wf (q\<lparr>dq_queues := rest, dq_deficits := AList.delete t (dq_deficits q),
        dq_size := dq_size q - 1\<rparr>)"
        using wf q f t
        by (intro drr_wfI) (auto simp: set_keys_delete distinct_delete intro: list_all_delete)
      with True t q show ?thesis by (simp add: pop_body_serve [OF assms q f(2)])
    next
      case t: False
      have "drr_wf (q\<lparr>dq_queues := rest @ [(t, tail)],
        dq_deficits := AList.update t (d + dq_quantum q - rq_estimated_tokens r) (dq_deficits q),
        dq_size := dq_size q - 1\<rparr>)"
        using wf q f t True upd
        by (intro drr_wfI) (auto simp: distinct_update queue_entry_ok_def intro!: list_all_update)
      with True t q show ?thesis by (simp add: pop_body_serve [OF assms q f(2)])
    qed
  next
    case False
    have "drr_wf (q\<lparr>dq_queues := rest @ [(t, r # tail)],
        dq_deficits := AList.update t (d + dq_quantum q) (dq_deficits q)\<rparr>)"
      using wf q f upd
      by (intro drr_wfI) (auto simp: distinct_update queue_entry_ok_def intro!: list_all_update)
    with False q show ?thesis by (simp add: pop_body_skip [OF assms q f(2)])
  qed
qed

section \<open>The order in which pop serves\<close>

text \<open>
  The loop of \<open>pop\<close> visits the tenants in rotation. Visit \<open>m\<close> is to the tenant at position
  \<open>m mod n\<close> of the rotation, in round \<open>m div n + 1\<close>, when its credit has grown by one quantum
  for each round; \<open>visit_ok\<close> says that the head of its queue is affordable then.
\<close>

definition deficit :: "drr \<Rightarrow> string \<Rightarrow> int" where
  "deficit q t = (case map_of (dq_deficits q) t of None \<Rightarrow> 0 | Some d \<Rightarrow> d)"

definition visit_head :: "drr \<Rightarrow> nat \<Rightarrow> request" where
  "visit_head q m = hd (snd (dq_queues q ! (m mod length (dq_queues q))))"

definition visit_ok :: "drr \<Rightarrow> nat \<Rightarrow> bool" where
  "visit_ok q m \<longleftrightarrow>
     rq_estimated_tokens (visit_head q m)
       \<le> deficit q (fst (dq_queues q ! (m mod length (dq_queues q))))
          + int (m div length (dq_queues q) + 1) * dq_quantum q"

definition rotated :: "drr \<Rightarrow> drr" where
  "rotated q = (case dq_queues q of
     [] \<Rightarrow> q
   | (t, tq) # rest \<Rightarrow>
       q\<lparr>dq_queues := rest @ [(t, tq)],
         dq_deficits := AList.update t (deficit q t + dq_quantum q) (dq_deficits q)\<rparr>)"

lemma pop_body_step:
  assumes "drr_wf q" "dq_queues q = (t, tq) # rest"
  shows "pop_body q =
    (if visit_ok q 0
     then (q\<lparr>dq_queues := (if tl tq = [] then rest else rest @ [(t, tl tq)]),
             dq_deficits := (if tl tq = [] then AList.delete t (dq_deficits q)
               else AList.update t (deficit q t + dq_quantum q - rq_estimated_tokens (hd tq))
                      (dq_deficits q)),
             dq_size := dq_size q - 1\<rparr>, Some (Inr (Some (hd tq))))
     else (rotated q, None))"
proof -
  from drr_wf_front [OF assms] obtain r tail d where f: "tq = r # tail"
    "map_of (dq_deficits q) t = Some d" by metis
  note q = assms(2) [unfolded f(1)]
  have ok: "visit_ok q 0 \<longleftrightarrow> rq_estimated_tokens r \<le> d + dq_quantum q"
    using q f by (simp add: visit_ok_def visit_head_def deficit_def)
  show ?thesis
  proof (cases "visit_ok q 0")
    case True
    with ok q f(1,2) pop_body_serve [OF assms(1) q f(2)] show ?thesis by (simp add: deficit_def)
  next
    case False
    with ok q f(1,2) pop_body_skip [OF assms(1) q f(2)] show ?thesis
      by (simp add: deficit_def rotated_def)
  qed
qed

lemma visit_rotated:
  assumes "drr_wf q" "dq_queues q \<noteq> []"
  shows "visit_head (rotated q) m = visit_head q (Suc m)"
    and "visit_ok (rotated q) m = visit_ok q (Suc m)"
proof -
  from assms(2) obtain t tq rest where q: "dq_queues q = (t, tq) # rest"
    by (cases "dq_queues q") auto
  have t: "t \<notin> fst ` set rest" by (rule drr_wf_rest [OF assms(1) q])
  define n where "n = Suc (length rest)"
  have len: "length (dq_queues q) = n" "length (dq_queues (rotated q)) = n"
    using q by (simp_all add: n_def rotated_def)
  have def': "deficit (rotated q) u = deficit q u + (if u = t then dq_quantum q else 0)" for u
    using q by (simp add: rotated_def deficit_def map_of_update)
  have quantum: "dq_quantum (rotated q) = dq_quantum q" using q by (simp add: rotated_def)
  have "visit_head (rotated q) m = visit_head q (Suc m) \<and>
    visit_ok (rotated q) m = visit_ok q (Suc m)"
  proof (cases "Suc (m mod n) = n")
    case True
    then have m: "Suc m mod n = 0" "m mod n = length rest" "Suc m div n = Suc (m div n)"
      by (auto simp: mod_Suc div_Suc n_def)
    have "dq_queues (rotated q) ! (m mod n) = (t, tq)" "dq_queues q ! (Suc m mod n) = (t, tq)"
      using m q by (simp_all add: rotated_def nth_append)
    with m show ?thesis
      by (simp add: visit_ok_def visit_head_def len def' quantum algebra_simps)
  next
    case False
    then have m: "Suc m mod n = Suc (m mod n)" "Suc m div n = m div n"
      by (auto simp: mod_Suc div_Suc)
    have "m mod n < n" by (simp add: n_def)
    with False have lt: "m mod n < length rest" unfolding n_def by linarith
    have "dq_queues (rotated q) ! (m mod n) = rest ! (m mod n)"
      "dq_queues q ! (Suc m mod n) = rest ! (m mod n)"
      using m lt q by (simp_all add: rotated_def nth_append)
    moreover have "fst (rest ! (m mod n)) \<noteq> t" using t lt by (metis imageI nth_mem)
    ultimately show ?thesis
      using m by (simp add: visit_ok_def visit_head_def len def' quantum)
  qed
  then show "visit_head (rotated q) m = visit_head q (Suc m)"
    "visit_ok (rotated q) m = visit_ok q (Suc m)" by auto
qed

lemma rotated_facts:
  assumes "drr_wf q"
  shows "drr_wf (rotated q)" "length (dq_queues (rotated q)) = length (dq_queues q)"
    "tenant_view (rotated q) u = tenant_view q u"
    "mset (concat (vals (dq_queues (rotated q)))) = mset (concat (vals (dq_queues q)))"
    "dq_size (rotated q) = dq_size q"
proof -
  have "drr_wf (rotated q) \<and> length (dq_queues (rotated q)) = length (dq_queues q) \<and>
    tenant_view (rotated q) u = tenant_view q u \<and>
    mset (concat (vals (dq_queues (rotated q)))) = mset (concat (vals (dq_queues q))) \<and>
    dq_size (rotated q) = dq_size q"
  proof (cases "dq_queues q")
    case Nil
    with assms show ?thesis by (simp add: rotated_def)
  next
    case (Cons e rest)
    obtain t tq where q: "dq_queues q = (t, tq) # rest" using Cons by (cases e) auto
    from drr_wf_front [OF assms q] obtain d where f: "tq \<noteq> []"
      "map_of (dq_deficits q) t = Some d" "0 \<le> d" "t \<notin> fst ` set rest"
      "\<forall>x \<in> set tq. rq_tenant_id x = t" by (metis list.distinct(1))
    note wf = drr_wfD [OF assms]
    have present: "t \<in> fst ` set (dq_deficits q)" using q wf(3) by auto
    have upd: "fst ` set (AList.update t v (dq_deficits q)) = fst ` set (dq_deficits q)" for v
      using keys_update_present [OF present, of v] by (metis set_map)
    have "drr_wf (rotated q)"
      using wf q f upd by (intro drr_wfI)
        (auto simp: rotated_def deficit_def distinct_update queue_entry_ok_def
          intro!: list_all_update)
    moreover have "map_of (rest @ [(t, tq)]) u = map_of ((t, tq) # rest) u"
      using f(4) [folded map_of_eq_None_iff] by (cases "map_of rest u") (auto simp: map_add_def)
    ultimately show ?thesis using q by (simp add: rotated_def tenant_view_def)
  qed
  then show "drr_wf (rotated q)" "length (dq_queues (rotated q)) = length (dq_queues q)"
    "tenant_view (rotated q) u = tenant_view q u"
    "mset (concat (vals (dq_queues (rotated q)))) = mset (concat (vals (dq_queues q)))"
    "dq_size (rotated q) = dq_size q" by auto
qed


section \<open>pop\<close>

lemma pop_iter_loop: "pop_iter n q = Some r \<Longrightarrow> drr_pop_loop q = Some r"
proof (induction n arbitrary: q)
  case 0
  then show ?case by simp
next
  case (Suc n)
  then show ?case
    by (subst drr_pop_loop.simps) (auto split: prod.splits option.splits)
qed

text \<open>What \<open>pop\<close> leaves when it serves a request.\<close>

definition served :: "drr \<Rightarrow> request \<Rightarrow> drr \<Rightarrow> bool" where
  "served q r q' \<longleftrightarrow>
     drr_wf q' \<and> dq_size q' = dq_size q - 1 \<and>
     (\<forall>t. tenant_view q t = (if t = rq_tenant_id r then [r] else []) @ tenant_view q' t) \<and>
     mset (concat (vals (dq_queues q))) = add_mset r (mset (concat (vals (dq_queues q'))))"

lemma pop_body_served:
  assumes "drr_wf q" "dq_queues q \<noteq> []" "visit_ok q 0"
  shows "\<exists>q'. pop_body q = (q', Some (Inr (Some (visit_head q 0)))) \<and> served q (visit_head q 0) q'"
proof -
  from assms(2) obtain t tq rest where q: "dq_queues q = (t, tq) # rest"
    by (cases "dq_queues q") auto
  from drr_wf_front [OF assms(1) q] obtain r tail where f: "tq = r # tail"
    "t \<notin> fst ` set rest" "\<forall>x \<in> set tq. rq_tenant_id x = t" by metis
  have r: "rq_tenant_id r = t" using f by simp
  have head: "visit_head q 0 = r" using q f(1) by (simp add: visit_head_def)
  let ?q' = "fst (pop_body q)"
  have body: "snd (pop_body q) = Some (Inr (Some r))"
    and queues: "dq_queues ?q' = (if tail = [] then rest else rest @ [(t, tail)])"
    and size: "dq_size ?q' = dq_size q - 1"
    using pop_body_step [OF assms(1) q] assms(3) f(1) by auto
  have "map_of rest t = None" using f(2) by (simp add: map_of_eq_None_iff)
  then have view: "tenant_view q u = (if u = rq_tenant_id r then [r] else []) @ tenant_view ?q' u"
    for u
    using q queues f(1) r by (cases "map_of rest u") (auto simp: tenant_view_def map_add_def)
  have "mset (concat (vals (dq_queues q))) = add_mset r (mset (concat (vals (dq_queues ?q'))))"
    using q queues f(1) by simp
  then have "served q r ?q'"
    using view size pop_body_wf [OF assms(1)] by (simp add: served_def)
  with body head show ?thesis by (metis prod.collapse)
qed

lemma served_rotated: "drr_wf q \<Longrightarrow> served (rotated q) r q' \<Longrightarrow> served q r q'"
  by (simp add: served_def rotated_facts)

lemma pop_iter_first:
  assumes "drr_wf q" "dq_queues q \<noteq> []" "visit_ok q m" "\<forall>j < m. \<not> visit_ok q j"
  shows "\<exists>q'. pop_iter (Suc m) q = Some (q', Inr (Some (visit_head q m))) \<and>
    served q (visit_head q m) q'"
  using assms
proof (induction m arbitrary: q)
  case 0
  with pop_body_served [of q] show ?case by auto
next
  case (Suc m)
  from Suc.prems(2) obtain t tq rest where q: "dq_queues q = (t, tq) # rest"
    by (cases "dq_queues q") auto
  have "pop_body q = (rotated q, None)"
    using pop_body_step [OF Suc.prems(1) q] Suc.prems(4) by auto
  then have step: "pop_iter (Suc (Suc m)) q = pop_iter (Suc m) (rotated q)" by simp
  have ne: "dq_queues (rotated q) \<noteq> []"
    using rotated_facts(2) [OF Suc.prems(1)] Suc.prems(2) by (metis length_0_conv)
  note vr = visit_rotated [OF Suc.prems(1,2)]
  have "\<forall>j < m. \<not> visit_ok (rotated q) j" using Suc.prems(4) vr(2) by auto
  with Suc.IH [OF rotated_facts(1) [OF Suc.prems(1)] ne] Suc.prems(3)
  obtain q' where "pop_iter (Suc m) (rotated q) = Some (q', Inr (Some (visit_head q (Suc m))))"
    "served (rotated q) (visit_head q (Suc m)) q'"
    by (auto simp: vr)
  with step served_rotated [OF Suc.prems(1)] show ?case by auto
qed

text \<open>The visit in round \<open>k\<close> to position \<open>i\<close>, and the bound of the source's comment.\<close>

lemma visit_ok_round:
  assumes "i < length (dq_queues q)" "dq_queues q ! i = (t, r # tail)" "1 \<le> k"
    "rq_estimated_tokens r \<le> deficit q t + int k * dq_quantum q"
  shows "visit_ok q (i + (k - 1) * length (dq_queues q))"
proof -
  let ?n = "length (dq_queues q)"
  have "?n \<noteq> 0" using assms(1) by auto
  with assms(1) have "(i + (k - 1) * ?n) mod ?n = i" "(i + (k - 1) * ?n) div ?n = k - 1"
    by (simp_all add: div_mult_self3)
  with assms show ?thesis by (simp add: visit_ok_def visit_head_def of_nat_diff)
qed

lemma deficit_nonneg: "drr_wf q \<Longrightarrow> 0 \<le> deficit q t"
  using list_all_map_ofD [OF drr_wfD(7)] by (fastforce simp: deficit_def split: option.splits)

lemma some_visit_ok:
  assumes "drr_wf q" "dq_queues q \<noteq> []"
  shows "\<exists>m. visit_ok q m"
proof -
  from assms(2) obtain t tq rest where q: "dq_queues q = (t, tq) # rest"
    by (cases "dq_queues q") auto
  from drr_wf_front [OF assms(1) q] obtain r tail where f: "tq = r # tail" by metis
  let ?k = "Suc (nat (rq_estimated_tokens r))"
  have "rq_estimated_tokens r \<le> int ?k * 1" by simp
  also have "\<dots> \<le> int ?k * dq_quantum q"
    using drr_wfD(6) [OF assms(1)] by (intro mult_left_mono) auto
  also have "\<dots> \<le> deficit q t + int ?k * dq_quantum q" using deficit_nonneg [OF assms(1)] by simp
  finally have "visit_ok q (0 + (?k - 1) * length (dq_queues q))"
    using q f by (intro visit_ok_round) auto
  then show ?thesis ..
qed

lemma size_pos:
  assumes "drr_wf q"
  shows "dq_queues q \<noteq> [] \<longleftrightarrow> 0 < dq_size q" "0 \<le> dq_size q"
proof -
  have nonneg: "0 \<le> (\<Sum>tq\<leftarrow>vals d. int (length tq))" for d :: "(string, request list) dict"
    by (induction d) auto
  then show "0 \<le> dq_size q" using drr_wfD(5) [OF assms] by simp
  have "0 < int (length (snd e)) + (\<Sum>tq\<leftarrow>vals d. int (length tq))"
    if "queue_entry_ok e" for e and d :: "(string, request list) dict"
    using that nonneg [of d] by (intro add_pos_nonneg) (auto simp: queue_entry_ok_def)
  then have "0 < (\<Sum>tq\<leftarrow>vals d. int (length tq))" if "list_all queue_entry_ok d" "d \<noteq> []" for d
    using that by (cases d) auto
  then show "dq_queues q \<noteq> [] \<longleftrightarrow> 0 < dq_size q"
    using drr_wfD(4,5) [OF assms] by (cases "dq_queues q = []") auto
qed

lemma drr_pop_visit:
  assumes "drr_wf q" "dq_queues q \<noteq> []" "visit_ok q m" "\<forall>j < m. \<not> visit_ok q j"
  shows "\<exists>q'. drr_pop q = Some (q', Inr (Some (visit_head q m))) \<and> served q (visit_head q m) q'"
  using pop_iter_first [OF assms] size_pos(1) [OF assms(1)] assms(2)
  by (auto simp: drr_pop_def simp del: pop_iter.simps dest!: pop_iter_loop)

lemma drr_pop_serves:
  assumes "drr_wf q" "dq_queues q \<noteq> []"
  shows "\<exists>q' r. drr_pop q = Some (q', Inr (Some r)) \<and> served q r q'"
proof -
  obtain m where "visit_ok q m" "\<forall>j < m. \<not> visit_ok q j"
    using some_visit_ok [OF assms] by (metis LeastI not_less_Least)
  then show ?thesis using drr_pop_visit [OF assms] by blast
qed

lemma drr_pop_none:
  assumes "drr_wf q" "dq_queues q = []"
  shows "drr_pop q = Some (q, Inr None)"
  using size_pos [OF assms(1)] assms(2) by (simp add: drr_pop_def)

section \<open>remove and drain\<close>

lemma remove_scan_SomeD:
  "remove_scan rid d = Some (t, r) \<Longrightarrow>
     \<exists>tq. (t, tq) \<in> set d \<and> r \<in> set tq \<and> rq_id r = rid"
proof (induction d)
  case (Cons e d)
  obtain a b where "e = (a, b)" by (cases e)
  with Cons show ?case
    by (cases "find (\<lambda>r. rq_id r = rid) b") (force dest: find_SomeD)+
qed simp

lemma remove_scan_None:
  "remove_scan rid d = None \<longleftrightarrow> (\<forall>e \<in> set d. \<forall>r \<in> set (snd e). rq_id r \<noteq> rid)"
  by (induction d) (auto simp: find_None_iff split: option.splits)

lemma tenant_view_mem:
  assumes "drr_wf q" "(t, tq) \<in> set (dq_queues q)"
  shows "tenant_view q t = tq"
  using assms by (auto simp: tenant_view_def drr_wf_def)

lemma drr_remove_none:
  assumes "drr_wf q" "drr_remove q rid = (q', None)"
  shows "q' = q" "r \<in> set (tenant_view q t) \<Longrightarrow> rq_id r \<noteq> rid"
proof -
  from assms(2) have n: "remove_scan rid (dq_queues q) = None" "q' = q"
    by (auto simp: drr_remove_def Let_def split: option.splits)
  then show "q' = q" by simp
  assume "r \<in> set (tenant_view q t)"
  then obtain tq where "map_of (dq_queues q) t = Some tq" "r \<in> set tq"
    by (cases "map_of (dq_queues q) t") (auto simp: tenant_view_def)
  with n(1) show "rq_id r \<noteq> rid" by (fastforce simp: remove_scan_None dest: map_of_SomeD)
qed

lemma drr_remove_some:
  assumes "drr_wf q" "drr_remove q rid = (q', Some r)"
  shows "drr_wf q' \<and> rq_id r = rid \<and> r \<in> set (tenant_view q (rq_tenant_id r)) \<and>
    (\<forall>t. tenant_view q' t =
      (if t = rq_tenant_id r then remove1 r (tenant_view q t) else tenant_view q t))"
proof -
  from assms(2) obtain t where scan: "remove_scan rid (dq_queues q) = Some (t, r)"
    by (auto simp: drr_remove_def Let_def split: option.splits)
  from remove_scan_SomeD [OF this] obtain tq where
    tq: "(t, tq) \<in> set (dq_queues q)" "r \<in> set tq" "rq_id r = rid" by blast
  note wf = drr_wfD [OF assms(1)]
  have t: "tenant_view q t = tq" "rq_tenant_id r = t"
    using tq tenant_view_mem [OF assms(1) tq(1)] tenant_view_tenant [OF assms(1)] by auto
  have present: "t \<in> fst ` set (dq_queues q)" using tq(1) by force
  have upd: "fst ` set (AList.update t v (dq_queues q)) = fst ` set (dq_queues q)" for v
    using keys_update_present [OF present, of v] by (metis set_map)
  have len: "int (length (remove1 r tq)) = int (length tq) - 1"
    using length_pos_if_in_set [OF tq(2)] tq(2) by (simp add: length_remove1 of_nat_diff Suc_le_eq)
  have ok: "queue_entry_ok (t, remove1 r tq)" if "remove1 r tq \<noteq> []"
    using that tenant_view_tenant [OF assms(1), of _ t] t(1) set_remove1_subset [of r tq]
    by (auto simp: queue_entry_ok_def)
  show ?thesis
  proof (cases "remove1 r tq = []")
    case True
    then have one: "int (length tq) = 1" using len by simp
    have q': "q' = q\<lparr>dq_size := dq_size q - 1, dq_queues := AList.delete t (dq_queues q),
        dq_deficits := AList.delete t (dq_deficits q)\<rparr>"
      using assms(2) scan t True by (simp add: drr_remove_def Let_def)
    have "drr_wf q'"
      unfolding q' using wf tq(1) one
      by (intro drr_wfI) (auto simp: distinct_delete set_keys_delete sum_delete_vals
        intro: list_all_delete)
    with q' True t tq show ?thesis by (auto simp: tenant_view_def map_of_delete)
  next
    case False
    have q': "q' = q\<lparr>dq_size := dq_size q - 1,
        dq_queues := AList.update t (remove1 r tq) (dq_queues q)\<rparr>"
      using assms(2) scan t False by (simp add: drr_remove_def Let_def)
    have "drr_wf q'"
      unfolding q' using wf tq(1) upd len ok [OF False]
      by (intro drr_wfI) (auto simp: distinct_update sum_update_vals intro: list_all_update)
    with q' t tq show ?thesis by (auto simp: tenant_view_def map_of_update)
  qed
qed

lemma drr_drain_spec:
  assumes "drr_wf q"
  shows "drr_wf (fst (drr_drain q))" "tenant_view (fst (drr_drain q)) t = []"
    "snd (drr_drain q) = concat (map (tenant_view q) (keys (dq_queues q)))"
proof -
  have "map (tenant_view q) (keys (dq_queues q)) = vals (dq_queues q)"
    using tenant_view_mem [OF assms] by (auto intro: map_cong)
  then show "snd (drr_drain q) = concat (map (tenant_view q) (keys (dq_queues q)))"
    by (simp add: drr_drain_def del: map_map)
  show "drr_wf (fst (drr_drain q))" "tenant_view (fst (drr_drain q)) t = []"
    using drr_wfD(6) [OF assms] by (simp_all add: drr_drain_def drr_wf_def tenant_view_def)
qed

section \<open>What the scheduler relies on\<close>

text \<open>
  A tenant queue promises, over the requests each tenant has waiting: \<open>put\<close> appends or refuses
  and changes nothing, \<open>pop\<close> returns and takes the oldest request of some tenant unless nothing
  waits, \<open>remove\<close> takes exactly the request with the id.
\<close>

locale tenant_queue =
  fixes inv :: "'q \<Rightarrow> bool"
    and view :: "'q \<Rightarrow> string \<Rightarrow> request list"
    and put :: "'q \<Rightarrow> request \<Rightarrow> 'q \<times> (exn + unit)"
    and pop :: "'q \<Rightarrow> ('q \<times> (exn + request option)) option"
    and remove :: "'q \<Rightarrow> string \<Rightarrow> 'q \<times> request option"
  assumes put_full: "inv q \<Longrightarrow> put q r = (q', Inl e) \<Longrightarrow> q' = q"
    and put_ok: "inv q \<Longrightarrow> put q r = (q', Inr u) \<Longrightarrow> inv q' \<and>
      (\<forall>t. view q' t = view q t @ (if t = rq_tenant_id r then [r] else []))"
    and pop_total: "inv q \<Longrightarrow> \<exists>q' res. pop q = Some (q', Inr res)"
    and pop_some: "inv q \<Longrightarrow> pop q = Some (q', Inr (Some r)) \<Longrightarrow> inv q' \<and>
      (\<forall>t. view q t = (if t = rq_tenant_id r then [r] else []) @ view q' t)"
    and pop_none: "inv q \<Longrightarrow> pop q = Some (q', Inr None) \<Longrightarrow> q' = q \<and> (\<forall>t. view q t = [])"
    and remove_none: "inv q \<Longrightarrow> remove q rid = (q', None) \<Longrightarrow>
      q' = q \<and> (\<forall>t. \<forall>r \<in> set (view q t). rq_id r \<noteq> rid)"
    and remove_some: "inv q \<Longrightarrow> remove q rid = (q', Some r) \<Longrightarrow> inv q' \<and> rq_id r = rid \<and>
      r \<in> set (view q (rq_tenant_id r)) \<and>
      (\<forall>t. view q' t = (if t = rq_tenant_id r then remove1 r (view q t) else view q t))"

text \<open>A client's sequence of calls and what they answer.\<close>

datatype queue_op = Put request | Pop | Remove string

datatype queue_event =
    Accepted request
  | Refused request
  | Popped request
  | Removed request
  | Nothing

fun run_queue ::
  "('q \<Rightarrow> request \<Rightarrow> 'q \<times> (exn + unit)) \<Rightarrow> ('q \<Rightarrow> ('q \<times> (exn + request option)) option)
   \<Rightarrow> ('q \<Rightarrow> string \<Rightarrow> 'q \<times> request option) \<Rightarrow> queue_op list \<Rightarrow> 'q
   \<Rightarrow> ('q \<times> queue_event list) option" where
  "run_queue put pop remove [] q = Some (q, [])"
| "run_queue put pop remove (Put r # ops) q =
     (case put q r of
        (q', Inl _) \<Rightarrow> map_option (apsnd ((#) (Refused r))) (run_queue put pop remove ops q')
      | (q', Inr _) \<Rightarrow> map_option (apsnd ((#) (Accepted r))) (run_queue put pop remove ops q'))"
| "run_queue put pop remove (Pop # ops) q =
     (case pop q of
        Some (q', Inr (Some r)) \<Rightarrow>
          map_option (apsnd ((#) (Popped r))) (run_queue put pop remove ops q')
      | Some (q', Inr None) \<Rightarrow> map_option (apsnd ((#) Nothing)) (run_queue put pop remove ops q')
      | _ \<Rightarrow> None)"
| "run_queue put pop remove (Remove rid # ops) q =
     (case remove q rid of
        (q', Some r) \<Rightarrow> map_option (apsnd ((#) (Removed r))) (run_queue put pop remove ops q')
      | (q', None) \<Rightarrow> map_option (apsnd ((#) Nothing)) (run_queue put pop remove ops q'))"

fun accepted_of :: "string \<Rightarrow> queue_event list \<Rightarrow> request list" where
  "accepted_of t [] = []"
| "accepted_of t (Accepted r # es) =
     (if rq_tenant_id r = t then r # accepted_of t es else accepted_of t es)"
| "accepted_of t (_ # es) = accepted_of t es"

fun popped_of :: "string \<Rightarrow> queue_event list \<Rightarrow> request list" where
  "popped_of t [] = []"
| "popped_of t (Popped r # es) =
     (if rq_tenant_id r = t then r # popped_of t es else popped_of t es)"
| "popped_of t (_ # es) = popped_of t es"

fun removed_of :: "string \<Rightarrow> queue_event list \<Rightarrow> request list" where
  "removed_of t [] = []"
| "removed_of t (Removed r # es) =
     (if rq_tenant_id r = t then r # removed_of t es else removed_of t es)"
| "removed_of t (_ # es) = removed_of t es"

context tenant_queue
begin

definition account_ok :: "'q \<Rightarrow> 'q \<Rightarrow> queue_event list \<Rightarrow> bool" where
  "account_ok q q' es \<longleftrightarrow> (\<forall>t.
     subseq (popped_of t es @ view q' t) (view q t @ accepted_of t es) \<and>
     mset (view q t) + mset (accepted_of t es)
       = mset (popped_of t es) + mset (removed_of t es) + mset (view q' t))"

lemma account_put:
  assumes "\<forall>t. view q1 t = view q t @ (if t = rq_tenant_id r then [r] else [])"
    "account_ok q1 q' es"
  shows "account_ok q q' (Accepted r # es)"
  using assms by (auto simp: account_ok_def split: if_splits)

lemma account_pop:
  assumes "\<forall>t. view q t = (if t = rq_tenant_id r then [r] else []) @ view q1 t"
    "account_ok q1 q' es"
  shows "account_ok q q' (Popped r # es)"
  using assms by (auto simp: account_ok_def split: if_splits)

lemma subseq_remove1_append:
  "subseq xs (remove1 r ys @ zs) \<Longrightarrow> subseq xs (ys @ zs)"
proof (rule subseq_order.trans)
  show "subseq (remove1 r ys @ zs) (ys @ zs)" by (induction ys) auto
qed

lemma account_remove:
  assumes "\<forall>t. view q1 t = (if t = rq_tenant_id r then remove1 r (view q t) else view q t)"
    "r \<in> set (view q (rq_tenant_id r))" "account_ok q1 q' es"
  shows "account_ok q q' (Removed r # es)"
  unfolding account_ok_def
proof (intro allI)
  fix t
  have "mset (view q t) = mset (view q1 t) + (if t = rq_tenant_id r then {#r#} else {#})"
    using assms(1,2) by (auto simp: in_multiset_in_set)
  moreover have "subseq (popped_of t es @ view q' t) (view q t @ accepted_of t es)"
    using assms(1,3) by (auto simp: account_ok_def intro: subseq_remove1_append split: if_splits)
  ultimately show "subseq (popped_of t (Removed r # es) @ view q' t)
      (view q t @ accepted_of t (Removed r # es)) \<and>
    mset (view q t) + mset (accepted_of t (Removed r # es))
      = mset (popped_of t (Removed r # es)) + mset (removed_of t (Removed r # es))
        + mset (view q' t)"
    using assms(3) by (auto simp: account_ok_def)
qed

lemma run_queue_account:
  "inv q \<Longrightarrow> \<exists>q' es. run_queue put pop remove ops q = Some (q', es) \<and> inv q' \<and> account_ok q q' es"
proof (induction ops arbitrary: q)
  case Nil
  then show ?case by (simp add: account_ok_def)
next
  case (Cons oper ops)
  show ?case
  proof (cases oper)
    case (Put r)
    obtain q1 res where p: "put q r = (q1, res)" by (cases "put q r")
    show ?thesis
    proof (cases res)
      case (Inl e)
      with p put_full [OF Cons.prems] have "put q r = (q, Inl e)" by auto
      with Cons.IH [OF Cons.prems] Put show ?thesis by (auto simp: account_ok_def)
    next
      case (Inr u)
      with p put_ok [OF Cons.prems] have s: "inv q1"
        "\<forall>t. view q1 t = view q t @ (if t = rq_tenant_id r then [r] else [])" by blast+
      from Cons.IH [OF s(1)] obtain q' es where
        "run_queue put pop remove ops q1 = Some (q', es)" "inv q'" "account_ok q1 q' es" by blast
      with account_put [OF s(2)] p Inr Put show ?thesis by auto
    qed
  next
    case Pop
    obtain q1 res where p: "pop q = Some (q1, Inr res)" using pop_total [OF Cons.prems] by blast
    show ?thesis
    proof (cases res)
      case None
      with p pop_none [OF Cons.prems] have "pop q = Some (q, Inr None)" by auto
      with Cons.IH [OF Cons.prems] Pop show ?thesis by (auto simp: account_ok_def)
    next
      case (Some r)
      with p pop_some [OF Cons.prems] have s: "inv q1"
        "\<forall>t. view q t = (if t = rq_tenant_id r then [r] else []) @ view q1 t" by blast+
      from Cons.IH [OF s(1)] obtain q' es where
        "run_queue put pop remove ops q1 = Some (q', es)" "inv q'" "account_ok q1 q' es" by blast
      with account_pop [OF s(2)] p Some Pop show ?thesis by auto
    qed
  next
    case (Remove rid)
    obtain q1 res where p: "remove q rid = (q1, res)" by (cases "remove q rid")
    show ?thesis
    proof (cases res)
      case None
      with p remove_none [OF Cons.prems] have "remove q rid = (q, None)" by auto
      with Cons.IH [OF Cons.prems] Remove show ?thesis by (auto simp: account_ok_def)
    next
      case (Some r)
      with p remove_some [OF Cons.prems] have s: "inv q1" "r \<in> set (view q (rq_tenant_id r))"
        "\<forall>t. view q1 t = (if t = rq_tenant_id r then remove1 r (view q t) else view q t)" by blast+
      from Cons.IH [OF s(1)] obtain q' es where
        "run_queue put pop remove ops q1 = Some (q', es)" "inv q'" "account_ok q1 q' es" by blast
      with account_remove [OF s(3,2)] p Some Remove show ?thesis by auto
    qed
  qed
qed

end

lemma drr_put_view:
  assumes "drr_wf q" "drr_put q r = (q', Inr u)"
  shows "tenant_view q' t = tenant_view q t @ (if t = rq_tenant_id r then [r] else [])"
proof -
  from assms(2) have "\<not> (at_capacity (dq_total_capacity q) (dq_size q)
    \<or> at_capacity (dq_tenant_capacity q) (int (length (tenant_view q (rq_tenant_id r)))))"
    by (auto simp: drr_put_def Let_def split: if_splits)
  with assms(2) have q': "q' = q\<lparr>
      dq_queues := AList.update (rq_tenant_id r) (tenant_view q (rq_tenant_id r) @ [r]) (dq_queues q),
      dq_deficits := setdefault (rq_tenant_id r) 0 (dq_deficits q), dq_size := dq_size q + 1\<rparr>"
    by (simp add: drr_put_ok put_queues [OF assms(1)])
  show ?thesis
    unfolding q' tenant_view_def by (simp add: map_of_update)
qed

lemma drr_put_error:
  assumes "drr_wf q" "drr_put q r = (q', Inl e)"
  shows "q' = q"
proof -
  from assms(2) have "at_capacity (dq_total_capacity q) (dq_size q)
    \<or> at_capacity (dq_tenant_capacity q) (int (length (tenant_view q (rq_tenant_id r))))"
    by (auto simp: drr_put_def Let_def split: if_splits)
  from drr_put_full [OF assms(1) this] assms(2) show ?thesis by simp
qed

lemma drr_pop_total:
  assumes "drr_wf q"
  shows "\<exists>q' res. drr_pop q = Some (q', Inr res)"
  using drr_pop_serves [OF assms] drr_pop_none [OF assms] by (cases "dq_queues q = []") blast+

lemma drr_pop_some:
  assumes "drr_wf q" "drr_pop q = Some (q', Inr (Some r))"
  shows "served q r q'"
  using drr_pop_serves [OF assms(1)] drr_pop_none [OF assms(1)] assms(2)
  by (cases "dq_queues q = []") auto

lemma drr_pop_empty:
  assumes "drr_wf q" "drr_pop q = Some (q', Inr None)"
  shows "q' = q \<and> (\<forall>t. tenant_view q t = [])"
  using drr_pop_serves [OF assms(1)] drr_pop_none [OF assms(1)] assms(2)
  by (cases "dq_queues q = []") auto

interpretation drrq: tenant_queue drr_wf tenant_view drr_put drr_pop drr_remove
proof
  fix q q' r u
  assume "drr_wf q" "drr_put q r = (q', Inr u)"
  with drr_put_wf [of q r] drr_put_view [of q r q' u]
  show "drr_wf q' \<and> (\<forall>t. tenant_view q' t =
      tenant_view q t @ (if t = rq_tenant_id r then [r] else []))" by simp
next
  fix q q' r
  assume "drr_wf q" "drr_pop q = Some (q', Inr (Some r))"
  with drr_pop_some [of q q' r] show "drr_wf q' \<and> (\<forall>t. tenant_view q t =
      (if t = rq_tenant_id r then [r] else []) @ tenant_view q' t)" by (simp add: served_def)
next
  fix q q' r e
  assume "drr_wf q" "drr_put q r = (q', Inl e)"
  then show "q' = q" by (rule drr_put_error)
next
  fix q
  assume "drr_wf q"
  then show "\<exists>q' res. drr_pop q = Some (q', Inr res)" by (rule drr_pop_total)
next
  fix q q'
  assume "drr_wf q" "drr_pop q = Some (q', Inr None)"
  then show "q' = q \<and> (\<forall>t. tenant_view q t = [])" by (rule drr_pop_empty)
next
  fix q rid q'
  assume "drr_wf q" "drr_remove q rid = (q', None)"
  then show "q' = q \<and> (\<forall>t. \<forall>r \<in> set (tenant_view q t). rq_id r \<noteq> rid)"
    using drr_remove_none by blast
next
  fix q rid q' r
  assume "drr_wf q" "drr_remove q rid = (q', Some r)"
  then show "drr_wf q' \<and> rq_id r = rid \<and> r \<in> set (tenant_view q (rq_tenant_id r)) \<and>
    (\<forall>t. tenant_view q' t =
      (if t = rq_tenant_id r then remove1 r (tenant_view q t) else tenant_view q t))"
    by (rule drr_remove_some)
qed

section \<open>Properties\<close>

definition demo_request :: "string \<Rightarrow> string \<Rightarrow> int \<Rightarrow> request" where
  "demo_request rid t cost =
     \<lparr>rq_id = rid, rq_model_id = ''m'', rq_tenant_id = t, rq_estimated_tokens = cost,
      rq_payload = [], rq_reservation_id = rid, rq_is_stream = False, rq_enqueued_at = 0,
      rq_assignment = None\<rparr>"

definition demo_queue :: drr where
  "demo_queue =
     \<lparr>dq_total_capacity = Some 2, dq_tenant_capacity = Some 1, dq_quantum = 4096,
      dq_queues = [(''a'', [demo_request ''r1'' ''a'' 5000]),
                   (''b'', [demo_request ''r2'' ''b'' 100])],
      dq_deficits = [(''a'', 0), (''b'', 0)], dq_size = 2\<rparr>"

lemma demo_queue_wf: "drr_wf demo_queue"
  by (simp add: drr_wf_def demo_queue_def demo_request_def queue_entry_ok_def)

text \<open>
  C2: whatever sequence of \<open>put\<close>, \<open>pop\<close> and \<open>remove\<close> calls is made, every call returns, and for
  each tenant the accepted requests are exactly those popped, removed or still waiting, each once,
  and the popped ones followed by the waiting ones keep the order in which they were put.
\<close>

theorem queue_conserves_in_order:
  assumes "drr_wf q"
  shows "\<exists>q' es. run_queue drr_put drr_pop drr_remove ops q = Some (q', es) \<and> drr_wf q' \<and>
    (\<forall>t. subseq (popped_of t es @ tenant_view q' t) (tenant_view q t @ accepted_of t es) \<and>
         mset (tenant_view q t) + mset (accepted_of t es)
           = mset (popped_of t es) + mset (removed_of t es) + mset (tenant_view q' t))"
  using drrq.run_queue_account [OF assms, of ops] by (simp add: drrq.account_ok_def)

lemma queue_conserves_in_order_witness:
  "\<exists>q' es. run_queue drr_put drr_pop drr_remove
      [Pop, Put (demo_request ''r3'' ''b'' 9), Remove ''r1'', Pop] demo_queue = Some (q', es) \<and>
    drr_wf q' \<and> mset (tenant_view demo_queue ''a'') + mset (accepted_of ''a'' es)
      = mset (popped_of ''a'' es) + mset (removed_of ''a'' es) + mset (tenant_view q' ''a'')"
  using queue_conserves_in_order [OF demo_queue_wf] by blast

text \<open>
  C23: \<open>pop\<close> serves in deficit order. Numbering the visits of the rotation (visit \<open>m\<close> goes to the
  tenant at position \<open>m mod n\<close>, whose credit is then its deficit plus \<open>m div n + 1\<close> quanta), the
  request returned is the head of the queue of the first visit at which that head is affordable,
  and exactly that request leaves the queue.
\<close>

theorem pop_serves_first_affordable:
  assumes "drr_wf q" "dq_queues q \<noteq> []" "visit_ok q m" "\<forall>j < m. \<not> visit_ok q j"
  shows "\<exists>q'. drr_pop q = Some (q', Inr (Some (visit_head q m))) \<and> drr_wf q' \<and>
    dq_size q' = dq_size q - 1 \<and>
    mset (concat (vals (dq_queues q)))
      = add_mset (visit_head q m) (mset (concat (vals (dq_queues q'))))"
  using drr_pop_visit [OF assms] by (auto simp: served_def)

lemma pop_serves_first_affordable_witness:
  "\<exists>q'. drr_pop demo_queue = Some (q', Inr (Some (demo_request ''r2'' ''b'' 100)))"
proof -
  have "visit_head demo_queue (Suc 0) = demo_request ''r2'' ''b'' 100"
    by (simp add: visit_head_def demo_queue_def)
  moreover have "visit_ok demo_queue (Suc 0)" "\<forall>j < Suc 0. \<not> visit_ok demo_queue j"
    by (simp_all add: visit_ok_def visit_head_def demo_queue_def demo_request_def deficit_def)
  moreover have "dq_queues demo_queue \<noteq> []" by (simp add: demo_queue_def)
  ultimately show ?thesis using pop_serves_first_affordable [OF demo_queue_wf] by metis
qed

text \<open>
  The bound of the comment in \<open>pop\<close>: if the head request of the tenant at position \<open>i\<close> of
  \<open>n\<close> is covered by its deficit plus \<open>k\<close> quanta, the loop returns a request within
  \<open>(k - 1) * n + i + 1\<close> iterations; so \<open>pop\<close> always terminates.
\<close>

theorem pop_within_rounds:
  assumes "drr_wf q" "i < length (dq_queues q)" "dq_queues q ! i = (t, r # tail)" "1 \<le> k"
    "rq_estimated_tokens r \<le> deficit q t + int k * dq_quantum q"
  shows "\<exists>m q' r'. m \<le> (k - 1) * length (dq_queues q) + i + 1 \<and>
    pop_iter m q = Some (q', Inr (Some r')) \<and> drr_pop q = Some (q', Inr (Some r'))"
proof -
  from assms(2) have ne: "dq_queues q \<noteq> []" by auto
  let ?v = "i + (k - 1) * length (dq_queues q)"
  obtain m where m: "visit_ok q m" "\<forall>j < m. \<not> visit_ok q j" "m \<le> ?v"
    using visit_ok_round [OF assms(2-5)] by (metis LeastI Least_le not_less_Least)
  obtain q' where "pop_iter (Suc m) q = Some (q', Inr (Some (visit_head q m)))"
    using pop_iter_first [OF assms(1) ne m(1,2)] by blast
  with pop_iter_loop [OF this] size_pos(1) [OF assms(1)] ne m(3) show ?thesis
    by (intro exI [of _ "Suc m"]) (auto simp: drr_pop_def)
qed

lemma pop_within_rounds_witness:
  "\<exists>m q' r'. m \<le> 3 \<and> pop_iter m demo_queue = Some (q', Inr (Some r'))"
proof -
  have "length (dq_queues demo_queue) = 2" "dq_queues demo_queue ! 0
      = (''a'', [demo_request ''r1'' ''a'' 5000])"
    "rq_estimated_tokens (demo_request ''r1'' ''a'' 5000)
      \<le> deficit demo_queue ''a'' + int 2 * dq_quantum demo_queue"
    by (simp_all add: demo_queue_def demo_request_def deficit_def)
  with pop_within_rounds [OF demo_queue_wf, of 0 "''a''" "demo_request ''r1'' ''a'' 5000" "[]" 2]
  show ?thesis by auto
qed

text \<open>
  The capacities bound the queue. A request is refused with \<open>queue_full\<close> exactly when the
  queue has reached its total capacity or the tenant its own; a refusal changes nothing, and the
  queue stays within both bounds.
\<close>

definition within_capacity :: "drr \<Rightarrow> bool" where
  "within_capacity q \<longleftrightarrow>
     (\<forall>c. dq_total_capacity q = Some c \<longrightarrow> dq_size q \<le> c) \<and>
     (\<forall>c t. dq_tenant_capacity q = Some c \<longrightarrow> int (length (tenant_view q t)) \<le> max 0 c)"

theorem put_within_capacity:
  assumes "drr_wf q" "within_capacity q" "drr_put q r = (q', res)"
  shows "within_capacity q' \<and> drr_wf q' \<and>
    (if at_capacity (dq_total_capacity q) (dq_size q) \<or>
        at_capacity (dq_tenant_capacity q) (int (length (tenant_view q (rq_tenant_id r))))
     then res = Inl (Rio QueueFullError) \<and> q' = q
     else res = Inr () \<and> dq_size q' = dq_size q + 1)"
proof (cases "at_capacity (dq_total_capacity q) (dq_size q) \<or>
        at_capacity (dq_tenant_capacity q) (int (length (tenant_view q (rq_tenant_id r))))")
  case True
  with drr_put_full [OF assms(1) True] assms show ?thesis by auto
next
  case False
  with drr_put_ok [of q r] assms(3) have p: "res = Inr ()" "dq_size q' = dq_size q + 1"
    "dq_total_capacity q' = dq_total_capacity q" "dq_tenant_capacity q' = dq_tenant_capacity q"
    by auto
  have view: "tenant_view q' t = tenant_view q t @ (if t = rq_tenant_id r then [r] else [])" for t
    using drr_put_view [OF assms(1)] assms(3) p(1) by auto
  have "within_capacity q'"
    using assms(2) False p view
    by (auto simp: within_capacity_def at_capacity_def max_def split: if_splits)
  with drr_put_wf [OF assms(1), of r] assms(3) False p show ?thesis by auto
qed

lemma put_within_capacity_witness:
  "drr_put demo_queue (demo_request ''r4'' ''c'' 1) = (demo_queue, Inl (Rio QueueFullError))"
proof -
  obtain q' res where p: "drr_put demo_queue (demo_request ''r4'' ''c'' 1) = (q', res)"
    by (cases "drr_put demo_queue (demo_request ''r4'' ''c'' 1)")
  have "within_capacity demo_queue"
    by (simp add: within_capacity_def demo_queue_def demo_request_def tenant_view_def)
  from put_within_capacity [OF demo_queue_wf this p] p show ?thesis
    by (simp add: demo_queue_def at_capacity_def)
qed

end
