(* ===== verification/PlannerFits.thy ===== *)
theory PlannerFits
  imports Domain
begin

text \<open>
  \<^verbatim>\<open>src/src/llm_rio/planner.py\<close>, first part: the planner's configuration, its pressures and
  actions, and the tests that decide whether a profile fits on a set of GPUs beside the workers
  already there: \<open>_cached_prism_fits\<close> (weight cache: sleeping workers keep a reserve),
  \<open>_prism_fits\<close> (resident engines only) and the two small guards \<open>_residency_satisfied\<close> and
  \<open>_replica_has_useful_margin\<close>.

  The sets of GPUs, of prospective sleepers and of pressured models are sets; workers, pressures
  and profiles are the lists the code passes. \<open>vram_safe\<close> is the specification the tests are
  measured against: the load of one GPU, computed from the workers alone.
\<close>

section \<open>Pressures, actions, configuration\<close>

record queue_pressure =
  qp_model_id :: string
  qp_requests :: int
  qp_estimated_tokens :: int
  qp_oldest_enqueued_at :: datetime
  qp_preload :: bool
  qp_desired_workers :: int

datatype planner_action =
    StartPlacement placement_profile "string list" string
  | DrainPlacement string string
  | SleepPlacement string string
  | WakePlacement string string

record planner_cfg =
  pc_wait_duration :: rat
  pc_minimum_residency :: rat
  pc_fair_share :: rat
  pc_scale_window :: rat
  pc_minimum_marginal :: rat
  pc_prism_enabled :: bool
  pc_gpu_vram_mib :: "(string, int) dict"
  pc_reserved_vram_mib :: int
  pc_max_workers_per_gpu :: int
  pc_max_cached_per_gpu :: int
  pc_sleep_reserve_mib :: int
  pc_idle_sleep :: rat
  pc_weight_cache_enabled :: bool

definition residency_satisfied :: "planner_cfg \<Rightarrow> worker \<Rightarrow> datetime \<Rightarrow> bool" where
  "residency_satisfied cfg w now \<longleftrightarrow>
     (if pc_minimum_residency cfg = 0 then True
      else case wk_ready_at w of
        None \<Rightarrow> False
      | Some t \<Rightarrow> total_seconds (now - t) \<ge> pc_minimum_residency cfg)"

definition throughput :: "worker list \<Rightarrow> rat" where
  "throughput ws = (\<Sum>w\<leftarrow>ws. pf_predicted_tokens_per_second (wk_profile w))"

definition replica_has_useful_margin ::
  "planner_cfg \<Rightarrow> placement_profile \<Rightarrow> worker list \<Rightarrow> bool" where
  "replica_has_useful_margin cfg p ready =
     (let current = throughput ready
      in if current \<le> 0 then True
         else pf_predicted_tokens_per_second p / current \<ge> pc_minimum_marginal cfg)"

section \<open>Footprints\<close>

definition gpu_resident_states :: "runtime_state list" where
  "gpu_resident_states = [LOADING, READY, DRAINING, OFFLOADING, WAKING, STOPPING]"

definition lengths_match :: "placement_profile \<Rightarrow> string list \<Rightarrow> bool" where
  "lengths_match p gpus \<longleftrightarrow>
     length (pf_idle_vram p) = length gpus \<and> length (pf_peak_vram p) = length gpus \<and>
     length (pf_headroom p) = length gpus"

definition index_measured :: "placement_profile \<Rightarrow> nat \<Rightarrow> bool" where
  "index_measured p i \<longleftrightarrow>
     i < length (pf_idle_vram p) \<and> i < length (pf_peak_vram p) \<and> i < length (pf_headroom p)"

definition footprint :: "placement_profile \<Rightarrow> nat \<Rightarrow> int" where
  "footprint p i = max (pf_idle_vram p ! i) (pf_peak_vram p ! i) + pf_headroom p ! i"

definition worker_footprint :: "string \<Rightarrow> worker \<Rightarrow> int" where
  "worker_footprint g w = footprint (wk_profile w) (index_of g (wk_gpu_uuids w))"

definition sleep_residual :: "planner_cfg \<Rightarrow> string \<Rightarrow> worker \<Rightarrow> int" where
  "sleep_residual cfg g w =
     (let i = index_of g (wk_gpu_uuids w)
      in case pf_sleep_vram (wk_profile w) of
           None \<Rightarrow> pc_sleep_reserve_mib cfg
         | Some ms \<Rightarrow> if i < length ms then max (pc_sleep_reserve_mib cfg) (ms ! i)
                      else pc_sleep_reserve_mib cfg)"

definition is_kvcached :: "worker \<Rightarrow> bool" where
  "is_kvcached w \<longleftrightarrow>
     pf_engine (wk_profile w) = VLLM \<and> pf_memory_backend (wk_profile w) = ''kvcached''"

definition gpu_total :: "planner_cfg \<Rightarrow> string \<Rightarrow> int" where
  "gpu_total cfg g = (case map_of (pc_gpu_vram_mib cfg) g of None \<Rightarrow> 0 | Some v \<Rightarrow> v)"

definition min_utilization :: "placement_profile \<Rightarrow> worker list \<Rightarrow> rat" where
  "min_utilization p ws =
     Min (set (pf_gpu_memory_utilization p
       # map (\<lambda>w. pf_gpu_memory_utilization (wk_profile w)) ws))"

definition budget_mib :: "planner_cfg \<Rightarrow> placement_profile \<Rightarrow> worker list \<Rightarrow> string \<Rightarrow> int" where
  "budget_mib cfg p ws g =
     min (gpu_total cfg g - pc_reserved_vram_mib cfg)
         (floor (of_int (gpu_total cfg g) * min_utilization p ws))"

section \<open>The fit test of the weight cache\<close>

text \<open>The body of the loop over \<open>enumerate(gpu_set)\<close>: \<open>False\<close> is its \<open>return False\<close>.\<close>

definition cached_gpu_fits ::
  "planner_cfg \<Rightarrow> placement_profile \<Rightarrow> worker list \<Rightarrow> string option \<Rightarrow> string set
   \<Rightarrow> nat \<times> string \<Rightarrow> bool" where
  "cached_gpu_fits cfg p live existing prospective = (\<lambda>(i, g).
     (let colocated = [w \<leftarrow> live. g \<in> set (wk_gpu_uuids w)];
          new_processes = (if existing \<noteq> None then 0 else 1 :: int);
          active = [w \<leftarrow> colocated. Some (wk_id w) \<noteq> existing \<and> wk_id w \<notin> prospective
                      \<and> wk_state w \<in> set gpu_resident_states];
          sleeping = [w \<leftarrow> colocated. Some (wk_id w) \<noteq> existing
                      \<and> (wk_state w = SLEEPING \<or> wk_id w \<in> prospective)];
          used = (\<Sum>w\<leftarrow>active. worker_footprint g w)
                 + (\<Sum>w\<leftarrow>sleeping. sleep_residual cfg g w)
      in list_all is_kvcached colocated
         \<and> int (length colocated) + new_processes \<le> pc_max_cached_per_gpu cfg
         \<and> int (length active) + 1 \<le> pc_max_workers_per_gpu cfg
         \<and> list_all (\<lambda>w. index_measured (wk_profile w) (index_of g (wk_gpu_uuids w))) active
         \<and> used + footprint p i \<le> budget_mib cfg p colocated g))"

definition cached_prism_fits ::
  "planner_cfg \<Rightarrow> placement_profile \<Rightarrow> string list \<Rightarrow> worker list \<Rightarrow> string option
   \<Rightarrow> string set \<Rightarrow> bool" where
  "cached_prism_fits cfg p gpus ws existing prospective =
     (let live = [w \<leftarrow> ws. wk_state w \<noteq> COLD]
      in lengths_match p gpus
         \<and> \<not> list_ex (\<lambda>w. Some (wk_id w) \<noteq> existing \<and> wk_model_id w = pf_model_id p
                           \<and> wk_gpu_uuids w = gpus) live
         \<and> list_all (cached_gpu_fits cfg p live existing prospective) (enumerate 0 gpus))"

section \<open>The fit test of resident engines\<close>

definition prism_gpu_fits ::
  "planner_cfg \<Rightarrow> placement_profile \<Rightarrow> string list \<Rightarrow> worker list \<Rightarrow> string \<times> int \<Rightarrow> bool" where
  "prism_gpu_fits cfg p gpus active = (\<lambda>(g, requested).
     (let colocated = [w \<leftarrow> active. g \<in> set (wk_gpu_uuids w)];
          used = (\<Sum>w\<leftarrow>colocated. worker_footprint g w);
          i = index_of g gpus
      in \<not> int (length colocated) \<ge> pc_max_workers_per_gpu cfg
         \<and> list_all is_kvcached colocated
         \<and> list_all (\<lambda>w. index_measured (wk_profile w) (index_of g (wk_gpu_uuids w))) colocated
         \<and> max requested (pf_peak_vram p ! i) + pf_headroom p ! i + used
             \<le> budget_mib cfg p colocated g))"

definition prism_fits ::
  "planner_cfg \<Rightarrow> placement_profile \<Rightarrow> string list \<Rightarrow> worker list \<Rightarrow> bool" where
  "prism_fits cfg p gpus active \<longleftrightarrow>
     lengths_match p gpus
     \<and> \<not> list_ex (\<lambda>w. wk_model_id w = pf_model_id p \<and> wk_gpu_uuids w = gpus) active
     \<and> list_all (prism_gpu_fits cfg p gpus active) (zip gpus (pf_idle_vram p))"

section \<open>The specification: the load of one GPU\<close>

text \<open>
  Over the workers alone: a worker on the GPU holds its footprint while it is resident and its
  sleep reserve while it sleeps, nothing once it is cold.
\<close>

definition on_gpu :: "string \<Rightarrow> worker \<Rightarrow> bool" where
  "on_gpu g w \<longleftrightarrow> g \<in> set (wk_gpu_uuids w) \<and> wk_state w \<noteq> COLD"

definition worker_load :: "planner_cfg \<Rightarrow> string \<Rightarrow> worker \<Rightarrow> int" where
  "worker_load cfg g w =
     (if \<not> on_gpu g w then 0
      else if wk_state w = SLEEPING then sleep_residual cfg g w else worker_footprint g w)"

definition gpu_load :: "planner_cfg \<Rightarrow> worker list \<Rightarrow> string \<Rightarrow> int" where
  "gpu_load cfg ws g = (\<Sum>w\<leftarrow>ws. worker_load cfg g w)"

definition vram_safe :: "planner_cfg \<Rightarrow> worker list \<Rightarrow> string \<Rightarrow> bool" where
  "vram_safe cfg ws g \<longleftrightarrow>
     gpu_load cfg ws g \<le> gpu_total cfg g - pc_reserved_vram_mib cfg
     \<and> list_all (\<lambda>w. on_gpu g w \<longrightarrow>
          of_int (gpu_load cfg ws g)
            \<le> of_int (gpu_total cfg g) * pf_gpu_memory_utilization (wk_profile w)) ws
     \<and> int (length [w \<leftarrow> ws. on_gpu g w \<and> wk_state w \<noteq> SLEEPING]) \<le> pc_max_workers_per_gpu cfg
     \<and> int (length [w \<leftarrow> ws. on_gpu g w]) \<le> pc_max_cached_per_gpu cfg
     \<and> list_all (\<lambda>w. on_gpu g w \<longrightarrow> is_kvcached w) ws"

text \<open>A worker list after a start, a wake, a change of state.\<close>

definition set_states :: "string set \<Rightarrow> runtime_state \<Rightarrow> worker list \<Rightarrow> worker list" where
  "set_states ids s ws = map (\<lambda>w. if wk_id w \<in> ids then w\<lparr>wk_state := s\<rparr> else w) ws"

section \<open>What the tests say about the load\<close>

lemma resident_or_sleeping:
  "wk_state w \<in> set gpu_resident_states \<longleftrightarrow> wk_state w \<noteq> COLD \<and> wk_state w \<noteq> SLEEPING"
  by (cases "wk_state w") (simp_all add: gpu_resident_states_def)

definition cfg_ok :: "planner_cfg \<Rightarrow> bool" where
  "cfg_ok cfg \<longleftrightarrow>
     list_all (\<lambda>e. 0 \<le> snd e) (pc_gpu_vram_mib cfg) \<and> 0 \<le> pc_sleep_reserve_mib cfg"

lemma gpu_total_nonneg: "cfg_ok cfg \<Longrightarrow> 0 \<le> gpu_total cfg g"
  by (cases "map_of (pc_gpu_vram_mib cfg) g")
    (auto simp: cfg_ok_def gpu_total_def dest: list_all_map_ofD)

text \<open>The load of the workers other than \<open>existing\<close>, as the test adds it up.\<close>

lemma load_split:
  "(\<Sum>w\<leftarrow>[w \<leftarrow> ws. Some (wk_id w) \<noteq> existing]. worker_load cfg g w) =
     (\<Sum>w\<leftarrow>[w \<leftarrow> ws. on_gpu g w \<and> Some (wk_id w) \<noteq> existing \<and> wk_state w \<noteq> SLEEPING].
        worker_footprint g w)
     + (\<Sum>w\<leftarrow>[w \<leftarrow> ws. on_gpu g w \<and> Some (wk_id w) \<noteq> existing \<and> wk_state w = SLEEPING].
        sleep_residual cfg g w)"
  by (induction ws) (auto simp: worker_load_def)

lemma colocated_on_gpu:
  "[w \<leftarrow> [w \<leftarrow> ws. wk_state w \<noteq> COLD]. g \<in> set (wk_gpu_uuids w)] = [w \<leftarrow> ws. on_gpu g w]"
  by (auto simp: on_gpu_def conj_commute intro: filter_cong)

lemma index_enumerate: "g \<in> set gpus \<Longrightarrow> (index_of g gpus, g) \<in> set (enumerate 0 gpus)"
  using index_of_less [of g gpus] nth_index_of [of g gpus]
  by (auto simp: in_set_enumerate_eq)

lemma active_filter:
  "[w \<leftarrow> [w \<leftarrow> ws. on_gpu g w]. Some (wk_id w) \<noteq> existing \<and> wk_id w \<notin> {}
      \<and> wk_state w \<in> set gpu_resident_states]
   = [w \<leftarrow> ws. on_gpu g w \<and> Some (wk_id w) \<noteq> existing \<and> wk_state w \<noteq> SLEEPING]"
  by (auto simp: resident_or_sleeping on_gpu_def intro!: filter_cong)

lemma sleeping_filter:
  "[w \<leftarrow> [w \<leftarrow> ws. on_gpu g w]. Some (wk_id w) \<noteq> existing \<and> (wk_state w = SLEEPING \<or> wk_id w \<in> {})]
   = [w \<leftarrow> ws. on_gpu g w \<and> Some (wk_id w) \<noteq> existing \<and> wk_state w = SLEEPING]"
  by (auto intro!: filter_cong)

lemma cached_fits_gpu:
  assumes "cached_prism_fits cfg p gpus ws existing {}" "g \<in> set gpus"
  shows "(\<Sum>w\<leftarrow>[w \<leftarrow> ws. Some (wk_id w) \<noteq> existing]. worker_load cfg g w)
      + footprint p (index_of g gpus) \<le> budget_mib cfg p [w \<leftarrow> ws. on_gpu g w] g"
    and "list_all (\<lambda>w. on_gpu g w \<longrightarrow> is_kvcached w) ws"
    and "int (length [w \<leftarrow> ws. on_gpu g w]) + (if existing \<noteq> None then 0 else 1)
      \<le> pc_max_cached_per_gpu cfg"
    and "int (length [w \<leftarrow> ws. on_gpu g w \<and> Some (wk_id w) \<noteq> existing \<and> wk_state w \<noteq> SLEEPING]) + 1
      \<le> pc_max_workers_per_gpu cfg"
proof -
  from assms have "cached_gpu_fits cfg p [w \<leftarrow> ws. wk_state w \<noteq> COLD] existing {}
      (index_of g gpus, g)"
    using index_enumerate [OF assms(2)]
    by (auto simp: cached_prism_fits_def Let_def list_all_iff)
  note f = this [unfolded cached_gpu_fits_def split_conv Let_def colocated_on_gpu active_filter
      sleeping_filter]
  from f show "(\<Sum>w\<leftarrow>[w \<leftarrow> ws. Some (wk_id w) \<noteq> existing]. worker_load cfg g w)
      + footprint p (index_of g gpus) \<le> budget_mib cfg p [w \<leftarrow> ws. on_gpu g w] g"
    unfolding load_split by simp
  from f show "list_all (\<lambda>w. on_gpu g w \<longrightarrow> is_kvcached w) ws" by (auto simp: list_all_iff)
  from f show "int (length [w \<leftarrow> ws. on_gpu g w]) + (if existing \<noteq> None then 0 else 1)
      \<le> pc_max_cached_per_gpu cfg" by simp
  from f show "int (length [w \<leftarrow> ws. on_gpu g w \<and> Some (wk_id w) \<noteq> existing
      \<and> wk_state w \<noteq> SLEEPING]) + 1 \<le> pc_max_workers_per_gpu cfg" by simp
qed

lemma budget_le:
  assumes "load \<le> budget_mib cfg p [w \<leftarrow> ws. on_gpu g w] g" "cfg_ok cfg"
  shows "load \<le> gpu_total cfg g - pc_reserved_vram_mib cfg"
    and "of_int load \<le> of_int (gpu_total cfg g) * pf_gpu_memory_utilization p"
    and "w \<in> set ws \<Longrightarrow> on_gpu g w \<Longrightarrow>
      of_int load \<le> of_int (gpu_total cfg g) * pf_gpu_memory_utilization (wk_profile w)"
proof -
  let ?m = "min_utilization p [w \<leftarrow> ws. on_gpu g w]"
  from assms(1) show "load \<le> gpu_total cfg g - pc_reserved_vram_mib cfg"
    by (simp add: budget_mib_def)
  from assms(1) have "load \<le> floor (of_int (gpu_total cfg g) * ?m)" by (simp add: budget_mib_def)
  then have l: "of_int load \<le> of_int (gpu_total cfg g) * ?m" by (simp add: le_floor_iff)
  have total: "0 \<le> (of_int (gpu_total cfg g) :: rat)" using gpu_total_nonneg [OF assms(2)] by simp
  have "?m \<le> pf_gpu_memory_utilization p" by (simp add: min_utilization_def)
  with l total show "of_int load \<le> of_int (gpu_total cfg g) * pf_gpu_memory_utilization p"
    by (meson mult_left_mono order_trans)
  assume "w \<in> set ws" "on_gpu g w"
  then have "?m \<le> pf_gpu_memory_utilization (wk_profile w)"
    by (auto simp: min_utilization_def intro!: Min_le)
  with l total show "of_int load \<le> of_int (gpu_total cfg g) * pf_gpu_memory_utilization (wk_profile w)"
    by (meson mult_left_mono order_trans)
qed

text \<open>A start that passes the test leaves each of its GPUs within every limit.\<close>

lemma start_vram_safe:
  assumes "cached_prism_fits cfg p gpus ws None {}" "cfg_ok cfg" "g \<in> set gpus"
    "wk_profile w = p" "wk_gpu_uuids w = gpus" "wk_state w = LOADING"
    "pf_engine p = VLLM" "pf_memory_backend p = ''kvcached''"
  shows "vram_safe cfg (ws @ [w]) g"
proof -
  note f = cached_fits_gpu [OF assms(1,3), simplified]
  have w: "on_gpu g w" "worker_load cfg g w = footprint p (index_of g gpus)"
    using assms(3-6) by (simp_all add: on_gpu_def worker_load_def worker_footprint_def)
  have load: "gpu_load cfg (ws @ [w]) g \<le> budget_mib cfg p [w \<leftarrow> ws. on_gpu g w] g"
    using f(1) w by (simp add: gpu_load_def)
  note b = budget_le [OF this assms(2)]
  show ?thesis
    using b f w assms(4-8)
    by (auto simp: vram_safe_def list_all_iff is_kvcached_def)
qed

lemma start_elsewhere:
  assumes "g \<notin> set (wk_gpu_uuids w)"
  shows "vram_safe cfg (ws @ [w]) g = vram_safe cfg ws g"
  using assms by (simp add: vram_safe_def gpu_load_def worker_load_def on_gpu_def list_all_iff)

text \<open>A wake: the worker's reserve becomes its footprint.\<close>

lemma ids_split:
  assumes "w \<in> set ws" "distinct (map wk_id ws)"
  obtains l r where "ws = l @ w # r" "\<forall>x \<in> set (l @ r). wk_id x \<noteq> wk_id w"
proof -
  from split_list [OF assms(1)] obtain l r where "ws = l @ w # r" by blast
  with assms(2) show thesis by (intro that [of l r]) (auto simp: image_iff)
qed

lemma set_states_id [simp]: "\<forall>x \<in> set ws. wk_id x \<notin> ids \<Longrightarrow> set_states ids s ws = ws"
  by (simp add: set_states_def map_idI)

lemma set_states_append [simp]:
  "set_states ids s (l @ r) = set_states ids s l @ set_states ids s r"
  "set_states ids s (w # r) = (if wk_id w \<in> ids then w\<lparr>wk_state := s\<rparr> else w) # set_states ids s r"
  "set_states ids s [] = []"
  by (simp_all add: set_states_def)

lemma filter_exclude:
  "\<forall>x \<in> set ws. wk_id x \<noteq> i \<Longrightarrow>
     [x \<leftarrow> ws. P x \<and> wk_id x \<noteq> i \<and> Q x] = [x \<leftarrow> ws. P x \<and> Q x]"
  "\<forall>x \<in> set ws. wk_id x \<noteq> i \<Longrightarrow> [x \<leftarrow> ws. wk_id x \<noteq> i] = ws"
  by (auto intro!: filter_cong simp: filter_id_conv)

lemma wake_vram_safe:
  assumes "cached_prism_fits cfg (wk_profile w) (wk_gpu_uuids w) ws (Some (wk_id w)) {}"
    "cfg_ok cfg" "g \<in> set (wk_gpu_uuids w)" "w \<in> set ws" "distinct (map wk_id ws)"
    "wk_state w = SLEEPING" "s \<in> set gpu_resident_states"
  shows "vram_safe cfg (set_states {wk_id w} s ws) g"
proof -
  note f = cached_fits_gpu [OF assms(1,3), simplified]
  have s: "s \<noteq> COLD" "s \<noteq> SLEEPING" using assms(7) by (auto simp: gpu_resident_states_def)
  obtain l r where ws: "ws = l @ w # r" and ids: "\<forall>x \<in> set l. wk_id x \<noteq> wk_id w"
      "\<forall>x \<in> set r. wk_id x \<noteq> wk_id w"
    using ids_split [OF assms(4,5)] by (metis UnCI set_append)
  let ?w = "w\<lparr>wk_state := s\<rparr>"
  have set: "set_states {wk_id w} s ws = l @ ?w # r" using ids by (simp add: ws)
  have on: "on_gpu g w" "on_gpu g ?w" "is_kvcached ?w = is_kvcached w"
    using assms(3,6) s by (simp_all add: on_gpu_def is_kvcached_def)
  have "worker_load cfg g ?w = footprint (wk_profile w) (index_of g (wk_gpu_uuids w))"
    using on s by (simp add: worker_load_def worker_footprint_def)
  with f(1) have load: "gpu_load cfg (l @ ?w # r) g
      \<le> budget_mib cfg (wk_profile w) [w \<leftarrow> ws. on_gpu g w] g"
    by (simp add: ws filter_exclude ids gpu_load_def)
  note b = budget_le [OF this assms(2)]
  show ?thesis
    unfolding set using b f on s
    by (auto simp: vram_safe_def list_all_iff ws filter_exclude ids)
qed

lemma set_states_elsewhere:
  assumes "\<forall>w \<in> set ws. wk_id w \<in> ids \<longrightarrow> g \<notin> set (wk_gpu_uuids w)"
  shows "vram_safe cfg (set_states ids s ws) g = vram_safe cfg ws g"
proof -
  let ?f = "\<lambda>w. if wk_id w \<in> ids then w\<lparr>wk_state := s\<rparr> else w"
  have on: "on_gpu g (?f w) = on_gpu g w" "worker_load cfg g (?f w) = worker_load cfg g w"
    "on_gpu g w \<Longrightarrow> ?f w = w" if "w \<in> set ws" for w
    using assms that by (auto simp: on_gpu_def worker_load_def)
  have load: "gpu_load cfg (set_states ids s ws) g = gpu_load cfg ws g"
    unfolding gpu_load_def set_states_def map_map o_def using on(2)
    by (intro arg_cong [of _ _ sum_list] map_cong) auto
  have counts: "length [w \<leftarrow> set_states ids s ws. on_gpu g w \<and> P w] = length [w \<leftarrow> ws. on_gpu g w \<and> P w]"
    for P
    unfolding set_states_def filter_map o_def length_map
  proof (intro arg_cong [of _ _ length] filter_cong refl)
    fix w assume "w \<in> set ws"
    with on(1,3) show "(on_gpu g (?f w) \<and> P (?f w)) = (on_gpu g w \<and> P w)" by metis
  qed
  have all: "list_all (\<lambda>w. on_gpu g w \<longrightarrow> P w) (set_states ids s ws)
      = list_all (\<lambda>w. on_gpu g w \<longrightarrow> P w) ws" for P
    unfolding set_states_def list.pred_map o_def
  proof (rule list.pred_cong [OF refl])
    fix w assume "w \<in> set ws"
    with on(1,3) show "(on_gpu g (?f w) \<longrightarrow> P (?f w)) = (on_gpu g w \<longrightarrow> P w)" by metis
  qed
  show ?thesis
    using counts [of "\<lambda>w. True"] counts [of "\<lambda>w. wk_state w \<noteq> SLEEPING"]
    by (simp add: vram_safe_def load all)
qed

text \<open>
  Testing with prospective sleepers is testing on the list where they sleep.
\<close>

lemma prospective_sleep:
  assumes "\<forall>w \<in> set ws. wk_id w \<in> pro \<longrightarrow> wk_state w \<noteq> COLD"
  shows "cached_prism_fits cfg p gpus ws existing pro
    = cached_prism_fits cfg p gpus (set_states pro SLEEPING ws) existing {}"
proof -
  let ?f = "\<lambda>w. if wk_id w \<in> pro then w\<lparr>wk_state := SLEEPING\<rparr> else w"
  have inv: "wk_id (?f w) = wk_id w" "wk_gpu_uuids (?f w) = wk_gpu_uuids w"
    "wk_profile (?f w) = wk_profile w" "worker_footprint g (?f w) = worker_footprint g w"
    "sleep_residual cfg g (?f w) = sleep_residual cfg g w" "is_kvcached (?f w) = is_kvcached w"
    for w g
    by (simp_all add: worker_footprint_def sleep_residual_def is_kvcached_def)
  have live: "[w \<leftarrow> set_states pro SLEEPING ws. wk_state w \<noteq> COLD]
      = map ?f [w \<leftarrow> ws. wk_state w \<noteq> COLD]"
    unfolding set_states_def filter_map o_def using assms
    by (intro arg_cong [of _ _ "map ?f"] filter_cong) auto
  have states: "wk_id w \<notin> {} \<and> wk_state (?f w) \<in> set gpu_resident_states
      \<longleftrightarrow> wk_id w \<notin> pro \<and> wk_state w \<in> set gpu_resident_states"
    "wk_state (?f w) = SLEEPING \<or> wk_id w \<in> {} \<longleftrightarrow> wk_state w = SLEEPING \<or> wk_id w \<in> pro"
    for w
    by (auto simp: resident_or_sleeping)
  have ex: "list_ex P (map ?f ls) = list_ex (\<lambda>w. P (?f w)) ls" for P ls
    by (induction ls) simp_all
  have gpu: "cached_gpu_fits cfg p (map ?f ls) existing {} e = cached_gpu_fits cfg p ls existing pro e"
    for ls e
  proof (cases e)
    case (Pair i g)
    show ?thesis
      unfolding Pair cached_gpu_fits_def split_conv Let_def
      by (simp only: filter_map o_def map_map length_map list.pred_map inv states budget_mib_def
          min_utilization_def)
  qed
  show ?thesis
    unfolding cached_prism_fits_def Let_def live gpu ex by (simp only: inv wk_model_id_def)
qed

lemma prism_fits_gpu:
  assumes "prism_fits cfg p gpus ws" "g \<in> set gpus"
    "\<forall>w \<in> set ws. wk_state w \<noteq> COLD \<and> wk_state w \<noteq> SLEEPING"
  shows "gpu_load cfg ws g + footprint p (index_of g gpus) \<le> budget_mib cfg p [w \<leftarrow> ws. on_gpu g w] g"
    and "list_all (\<lambda>w. on_gpu g w \<longrightarrow> is_kvcached w) ws"
    and "int (length [w \<leftarrow> ws. on_gpu g w]) + 1 \<le> pc_max_workers_per_gpu cfg"
proof -
  let ?i = "index_of g gpus"
  have "length (pf_idle_vram p) = length gpus" using assms(1)
    by (simp add: prism_fits_def lengths_match_def)
  then have "(g, pf_idle_vram p ! ?i) \<in> set (zip gpus (pf_idle_vram p))"
    using index_of_less [OF assms(2)] nth_index_of [OF assms(2)]
    by (auto simp: set_zip intro!: exI [of _ ?i])
  with assms(1) have fit: "prism_gpu_fits cfg p gpus ws (g, pf_idle_vram p ! ?i)"
    unfolding prism_fits_def list_all_iff by blast
  have on: "[w \<leftarrow> ws. g \<in> set (wk_gpu_uuids w)] = [w \<leftarrow> ws. on_gpu g w]"
    using assms(3) by (auto simp: on_gpu_def intro: filter_cong)
  note f = fit [unfolded prism_gpu_fits_def split_conv Let_def on]
  have "gpu_load cfg ws g = (\<Sum>w\<leftarrow>[w \<leftarrow> ws. on_gpu g w]. worker_footprint g w)"
    unfolding gpu_load_def sum_list_map_if [symmetric] using assms(3)
    by (intro arg_cong [of _ _ sum_list] map_cong) (auto simp: worker_load_def)
  with f show "gpu_load cfg ws g + footprint p ?i \<le> budget_mib cfg p [w \<leftarrow> ws. on_gpu g w] g"
    by (simp add: footprint_def)
  from f show "list_all (\<lambda>w. on_gpu g w \<longrightarrow> is_kvcached w) ws" by (auto simp: list_all_iff)
  from f show "int (length [w \<leftarrow> ws. on_gpu g w]) + 1 \<le> pc_max_workers_per_gpu cfg" by simp
qed

lemma prism_start_vram_safe:
  assumes "prism_fits cfg p gpus ws" "cfg_ok cfg" "g \<in> set gpus"
    "\<forall>w \<in> set ws. wk_state w \<noteq> COLD \<and> wk_state w \<noteq> SLEEPING"
    "wk_profile w = p" "wk_gpu_uuids w = gpus" "wk_state w = LOADING"
    "pf_engine p = VLLM" "pf_memory_backend p = ''kvcached''"
    "pc_max_workers_per_gpu cfg \<le> pc_max_cached_per_gpu cfg"
  shows "vram_safe cfg (ws @ [w]) g"
proof -
  note f = prism_fits_gpu [OF assms(1,3,4)]
  have w: "on_gpu g w" "worker_load cfg g w = footprint p (index_of g gpus)"
    using assms(3-7) by (simp_all add: on_gpu_def worker_load_def worker_footprint_def)
  have load: "gpu_load cfg (ws @ [w]) g \<le> budget_mib cfg p [w \<leftarrow> ws. on_gpu g w] g"
    using f(1) w by (simp add: gpu_load_def)
  have "[w \<leftarrow> ws. on_gpu g w \<and> wk_state w \<noteq> SLEEPING] = [w \<leftarrow> ws. on_gpu g w]"
    using assms(4) by (auto intro: filter_cong)
  with budget_le [OF load assms(2)] f w assms(5-10) show ?thesis
    by (auto simp: vram_safe_def list_all_iff is_kvcached_def)
qed

end
