(* ===== verification/PlannerSelect.thy ===== *)
theory PlannerSelect
  imports PlannerFits
begin

text \<open>
  \<^verbatim>\<open>src/src/llm_rio/planner.py\<close>, second part: the searches of the planner. Which validated shape
  to start (\<open>_smallest_fitting\<close>, \<open>_smallest_prism_fitting\<close>, \<open>_smallest_cached_prism_fitting\<close>,
  \<open>_maximum_smallest_placements\<close>), which cached workers to wake (\<open>_first_cached_wake\<close>,
  \<open>_cached_wakes\<close>), and which workers give way (\<open>_choose_prism_sleep\<close>,
  \<open>_choose_prism_cache_eviction\<close>, \<open>_choose_prism_eviction\<close>, \<open>_choose_preemption\<close>).

  Dictionaries of pressures are only asked for membership, so they are sets of model ids. The
  locale \<open>victim_search\<close> holds what the three subset searches share.
\<close>

section \<open>Shapes to start\<close>

definition smallest_fitting ::
  "placement_profile list \<Rightarrow> string set \<Rightarrow> (placement_profile \<times> string list) option" where
  "smallest_fitting ps free =
     first_some (\<lambda>p. map_option (Pair p) (find (\<lambda>gs. set gs \<subseteq> free) (pf_eligible_gpu_sets p)))
       (sort_key (\<lambda>p. (pf_gpu_count p, - pf_predicted_tokens_per_second p)) ps)"

definition prism_order :: "placement_profile \<Rightarrow> int \<times> int \<times> rat" where
  "prism_order p =
     (pf_gpu_count p, sum_list (pf_idle_vram p), - pf_predicted_tokens_per_second p)"

definition smallest_prism_fitting ::
  "planner_cfg \<Rightarrow> placement_profile list \<Rightarrow> string set \<Rightarrow> worker list
   \<Rightarrow> (placement_profile \<times> string list) option" where
  "smallest_prism_fitting cfg ps all_gpus active =
     first_some (\<lambda>p. map_option (Pair p)
         (find (\<lambda>gs. set gs \<subseteq> all_gpus \<and> prism_fits cfg p gs active) (pf_eligible_gpu_sets p)))
       (sort_key prism_order ps)"

definition smallest_cached_prism_fitting ::
  "planner_cfg \<Rightarrow> placement_profile list \<Rightarrow> string set \<Rightarrow> worker list
   \<Rightarrow> (placement_profile \<times> string list) option" where
  "smallest_cached_prism_fitting cfg ps all_gpus ws =
     first_some (\<lambda>p. map_option (Pair p)
         (find (\<lambda>gs. set gs \<subseteq> all_gpus \<and> cached_prism_fits cfg p gs ws None {})
            (pf_eligible_gpu_sets p)))
       (sort_key prism_order ps)"

text \<open>
  The \<open>while True\<close> of \<open>_maximum_smallest_placements\<close>: a shape with an empty GPU set would fit for
  ever, so the loop is a partial function.
\<close>

partial_function (option) fill_placements ::
  "placement_profile list \<Rightarrow> string set \<Rightarrow> (placement_profile \<times> string list) list
   \<Rightarrow> (placement_profile \<times> string list) list option" where
  "fill_placements cands remaining result =
     (case smallest_fitting cands remaining of
        None \<Rightarrow> Some result
      | Some start \<Rightarrow> fill_placements cands (remaining - set (snd start)) (result @ [start]))"

definition smallest_shape :: "placement_profile list \<Rightarrow> placement_profile list" where
  "smallest_shape ps =
     (let smallest = Min (set (map pf_gpu_count ps)) in [p \<leftarrow> ps. pf_gpu_count p = smallest])"

definition maximum_smallest_placements ::
  "placement_profile list \<Rightarrow> string set \<Rightarrow> (placement_profile \<times> string list) list option" where
  "maximum_smallest_placements ps free =
     (if ps = [] then Some [] else fill_placements (smallest_shape ps) free [])"

section \<open>Cached workers to wake\<close>

definition wake_order :: "worker \<Rightarrow> rat \<times> int" where
  "wake_order w =
     (case wk_last_activation w of
        Some s \<Rightarrow> s
      | None \<Rightarrow> pf_load_and_warmup_seconds (wk_profile w), wk_last_demand_at w)"

definition first_cached_wake ::
  "planner_cfg \<Rightarrow> worker list \<Rightarrow> string set \<Rightarrow> worker list \<Rightarrow> worker option" where
  "first_cached_wake cfg sleeping all_gpus live =
     find (\<lambda>w. set (wk_gpu_uuids w) \<subseteq> all_gpus \<and>
               cached_prism_fits cfg (wk_profile w) (wk_gpu_uuids w) live (Some (wk_id w)) {})
       (sort_key wake_order sleeping)"

text \<open>
  The loop of \<open>_cached_wakes\<close>; a selected worker leaves \<open>remaining\<close>, which bounds the loop.
\<close>

function cached_wakes_loop ::
  "planner_cfg \<Rightarrow> string set \<Rightarrow> int \<Rightarrow> worker list \<Rightarrow> worker list \<Rightarrow> worker list \<Rightarrow> worker list" where
  "cached_wakes_loop cfg all_gpus limit selected remaining projected =
     (if remaining \<noteq> [] \<and> int (length selected) < limit
      then case first_cached_wake cfg remaining all_gpus projected of
             None \<Rightarrow> selected
           | Some wake \<Rightarrow>
               cached_wakes_loop cfg all_gpus limit (selected @ [wake])
                 [w \<leftarrow> remaining. wk_id w \<noteq> wk_id wake]
                 (map (\<lambda>w. if wk_id w = wk_id wake then w\<lparr>wk_state := WAKING\<rparr> else w) projected)
      else selected)"
  by pat_completeness auto

lemma first_cached_wake_SomeD:
  assumes "first_cached_wake cfg sleeping all_gpus live = Some w"
  shows "w \<in> set sleeping" "set (wk_gpu_uuids w) \<subseteq> all_gpus"
    "cached_prism_fits cfg (wk_profile w) (wk_gpu_uuids w) live (Some (wk_id w)) {}"
  using find_SomeD [OF assms [unfolded first_cached_wake_def]] by auto

termination cached_wakes_loop
proof (relation "measure (\<lambda>(cfg, a, l, sel, remaining, pr). length remaining)", goal_cases)
  case (2 cfg all_gpus limit selected remaining projected wake)
  then have "wake \<in> set remaining" by (auto dest: first_cached_wake_SomeD)
  then have "length [w \<leftarrow> remaining. wk_id w \<noteq> wk_id wake] < length remaining"
    by (auto intro: length_filter_less)
  then show ?case by simp
qed simp

declare cached_wakes_loop.simps [simp del]

definition cached_wakes ::
  "planner_cfg \<Rightarrow> worker list \<Rightarrow> string set \<Rightarrow> worker list \<Rightarrow> int \<Rightarrow> worker list" where
  "cached_wakes cfg sleeping all_gpus live limit =
     cached_wakes_loop cfg all_gpus limit [] sleeping live"

section \<open>Workers that give way\<close>

definition resident_count :: "runtime_state list \<Rightarrow> worker list \<Rightarrow> string \<Rightarrow> int" where
  "resident_count states ws model =
     int (length [w \<leftarrow> ws. wk_state w \<in> set states \<and> wk_model_id w = model])"

definition incoming_starved :: "planner_cfg \<Rightarrow> datetime \<Rightarrow> queue_pressure \<Rightarrow> bool" where
  "incoming_starved cfg now p \<longleftrightarrow> total_seconds (now - qp_oldest_enqueued_at p) \<ge> pc_fair_share cfg"

text \<open>
  The workers on the wanted GPUs that may be put to sleep (or, without the weight cache, drained)
  for the pressure; the two callers count residents in different states.
\<close>

definition prism_blockers ::
  "planner_cfg \<Rightarrow> datetime \<Rightarrow> queue_pressure \<Rightarrow> string set \<Rightarrow> (string \<Rightarrow> int) \<Rightarrow> worker list
   \<Rightarrow> string list \<Rightarrow> worker list" where
  "prism_blockers cfg now pressure pressed counts ws gpus =
     [w \<leftarrow> ws. wk_model_id w \<noteq> qp_model_id pressure
        \<and> wk_state w = READY
        \<and> set (wk_gpu_uuids w) \<inter> set gpus \<noteq> {}
        \<and> wk_admitted w = {}
        \<and> residency_satisfied cfg w now
        \<and> (wk_model_id w \<notin> pressed \<or> counts (wk_model_id w) > 1
            \<or> incoming_starved cfg now pressure)]"

definition sleep_placements ::
  "placement_profile list \<Rightarrow> worker list option
   \<Rightarrow> (placement_profile \<times> string list \<times> string option) list" where
  "sleep_placements cands existing =
     (case existing of
        None \<Rightarrow> concat (map (\<lambda>p. map (\<lambda>gs. (p, gs, None)) (pf_eligible_gpu_sets p)) cands)
      | Some ws \<Rightarrow> [(wk_profile w, wk_gpu_uuids w, Some (wk_id w)).
                     w \<leftarrow> ws, pf_id (wk_profile w) \<in> set (map pf_id cands)])"

definition choose_prism_sleep ::
  "planner_cfg \<Rightarrow> datetime \<Rightarrow> placement_profile list \<Rightarrow> string set \<Rightarrow> worker list \<Rightarrow> queue_pressure
   \<Rightarrow> string set \<Rightarrow> worker list option \<Rightarrow> worker list option" where
  "choose_prism_sleep cfg now cands all_gpus ws pressure pressed existing =
     (let counts = resident_count [READY] ws;
          options = concat (map (\<lambda>(p, gs, ex).
            if \<not> set gs \<subseteq> all_gpus then []
            else map (\<lambda>sel. ((length sel, throughput sel,
                              \<Sum>w\<leftarrow>sel. timestamp (wk_last_demand_at w)), sel))
                   (least_selections
                      (\<lambda>sel. cached_prism_fits cfg p gs ws ex (set (map wk_id sel)))
                      (prism_blockers cfg now pressure pressed counts ws gs)))
            (sleep_placements cands existing))
      in map_option snd (min_on fst options))"

definition cache_evictable ::
  "string set \<Rightarrow> placement_profile \<Rightarrow> worker list \<Rightarrow> string list \<Rightarrow> worker list" where
  "cache_evictable pressed p ws gpus =
     [w \<leftarrow> ws. wk_state w = SLEEPING \<and> wk_model_id w \<notin> pressed
        \<and> wk_model_id w \<noteq> pf_model_id p \<and> set (wk_gpu_uuids w) \<inter> set gpus \<noteq> {}]"

definition choose_prism_cache_eviction ::
  "planner_cfg \<Rightarrow> placement_profile list \<Rightarrow> string set \<Rightarrow> worker list \<Rightarrow> string set
   \<Rightarrow> worker list option" where
  "choose_prism_cache_eviction cfg cands all_gpus ws pressed =
     (let options = concat (map (\<lambda>p. concat (map (\<lambda>gs.
            if \<not> set gs \<subseteq> all_gpus then []
            else map (\<lambda>sel. ((length sel, Max (set (map (\<lambda>w. timestamp (wk_last_demand_at w)) sel)),
                              sort (remdups (map wk_id sel))), sel))
                   (least_selections
                      (\<lambda>sel. cached_prism_fits cfg p gs
                               [w \<leftarrow> ws. wk_id w \<notin> set (map wk_id sel)] None {})
                      (cache_evictable pressed p ws gs)))
            (pf_eligible_gpu_sets p))) cands)
      in map_option snd (min_on fst options))"

definition choose_prism_eviction ::
  "planner_cfg \<Rightarrow> datetime \<Rightarrow> placement_profile list \<Rightarrow> string set \<Rightarrow> worker list \<Rightarrow> queue_pressure
   \<Rightarrow> string set \<Rightarrow> worker list option" where
  "choose_prism_eviction cfg now cands all_gpus active pressure pressed =
     (let counts = resident_count [LOADING, READY] active;
          options = concat (map (\<lambda>p. concat (map (\<lambda>gs.
            if \<not> set gs \<subseteq> all_gpus then []
            else map (\<lambda>sel. ((length sel, throughput sel), sel))
                   (least_selections
                      (\<lambda>sel. prism_fits cfg p gs [w \<leftarrow> active. w \<notin> set sel])
                      (prism_blockers cfg now pressure pressed counts active gs)))
            (pf_eligible_gpu_sets p))) cands)
      in map_option snd (min_on fst options))"

section \<open>Preemption without Prism\<close>

text \<open>The loop over the blockers of one required GPU set; the result is \<open>drainable\<close>.\<close>

fun drainable_scan ::
  "planner_cfg \<Rightarrow> datetime \<Rightarrow> queue_pressure \<Rightarrow> string set \<Rightarrow> (string \<Rightarrow> int) \<Rightarrow> worker list
   \<Rightarrow> (string \<Rightarrow> int) \<Rightarrow> bool" where
  "drainable_scan cfg now pressure pressured counts [] selected = True"
| "drainable_scan cfg now pressure pressured counts (w # ws) selected =
     (if wk_model_id w \<notin> pressured
      then drainable_scan cfg now pressure pressured counts ws selected
      else
        (let ready_at = (case wk_ready_at w of None \<Rightarrow> now | Some t \<Rightarrow> t);
             fair_wait_started = max (qp_oldest_enqueued_at pressure) ready_at
         in if total_seconds (now - fair_wait_started) \<ge> pc_fair_share cfg
            then drainable_scan cfg now pressure pressured counts ws selected
            else if \<not> residency_satisfied cfg w now then False
            else if counts (wk_model_id w) - selected (wk_model_id w) - 1 < 1 then False
            else drainable_scan cfg now pressure pressured counts ws
                   (selected(wk_model_id w := selected (wk_model_id w) + 1))))"

definition preempt_set ::
  "planner_cfg \<Rightarrow> datetime \<Rightarrow> queue_pressure \<Rightarrow> string set \<Rightarrow> worker list \<Rightarrow> string list
   \<Rightarrow> worker list option" where
  "preempt_set cfg now pressure pressured ws required =
     (let blockers = [w \<leftarrow> ws. set (wk_gpu_uuids w) \<inter> set required \<noteq> {}]
      in if list_ex (\<lambda>w. wk_model_id w = qp_model_id pressure) blockers then None
         else if list_ex (\<lambda>w. wk_model_id w \<notin> pressured) blockers then None
         else if blockers = [] \<or> list_ex (\<lambda>w. wk_state w = DRAINING) blockers then None
         else if drainable_scan cfg now pressure pressured
                   (resident_count [LOADING, READY] ws) blockers (\<lambda>_. 0)
         then Some (sort_key (\<lambda>w. (wk_model_id w \<in> pressured,
                       pf_predicted_tokens_per_second (wk_profile w))) blockers)
         else None)"

definition idle_blockers ::
  "planner_cfg \<Rightarrow> datetime \<Rightarrow> placement_profile list \<Rightarrow> worker list \<Rightarrow> string set \<Rightarrow> worker list" where
  "idle_blockers cfg now cands ws pressured =
     (let compatible = set (concat (concat (map pf_eligible_gpu_sets (smallest_shape cands))))
      in [w \<leftarrow> ws. wk_model_id w \<notin> pressured \<and> wk_admitted w = {}
            \<and> residency_satisfied cfg w now \<and> set (wk_gpu_uuids w) \<inter> compatible \<noteq> {}])"

definition choose_preemption ::
  "planner_cfg \<Rightarrow> datetime \<Rightarrow> placement_profile list \<Rightarrow> worker list \<Rightarrow> queue_pressure \<Rightarrow> string set
   \<Rightarrow> worker list option" where
  "choose_preemption cfg now cands ws pressure pressured =
     (let idle = idle_blockers cfg now cands ws pressured
      in if idle \<noteq> []
         then Some (sort_key (\<lambda>w. pf_predicted_tokens_per_second (wk_profile w)) idle)
         else first_some (\<lambda>p. first_some (preempt_set cfg now pressure pressured ws)
                                (pf_eligible_gpu_sets p))
                (sort_key pf_gpu_count cands))"

section \<open>The shape searches\<close>

text \<open>What a search for a shape to start promises.\<close>

locale shape_search =
  fixes order :: "placement_profile \<Rightarrow> 'k::linorder"
    and fits :: "'env \<Rightarrow> placement_profile \<Rightarrow> string list \<Rightarrow> bool"
    and search :: "'env \<Rightarrow> placement_profile list \<Rightarrow> (placement_profile \<times> string list) option"
  assumes found: "search env ps = Some (p, gs) \<Longrightarrow>
      p \<in> set ps \<and> gs \<in> set (pf_eligible_gpu_sets p) \<and> fits env p gs \<and>
      (\<forall>p' \<in> set ps. \<forall>gs' \<in> set (pf_eligible_gpu_sets p'). fits env p' gs' \<longrightarrow> order p \<le> order p')"
    and none: "search env ps = None \<Longrightarrow> p \<in> set ps \<Longrightarrow> gs \<in> set (pf_eligible_gpu_sets p) \<Longrightarrow>
      \<not> fits env p gs"
begin

lemma search_iff:
  "search env ps \<noteq> None \<longleftrightarrow>
     (\<exists>p \<in> set ps. \<exists>gs \<in> set (pf_eligible_gpu_sets p). fits env p gs)"
proof
  assume "search env ps \<noteq> None"
  then obtain p gs where "search env ps = Some (p, gs)" by auto
  from found [OF this] show "\<exists>p \<in> set ps. \<exists>gs \<in> set (pf_eligible_gpu_sets p). fits env p gs" by blast
qed (use none in blast)

lemma search_mono:
  "set ps \<subseteq> set qs \<Longrightarrow> search env qs = None \<Longrightarrow> search env ps = None"
  using search_iff [of env ps] search_iff [of env qs] by blast

end

lemma first_some_split:
  "first_some f xs = Some y \<Longrightarrow> \<exists>l x r. xs = l @ x # r \<and> f x = Some y \<and> (\<forall>z \<in> set l. f z = None)"
proof (induction xs)
  case (Cons a xs)
  show ?case
  proof (cases "f a")
    case None
    with Cons obtain l x r where "xs = l @ x # r" "f x = Some y" "\<forall>z \<in> set l. f z = None" by auto
    with None have "a # xs = (a # l) @ x # r \<and> f x = Some y \<and> (\<forall>z \<in> set (a # l). f z = None)" by simp
    then show ?thesis by blast
  next
    case (Some b)
    with Cons.prems have "a # xs = [] @ a # xs \<and> f a = Some y \<and> (\<forall>z \<in> set []. f z = None)" by simp
    then show ?thesis by blast
  qed
qed simp

lemma nested_found:
  assumes "first_some (\<lambda>p. map_option (Pair p) (find (f p) (el p))) (sort_key k ps) = Some (p, gs)"
  shows "p \<in> set ps \<and> gs \<in> set (el p) \<and> f p gs \<and>
    (\<forall>p' \<in> set ps. \<forall>gs' \<in> set (el p'). f p' gs' \<longrightarrow> k p \<le> k p')"
proof -
  from first_some_split [OF assms] obtain l x r where s: "sort_key k ps = l @ x # r"
    "map_option (Pair x) (find (f x) (el x)) = Some (p, gs)"
    "\<forall>z \<in> set l. map_option (Pair z) (find (f z) (el z)) = None" by blast
  then have x: "x = p" "find (f p) (el p) = Some gs" by auto
  have "sorted (map k (sort_key k ps))" by simp
  with s(1) x(1) have le: "\<forall>y \<in> set r. k p \<le> k y" by (simp add: sorted_append)
  have all: "set ps = set l \<union> {p} \<union> set r" using arg_cong [OF s(1), of set] x(1) by simp
  from s(3) have "\<forall>z \<in> set l. \<forall>gs' \<in> set (el z). \<not> f z gs'" by (auto simp: find_None_iff)
  with le all find_SomeD [OF x(2)] show ?thesis by auto
qed

lemma nested_none:
  assumes "first_some (\<lambda>p. map_option (Pair p) (find (f p) (el p))) (sort_key k ps) = None"
    "p \<in> set ps" "gs \<in> set (el p)"
  shows "\<not> f p gs"
  using assms by (auto simp: first_some_None find_None_iff)

interpretation native_shape: shape_search
  "\<lambda>p. (pf_gpu_count p, - pf_predicted_tokens_per_second p)"
  "\<lambda>free p gs. set gs \<subseteq> free" "\<lambda>free ps. smallest_fitting ps free"
proof (unfold_locales, goal_cases)
  case (1 env ps p gs)
  then show ?case
    unfolding smallest_fitting_def by (rule nested_found [of "\<lambda>p gs. set gs \<subseteq> env"])
next
  case (2 env ps p gs)
  then show ?case
    unfolding smallest_fitting_def by (rule nested_none [of "\<lambda>p gs. set gs \<subseteq> env"])
qed

interpretation prism_shape: shape_search prism_order
  "\<lambda>(cfg, all_gpus, active) p gs. set gs \<subseteq> all_gpus \<and> prism_fits cfg p gs active"
  "\<lambda>(cfg, all_gpus, active) ps. smallest_prism_fitting cfg ps all_gpus active"
proof (unfold_locales, goal_cases)
  case (1 env ps p gs)
  obtain cfg a ws where "env = (cfg, a, ws)" by (cases env)
  with 1 nested_found [of "\<lambda>p gs. set gs \<subseteq> a \<and> prism_fits cfg p gs ws"] show ?case
    by (simp add: smallest_prism_fitting_def)
next
  case (2 env ps p gs)
  obtain cfg a ws where "env = (cfg, a, ws)" by (cases env)
  with 2 nested_none [of "\<lambda>p gs. set gs \<subseteq> a \<and> prism_fits cfg p gs ws"] show ?case
    by (simp add: smallest_prism_fitting_def)
qed

interpretation cached_shape: shape_search prism_order
  "\<lambda>(cfg, all_gpus, ws) p gs. set gs \<subseteq> all_gpus \<and> cached_prism_fits cfg p gs ws None {}"
  "\<lambda>(cfg, all_gpus, ws) ps. smallest_cached_prism_fitting cfg ps all_gpus ws"
proof (unfold_locales, goal_cases)
  case (1 env ps p gs)
  obtain cfg a ws where "env = (cfg, a, ws)" by (cases env)
  with 1 nested_found [of "\<lambda>p gs. set gs \<subseteq> a \<and> cached_prism_fits cfg p gs ws None {}"]
  show ?case by (simp add: smallest_cached_prism_fitting_def)
next
  case (2 env ps p gs)
  obtain cfg a ws where "env = (cfg, a, ws)" by (cases env)
  with 2 nested_none [of "\<lambda>p gs. set gs \<subseteq> a \<and> cached_prism_fits cfg p gs ws None {}"]
  show ?case by (simp add: smallest_cached_prism_fitting_def)
qed

section \<open>Filling the free GPUs\<close>

text \<open>The GPU sets are non-empty, disjoint from each other and inside \<open>free\<close>.\<close>

fun disjoint_in :: "string set \<Rightarrow> (placement_profile \<times> string list) list \<Rightarrow> bool" where
  "disjoint_in free [] = True"
| "disjoint_in free (s # ss) \<longleftrightarrow> set (snd s) \<subseteq> free \<and> disjoint_in (free - set (snd s)) ss"

definition shapes_nonempty :: "placement_profile list \<Rightarrow> bool" where
  "shapes_nonempty ps \<longleftrightarrow> list_all (\<lambda>p. [] \<notin> set (pf_eligible_gpu_sets p)) ps"

definition gpus_of :: "(placement_profile \<times> string list) list \<Rightarrow> string set" where
  "gpus_of ss = set (concat (map snd ss))"

lemma fill_placements_spec:
  assumes "finite remaining" "shapes_nonempty cands"
  shows "\<exists>starts. fill_placements cands remaining result = Some (result @ starts) \<and>
    disjoint_in remaining starts \<and>
    (\<forall>s \<in> set starts. fst s \<in> set cands \<and> snd s \<in> set (pf_eligible_gpu_sets (fst s))) \<and>
    (\<forall>p \<in> set cands. \<forall>gs \<in> set (pf_eligible_gpu_sets p). \<not> set gs \<subseteq> remaining - gpus_of starts)"
  using assms(1)
proof (induction "card remaining" arbitrary: remaining result rule: less_induct)
  case less
  show ?case
  proof (cases "smallest_fitting cands remaining")
    case None
    have "\<forall>p \<in> set cands. \<forall>gs \<in> set (pf_eligible_gpu_sets p). \<not> set gs \<subseteq> remaining"
      using native_shape.none [OF None] by blast
    with None show ?thesis
      by (intro exI [of _ "[]"]) (simp add: fill_placements.simps [of cands remaining] gpus_of_def)
  next
    case (Some s)
    obtain p gs where s: "s = (p, gs)" by (cases s)
    from native_shape.found [OF Some [unfolded s]] have f: "p \<in> set cands"
      "gs \<in> set (pf_eligible_gpu_sets p)" "set gs \<subseteq> remaining" by auto
    with assms(2) have "gs \<noteq> []" by (auto simp: shapes_nonempty_def list_all_iff)
    then obtain g where "g \<in> set gs" by (meson last_in_set)
    with f(3) have "remaining - set gs \<subset> remaining" by blast
    with less.prems have "card (remaining - set gs) < card remaining" by (rule psubset_card_mono)
    from less.hyps [OF this, of "result @ [s]"] less.prems obtain starts where
      i: "fill_placements cands (remaining - set gs) (result @ [s]) = Some ((result @ [s]) @ starts)"
      "disjoint_in (remaining - set gs) starts"
      "\<forall>s \<in> set starts. fst s \<in> set cands \<and> snd s \<in> set (pf_eligible_gpu_sets (fst s))"
      "\<forall>p \<in> set cands. \<forall>gs' \<in> set (pf_eligible_gpu_sets p).
         \<not> set gs' \<subseteq> remaining - set gs - gpus_of starts" by auto
    have "remaining - gpus_of (s # starts) = remaining - set gs - gpus_of starts"
      by (auto simp: gpus_of_def s)
    moreover have "fill_placements cands remaining result = Some (result @ s # starts)"
      using Some i(1) by (simp add: fill_placements.simps [of cands remaining] s)
    ultimately show ?thesis
      using i f by (intro exI [of _ "s # starts"]) (auto simp: s)
  qed
qed

lemma smallest_shape_mem:
  "p \<in> set (smallest_shape ps) \<longleftrightarrow> p \<in> set ps \<and> (\<forall>p' \<in> set ps. pf_gpu_count p \<le> pf_gpu_count p')"
proof (cases "ps = []")
  case False
  then show ?thesis by (auto simp: smallest_shape_def Let_def eq_Min_iff)
qed (simp add: smallest_shape_def)

lemma maximum_placements_spec:
  assumes "finite free" "shapes_nonempty ps"
  shows "\<exists>starts. maximum_smallest_placements ps free = Some starts \<and>
    disjoint_in free starts \<and>
    (\<forall>s \<in> set starts. fst s \<in> set (smallest_shape ps) \<and> snd s \<in> set (pf_eligible_gpu_sets (fst s))) \<and>
    (\<forall>p \<in> set (smallest_shape ps). \<forall>gs \<in> set (pf_eligible_gpu_sets p).
       \<not> set gs \<subseteq> free - gpus_of starts)"
proof (cases "ps = []")
  case False
  have "shapes_nonempty (smallest_shape ps)"
    using assms(2) by (auto simp: shapes_nonempty_def list_all_iff smallest_shape_mem)
  from fill_placements_spec [OF assms(1) this, of "[]"] False show ?thesis
    by (auto simp: maximum_smallest_placements_def)
qed (simp add: maximum_smallest_placements_def smallest_shape_def)

section \<open>The searches for workers that give way\<close>

text \<open>
  At each place (a profile and a GPU set) a search tries the subsets of a pool of workers by
  increasing size, keeps the accepted ones of the first size that has any, and answers with one of
  the fewest workers over all places.
\<close>

locale victim_search =
  fixes places :: "'env \<Rightarrow> 'pl list"
    and pool :: "'env \<Rightarrow> 'pl \<Rightarrow> worker list"
    and accepts :: "'env \<Rightarrow> 'pl \<Rightarrow> worker list \<Rightarrow> bool"
    and pick :: "'env \<Rightarrow> worker list option"
  assumes found: "pick e = Some sel \<Longrightarrow>
      (\<exists>pl \<in> set (places e). sel \<in> set (least_selections (accepts e pl) (pool e pl))) \<and>
      (\<forall>pl \<in> set (places e). \<forall>sel' \<in> set (least_selections (accepts e pl) (pool e pl)).
         length sel \<le> length sel')"
    and none: "pick e = None \<Longrightarrow> pl \<in> set (places e) \<Longrightarrow>
      least_selections (accepts e pl) (pool e pl) = []"
begin

lemma victims:
  assumes "pick e = Some sel"
  shows "\<exists>pl \<in> set (places e). accepts e pl sel \<and> set sel \<subseteq> set (pool e pl) \<and> sel \<noteq> []"
  using found [OF assms] least_selections_mem by blast

lemma fewest:
  assumes "pick e = Some sel" "pl \<in> set (places e)" "sel' \<in> set (subseqs (pool e pl))"
    "sel' \<noteq> []" "accepts e pl sel'"
  shows "length sel \<le> length sel'"
proof -
  have "least_selections (accepts e pl) (pool e pl) \<noteq> []"
    using assms(3-5) by (auto simp: least_selections_empty)
  then obtain s where s: "s \<in> set (least_selections (accepts e pl) (pool e pl))"
    by (meson last_in_set)
  with found [OF assms(1)] assms(2) have "length sel \<le> length s" by blast
  also have "\<dots> \<le> length sel'" by (rule least_selections_least [OF s assms(3-5)])
  finally show ?thesis .
qed

lemma no_victims:
  "pick e = None \<longleftrightarrow>
     (\<forall>pl \<in> set (places e). \<forall>sel \<in> set (subseqs (pool e pl)). sel \<noteq> [] \<longrightarrow> \<not> accepts e pl sel)"
proof
  assume "pick e = None"
  from none [OF this] show "\<forall>pl \<in> set (places e). \<forall>sel \<in> set (subseqs (pool e pl)).
      sel \<noteq> [] \<longrightarrow> \<not> accepts e pl sel"
    by (simp add: least_selections_empty)
next
  assume r: "\<forall>pl \<in> set (places e). \<forall>sel \<in> set (subseqs (pool e pl)). sel \<noteq> [] \<longrightarrow> \<not> accepts e pl sel"
  show "pick e = None"
  proof (rule ccontr)
    assume "pick e \<noteq> None"
    then obtain sel where "pick e = Some sel" by auto
    from found [OF this] obtain pl where "pl \<in> set (places e)"
      "sel \<in> set (least_selections (accepts e pl) (pool e pl))" by blast
    with r show False using least_selections_empty by (metis empty_iff list.set(1))
  qed
qed

end

lemma min_options:
  fixes key :: "'pl \<Rightarrow> worker list \<Rightarrow> nat \<times> 'k::linorder"
  assumes "options = concat (map (\<lambda>pl. map (\<lambda>sel. (key pl sel, sel)) (opts pl)) pls)"
    and "\<And>pl sel. fst (key pl sel) = length sel"
  shows "map_option snd (min_on fst options) = Some sel \<Longrightarrow>
      (\<exists>pl \<in> set pls. sel \<in> set (opts pl)) \<and>
      (\<forall>pl \<in> set pls. \<forall>sel' \<in> set (opts pl). length sel \<le> length sel')"
    and "map_option snd (min_on fst options) = None \<Longrightarrow> pl \<in> set pls \<Longrightarrow> opts pl = []"
proof -
  assume "map_option snd (min_on fst options) = Some sel"
  then obtain k where m: "min_on fst options = Some (k, sel)" by auto
  from min_on_in [OF m] assms(1) obtain pl where pl: "pl \<in> set pls" "sel \<in> set (opts pl)"
    "k = key pl sel" by auto
  have "length sel \<le> length sel'" if "pl' \<in> set pls" "sel' \<in> set (opts pl')" for pl' sel'
  proof -
    have "(key pl' sel', sel') \<in> set options" using that assms(1) by auto
    from min_on_le [OF m this] have "fst k \<le> fst (key pl' sel')" by (auto simp: less_eq_prod_def)
    then show ?thesis using assms(2) pl(3) by simp
  qed
  with pl show "(\<exists>pl \<in> set pls. sel \<in> set (opts pl)) \<and>
      (\<forall>pl \<in> set pls. \<forall>sel' \<in> set (opts pl). length sel \<le> length sel')" by blast
next
  assume "map_option snd (min_on fst options) = None" "pl \<in> set pls"
  then show "opts pl = []" using assms(1) by auto
qed

text \<open>Places: the eligible GPU sets of the candidates, or the existing workers' own.\<close>

definition shape_places :: "placement_profile list \<Rightarrow> (placement_profile \<times> string list) list" where
  "shape_places cands = concat (map (\<lambda>p. map (Pair p) (pf_eligible_gpu_sets p)) cands)"

lemma shape_places_mem:
  "(p, gs) \<in> set (shape_places cands) \<longleftrightarrow> p \<in> set cands \<and> gs \<in> set (pf_eligible_gpu_sets p)"
  by (auto simp: shape_places_def)

lemma concat_shape_places:
  "concat (map (\<lambda>p. concat (map (\<lambda>gs. if \<not> Q gs then [] else f p gs) (pf_eligible_gpu_sets p))) cands)
   = concat (map (\<lambda>(p, gs). f p gs) [(p, gs) \<leftarrow> shape_places cands. Q gs])"
proof -
  have "concat (map (\<lambda>gs. if \<not> Q gs then [] else f p gs) gss)
      = concat (map (\<lambda>(p, gs). f p gs) [(p, gs) \<leftarrow> map (Pair p) gss. Q gs])" for p gss
    by (induction gss) auto
  then show ?thesis by (induction cands) (auto simp: shape_places_def)
qed

lemma concat_places:
  "concat (map (\<lambda>(p, gs, ex). if \<not> Q gs then [] else f p gs ex) pls)
   = concat (map (\<lambda>(p, gs, ex). f p gs ex) [(p, gs, ex) \<leftarrow> pls. Q gs])"
  by (induction pls) auto

text \<open>The three searches, over the tuple of their arguments.\<close>

type_synonym sleep_env =
  "planner_cfg \<times> datetime \<times> placement_profile list \<times> string set \<times> worker list \<times> queue_pressure
   \<times> string set \<times> worker list option"

fun sleep_places :: "sleep_env \<Rightarrow> (placement_profile \<times> string list \<times> string option) list" where
  "sleep_places (cfg, now, cands, all_gpus, ws, pressure, pressed, existing) =
     [(p, gs, ex) \<leftarrow> sleep_placements cands existing. set gs \<subseteq> all_gpus]"

fun sleep_pool :: "sleep_env \<Rightarrow> placement_profile \<times> string list \<times> string option \<Rightarrow> worker list" where
  "sleep_pool (cfg, now, cands, all_gpus, ws, pressure, pressed, existing) (p, gs, ex) =
     prism_blockers cfg now pressure pressed (resident_count [READY] ws) ws gs"

fun sleep_accepts ::
  "sleep_env \<Rightarrow> placement_profile \<times> string list \<times> string option \<Rightarrow> worker list \<Rightarrow> bool" where
  "sleep_accepts (cfg, now, cands, all_gpus, ws, pressure, pressed, existing) (p, gs, ex) sel =
     cached_prism_fits cfg p gs ws ex (set (map wk_id sel))"


fun sleep_pick :: "sleep_env \<Rightarrow> worker list option" where
  "sleep_pick (cfg, now, cands, all_gpus, ws, pressure, pressed, existing) =
     choose_prism_sleep cfg now cands all_gpus ws pressure pressed existing"

lemma sleep_accepts_eta:
  "sleep_accepts (cfg, now, cands, all_gpus, ws, pressure, pressed, existing) (p, gs, ex) = (\<lambda>sel. cached_prism_fits cfg p gs ws ex (set (map wk_id sel)))"
  by (rule ext) simp

lemma sleep_pick_options:
  "sleep_pick e = map_option snd (min_on fst (concat (map (\<lambda>pl. map (\<lambda>sel.
      ((length sel, throughput sel, \<Sum>w\<leftarrow>sel. timestamp (wk_last_demand_at w)), sel))
      (least_selections (sleep_accepts e pl) (sleep_pool e pl))) (sleep_places e))))"
proof (cases e rule: sleep_pick.cases)
  case (1 cfg now cands all_gpus ws pressure pressed existing)
  show ?thesis
    unfolding 1 sleep_pick.simps choose_prism_sleep_def Let_def concat_places sleep_places.simps
    by (intro arg_cong [of _ _ "\<lambda>x. map_option snd (min_on fst (concat x))"] map_cong refl)
      (auto simp: sleep_accepts_eta)
qed

interpretation prism_sleep: victim_search sleep_places sleep_pool sleep_accepts sleep_pick
  by unfold_locales
    (use min_options [OF refl, of "\<lambda>_ sel. (length sel, throughput sel,
        \<Sum>w\<leftarrow>sel. timestamp (wk_last_demand_at w))", unfolded fst_conv, OF refl]
      in \<open>simp_all only: sleep_pick_options\<close>)

type_synonym eviction_env =
  "planner_cfg \<times> placement_profile list \<times> string set \<times> worker list \<times> string set"

fun eviction_places :: "eviction_env \<Rightarrow> (placement_profile \<times> string list) list" where
  "eviction_places (cfg, cands, all_gpus, ws, pressed) =
     [(p, gs) \<leftarrow> shape_places cands. set gs \<subseteq> all_gpus]"

fun eviction_pool :: "eviction_env \<Rightarrow> placement_profile \<times> string list \<Rightarrow> worker list" where
  "eviction_pool (cfg, cands, all_gpus, ws, pressed) (p, gs) = cache_evictable pressed p ws gs"

fun eviction_accepts ::
  "eviction_env \<Rightarrow> placement_profile \<times> string list \<Rightarrow> worker list \<Rightarrow> bool" where
  "eviction_accepts (cfg, cands, all_gpus, ws, pressed) (p, gs) sel =
     cached_prism_fits cfg p gs [w \<leftarrow> ws. wk_id w \<notin> set (map wk_id sel)] None {}"

fun eviction_pick :: "eviction_env \<Rightarrow> worker list option" where
  "eviction_pick (cfg, cands, all_gpus, ws, pressed) =
     choose_prism_cache_eviction cfg cands all_gpus ws pressed"

lemma eviction_accepts_eta:
  "eviction_accepts (cfg, cands, all_gpus, ws, pressed) (p, gs) = (\<lambda>sel. cached_prism_fits cfg p gs [w \<leftarrow> ws. wk_id w \<notin> set (map wk_id sel)] None {})"
  by (rule ext) simp

lemma eviction_pick_options:
  "eviction_pick e = map_option snd (min_on fst (concat (map (\<lambda>pl. map (\<lambda>sel.
      ((length sel, Max (set (map (\<lambda>w. timestamp (wk_last_demand_at w)) sel)),
        sort (remdups (map wk_id sel))), sel))
      (least_selections (eviction_accepts e pl) (eviction_pool e pl))) (eviction_places e))))"
proof (cases e rule: eviction_pick.cases)
  case (1 cfg cands all_gpus ws pressed)
  show ?thesis
    unfolding 1 eviction_pick.simps choose_prism_cache_eviction_def Let_def concat_shape_places
      eviction_places.simps
    by (intro arg_cong [of _ _ "\<lambda>x. map_option snd (min_on fst (concat x))"] map_cong refl)
      (auto simp: eviction_accepts_eta)
qed

interpretation cache_eviction: victim_search eviction_places eviction_pool eviction_accepts
  eviction_pick
  by unfold_locales
    (use min_options [OF refl, of "\<lambda>_ sel. (length sel,
        Max (set (map (\<lambda>w. timestamp (wk_last_demand_at w)) sel)), sort (remdups (map wk_id sel)))",
        unfolded fst_conv, OF refl]
      in \<open>simp_all only: eviction_pick_options\<close>)

type_synonym drain_env =
  "planner_cfg \<times> datetime \<times> placement_profile list \<times> string set \<times> worker list \<times> queue_pressure
   \<times> string set"

fun drain_places :: "drain_env \<Rightarrow> (placement_profile \<times> string list) list" where
  "drain_places (cfg, now, cands, all_gpus, ws, pressure, pressed) =
     [(p, gs) \<leftarrow> shape_places cands. set gs \<subseteq> all_gpus]"

fun drain_pool :: "drain_env \<Rightarrow> placement_profile \<times> string list \<Rightarrow> worker list" where
  "drain_pool (cfg, now, cands, all_gpus, ws, pressure, pressed) (p, gs) =
     prism_blockers cfg now pressure pressed (resident_count [LOADING, READY] ws) ws gs"

fun drain_accepts :: "drain_env \<Rightarrow> placement_profile \<times> string list \<Rightarrow> worker list \<Rightarrow> bool" where
  "drain_accepts (cfg, now, cands, all_gpus, ws, pressure, pressed) (p, gs) sel =
     prism_fits cfg p gs [w \<leftarrow> ws. w \<notin> set sel]"

fun drain_pick :: "drain_env \<Rightarrow> worker list option" where
  "drain_pick (cfg, now, cands, all_gpus, ws, pressure, pressed) =
     choose_prism_eviction cfg now cands all_gpus ws pressure pressed"

lemma drain_accepts_eta:
  "drain_accepts (cfg, now, cands, all_gpus, ws, pressure, pressed) (p, gs) = (\<lambda>sel. prism_fits cfg p gs [w \<leftarrow> ws. w \<notin> set sel])"
  by (rule ext) simp

lemma drain_pick_options:
  "drain_pick e = map_option snd (min_on fst (concat (map (\<lambda>pl. map (\<lambda>sel.
      ((length sel, throughput sel), sel))
      (least_selections (drain_accepts e pl) (drain_pool e pl))) (drain_places e))))"
proof (cases e rule: drain_pick.cases)
  case (1 cfg now cands all_gpus ws pressure pressed)
  show ?thesis
    unfolding 1 drain_pick.simps choose_prism_eviction_def Let_def concat_shape_places
      drain_places.simps
    by (intro arg_cong [of _ _ "\<lambda>x. map_option snd (min_on fst (concat x))"] map_cong refl)
      (auto simp: drain_accepts_eta)
qed

interpretation prism_drain: victim_search drain_places drain_pool drain_accepts drain_pick
  by unfold_locales
    (use min_options [OF refl, of "\<lambda>_ sel. (length sel, throughput sel)", unfolded fst_conv, OF refl]
      in \<open>simp_all only: drain_pick_options\<close>)

section \<open>Waking several cached workers\<close>

lemma set_states_insert:
  "set_states {i} s (set_states ids s ws) = set_states (insert i ids) s ws"
  by (simp add: set_states_def o_def)

lemma set_states_ids [simp]: "map wk_id (set_states ids s ws) = map wk_id ws"
  by (simp add: set_states_def o_def if_distrib cong: if_cong)

lemma set_states_keeps: "w \<in> set ws \<Longrightarrow> wk_id w \<notin> ids \<Longrightarrow> w \<in> set (set_states ids s ws)"
  by (force simp: set_states_def)

text \<open>
  \<open>wake_inv\<close>: after waking \<open>selected\<close>, every GPU that was within its limits, and every GPU of a
  woken worker, is within its limits.
\<close>

definition wake_inv :: "planner_cfg \<Rightarrow> worker list \<Rightarrow> worker list \<Rightarrow> worker list \<Rightarrow> bool" where
  "wake_inv cfg live sleeping selected \<longleftrightarrow>
     set selected \<subseteq> set sleeping \<and> distinct (map wk_id selected) \<and>
     (\<forall>g. vram_safe cfg live g \<or> (\<exists>w \<in> set selected. g \<in> set (wk_gpu_uuids w)) \<longrightarrow>
        vram_safe cfg (set_states (set (map wk_id selected)) WAKING live) g)"

lemma wake_inv_step:
  assumes "wake_inv cfg live sleeping selected" "cfg_ok cfg" "distinct (map wk_id live)"
    "\<forall>w \<in> set sleeping. w \<in> set live \<and> wk_state w = SLEEPING"
    "w \<in> set sleeping" "wk_id w \<notin> set (map wk_id selected)"
    "cached_prism_fits cfg (wk_profile w) (wk_gpu_uuids w)
       (set_states (set (map wk_id selected)) WAKING live) (Some (wk_id w)) {}"
  shows "wake_inv cfg live sleeping (selected @ [w])"
proof -
  let ?P = "set_states (set (map wk_id selected)) WAKING live"
  have w: "w \<in> set ?P" using assms(4-6) by (auto intro: set_states_keeps)
  have ids: "distinct (map wk_id ?P)" using assms(3) by simp
  then have inj: "inj_on wk_id (set ?P)" by (simp only: distinct_map)
  have "vram_safe cfg (set_states {wk_id w} WAKING ?P) g"
    if g: "vram_safe cfg live g \<or> (\<exists>v \<in> set (selected @ [w]). g \<in> set (wk_gpu_uuids v))" for g
  proof (cases "g \<in> set (wk_gpu_uuids w)")
    case True
    with wake_vram_safe [OF assms(7,2) _ w ids] assms(4,5) show ?thesis
      by (simp add: gpu_resident_states_def)
  next
    case False
    with g assms(1) have "vram_safe cfg ?P g" by (auto simp: wake_inv_def)
    moreover have "\<forall>v \<in> set ?P. wk_id v \<in> {wk_id w} \<longrightarrow> g \<notin> set (wk_gpu_uuids v)"
      using inj w False by (auto dest: inj_onD)
    ultimately show ?thesis by (simp only: set_states_elsewhere)
  qed
  with assms(1,5,6) show ?thesis
    by (auto simp: wake_inv_def set_states_insert)
qed

lemma cached_wakes_loop_inv:
  assumes "cfg_ok cfg" "distinct (map wk_id live)"
    "\<forall>w \<in> set sleeping. w \<in> set live \<and> wk_state w = SLEEPING"
    "wake_inv cfg live sleeping selected" "list_all (\<lambda>w. set (wk_gpu_uuids w) \<subseteq> all_gpus) selected"
    "set remaining \<subseteq> {w \<in> set sleeping. wk_id w \<notin> set (map wk_id selected)}"
    "projected = set_states (set (map wk_id selected)) WAKING live"
    "int (length selected) \<le> max 0 limit"
  shows "wake_inv cfg live sleeping (cached_wakes_loop cfg all_gpus limit selected remaining projected)
    \<and> list_all (\<lambda>w. set (wk_gpu_uuids w) \<subseteq> all_gpus)
        (cached_wakes_loop cfg all_gpus limit selected remaining projected)
    \<and> int (length (cached_wakes_loop cfg all_gpus limit selected remaining projected)) \<le> max 0 limit"
  using assms
proof (induction cfg all_gpus limit selected remaining projected rule: cached_wakes_loop.induct)
  case (1 cfg all_gpus limit selected remaining projected)
  note rec = cached_wakes_loop.simps [of cfg all_gpus limit selected remaining projected]
  show ?case
  proof (cases "remaining \<noteq> [] \<and> int (length selected) < limit")
    case False
    then have "cached_wakes_loop cfg all_gpus limit selected remaining projected = selected"
      by (subst rec) (rule if_not_P)
    with "1.prems"(4,5,8) show ?thesis by simp
  next
    case cond: True
    show ?thesis
    proof (cases "first_cached_wake cfg remaining all_gpus projected")
      case None
      with cond rec "1.prems"(4,5,8) show ?thesis by simp
    next
      case (Some wake)
      note w = first_cached_wake_SomeD [OF Some]
      have wake: "wake \<in> set sleeping" "wk_id wake \<notin> set (map wk_id selected)"
        using w(1) "1.prems"(6) by auto
      have fits: "cached_prism_fits cfg (wk_profile wake) (wk_gpu_uuids wake)
          (set_states (set (map wk_id selected)) WAKING live) (Some (wk_id wake)) {}"
        using w(3) "1.prems"(7) by simp
      have proj: "map (\<lambda>w. if wk_id w = wk_id wake then w\<lparr>wk_state := WAKING\<rparr> else w) projected
          = set_states (set (map wk_id (selected @ [wake]))) WAKING live"
        using set_states_insert [of "wk_id wake" WAKING "set (map wk_id selected)" live] "1.prems"(7)
        by (simp add: set_states_def)
      have inv: "wake_inv cfg live sleeping (selected @ [wake])"
        by (rule wake_inv_step [OF "1.prems"(4,1,2,3) wake fits])
      have "wake_inv cfg live sleeping (cached_wakes_loop cfg all_gpus limit (selected @ [wake])
            [w \<leftarrow> remaining. wk_id w \<noteq> wk_id wake]
            (map (\<lambda>w. if wk_id w = wk_id wake then w\<lparr>wk_state := WAKING\<rparr> else w) projected))
        \<and> list_all (\<lambda>w. set (wk_gpu_uuids w) \<subseteq> all_gpus)
          (cached_wakes_loop cfg all_gpus limit (selected @ [wake])
            [w \<leftarrow> remaining. wk_id w \<noteq> wk_id wake]
            (map (\<lambda>w. if wk_id w = wk_id wake then w\<lparr>wk_state := WAKING\<rparr> else w) projected))
        \<and> int (length (cached_wakes_loop cfg all_gpus limit (selected @ [wake])
            [w \<leftarrow> remaining. wk_id w \<noteq> wk_id wake]
            (map (\<lambda>w. if wk_id w = wk_id wake then w\<lparr>wk_state := WAKING\<rparr> else w) projected)))
          \<le> max 0 limit"
        using w(2) "1.prems"(5,6) cond
        by (intro "1.IH" [OF cond Some "1.prems"(1,2,3) inv _ _ proj]) auto
      with cond Some rec show ?thesis by simp
    qed
  qed
qed

lemma cached_wakes_spec:
  assumes "cfg_ok cfg" "distinct (map wk_id live)"
    "\<forall>w \<in> set sleeping. w \<in> set live \<and> wk_state w = SLEEPING"
  shows "wake_inv cfg live sleeping (cached_wakes cfg sleeping all_gpus live limit)"
    "list_all (\<lambda>w. set (wk_gpu_uuids w) \<subseteq> all_gpus) (cached_wakes cfg sleeping all_gpus live limit)"
    "int (length (cached_wakes cfg sleeping all_gpus live limit)) \<le> max 0 limit"
proof -
  have id: "set_states {} s ws = ws" for s ws by (simp add: set_states_def)
  have "wake_inv cfg live sleeping []" by (simp add: wake_inv_def id)
  then show "wake_inv cfg live sleeping (cached_wakes cfg sleeping all_gpus live limit)"
    "list_all (\<lambda>w. set (wk_gpu_uuids w) \<subseteq> all_gpus) (cached_wakes cfg sleeping all_gpus live limit)"
    "int (length (cached_wakes cfg sleeping all_gpus live limit)) \<le> max 0 limit"
    using cached_wakes_loop_inv [OF assms, of "[]" all_gpus sleeping live limit]
    by (auto simp: cached_wakes_def id)
qed

section \<open>Preemption\<close>

text \<open>A blocker whose model has waited its fair share may be drained whatever else holds.\<close>

definition starved :: "planner_cfg \<Rightarrow> datetime \<Rightarrow> queue_pressure \<Rightarrow> worker \<Rightarrow> bool" where
  "starved cfg now p w \<longleftrightarrow>
     total_seconds (now - max (qp_oldest_enqueued_at p)
       (case wk_ready_at w of None \<Rightarrow> now | Some t \<Rightarrow> t)) \<ge> pc_fair_share cfg"

definition unstarved_of ::
  "planner_cfg \<Rightarrow> datetime \<Rightarrow> queue_pressure \<Rightarrow> string set \<Rightarrow> string \<Rightarrow> worker list \<Rightarrow> worker list" where
  "unstarved_of cfg now p pressured m ws =
     [w \<leftarrow> ws. wk_model_id w = m \<and> m \<in> pressured \<and> \<not> starved cfg now p w]"

lemma drainable_scan_spec:
  "drainable_scan cfg now p pressured counts ws selected \<Longrightarrow>
     (\<forall>m. unstarved_of cfg now p pressured m ws \<noteq> [] \<longrightarrow>
        selected m + int (length (unstarved_of cfg now p pressured m ws)) + 1 \<le> counts m) \<and>
     (\<forall>m. \<forall>w \<in> set (unstarved_of cfg now p pressured m ws). residency_satisfied cfg w now)"
proof (induction ws arbitrary: selected)
  case Nil
  then show ?case by (simp add: unstarved_of_def)
next
  case (Cons w ws)
  let ?m = "wk_model_id w"
  show ?case
  proof (cases "?m \<in> pressured \<and> \<not> starved cfg now p w")
    case False
    then have "unstarved_of cfg now p pressured m (w # ws) = unstarved_of cfg now p pressured m ws" for m
      by (auto simp: unstarved_of_def)
    moreover from False Cons.prems have "drainable_scan cfg now p pressured counts ws selected"
      by (auto simp: starved_def Let_def split: if_splits)
    ultimately show ?thesis using Cons.IH by simp
  next
    case True
    with Cons.prems have t: "residency_satisfied cfg w now" "selected ?m + 2 \<le> counts ?m"
      "drainable_scan cfg now p pressured counts ws (selected(?m := selected ?m + 1))"
      by (auto simp: starved_def Let_def split: if_splits)
    have u: "unstarved_of cfg now p pressured m (w # ws) =
        (if m = ?m then w # unstarved_of cfg now p pressured m ws
         else unstarved_of cfg now p pressured m ws)" for m
      using True by (auto simp: unstarved_of_def)
    note ih = Cons.IH [OF t(3)]
    show ?thesis
      unfolding u using ih t(1,2)
      by (cases "unstarved_of cfg now p pressured ?m ws = []") auto
  qed
qed

lemma preempt_set_spec:
  assumes "preempt_set cfg now p pressured ws required = Some sel"
  shows "set sel = {w \<in> set ws. set (wk_gpu_uuids w) \<inter> set required \<noteq> {}}"
    "sel \<noteq> []" "\<forall>w \<in> set sel. wk_model_id w \<noteq> qp_model_id p \<and> wk_state w \<noteq> DRAINING"
    "\<forall>w \<in> set sel. wk_model_id w \<in> pressured"
    "unstarved_of cfg now p pressured m sel \<noteq> [] \<Longrightarrow>
       int (length (unstarved_of cfg now p pressured m sel))
         < resident_count [LOADING, READY] ws m"
proof -
  let ?b = "[w \<leftarrow> ws. set (wk_gpu_uuids w) \<inter> set required \<noteq> {}]"
  from assms have s: "\<not> list_ex (\<lambda>w. wk_model_id w = qp_model_id p) ?b"
    "\<not> list_ex (\<lambda>w. wk_model_id w \<notin> pressured) ?b" "?b \<noteq> []"
    "\<not> list_ex (\<lambda>w. wk_state w = DRAINING) ?b"
    "drainable_scan cfg now p pressured (resident_count [LOADING, READY] ws) ?b (\<lambda>_. 0)"
    "sel = sort_key (\<lambda>w. (wk_model_id w \<in> pressured,
       pf_predicted_tokens_per_second (wk_profile w))) ?b"
    by (auto simp only: preempt_set_def Let_def split: if_splits)
  have mset: "mset sel = mset ?b" by (simp add: s(6))
  then have set: "set sel = set ?b" by (rule mset_eq_setD)
  then show "set sel = {w \<in> set ws. set (wk_gpu_uuids w) \<inter> set required \<noteq> {}}" by simp
  show "sel \<noteq> []" using set s(3) by (metis set_empty)
  show "\<forall>w \<in> set sel. wk_model_id w \<noteq> qp_model_id p \<and> wk_state w \<noteq> DRAINING"
    "\<forall>w \<in> set sel. wk_model_id w \<in> pressured"
    unfolding set using s(1,2,4) by (auto simp: list_ex_iff)
  have "mset (unstarved_of cfg now p pressured m sel) = mset (unstarved_of cfg now p pressured m ?b)"
    by (simp only: unstarved_of_def mset_filter mset)
  then have len: "length (unstarved_of cfg now p pressured m sel)
      = length (unstarved_of cfg now p pressured m ?b)"
    by (rule mset_eq_length)
  assume "unstarved_of cfg now p pressured m sel \<noteq> []"
  with len have "unstarved_of cfg now p pressured m ?b \<noteq> []" by (metis length_0_conv)
  with drainable_scan_spec [OF s(5)]
  have "int (length (unstarved_of cfg now p pressured m ?b)) + 1
      \<le> resident_count [LOADING, READY] ws m" by fastforce
  with len show "int (length (unstarved_of cfg now p pressured m sel))
         < resident_count [LOADING, READY] ws m" by simp
qed

end
