(* ===== verification/Planner.thy ===== *)
theory Planner
  imports PlannerSelect
begin

text \<open>
  \<^verbatim>\<open>src/src/llm_rio/planner.py\<close>, third part: \<open>GreedyPlacementPlanner.plan\<close> and its two Prism
  variants. A plan is a function of the time, the GPUs, the workers, the pressures and the
  profiles; the \<open>for\<close> over the sorted pressures is \<open>first_some\<close> over a function of one pressure
  whose \<open>None\<close> is \<open>continue\<close> and whose \<open>Some\<close> is \<open>return\<close>. The plan without Prism can fail to
  terminate (an eligible GPU set that is empty), so it is an option, with its termination proved
  for profiles whose GPU sets are not empty.
\<close>

section \<open>What the plans share\<close>

type_synonym profile_map = "(string, placement_profile list) dict"

definition profiles_of :: "profile_map \<Rightarrow> string \<Rightarrow> placement_profile list" where
  "profiles_of d m = (case map_of d m of None \<Rightarrow> [] | Some ps \<Rightarrow> ps)"

definition worker_capacity :: "planner_cfg \<Rightarrow> worker list \<Rightarrow> rat" where
  "worker_capacity cfg ws =
     (\<Sum>w\<leftarrow>ws. pf_predicted_tokens_per_second (wk_profile w) * pc_scale_window cfg)"

definition desired_count :: "queue_pressure \<Rightarrow> rat \<Rightarrow> int" where
  "desired_count p capacity =
     min (max (qp_requests p) 1)
         (max 1 \<lceil>of_int (qp_estimated_tokens p) / max capacity 1\<rceil>)"

text \<open>\<open>if xs: return \<dots>\<close> on an optional list.\<close>

definition when_any :: "'a list option \<Rightarrow> ('a list \<Rightarrow> 'b) \<Rightarrow> 'b option" where
  "when_any xs f = (case xs of Some (x # rest) \<Rightarrow> Some (f (x # rest)) | _ \<Rightarrow> None)"

definition pressed_models :: "queue_pressure list \<Rightarrow> string set" where
  "pressed_models ps = set (map qp_model_id ps)"

definition real_pressures :: "queue_pressure list \<Rightarrow> queue_pressure list" where
  "real_pressures ps = [p \<leftarrow> ps. \<not> qp_preload p]"

definition kvcached_candidates :: "profile_map \<Rightarrow> string \<Rightarrow> placement_profile list" where
  "kvcached_candidates profiles m =
     [p \<leftarrow> profiles_of profiles m. pf_engine p = VLLM \<and> pf_memory_backend p = ''kvcached'']"

definition one_gpu :: "placement_profile list \<Rightarrow> placement_profile list" where
  "one_gpu ps = [p \<leftarrow> ps. pf_gpu_count p = 1]"

section \<open>The plan with the weight cache\<close>

record plan_env =
  pe_cfg :: planner_cfg
  pe_now :: datetime
  pe_gpus :: "string set"
  pe_live :: "worker list"
  pe_pressed :: "string set"
  pe_profiles :: profile_map

definition sleep_for ::
  "plan_env \<Rightarrow> placement_profile list \<Rightarrow> queue_pressure \<Rightarrow> worker list option \<Rightarrow> string
   \<Rightarrow> planner_action list option" where
  "sleep_for e cands p existing reason =
     when_any (choose_prism_sleep (pe_cfg e) (pe_now e) cands (pe_gpus e) (pe_live e) p
                 (pe_pressed e) existing)
       (map (\<lambda>w. SleepPlacement (wk_id w) reason))"

definition cached_idle_workers :: "plan_env \<Rightarrow> worker list" where
  "cached_idle_workers e =
     [w \<leftarrow> pe_live e. wk_state w = READY \<and> wk_model_id w \<notin> pe_pressed e \<and> wk_admitted w = {}
        \<and> total_seconds (pe_now e - wk_last_demand_at w) \<ge> pc_idle_sleep (pe_cfg e)
        \<and> residency_satisfied (pe_cfg e) w (pe_now e)]"

definition cached_preload ::
  "plan_env \<Rightarrow> placement_profile list \<Rightarrow> worker list \<Rightarrow> worker list \<Rightarrow> queue_pressure
   \<Rightarrow> planner_action list option" where
  "cached_preload e cands model_workers transitioning p =
     (if int (length model_workers) \<ge> qp_desired_workers p then None
      else if transitioning \<noteq> [] then None
      else
        (let preload_cands = (if qp_desired_workers p > 1 then one_gpu cands else cands)
         in if preload_cands = [] then None
            else case smallest_cached_prism_fitting (pe_cfg e) preload_cands (pe_gpus e) (pe_live e) of
                   Some (pr, gs) \<Rightarrow> Some [StartPlacement pr gs ''prism_preload'']
                 | None \<Rightarrow> sleep_for e preload_cands p None ''prism_weight_capacity''))"

definition wake_action :: "nat \<times> worker \<Rightarrow> planner_action" where
  "wake_action = (\<lambda>(i, w). WakePlacement (wk_id w)
     (if i = 0 then ''prism_ram_cache_hit'' else ''prism_replica_ram_cache_hit''))"

definition cached_wake_or_sleep ::
  "plan_env \<Rightarrow> worker list \<Rightarrow> queue_pressure \<Rightarrow> planner_action list option" where
  "cached_wake_or_sleep e sleeping p =
     (let capacity = Max (set (map (\<lambda>w. pf_predicted_tokens_per_second (wk_profile w)
                                          * pc_scale_window (pe_cfg e)) sleeping));
          wakes = cached_wakes (pe_cfg e) sleeping (pe_gpus e) (pe_live e) (desired_count p capacity)
      in if wakes \<noteq> [] then Some (map wake_action (enumerate 0 wakes))
         else sleep_for e (map wk_profile sleeping) p (Some sleeping) ''prism_weight_capacity'')"

definition cached_cold_start ::
  "plan_env \<Rightarrow> placement_profile list \<Rightarrow> queue_pressure \<Rightarrow> planner_action list option" where
  "cached_cold_start e cands p =
     (case smallest_cached_prism_fitting (pe_cfg e) cands (pe_gpus e) (pe_live e) of
        Some (pr, gs) \<Rightarrow> Some [StartPlacement pr gs
          (if qp_preload p then ''prism_preload'' else ''prism_cold_backlog'')]
      | None \<Rightarrow>
          (case sleep_for e cands p None ''prism_weight_capacity'' of
             Some acts \<Rightarrow> Some acts
           | None \<Rightarrow>
               if qp_preload p then None
               else when_any (choose_prism_cache_eviction (pe_cfg e) cands (pe_gpus e) (pe_live e)
                                (pe_pressed e))
                      (map (\<lambda>w. DrainPlacement (wk_id w) ''prism_ram_cache_lru''))))"

definition cached_scale_out ::
  "plan_env \<Rightarrow> placement_profile list \<Rightarrow> worker list \<Rightarrow> worker list \<Rightarrow> queue_pressure
   \<Rightarrow> planner_action list option" where
  "cached_scale_out e cands ready sleeping p =
     (if desired_count p (worker_capacity (pe_cfg e) ready) \<le> int (length ready) then None
      else if one_gpu cands = [] then None
      else case first_cached_wake (pe_cfg e) [w \<leftarrow> sleeping. pf_gpu_count (wk_profile w) = 1]
                  (pe_gpus e) (pe_live e) of
             Some w \<Rightarrow> Some [WakePlacement (wk_id w) ''prism_replica_ram_cache_hit'']
           | None \<Rightarrow>
               (case smallest_cached_prism_fitting (pe_cfg e) (one_gpu cands) (pe_gpus e)
                       (pe_live e) of
                  Some (pr, gs) \<Rightarrow>
                    if replica_has_useful_margin (pe_cfg e) pr ready
                    then Some [StartPlacement pr gs ''prism_replica_backlog'']
                    else sleep_for e (one_gpu cands) p None ''prism_replica_capacity''
                | None \<Rightarrow> sleep_for e (one_gpu cands) p None ''prism_replica_capacity''))"

definition cached_pressure :: "plan_env \<Rightarrow> queue_pressure \<Rightarrow> planner_action list option" where
  "cached_pressure e p =
     (let cands = kvcached_candidates (pe_profiles e) (qp_model_id p);
          model_workers = [w \<leftarrow> pe_live e. wk_model_id w = qp_model_id p];
          transitioning = [w \<leftarrow> model_workers.
            wk_state w \<in> set [LOADING, DRAINING, OFFLOADING, WAKING]];
          ready = [w \<leftarrow> model_workers. wk_state w = READY];
          sleeping = [w \<leftarrow> model_workers. wk_state w = SLEEPING
                        \<and> pf_id (wk_profile w) \<in> set (map pf_id cands)]
      in if cands = [] then None
         else if qp_preload p then cached_preload e cands model_workers transitioning p
         else if transitioning \<noteq> [] then None
         else if ready = []
         then if sleeping \<noteq> [] then cached_wake_or_sleep e sleeping p
              else cached_cold_start e cands p
         else cached_scale_out e cands ready sleeping p)"

definition plan_prism_weight_cache ::
  "planner_cfg \<Rightarrow> datetime \<Rightarrow> string set \<Rightarrow> worker list \<Rightarrow> queue_pressure list \<Rightarrow> profile_map
   \<Rightarrow> planner_action list" where
  "plan_prism_weight_cache cfg now all_gpus ws pressures profiles =
     (let e = \<lparr>pe_cfg = cfg, pe_now = now, pe_gpus = all_gpus,
               pe_live = [w \<leftarrow> ws. wk_state w \<notin> set [COLD, STOPPING]],
               pe_pressed = pressed_models (real_pressures pressures),
               pe_profiles = profiles\<rparr>
      in if cached_idle_workers e \<noteq> []
         then map (\<lambda>w. SleepPlacement (wk_id w) ''prism_idle_weight_cache'') (cached_idle_workers e)
         else case first_some (cached_pressure e)
                     (sort_key (\<lambda>p. (qp_preload p, qp_oldest_enqueued_at p)) pressures) of
                None \<Rightarrow> []
              | Some acts \<Rightarrow> acts)"

section \<open>The plan with resident Prism engines\<close>

definition active_states :: "runtime_state list" where
  "active_states = [LOADING, READY, DRAINING]"

definition prism_cold ::
  "plan_env \<Rightarrow> placement_profile list \<Rightarrow> queue_pressure \<Rightarrow> planner_action list option" where
  "prism_cold e cands p =
     (case smallest_prism_fitting (pe_cfg e) cands (pe_gpus e) (pe_live e) of
        Some (pr, gs) \<Rightarrow> Some [StartPlacement pr gs
          (if qp_preload p then ''prism_preload'' else ''prism_cold_backlog'')]
      | None \<Rightarrow>
          if qp_preload p then None
          else when_any (choose_prism_eviction (pe_cfg e) (pe_now e) cands (pe_gpus e) (pe_live e) p
                           (pe_pressed e))
                 (map (\<lambda>w. DrainPlacement (wk_id w) ''prism_weight_capacity'')))"

definition prism_pressure :: "plan_env \<Rightarrow> queue_pressure \<Rightarrow> planner_action list option" where
  "prism_pressure e p =
     (let model_workers = [w \<leftarrow> pe_live e. wk_model_id w = qp_model_id p
                             \<and> wk_state w \<in> set [LOADING, READY]];
          cands = kvcached_candidates (pe_profiles e) (qp_model_id p);
          ready = [w \<leftarrow> model_workers. wk_state w = READY]
      in if cands = [] then None
         else if model_workers = [] then prism_cold e cands p
         else if qp_preload p \<or> list_ex (\<lambda>w. wk_state w = LOADING) model_workers then None
         else if desired_count p (worker_capacity (pe_cfg e) ready) \<le> int (length model_workers)
         then None
         else case smallest_prism_fitting (pe_cfg e) cands (pe_gpus e) (pe_live e) of
                Some (pr, gs) \<Rightarrow>
                  if replica_has_useful_margin (pe_cfg e) pr ready
                  then Some [StartPlacement pr gs ''prism_replica_backlog'']
                  else None
              | None \<Rightarrow> None)"

definition plan_prism ::
  "planner_cfg \<Rightarrow> datetime \<Rightarrow> string set \<Rightarrow> worker list \<Rightarrow> queue_pressure list \<Rightarrow> profile_map
   \<Rightarrow> planner_action list" where
  "plan_prism cfg now all_gpus ws pressures profiles =
     (let e = \<lparr>pe_cfg = cfg, pe_now = now, pe_gpus = all_gpus,
               pe_live = [w \<leftarrow> ws. wk_state w \<in> set active_states],
               pe_pressed = pressed_models (real_pressures pressures),
               pe_profiles = profiles\<rparr>
      in case first_some (prism_pressure e)
                (sort_key (\<lambda>p. (qp_preload p, qp_oldest_enqueued_at p)) pressures) of
           None \<Rightarrow> []
         | Some acts \<Rightarrow> acts)"

section \<open>The plan without Prism\<close>

text \<open>
  One pressure of the native plan: the outer option is \<open>None\<close> when filling the free GPUs never
  ends, the inner one is \<open>None\<close> for \<open>continue\<close>.
\<close>

definition preempt_for ::
  "plan_env \<Rightarrow> placement_profile list \<Rightarrow> queue_pressure \<Rightarrow> string \<Rightarrow> planner_action list option" where
  "preempt_for e cands p reason =
     when_any (choose_preemption (pe_cfg e) (pe_now e) cands (pe_live e) p (pe_pressed e))
       (map (\<lambda>w. DrainPlacement (wk_id w) reason))"

definition native_cold ::
  "plan_env \<Rightarrow> placement_profile list \<Rightarrow> queue_pressure \<Rightarrow> planner_action list option option" where
  "native_cold e cands p =
     (case maximum_smallest_placements cands (pe_gpus e) of
        None \<Rightarrow> None
      | Some starts \<Rightarrow>
          Some (if starts \<noteq> []
                then Some (map (\<lambda>(pr, gs). StartPlacement pr gs ''cold_backlog'') starts)
                else preempt_for e cands p ''incompatible_backlog''))"

definition native_scale_out ::
  "plan_env \<Rightarrow> placement_profile list \<Rightarrow> worker list \<Rightarrow> worker list \<Rightarrow> queue_pressure
   \<Rightarrow> planner_action list option option" where
  "native_scale_out e cands model_workers ready p =
     (let desired = desired_count p (worker_capacity (pe_cfg e) ready)
      in if desired \<le> int (length model_workers) then Some None
         else case maximum_smallest_placements (one_gpu cands) (pe_gpus e) of
                None \<Rightarrow> None
              | Some starts \<Rightarrow>
                  (let useful = [s \<leftarrow> take (nat (max 0 (desired - int (length model_workers)))) starts.
                                   replica_has_useful_margin (pe_cfg e) (fst s) ready]
                   in Some (if useful \<noteq> []
                            then Some (map (\<lambda>(pr, gs). StartPlacement pr gs ''replica_backlog'') useful)
                            else if starts = [] then preempt_for e cands p ''replica_capacity''
                            else None)))"

definition native_pressure ::
  "plan_env \<Rightarrow> queue_pressure \<Rightarrow> planner_action list option option" where
  "native_pressure e p =
     (let model_workers = [w \<leftarrow> pe_live e. wk_model_id w = qp_model_id p
                             \<and> wk_state w \<in> set [LOADING, READY]];
          cands = profiles_of (pe_profiles e) (qp_model_id p);
          ready = [w \<leftarrow> model_workers. wk_state w = READY]
      in if cands = [] then Some None
         else if model_workers = [] then native_cold e cands p
         else if ready = [] \<or> one_gpu cands = [] then Some None
         else native_scale_out e cands model_workers ready p)"

fun native_loop :: "plan_env \<Rightarrow> queue_pressure list \<Rightarrow> planner_action list option" where
  "native_loop e [] = Some []"
| "native_loop e (p # ps) =
     (case native_pressure e p of
        None \<Rightarrow> None
      | Some None \<Rightarrow> native_loop e ps
      | Some (Some acts) \<Rightarrow> Some acts)"

definition native_idle_workers :: "plan_env \<Rightarrow> worker list" where
  "native_idle_workers e =
     [w \<leftarrow> pe_live e. wk_state w = READY \<and> wk_model_id w \<notin> pe_pressed e \<and> wk_admitted w = {}
        \<and> total_seconds (pe_now e - wk_last_demand_at w) \<ge> pc_wait_duration (pe_cfg e)
        \<and> residency_satisfied (pe_cfg e) w (pe_now e)]"

text \<open>\<open>pe_gpus\<close> is the set of free GPUs here.\<close>

definition plan_native ::
  "planner_cfg \<Rightarrow> datetime \<Rightarrow> string set \<Rightarrow> worker list \<Rightarrow> queue_pressure list \<Rightarrow> profile_map
   \<Rightarrow> planner_action list option" where
  "plan_native cfg now all_gpus ws pressures profiles =
     (let active = [w \<leftarrow> ws. wk_state w \<in> set active_states];
          e = \<lparr>pe_cfg = cfg, pe_now = now,
               pe_gpus = all_gpus - set (concat (map wk_gpu_uuids active)),
               pe_live = active, pe_pressed = pressed_models pressures, pe_profiles = profiles\<rparr>
      in if native_idle_workers e \<noteq> []
         then Some (map (\<lambda>w. DrainPlacement (wk_id w) ''idle_timeout'') (native_idle_workers e))
         else native_loop e (sort_key qp_oldest_enqueued_at pressures))"

definition plan ::
  "planner_cfg \<Rightarrow> datetime \<Rightarrow> string set \<Rightarrow> worker list \<Rightarrow> queue_pressure list \<Rightarrow> profile_map
   \<Rightarrow> planner_action list option" where
  "plan cfg now all_gpus ws pressures profiles =
     (if pc_prism_enabled cfg
      then if pc_weight_cache_enabled cfg
           then Some (plan_prism_weight_cache cfg now all_gpus ws pressures profiles)
           else Some (plan_prism cfg now all_gpus ws pressures profiles)
      else plan_native cfg now all_gpus ws pressures profiles)"

section \<open>What one pressure of the weight-cache plan answers\<close>

lemma when_any_SomeD:
  "when_any xs f = Some y \<Longrightarrow> \<exists>sel. xs = Some sel \<and> sel \<noteq> [] \<and> y = f sel"
  by (auto simp: when_any_def split: option.splits list.splits)

inductive cached_outcome :: "plan_env \<Rightarrow> queue_pressure \<Rightarrow> planner_action list \<Rightarrow> bool"
  for e :: plan_env and p :: queue_pressure where
  start: "pr \<in> set (kvcached_candidates (pe_profiles e) (qp_model_id p)) \<Longrightarrow>
    gs \<in> set (pf_eligible_gpu_sets pr) \<Longrightarrow> set gs \<subseteq> pe_gpus e \<Longrightarrow>
    cached_prism_fits (pe_cfg e) pr gs (pe_live e) None {} \<Longrightarrow>
    cached_outcome e p [StartPlacement pr gs reason]"
| sleep: "choose_prism_sleep (pe_cfg e) (pe_now e) cands (pe_gpus e) (pe_live e) p (pe_pressed e)
      existing = Some sel \<Longrightarrow> sel \<noteq> [] \<Longrightarrow>
    cached_outcome e p (map (\<lambda>w. SleepPlacement (wk_id w) reason) sel)"
| wake: "\<not> qp_preload p \<Longrightarrow> set sleeping \<subseteq> {w \<in> set (pe_live e). wk_state w = SLEEPING} \<Longrightarrow>
    wakes = cached_wakes (pe_cfg e) sleeping (pe_gpus e) (pe_live e) limit \<Longrightarrow> wakes \<noteq> [] \<Longrightarrow>
    cached_outcome e p (map wake_action (enumerate 0 wakes))"
| wake_one: "\<not> qp_preload p \<Longrightarrow> set sleeping \<subseteq> {w \<in> set (pe_live e). wk_state w = SLEEPING} \<Longrightarrow>
    first_cached_wake (pe_cfg e) sleeping (pe_gpus e) (pe_live e) = Some w \<Longrightarrow>
    cached_outcome e p [WakePlacement (wk_id w) reason]"
| evict: "\<not> qp_preload p \<Longrightarrow>
    choose_prism_cache_eviction (pe_cfg e) cands (pe_gpus e) (pe_live e) (pe_pressed e) = Some sel \<Longrightarrow>
    sel \<noteq> [] \<Longrightarrow>
    cached_outcome e p (map (\<lambda>w. DrainPlacement (wk_id w) reason) sel)"

lemma one_gpu_subset: "set (one_gpu ps) \<subseteq> set ps"
  by (auto simp: one_gpu_def)

lemma cached_start_outcome:
  assumes "smallest_cached_prism_fitting (pe_cfg e) cands (pe_gpus e) (pe_live e) = Some (pr, gs)"
    "set cands \<subseteq> set (kvcached_candidates (pe_profiles e) (qp_model_id p))"
  shows "cached_outcome e p [StartPlacement pr gs reason]"
  using cached_shape.found [of "(pe_cfg e, pe_gpus e, pe_live e)" cands pr gs] assms
  by (auto intro: cached_outcome.start)

lemma sleep_for_outcome: "sleep_for e cands p existing reason = Some acts \<Longrightarrow> cached_outcome e p acts"
  unfolding sleep_for_def by (drule when_any_SomeD) (auto intro: cached_outcome.sleep)

lemma cached_preload_outcome:
  assumes "cached_preload e cands mw tr p = Some acts"
    "set cands \<subseteq> set (kvcached_candidates (pe_profiles e) (qp_model_id p))"
  shows "cached_outcome e p acts"
proof -
  define c where "c = (if qp_desired_workers p > 1 then one_gpu cands else cands)"
  have sub: "set c \<subseteq> set (kvcached_candidates (pe_profiles e) (qp_model_id p))"
    using assms(2) one_gpu_subset [of cands] by (auto simp: c_def)
  have "(\<exists>pr gs. smallest_cached_prism_fitting (pe_cfg e) c (pe_gpus e) (pe_live e) = Some (pr, gs) \<and>
      acts = [StartPlacement pr gs ''prism_preload''])
    \<or> sleep_for e c p None ''prism_weight_capacity'' = Some acts"
    using assms(1) by (auto simp: cached_preload_def c_def [symmetric] split: if_splits option.splits)
  with sub show ?thesis by (auto intro: cached_start_outcome sleep_for_outcome)
qed

lemma cached_wake_or_sleep_outcome:
  assumes "cached_wake_or_sleep e sleeping p = Some acts" "\<not> qp_preload p"
    "set sleeping \<subseteq> {w \<in> set (pe_live e). wk_state w = SLEEPING}"
  shows "cached_outcome e p acts"
  using assms cached_outcome.wake [OF assms(2,3) refl]
  by (auto simp: cached_wake_or_sleep_def Let_def split: if_splits intro: sleep_for_outcome)

lemma cached_cold_start_outcome:
  assumes "cached_cold_start e cands p = Some acts"
    "set cands \<subseteq> set (kvcached_candidates (pe_profiles e) (qp_model_id p))"
  shows "cached_outcome e p acts"
  using assms
  by (auto simp: cached_cold_start_def split: option.splits prod.splits if_splits
      dest!: when_any_SomeD intro: cached_start_outcome sleep_for_outcome cached_outcome.evict)

lemma cached_scale_out_outcome:
  assumes "cached_scale_out e cands ready sleeping p = Some acts" "\<not> qp_preload p"
    "set cands \<subseteq> set (kvcached_candidates (pe_profiles e) (qp_model_id p))"
    "set sleeping \<subseteq> {w \<in> set (pe_live e). wk_state w = SLEEPING}"
  shows "cached_outcome e p acts"
proof -
  have sub: "set (one_gpu cands) \<subseteq> set (kvcached_candidates (pe_profiles e) (qp_model_id p))"
    using assms(3) one_gpu_subset by force
  have sl: "set [w \<leftarrow> sleeping. pf_gpu_count (wk_profile w) = 1]
      \<subseteq> {w \<in> set (pe_live e). wk_state w = SLEEPING}" using assms(4) by auto
  from assms(1) sub cached_outcome.wake_one [OF assms(2) sl] show ?thesis
    by (auto simp: cached_scale_out_def split: option.splits prod.splits if_splits
        intro: cached_start_outcome sleep_for_outcome)
qed

lemma cached_pressure_outcome:
  assumes "cached_pressure e p = Some acts"
  shows "cached_outcome e p acts"
proof -
  let ?sl = "[w \<leftarrow> [w \<leftarrow> pe_live e. wk_model_id w = qp_model_id p]. wk_state w = SLEEPING
      \<and> pf_id (wk_profile w)
        \<in> set (map pf_id (kvcached_candidates (pe_profiles e) (qp_model_id p)))]"
  have sl: "set ?sl \<subseteq> {w \<in> set (pe_live e). wk_state w = SLEEPING}" by auto
  let ?c = "kvcached_candidates (pe_profiles e) (qp_model_id p)"
  from assms consider mw tr where "cached_preload e ?c mw tr p = Some acts"
    | "\<not> qp_preload p" "cached_wake_or_sleep e ?sl p = Some acts"
    | "cached_cold_start e ?c p = Some acts"
    | ready where "\<not> qp_preload p" "cached_scale_out e ?c ready ?sl p = Some acts"
    by (auto simp only: cached_pressure_def Let_def split: if_split_asm)
  then show ?thesis
  proof cases
    case 1
    then show ?thesis by (rule cached_preload_outcome) simp
  next
    case 2
    show ?thesis by (rule cached_wake_or_sleep_outcome [OF 2(2,1) sl])
  next
    case 3
    then show ?thesis by (rule cached_cold_start_outcome) simp
  next
    case 4
    show ?thesis by (rule cached_scale_out_outcome [OF 4(2,1) subset_refl sl])
  qed
qed

section \<open>The effect of a plan on the GPUs\<close>

text \<open>
  What an action has done when the supervisor has carried it out: a start adds a loading worker,
  a wake begins, a sleep begins its offload, a drained idle worker is stopped.
\<close>

fun apply_action :: "string \<Rightarrow> datetime \<Rightarrow> worker list \<Rightarrow> planner_action \<Rightarrow> worker list" where
  "apply_action wid now ws (StartPlacement p gs reason) = ws @ [new_worker wid p gs 0 now]"
| "apply_action wid now ws (DrainPlacement i reason) = set_states {i} COLD ws"
| "apply_action wid now ws (SleepPlacement i reason) = set_states {i} OFFLOADING ws"
| "apply_action wid now ws (WakePlacement i reason) = set_states {i} WAKING ws"

definition apply_actions ::
  "string \<Rightarrow> datetime \<Rightarrow> worker list \<Rightarrow> planner_action list \<Rightarrow> worker list" where
  "apply_actions wid now ws acts = foldl (apply_action wid now) ws acts"

lemma foldl_set_states:
  "foldl (\<lambda>acc w. set_states {wk_id w} s acc) (set_states ids s ws) sel
     = set_states (ids \<union> set (map wk_id sel)) s ws"
  by (induction sel arbitrary: ids) (simp_all add: set_states_insert)

lemma set_states_empty [simp]: "set_states {} s ws = ws"
  by (simp add: set_states_def)

lemma apply_map:
  "apply_actions wid now ws (map (\<lambda>w. SleepPlacement (wk_id w) r) sel)
     = set_states (set (map wk_id sel)) OFFLOADING ws"
  "apply_actions wid now ws (map (\<lambda>w. DrainPlacement (wk_id w) r) sel)
     = set_states (set (map wk_id sel)) COLD ws"
  "apply_actions wid now ws (map wake_action (enumerate k sel))
     = set_states (set (map wk_id sel)) WAKING ws"
proof -
  show "apply_actions wid now ws (map (\<lambda>w. SleepPlacement (wk_id w) r) sel)
     = set_states (set (map wk_id sel)) OFFLOADING ws"
    using foldl_set_states [of OFFLOADING "{}" ws sel] by (simp add: apply_actions_def foldl_map)
  show "apply_actions wid now ws (map (\<lambda>w. DrainPlacement (wk_id w) r) sel)
     = set_states (set (map wk_id sel)) COLD ws"
    using foldl_set_states [of COLD "{}" ws sel] by (simp add: apply_actions_def foldl_map)
  have "foldl (apply_action wid now) acc (map wake_action (enumerate k sel))
      = foldl (\<lambda>acc w. set_states {wk_id w} WAKING acc) acc sel" for acc
    by (induction sel arbitrary: k acc) (simp_all add: wake_action_def)
  then show "apply_actions wid now ws (map wake_action (enumerate k sel))
     = set_states (set (map wk_id sel)) WAKING ws"
    using foldl_set_states [of WAKING "{}" ws sel] by (simp add: apply_actions_def)
qed

lemma resident_swap:
  assumes "wk_state w \<in> set gpu_resident_states" "s \<in> set gpu_resident_states"
  shows "on_gpu g (w\<lparr>wk_state := s\<rparr>) = on_gpu g w"
    "worker_load cfg g (w\<lparr>wk_state := s\<rparr>) = worker_load cfg g w"
    "(s \<noteq> SLEEPING) = (wk_state w \<noteq> SLEEPING)"
  using assms
  by (auto simp: gpu_resident_states_def on_gpu_def worker_load_def worker_footprint_def)

lemma set_states_resident:
  assumes "\<forall>w \<in> set ws. wk_id w \<in> ids \<longrightarrow> wk_state w \<in> set gpu_resident_states"
    "s \<in> set gpu_resident_states"
  shows "vram_safe cfg (set_states ids s ws) g = vram_safe cfg ws g"
proof -
  let ?f = "\<lambda>w. if wk_id w \<in> ids then w\<lparr>wk_state := s\<rparr> else w"
  have f: "on_gpu g (?f w) = on_gpu g w" "worker_load cfg g (?f w) = worker_load cfg g w"
    "(wk_state (?f w) \<noteq> SLEEPING) = (wk_state w \<noteq> SLEEPING)" "wk_profile (?f w) = wk_profile w"
    "is_kvcached (?f w) = is_kvcached w"
    if "w \<in> set ws" for w
    using resident_swap [OF _ assms(2), of w] assms(1) that by (auto simp: is_kvcached_def)
  have load: "gpu_load cfg (set_states ids s ws) g = gpu_load cfg ws g"
    unfolding gpu_load_def set_states_def map_map o_def using f(2)
    by (intro arg_cong [of _ _ sum_list] map_cong) auto
  have "length [w \<leftarrow> set_states ids s ws. on_gpu g w \<and> wk_state w \<noteq> SLEEPING]
      = length [w \<leftarrow> ws. on_gpu g w \<and> wk_state w \<noteq> SLEEPING]"
    "length [w \<leftarrow> set_states ids s ws. on_gpu g w] = length [w \<leftarrow> ws. on_gpu g w]"
    unfolding set_states_def filter_map o_def length_map using f(1,3)
    by (intro arg_cong [of _ _ length] filter_cong; auto)+
  moreover have "list_all (\<lambda>w. on_gpu g w \<longrightarrow> P (wk_profile w) (is_kvcached w)) (set_states ids s ws)
      = list_all (\<lambda>w. on_gpu g w \<longrightarrow> P (wk_profile w) (is_kvcached w)) ws" for P
    unfolding set_states_def list.pred_map o_def using f(1,4,5)
    by (intro list.pred_cong) auto
  from this [of "\<lambda>p k. k"] this [of "\<lambda>p k. of_int (gpu_load cfg ws g)
      \<le> of_int (gpu_total cfg g) * pf_gpu_memory_utilization p"]
  have "list_all (\<lambda>w. on_gpu g w \<longrightarrow> is_kvcached w) (set_states ids s ws)
      = list_all (\<lambda>w. on_gpu g w \<longrightarrow> is_kvcached w) ws"
    "list_all (\<lambda>w. on_gpu g w \<longrightarrow> of_int (gpu_load cfg ws g)
        \<le> of_int (gpu_total cfg g) * pf_gpu_memory_utilization (wk_profile w)) (set_states ids s ws)
      = list_all (\<lambda>w. on_gpu g w \<longrightarrow> of_int (gpu_load cfg ws g)
        \<le> of_int (gpu_total cfg g) * pf_gpu_memory_utilization (wk_profile w)) ws" by auto
  ultimately show ?thesis by (simp only: vram_safe_def load)
qed

lemma sleep_residual_nonneg: "cfg_ok cfg \<Longrightarrow> 0 \<le> sleep_residual cfg g w"
  by (auto simp: cfg_ok_def sleep_residual_def Let_def split: option.splits)

lemma length_filter_le_cong:
  "(\<And>x. x \<in> set xs \<Longrightarrow> P (f x) \<Longrightarrow> Q x) \<Longrightarrow> length (filter P (map f xs)) \<le> length (filter Q xs)"
  by (induction xs) (auto simp: le_SucI)

lemma set_states_cold:
  assumes "\<forall>w \<in> set ws. wk_id w \<in> ids \<longrightarrow> wk_state w = SLEEPING" "cfg_ok cfg" "vram_safe cfg ws g"
  shows "vram_safe cfg (set_states ids COLD ws) g"
proof -
  let ?f = "\<lambda>w. if wk_id w \<in> ids then w\<lparr>wk_state := COLD\<rparr> else w"
  have f: "on_gpu g (?f w) \<Longrightarrow> ?f w = w" for w by (auto simp: on_gpu_def)
  have le: "worker_load cfg g (?f w) \<le> worker_load cfg g w" if "w \<in> set ws" for w
    using assms(1) that sleep_residual_nonneg [OF assms(2), of g w]
    by (auto simp: worker_load_def on_gpu_def)
  have load: "gpu_load cfg (set_states ids COLD ws) g \<le> gpu_load cfg ws g"
    unfolding gpu_load_def set_states_def map_map o_def by (rule sum_list_mono) (rule le)
  have "length [w \<leftarrow> set_states ids COLD ws. on_gpu g w \<and> P w]
      \<le> length [w \<leftarrow> ws. on_gpu g w \<and> P w]" for P
    unfolding set_states_def
  proof (rule length_filter_le_cong)
    fix w assume "on_gpu g (?f w) \<and> P (?f w)"
    then show "on_gpu g w \<and> P w" using f [of w] by auto
  qed
  from this [of "\<lambda>w. True"] this [of "\<lambda>w. wk_state w \<noteq> SLEEPING"]
  have "length [w \<leftarrow> set_states ids COLD ws. on_gpu g w \<and> wk_state w \<noteq> SLEEPING]
      \<le> length [w \<leftarrow> ws. on_gpu g w \<and> wk_state w \<noteq> SLEEPING]"
    "length [w \<leftarrow> set_states ids COLD ws. on_gpu g w] \<le> length [w \<leftarrow> ws. on_gpu g w]" by simp_all
  note len = this
  have all: "list_all (\<lambda>w. on_gpu g w \<longrightarrow> P w) (set_states ids COLD ws)"
    if "list_all (\<lambda>w. on_gpu g w \<longrightarrow> P w) ws" for P
    unfolding set_states_def list.pred_map o_def
  proof (rule list.pred_mono_strong [OF that])
    fix w assume "on_gpu g w \<longrightarrow> P w"
    then show "on_gpu g (?f w) \<longrightarrow> P (?f w)" using f [of w] by metis
  qed
  have rat: "of_int (gpu_load cfg (set_states ids COLD ws) g) \<le> (of_int (gpu_load cfg ws g) :: rat)"
    using load by simp
  note v = assms(3) [unfolded vram_safe_def]
  have "list_all (\<lambda>w. on_gpu g w \<longrightarrow> of_int (gpu_load cfg (set_states ids COLD ws) g)
      \<le> of_int (gpu_total cfg g) * pf_gpu_memory_utilization (wk_profile w)) ws"
    using v rat order_trans by (auto simp: list_all_iff)
  from all [OF this] all [of is_kvcached] v load len show ?thesis
    by (simp add: vram_safe_def)
qed

lemma choose_prism_sleep_victims:
  assumes "choose_prism_sleep cfg now cands all_gpus ws p pressed existing = Some sel"
  shows "\<exists>pr gs ex. (pr, gs, ex) \<in> set (sleep_placements cands existing) \<and> set gs \<subseteq> all_gpus \<and>
    cached_prism_fits cfg pr gs ws ex (set (map wk_id sel)) \<and> sel \<noteq> [] \<and>
    set sel \<subseteq> set (prism_blockers cfg now p pressed (resident_count [READY] ws) ws gs)"
  using prism_sleep.victims [of "(cfg, now, cands, all_gpus, ws, p, pressed, existing)" sel] assms
  by auto

lemma choose_prism_sleep_ready:
  assumes "choose_prism_sleep cfg now cands all_gpus ws p pressed existing = Some sel" "w \<in> set sel"
  shows "w \<in> set ws" "wk_state w = READY" "wk_admitted w = {}" "residency_satisfied cfg w now"
    "wk_model_id w \<noteq> qp_model_id p"
  using choose_prism_sleep_victims [OF assms(1)] assms(2) by (auto simp: prism_blockers_def)

lemma choose_cache_eviction_victims:
  assumes "choose_prism_cache_eviction cfg cands all_gpus ws pressed = Some sel"
  shows "\<exists>pr gs. pr \<in> set cands \<and> gs \<in> set (pf_eligible_gpu_sets pr) \<and> set gs \<subseteq> all_gpus \<and>
    cached_prism_fits cfg pr gs [w \<leftarrow> ws. wk_id w \<notin> set (map wk_id sel)] None {} \<and> sel \<noteq> [] \<and>
    set sel \<subseteq> set (cache_evictable pressed pr ws gs)"
  using cache_eviction.victims [of "(cfg, cands, all_gpus, ws, pressed)" sel] assms
  by (auto simp: shape_places_mem)

lemma choose_cache_eviction_sleeping:
  assumes "choose_prism_cache_eviction cfg cands all_gpus ws pressed = Some sel" "w \<in> set sel"
  shows "w \<in> set ws" "wk_state w = SLEEPING" "wk_model_id w \<notin> pressed"
  using choose_cache_eviction_victims [OF assms(1)] assms(2) by (auto simp: cache_evictable_def)

lemma ids_states:
  assumes "distinct (map wk_id ws)" "set sel \<subseteq> set ws" "\<forall>w \<in> set sel. P w"
  shows "\<forall>w \<in> set ws. wk_id w \<in> set (map wk_id sel) \<longrightarrow> P w"
proof (intro ballI impI)
  fix w assume "w \<in> set ws" "wk_id w \<in> set (map wk_id sel)"
  then obtain v where v: "v \<in> set sel" "wk_id w = wk_id v" by auto
  from assms(1) have "inj_on wk_id (set ws)" by (simp only: distinct_map)
  with v \<open>w \<in> set ws\<close> assms(2) have "w = v" by (auto dest: inj_onD)
  with v assms(3) show "P w" by simp
qed

lemma outcome_vram_safe:
  assumes "cached_outcome e p acts" "cfg_ok (pe_cfg e)" "distinct (map wk_id (pe_live e))"
    "vram_safe (pe_cfg e) (pe_live e) g"
  shows "vram_safe (pe_cfg e) (apply_actions wid now (pe_live e) acts) g"
  using assms(1)
proof cases
  case (start pr gs reason)
  then have kv: "pf_engine pr = VLLM" "pf_memory_backend pr = ''kvcached''"
    by (auto simp: kvcached_candidates_def)
  let ?w = "new_worker wid pr gs 0 now"
  have w: "wk_profile ?w = pr" "wk_gpu_uuids ?w = gs" "wk_state ?w = LOADING"
    by (simp_all add: new_worker_def)
  have "vram_safe (pe_cfg e) (pe_live e @ [?w]) g"
  proof (cases "g \<in> set gs")
    case True
    show ?thesis by (rule start_vram_safe [OF start(5) assms(2) True w kv])
  next
    case False
    then have "g \<notin> set (wk_gpu_uuids ?w)" using w by simp
    from start_elsewhere [OF this] assms(4) show ?thesis by blast
  qed
  with start show ?thesis by (simp add: apply_actions_def)
next
  case (sleep cands existing sel reason)
  have "\<forall>w \<in> set (pe_live e). wk_id w \<in> set (map wk_id sel) \<longrightarrow>
      wk_state w \<in> set gpu_resident_states"
    using choose_prism_sleep_ready [OF sleep(2)]
    by (intro ids_states [OF assms(3)]) (auto simp: gpu_resident_states_def)
  from set_states_resident [OF this, of OFFLOADING] assms(4) sleep(1) show ?thesis
    by (simp add: apply_map(1) gpu_resident_states_def)
next
  case (wake sleeping wakes limit)
  have sl: "\<forall>w \<in> set sleeping. w \<in> set (pe_live e) \<and> wk_state w = SLEEPING" using wake(3) by auto
  from cached_wakes_spec(1) [OF assms(2,3) sl] wake(4)
  have "wake_inv (pe_cfg e) (pe_live e) sleeping wakes" by simp
  with assms(4) wake(1) show ?thesis by (auto simp: wake_inv_def apply_map(3))
next
  case (wake_one sleeping w reason)
  note f = first_cached_wake_SomeD [OF wake_one(4)]
  have w: "w \<in> set (pe_live e)" "wk_state w = SLEEPING" using f(1) wake_one(3) by auto
  have "vram_safe (pe_cfg e) (set_states {wk_id w} WAKING (pe_live e)) g"
  proof (cases "g \<in> set (wk_gpu_uuids w)")
    case True
    then show ?thesis
      using wake_vram_safe [OF f(3) assms(2) True w(1) assms(3) w(2)]
      by (simp add: gpu_resident_states_def)
  next
    case False
    have "\<forall>v \<in> set (pe_live e). wk_id v \<in> set (map wk_id [w]) \<longrightarrow> g \<notin> set (wk_gpu_uuids v)"
      using w False by (intro ids_states [OF assms(3)]) auto
    with assms(4) show ?thesis by (simp add: set_states_elsewhere)
  qed
  with wake_one(1) show ?thesis by (simp add: apply_actions_def)
next
  case (evict cands sel reason)
  have "\<forall>w \<in> set (pe_live e). wk_id w \<in> set (map wk_id sel) \<longrightarrow> wk_state w = SLEEPING"
    using choose_cache_eviction_sleeping [OF evict(3)] by (intro ids_states [OF assms(3)]) auto
  from set_states_cold [OF this assms(2,4)] evict(1) show ?thesis by (simp add: apply_map(2))
qed

definition live_workers :: "worker list \<Rightarrow> worker list" where
  "live_workers ws = [w \<leftarrow> ws. wk_state w \<notin> set [COLD, STOPPING]]"

definition weight_cache_env ::
  "planner_cfg \<Rightarrow> datetime \<Rightarrow> string set \<Rightarrow> worker list \<Rightarrow> queue_pressure list \<Rightarrow> profile_map
   \<Rightarrow> plan_env" where
  "weight_cache_env cfg now all_gpus ws pressures profiles =
     \<lparr>pe_cfg = cfg, pe_now = now, pe_gpus = all_gpus, pe_live = live_workers ws,
      pe_pressed = pressed_models (real_pressures pressures), pe_profiles = profiles\<rparr>"

lemma weight_cache_cases:
  assumes "plan_prism_weight_cache cfg now all_gpus ws pressures profiles = acts"
    and "e = weight_cache_env cfg now all_gpus ws pressures profiles"
  obtains "acts = map (\<lambda>w. SleepPlacement (wk_id w) ''prism_idle_weight_cache'') (cached_idle_workers e)"
    | "acts = []"
    | p where "p \<in> set pressures" "cached_outcome e p acts"
proof -
  have plan: "acts = (if cached_idle_workers e \<noteq> []
      then map (\<lambda>w. SleepPlacement (wk_id w) ''prism_idle_weight_cache'') (cached_idle_workers e)
      else case first_some (cached_pressure e)
             (sort_key (\<lambda>p. (qp_preload p, qp_oldest_enqueued_at p)) pressures) of
             None \<Rightarrow> [] | Some acts \<Rightarrow> acts)"
    by (simp only: assms(1) [symmetric] assms(2) plan_prism_weight_cache_def Let_def
        weight_cache_env_def live_workers_def)
  show thesis
  proof (cases "cached_idle_workers e \<noteq> []")
    case True
    with plan that(1) show thesis by simp
  next
    case False
    show thesis
    proof (cases "first_some (cached_pressure e)
        (sort_key (\<lambda>p. (qp_preload p, qp_oldest_enqueued_at p)) pressures)")
      case None
      with plan False that(2) show thesis by simp
    next
      case (Some x)
      from first_some_SomeD [OF Some] obtain p where "p \<in> set pressures" "cached_pressure e p = Some x"
        by auto
      with plan False Some that(3) cached_pressure_outcome show thesis by simp
    qed
  qed
qed

section \<open>The native plan\<close>

lemma disjoint_in_mono: "disjoint_in a ss \<Longrightarrow> a \<subseteq> b \<Longrightarrow> disjoint_in b ss"
proof (induction ss arbitrary: a b)
  case (Cons s ss)
  then have "disjoint_in (b - set (snd s)) ss"
    by (auto intro: Cons.IH [of "a - set (snd s)"])
  with Cons.prems show ?case by auto
qed simp

lemma disjoint_in_filter: "disjoint_in a ss \<Longrightarrow> disjoint_in a (filter P ss)"
proof (induction ss arbitrary: a)
  case (Cons s ss)
  then have "disjoint_in (a - set (snd s)) (filter P ss)" by auto
  with Cons.prems show ?case by (auto intro: disjoint_in_mono)
qed simp

lemma disjoint_in_take: "disjoint_in a ss \<Longrightarrow> disjoint_in a (take n ss)"
  by (induction ss arbitrary: a n) (auto simp: take_Cons split: nat.splits)

definition start_of :: "string \<Rightarrow> placement_profile \<times> string list \<Rightarrow> planner_action" where
  "start_of reason = (\<lambda>(pr, gs). StartPlacement pr gs reason)"

text \<open>What one pressure of the native plan answers.\<close>

inductive native_outcome :: "plan_env \<Rightarrow> queue_pressure \<Rightarrow> planner_action list \<Rightarrow> bool"
  for e :: plan_env and p :: queue_pressure where
  starts: "disjoint_in (pe_gpus e) starts \<Longrightarrow> starts \<noteq> [] \<Longrightarrow>
    \<forall>s \<in> set starts. fst s \<in> set (profiles_of (pe_profiles e) (qp_model_id p)) \<and>
      snd s \<in> set (pf_eligible_gpu_sets (fst s)) \<Longrightarrow>
    native_outcome e p (map (start_of reason) starts)"
| preempt: "choose_preemption (pe_cfg e) (pe_now e) (profiles_of (pe_profiles e) (qp_model_id p))
      (pe_live e) p (pe_pressed e) = Some sel \<Longrightarrow> sel \<noteq> [] \<Longrightarrow>
    native_outcome e p (map (\<lambda>w. DrainPlacement (wk_id w) reason) sel)"

definition native_result :: "plan_env \<Rightarrow> queue_pressure \<Rightarrow> planner_action list option option \<Rightarrow> bool" where
  "native_result e p r \<longleftrightarrow>
     (case r of None \<Rightarrow> False | Some None \<Rightarrow> True | Some (Some acts) \<Rightarrow> native_outcome e p acts)"

lemma preempt_for_result:
  assumes "cands = profiles_of (pe_profiles e) (qp_model_id p)"
  shows "native_result e p (Some (preempt_for e cands p reason))"
proof (cases "preempt_for e cands p reason")
  case (Some acts)
  then show ?thesis
    unfolding native_result_def preempt_for_def assms
    by (auto dest!: when_any_SomeD intro: native_outcome.preempt)
qed (simp add: native_result_def)

lemma native_cold_result:
  assumes "finite (pe_gpus e)" "cands = profiles_of (pe_profiles e) (qp_model_id p)"
    "shapes_nonempty cands"
  shows "native_result e p (native_cold e cands p)"
proof -
  from maximum_placements_spec [OF assms(1,3)] obtain starts where
    s: "maximum_smallest_placements cands (pe_gpus e) = Some starts"
    "disjoint_in (pe_gpus e) starts"
    "\<forall>s \<in> set starts. fst s \<in> set (smallest_shape cands) \<and> snd s \<in> set (pf_eligible_gpu_sets (fst s))"
    by blast
  show ?thesis
  proof (cases "starts = []")
    case True
    with s(1) preempt_for_result [OF assms(2)] show ?thesis by (simp add: native_cold_def)
  next
    case False
    have "native_outcome e p (map (start_of ''cold_backlog'') starts)"
      using s False assms(2) by (intro native_outcome.starts) (auto simp: smallest_shape_mem)
    with s(1) False show ?thesis by (simp add: native_cold_def native_result_def start_of_def)
  qed
qed

lemma native_scale_out_result:
  assumes "finite (pe_gpus e)" "cands = profiles_of (pe_profiles e) (qp_model_id p)"
    "shapes_nonempty cands"
  shows "native_result e p (native_scale_out e cands mw ready p)"
proof -
  have ne: "shapes_nonempty (one_gpu cands)"
    using assms(3) by (auto simp: shapes_nonempty_def one_gpu_def list_all_iff)
  from maximum_placements_spec [OF assms(1) ne] obtain starts where
    s: "maximum_smallest_placements (one_gpu cands) (pe_gpus e) = Some starts"
    "disjoint_in (pe_gpus e) starts"
    "\<forall>s \<in> set starts. fst s \<in> set (smallest_shape (one_gpu cands))
       \<and> snd s \<in> set (pf_eligible_gpu_sets (fst s))"
    by blast
  define n where
    "n = nat (max 0 (desired_count p (worker_capacity (pe_cfg e) ready) - int (length mw)))"
  define useful where
    "useful = [s \<leftarrow> take n starts. replica_has_useful_margin (pe_cfg e) (fst s) ready]"
  have d: "disjoint_in (pe_gpus e) useful"
    unfolding useful_def using s(2) by (intro disjoint_in_filter disjoint_in_take)
  have m: "\<forall>s \<in> set useful. fst s \<in> set (profiles_of (pe_profiles e) (qp_model_id p)) \<and>
      snd s \<in> set (pf_eligible_gpu_sets (fst s))"
    using s(3) assms(2) one_gpu_subset [of cands]
    by (auto simp: useful_def smallest_shape_mem dest!: in_set_takeD)
  have "native_scale_out e cands mw ready p =
    (if desired_count p (worker_capacity (pe_cfg e) ready) \<le> int (length mw) then Some None
     else Some (if useful \<noteq> [] then Some (map (start_of ''replica_backlog'') useful)
       else if starts = [] then preempt_for e cands p ''replica_capacity'' else None))"
    using s(1) by (simp add: native_scale_out_def Let_def useful_def n_def start_of_def)
  moreover have "native_result e p (Some None)" by (simp add: native_result_def)
  moreover have "useful \<noteq> [] \<Longrightarrow>
      native_result e p (Some (Some (map (start_of ''replica_backlog'') useful)))"
    using d m by (auto simp: native_result_def intro: native_outcome.starts)
  ultimately show ?thesis using preempt_for_result [OF assms(2)] by simp
qed

lemma native_pressure_result:
  assumes "finite (pe_gpus e)" "shapes_nonempty (profiles_of (pe_profiles e) (qp_model_id p))"
  shows "native_result e p (native_pressure e p)"
  unfolding native_pressure_def Let_def
  using native_cold_result [OF assms(1) refl assms(2)] native_scale_out_result [OF assms(1) refl assms(2)]
  by (simp add: native_result_def)

lemma native_loop_result:
  assumes "finite (pe_gpus e)"
    "\<forall>p \<in> set ps. shapes_nonempty (profiles_of (pe_profiles e) (qp_model_id p))"
  shows "\<exists>acts. native_loop e ps = Some acts \<and> (acts = [] \<or> (\<exists>p \<in> set ps. native_outcome e p acts))"
  using assms(2)
proof (induction ps)
  case (Cons p ps)
  from native_pressure_result [OF assms(1)] Cons.prems
  have "native_result e p (native_pressure e p)" by simp
  with Cons show ?case
    by (auto simp: native_result_def split: option.splits)
qed simp

text \<open>Which workers a preemption takes.\<close>

lemma choose_preemption_spec:
  assumes "choose_preemption cfg now cands ws p pressured = Some sel"
  shows "(\<forall>w \<in> set sel. w \<in> set ws \<and> wk_model_id w \<notin> pressured \<and> wk_admitted w = {}
        \<and> residency_satisfied cfg w now)
    \<or> (\<exists>pr gs. pr \<in> set cands \<and> gs \<in> set (pf_eligible_gpu_sets pr) \<and>
        preempt_set cfg now p pressured ws gs = Some sel)"
proof (cases "idle_blockers cfg now cands ws pressured = []")
  case False
  with assms show ?thesis by (auto simp: choose_preemption_def Let_def idle_blockers_def)
next
  case True
  with assms have "first_some (\<lambda>pr. first_some (preempt_set cfg now p pressured ws)
      (pf_eligible_gpu_sets pr)) (sort_key pf_gpu_count cands) = Some sel"
    by (simp add: choose_preemption_def)
  from first_some_SomeD [OF this] obtain pr where pr: "pr \<in> set cands"
    "first_some (preempt_set cfg now p pressured ws) (pf_eligible_gpu_sets pr) = Some sel" by auto
  from first_some_SomeD [OF pr(2)] pr(1) show ?thesis by blast
qed

section \<open>The plan with resident engines\<close>

inductive prism_outcome :: "plan_env \<Rightarrow> queue_pressure \<Rightarrow> planner_action list \<Rightarrow> bool"
  for e :: plan_env and p :: queue_pressure where
  start: "pr \<in> set (kvcached_candidates (pe_profiles e) (qp_model_id p)) \<Longrightarrow>
    gs \<in> set (pf_eligible_gpu_sets pr) \<Longrightarrow> set gs \<subseteq> pe_gpus e \<Longrightarrow>
    prism_fits (pe_cfg e) pr gs (pe_live e) \<Longrightarrow>
    prism_outcome e p [StartPlacement pr gs reason]"
| drain: "\<not> qp_preload p \<Longrightarrow>
    choose_prism_eviction (pe_cfg e) (pe_now e) cands (pe_gpus e) (pe_live e) p (pe_pressed e)
      = Some sel \<Longrightarrow> sel \<noteq> [] \<Longrightarrow>
    prism_outcome e p (map (\<lambda>w. DrainPlacement (wk_id w) reason) sel)"

lemma prism_start_outcome:
  assumes "smallest_prism_fitting (pe_cfg e) (kvcached_candidates (pe_profiles e) (qp_model_id p))
    (pe_gpus e) (pe_live e) = Some (pr, gs)"
  shows "prism_outcome e p [StartPlacement pr gs reason]"
  using prism_shape.found [of "(pe_cfg e, pe_gpus e, pe_live e)"
      "kvcached_candidates (pe_profiles e) (qp_model_id p)" pr gs] assms
  by (auto intro: prism_outcome.start)

lemma prism_pressure_outcome:
  assumes "prism_pressure e p = Some acts"
  shows "prism_outcome e p acts"
proof -
  let ?c = "kvcached_candidates (pe_profiles e) (qp_model_id p)"
  have "prism_cold e ?c p = Some acts \<or> (\<exists>pr gs reason.
      smallest_prism_fitting (pe_cfg e) ?c (pe_gpus e) (pe_live e) = Some (pr, gs) \<and>
      acts = [StartPlacement pr gs reason])"
    using assms by (auto simp: prism_pressure_def Let_def split: if_splits option.splits)
  then show ?thesis
    using prism_start_outcome
    by (auto simp: prism_cold_def split: option.splits if_splits dest!: when_any_SomeD
        intro: prism_outcome.drain)
qed

section \<open>Properties\<close>

definition demo_profile :: "string \<Rightarrow> string \<Rightarrow> string list list \<Rightarrow> int \<Rightarrow> placement_profile" where
  "demo_profile pid model sets peak =
     \<lparr>pf_id = pid, pf_model_id = model, pf_model_revision = ''r'', pf_engine = VLLM,
      pf_engine_version = ''1'', pf_machine_fingerprint = ''m'', pf_gpu_count = 1,
      pf_tensor_parallel_size = 1, pf_pipeline_parallel_size = 1, pf_eligible_gpu_sets = sets,
      pf_dtype = ''auto'', pf_quantization = None, pf_max_model_len = 4096,
      pf_max_num_seqs = None, pf_max_num_batched_tokens = None,
      pf_predicted_tokens_per_second = 100, pf_load_and_warmup_seconds = 10,
      pf_idle_vram = [peak], pf_peak_vram = [peak], pf_headroom = [0], pf_capabilities = {},
      pf_launch_args = [], pf_gpu_memory_utilization = 1, pf_kv_cache_capacity_tokens = None,
      pf_max_full_length_concurrency = None, pf_memory_backend = ''kvcached'',
      pf_sleep_vram = None, pf_offload_seconds = None, pf_activation_seconds = None\<rparr>"

definition demo_cfg :: planner_cfg where
  "demo_cfg =
     \<lparr>pc_wait_duration = 60, pc_minimum_residency = 0, pc_fair_share = 30, pc_scale_window = 30,
      pc_minimum_marginal = 0, pc_prism_enabled = True, pc_gpu_vram_mib = [(''g0'', 24000)],
      pc_reserved_vram_mib = 1000, pc_max_workers_per_gpu = 2, pc_max_cached_per_gpu = 8,
      pc_sleep_reserve_mib = 1536, pc_idle_sleep = 45, pc_weight_cache_enabled = True\<rparr>"

definition demo_worker :: "string \<Rightarrow> string \<Rightarrow> int \<Rightarrow> runtime_state \<Rightarrow> worker" where
  "demo_worker wid model peak s =
     (new_worker wid (demo_profile model model [[''g0'']] peak) [''g0''] 9000 0)\<lparr>wk_state := s\<rparr>"

definition demo_pressure :: "string \<Rightarrow> queue_pressure" where
  "demo_pressure m =
     \<lparr>qp_model_id = m, qp_requests = 1, qp_estimated_tokens = 100, qp_oldest_enqueued_at = 0,
      qp_preload = False, qp_desired_workers = 1\<rparr>"

lemmas demo_defs = demo_profile_def demo_cfg_def demo_worker_def demo_pressure_def new_worker_def



text \<open>
  What the weight-cache planner may do to whom. It starts only a kvcached vLLM profile of a
  pressed model on one of that profile's validated GPU sets, within the machine's GPUs; it puts to
  sleep only ready workers with no admitted request and their minimum residency served; it drains
  only sleeping workers of models without real pressure; it wakes only sleeping workers.
\<close>

fun action_valid :: "plan_env \<Rightarrow> queue_pressure list \<Rightarrow> planner_action \<Rightarrow> bool" where
  "action_valid e ps (StartPlacement pr gs r) \<longleftrightarrow>
     (\<exists>p \<in> set ps. pr \<in> set (kvcached_candidates (pe_profiles e) (qp_model_id p))) \<and>
     gs \<in> set (pf_eligible_gpu_sets pr) \<and> set gs \<subseteq> pe_gpus e"
| "action_valid e ps (SleepPlacement i r) \<longleftrightarrow>
     (\<exists>w \<in> set (pe_live e). wk_id w = i \<and> wk_state w = READY \<and> wk_admitted w = {}
        \<and> residency_satisfied (pe_cfg e) w (pe_now e))"
| "action_valid e ps (DrainPlacement i r) \<longleftrightarrow>
     (\<exists>w \<in> set (pe_live e). wk_id w = i \<and> wk_state w = SLEEPING
        \<and> (\<forall>p \<in> set ps. \<not> qp_preload p \<longrightarrow> wk_model_id w \<noteq> qp_model_id p))"
| "action_valid e ps (WakePlacement i r) \<longleftrightarrow>
     (\<exists>w \<in> set (pe_live e). wk_id w = i \<and> wk_state w = SLEEPING)"

lemma cached_wakes_subset: "set (cached_wakes cfg sleeping all_gpus live limit) \<subseteq> set sleeping"
proof -
  have "set (cached_wakes_loop cfg all_gpus limit sel rem pro) \<subseteq> set sel \<union> set rem" for sel rem pro
    by (induction cfg all_gpus limit sel rem pro rule: cached_wakes_loop.induct)
      (subst cached_wakes_loop.simps,
       auto split: option.splits dest: first_cached_wake_SomeD(1) subsetD)
  from this [of "[]" sleeping live] show ?thesis by (simp add: cached_wakes_def)
qed

theorem weight_cache_actions_valid:
  assumes "a \<in> set (plan_prism_weight_cache cfg now all_gpus ws pressures profiles)"
  shows "action_valid (weight_cache_env cfg now all_gpus ws pressures profiles) pressures a"
proof -
  define e where "e = weight_cache_env cfg now all_gpus ws pressures profiles"
  have pressed: "m \<in> pe_pressed e \<longleftrightarrow> (\<exists>p \<in> set pressures. \<not> qp_preload p \<and> qp_model_id p = m)" for m
    by (auto simp: e_def weight_cache_env_def pressed_models_def real_pressures_def)
  have "action_valid e pressures a"
  proof (cases rule: weight_cache_cases [OF refl e_def])
    case 1
    with assms show ?thesis by (auto simp: cached_idle_workers_def)
  next
    case 2
    with assms show ?thesis by simp
  next
    case (3 p)
    from 3(2) show ?thesis
    proof cases
      case (start pr gs reason)
      with assms 3(1) show ?thesis by auto
    next
      case (sleep cands existing sel reason)
      from assms [unfolded sleep(1)] obtain w where w: "w \<in> set sel"
        "a = SleepPlacement (wk_id w) reason" by auto
      show ?thesis
        unfolding w(2) action_valid.simps using choose_prism_sleep_ready [OF sleep(2) w(1)] by blast
    next
      case (wake sleeping wakes limit)
      from assms [unfolded wake(1)] obtain i w where "(i, w) \<in> set (enumerate 0 wakes)"
        "a = wake_action (i, w)" by auto
      then have "w \<in> set wakes" "\<exists>r. a = WakePlacement (wk_id w) r"
        by (auto simp: in_set_enumerate_eq wake_action_def)
      with wake cached_wakes_subset show ?thesis by fastforce
    next
      case (wake_one sleeping w reason)
      with assms first_cached_wake_SomeD(1) [OF wake_one(4)] show ?thesis by auto
    next
      case (evict cands sel reason)
      with assms choose_cache_eviction_sleeping [OF evict(3)] pressed show ?thesis by fastforce
    qed
  qed
  then show ?thesis by (simp add: e_def)
qed

lemma weight_cache_actions_valid_witness:
  "action_valid (weight_cache_env demo_cfg 60000000 {''g0''} [demo_worker ''w1'' ''a'' 9000 READY] [] [])
     [] (SleepPlacement ''w1'' ''prism_idle_weight_cache'')"
  by (rule weight_cache_actions_valid) code_simp

text \<open>
  C25: sleeping makes room at the least cost. When \<open>_choose_prism_sleep\<close> answers, the workers
  chosen are idle, ready, of other models, and once they sleep the wanted placement passes the fit
  test; no smaller selection of eligible blockers at any wanted placement would do. It gives up
  only when no selection does.
\<close>

theorem prism_sleep_makes_room:
  assumes "distinct (map wk_id ws)"
    and "choose_prism_sleep cfg now cands all_gpus ws p pressed existing = answer"
  shows "case answer of
      Some sel \<Rightarrow>
        (\<exists>pr gs ex. (pr, gs, ex) \<in> set (sleep_placements cands existing) \<and> set gs \<subseteq> all_gpus \<and>
           cached_prism_fits cfg pr gs (set_states (set (map wk_id sel)) SLEEPING ws) ex {}) \<and>
        (\<forall>w \<in> set sel. w \<in> set ws \<and> wk_state w = READY \<and> wk_admitted w = {} \<and>
           wk_model_id w \<noteq> qp_model_id p \<and> residency_satisfied cfg w now) \<and>
        (\<forall>(pr, gs, ex) \<in> set (sleep_placements cands existing). \<forall>sel'.
           sel' \<in> set (subseqs (prism_blockers cfg now p pressed (resident_count [READY] ws) ws gs)) \<longrightarrow>
           set gs \<subseteq> all_gpus \<longrightarrow> sel' \<noteq> [] \<longrightarrow>
           cached_prism_fits cfg pr gs ws ex (set (map wk_id sel')) \<longrightarrow> length sel \<le> length sel')
    | None \<Rightarrow>
        (\<forall>(pr, gs, ex) \<in> set (sleep_placements cands existing). \<forall>sel'.
           sel' \<in> set (subseqs (prism_blockers cfg now p pressed (resident_count [READY] ws) ws gs)) \<longrightarrow>
           set gs \<subseteq> all_gpus \<longrightarrow> sel' \<noteq> [] \<longrightarrow>
           \<not> cached_prism_fits cfg pr gs ws ex (set (map wk_id sel')))"
proof (cases answer)
  case None
  with assms(2) prism_sleep.no_victims [of "(cfg, now, cands, all_gpus, ws, p, pressed, existing)"]
  show ?thesis by fastforce
next
  case (Some sel)
  with assms(2) have ch: "choose_prism_sleep cfg now cands all_gpus ws p pressed existing = Some sel"
    by simp
  note ready = choose_prism_sleep_ready [OF ch]
  from choose_prism_sleep_victims [OF ch] obtain pr gs ex where v:
    "(pr, gs, ex) \<in> set (sleep_placements cands existing)" "set gs \<subseteq> all_gpus"
    "cached_prism_fits cfg pr gs ws ex (set (map wk_id sel))" by blast
  have "\<forall>w \<in> set ws. wk_id w \<in> set (map wk_id sel) \<longrightarrow> wk_state w \<noteq> COLD"
    using ready(1,2) by (intro ids_states [OF assms(1)]) auto
  with v(3) have "cached_prism_fits cfg pr gs (set_states (set (map wk_id sel)) SLEEPING ws) ex {}"
    by (simp only: prospective_sleep)
  moreover have "length sel \<le> length sel'"
    if "(pr', gs', ex') \<in> set (sleep_placements cands existing)"
      "sel' \<in> set (subseqs (prism_blockers cfg now p pressed (resident_count [READY] ws) ws gs'))"
      "set gs' \<subseteq> all_gpus" "sel' \<noteq> []" "cached_prism_fits cfg pr' gs' ws ex' (set (map wk_id sel'))"
    for pr' gs' ex' sel'
    using prism_sleep.fewest [of "(cfg, now, cands, all_gpus, ws, p, pressed, existing)" sel
        "(pr', gs', ex')" sel'] ch that by auto
  ultimately show ?thesis
    using Some v(1,2) ready by auto
qed

lemma prism_sleep_makes_room_witness:
  "\<exists>sel. choose_prism_sleep demo_cfg 60000000 [demo_profile ''pb'' ''b'' [[''g0'']] 20000] {''g0''}
      [demo_worker ''w1'' ''a'' 9000 READY] (demo_pressure ''b'') {} None = Some sel
    \<and> (\<exists>pr gs ex. cached_prism_fits demo_cfg pr gs
          (set_states (set (map wk_id sel)) SLEEPING [demo_worker ''w1'' ''a'' 9000 READY]) ex {})"
proof -
  have "choose_prism_sleep demo_cfg 60000000 [demo_profile ''pb'' ''b'' [[''g0'']] 20000] {''g0''}
      [demo_worker ''w1'' ''a'' 9000 READY] (demo_pressure ''b'') {} None
    = Some [demo_worker ''w1'' ''a'' 9000 READY]" by code_simp
  from prism_sleep_makes_room [OF _ this] this show ?thesis by auto
qed

text \<open>
  Preload work never evicts. For a preload pressure the weight-cache planner starts a worker or
  puts idle workers to sleep; it never drains one and never wakes one.
\<close>

theorem preload_never_drains_or_wakes:
  assumes "cached_pressure e p = Some acts" "qp_preload p"
  shows "(\<exists>pr gs r. acts = [StartPlacement pr gs r]) \<or>
    (\<forall>a \<in> set acts. \<exists>w r. a = SleepPlacement (wk_id w) r \<and> w \<in> set (pe_live e) \<and>
       wk_state w = READY \<and> wk_admitted w = {})"
  using cached_pressure_outcome [OF assms(1)]
proof cases
  case (sleep cands existing sel reason)
  then show ?thesis using choose_prism_sleep_ready [OF sleep(2)] by fastforce
qed (use assms(2) in auto)

lemma preload_never_drains_or_wakes_witness:
  "\<exists>acts. cached_pressure (weight_cache_env demo_cfg 60000000 {''g0''} [] []
      [(''b'', [demo_profile ''pb'' ''b'' [[''g0'']] 20000])])
      ((demo_pressure ''b'')\<lparr>qp_preload := True\<rparr>) = Some acts \<and>
    (\<exists>pr gs r. acts = [StartPlacement pr gs r])"
proof -
  have "cached_pressure (weight_cache_env demo_cfg 60000000 {''g0''} [] []
      [(''b'', [demo_profile ''pb'' ''b'' [[''g0'']] 20000])])
      ((demo_pressure ''b'')\<lparr>qp_preload := True\<rparr>)
    = Some [StartPlacement (demo_profile ''pb'' ''b'' [[''g0'']] 20000) [''g0''] ''prism_preload'']"
    by code_simp
  from preload_never_drains_or_wakes [OF this] this show ?thesis by (auto simp: demo_pressure_def)
qed

text \<open>
  The RAM cache gives way to real demand only. The workers \<open>_choose_prism_cache_eviction\<close>
  answers with are sleeping and of models without real pressure, without them the wanted placement
  passes the fit test, and no fewer sleeping workers would have been enough.
\<close>

theorem cache_eviction_makes_room:
  assumes "choose_prism_cache_eviction cfg cands all_gpus ws pressed = Some sel"
  shows "(\<exists>pr gs. pr \<in> set cands \<and> gs \<in> set (pf_eligible_gpu_sets pr) \<and> set gs \<subseteq> all_gpus \<and>
      cached_prism_fits cfg pr gs [w \<leftarrow> ws. wk_id w \<notin> set (map wk_id sel)] None {}) \<and>
    (\<forall>w \<in> set sel. w \<in> set ws \<and> wk_state w = SLEEPING \<and> wk_model_id w \<notin> pressed) \<and>
    (\<forall>pr \<in> set cands. \<forall>gs \<in> set (pf_eligible_gpu_sets pr). \<forall>sel'.
      sel' \<in> set (subseqs (cache_evictable pressed pr ws gs)) \<longrightarrow> set gs \<subseteq> all_gpus \<longrightarrow> sel' \<noteq> [] \<longrightarrow>
      cached_prism_fits cfg pr gs [w \<leftarrow> ws. wk_id w \<notin> set (map wk_id sel')] None {} \<longrightarrow>
      length sel \<le> length sel')"
proof (intro conjI)
  show "\<exists>pr gs. pr \<in> set cands \<and> gs \<in> set (pf_eligible_gpu_sets pr) \<and> set gs \<subseteq> all_gpus \<and>
      cached_prism_fits cfg pr gs [w \<leftarrow> ws. wk_id w \<notin> set (map wk_id sel)] None {}"
    using choose_cache_eviction_victims [OF assms] by blast
  show "\<forall>w \<in> set sel. w \<in> set ws \<and> wk_state w = SLEEPING \<and> wk_model_id w \<notin> pressed"
    using choose_cache_eviction_sleeping [OF assms] by blast
  show "\<forall>pr \<in> set cands. \<forall>gs \<in> set (pf_eligible_gpu_sets pr). \<forall>sel'.
      sel' \<in> set (subseqs (cache_evictable pressed pr ws gs)) \<longrightarrow> set gs \<subseteq> all_gpus \<longrightarrow> sel' \<noteq> [] \<longrightarrow>
      cached_prism_fits cfg pr gs [w \<leftarrow> ws. wk_id w \<notin> set (map wk_id sel')] None {} \<longrightarrow>
      length sel \<le> length sel'"
    using cache_eviction.fewest [of "(cfg, cands, all_gpus, ws, pressed)" sel] assms
    by (auto simp: shape_places_mem)
qed

lemma cache_eviction_makes_room_witness:
  "\<exists>pr gs. pr \<in> set [demo_profile ''pb'' ''b'' [[''g0'']] 20000] \<and> gs \<in> set (pf_eligible_gpu_sets pr) \<and>
    cached_prism_fits (demo_cfg\<lparr>pc_max_cached_per_gpu := 1\<rparr>) pr gs
      [w \<leftarrow> [demo_worker ''w1'' ''a'' 9000 SLEEPING].
         wk_id w \<notin> set (map wk_id [demo_worker ''w1'' ''a'' 9000 SLEEPING])] None {}"
proof -
  have "choose_prism_cache_eviction (demo_cfg\<lparr>pc_max_cached_per_gpu := 1\<rparr>)
      [demo_profile ''pb'' ''b'' [[''g0'']] 20000] {''g0''}
      [demo_worker ''w1'' ''a'' 9000 SLEEPING] {} = Some [demo_worker ''w1'' ''a'' 9000 SLEEPING]"
    by code_simp
  from cache_eviction_makes_room [OF this] show ?thesis by blast
qed

text \<open>
  The plan without Prism terminates (when every validated GPU set is non-empty), and what it
  starts can be started: the GPU sets of its starts are validated sets of profiles of one pressed
  model, disjoint from each other, and inside the machine's GPUs that no loading, ready or
  draining worker holds.
\<close>

definition starts_of :: "planner_action list \<Rightarrow> (placement_profile \<times> string list) list" where
  "starts_of acts = concat (map (\<lambda>a. case a of StartPlacement p gs r \<Rightarrow> [(p, gs)] | _ \<Rightarrow> []) acts)"

lemma starts_of_starts: "starts_of (map (start_of r) starts) = starts"
  by (induction starts) (auto simp: starts_of_def start_of_def)

lemma starts_of_drains: "starts_of (map (\<lambda>w. DrainPlacement (wk_id w) r) ws) = []"
  by (induction ws) (auto simp: starts_of_def)

definition free_gpus :: "string set \<Rightarrow> worker list \<Rightarrow> string set" where
  "free_gpus all_gpus ws =
     {g \<in> all_gpus. \<forall>w \<in> set ws. wk_state w \<in> set active_states \<longrightarrow> g \<notin> set (wk_gpu_uuids w)}"

theorem native_plan_terminates_disjoint:
  assumes "finite all_gpus" "\<forall>p \<in> set pressures. shapes_nonempty (profiles_of profiles (qp_model_id p))"
  shows "\<exists>acts. plan_native cfg now all_gpus ws pressures profiles = Some acts \<and>
    disjoint_in (free_gpus all_gpus ws) (starts_of acts) \<and>
    (starts_of acts \<noteq> [] \<longrightarrow> (\<exists>p \<in> set pressures. \<forall>s \<in> set (starts_of acts).
       fst s \<in> set (profiles_of profiles (qp_model_id p)) \<and>
       snd s \<in> set (pf_eligible_gpu_sets (fst s))))"
proof -
  define e where "e = \<lparr>pe_cfg = cfg, pe_now = now, pe_gpus = free_gpus all_gpus ws,
    pe_live = [w \<leftarrow> ws. wk_state w \<in> set active_states], pe_pressed = pressed_models pressures,
    pe_profiles = profiles\<rparr>"
  have "free_gpus all_gpus ws = all_gpus -
      set (concat (map wk_gpu_uuids [w \<leftarrow> ws. wk_state w \<in> set active_states]))"
    by (auto simp: free_gpus_def)
  then have plan: "plan_native cfg now all_gpus ws pressures profiles =
    (if native_idle_workers e \<noteq> []
     then Some (map (\<lambda>w. DrainPlacement (wk_id w) ''idle_timeout'') (native_idle_workers e))
     else native_loop e (sort_key qp_oldest_enqueued_at pressures))"
    by (simp only: plan_native_def Let_def e_def)
  have fin: "finite (pe_gpus e)" using assms(1) by (simp add: e_def free_gpus_def)
  have "\<forall>p \<in> set (sort_key qp_oldest_enqueued_at pressures).
      shapes_nonempty (profiles_of (pe_profiles e) (qp_model_id p))"
    using assms(2) by (simp add: e_def)
  from native_loop_result [OF fin this] obtain acts where
    l: "native_loop e (sort_key qp_oldest_enqueued_at pressures) = Some acts"
    "acts = [] \<or> (\<exists>p \<in> set pressures. native_outcome e p acts)" by auto
  show ?thesis
  proof (cases "native_idle_workers e \<noteq> []")
    case True
    with plan show ?thesis by (auto simp: starts_of_drains)
  next
    case False
    from l(2) have "disjoint_in (free_gpus all_gpus ws) (starts_of acts) \<and>
      (starts_of acts \<noteq> [] \<longrightarrow> (\<exists>p \<in> set pressures. \<forall>s \<in> set (starts_of acts).
         fst s \<in> set (profiles_of profiles (qp_model_id p)) \<and>
         snd s \<in> set (pf_eligible_gpu_sets (fst s))))"
    proof
      assume "acts = []"
      then show ?thesis by (simp add: starts_of_def)
    next
      assume "\<exists>p \<in> set pressures. native_outcome e p acts"
      then obtain p where p: "p \<in> set pressures" "native_outcome e p acts" by blast
      from p(2) show ?thesis
      proof cases
        case (starts ss reason)
        with p(1) show ?thesis by (auto simp: starts_of_starts e_def)
      next
        case (preempt sel reason)
        then show ?thesis by (simp add: starts_of_drains)
      qed
    qed
    with plan False l(1) show ?thesis by simp
  qed
qed

lemma native_plan_terminates_disjoint_witness:
  "\<exists>acts. plan_native demo_cfg 0 {''g0''} [] [demo_pressure ''b'']
      [(''b'', [demo_profile ''pb'' ''b'' [[''g0'']] 9000])] = Some acts \<and>
    disjoint_in (free_gpus {''g0''} []) (starts_of acts)"
proof -
  have "\<forall>p \<in> set [demo_pressure ''b'']. shapes_nonempty
      (profiles_of [(''b'', [demo_profile ''pb'' ''b'' [[''g0'']] 9000])] (qp_model_id p))"
    by code_simp
  from native_plan_terminates_disjoint [OF _ this, of "{''g0''}" demo_cfg 0 "[]"]
  show ?thesis by blast
qed

text \<open>
  Preemption without Prism is not partial and not greedy. It either takes workers without
  demand, idle and past their minimum residency, or it frees a whole validated GPU set of the
  waiting model: every worker on the set is drained, none was already draining or serves the
  waiting model, and a model with demand keeps a loading or ready worker unless the waiting one has
  starved beyond its fair share.
\<close>

theorem preemption_frees_a_whole_set:
  assumes "choose_preemption cfg now cands ws p pressured = Some sel"
  shows "(\<forall>w \<in> set sel. w \<in> set ws \<and> wk_model_id w \<notin> pressured \<and> wk_admitted w = {}
        \<and> residency_satisfied cfg w now)
    \<or> (\<exists>pr \<in> set cands. \<exists>gs \<in> set (pf_eligible_gpu_sets pr).
        set sel = {w \<in> set ws. set (wk_gpu_uuids w) \<inter> set gs \<noteq> {}} \<and>
        (\<forall>w \<in> set sel. wk_model_id w \<noteq> qp_model_id p \<and> wk_state w \<noteq> DRAINING) \<and>
        (\<forall>m. unstarved_of cfg now p pressured m sel \<noteq> [] \<longrightarrow>
           int (length (unstarved_of cfg now p pressured m sel))
             < resident_count [LOADING, READY] ws m))"
  using choose_preemption_spec [OF assms]
proof
  assume "\<exists>pr gs. pr \<in> set cands \<and> gs \<in> set (pf_eligible_gpu_sets pr) \<and>
    preempt_set cfg now p pressured ws gs = Some sel"
  then obtain pr gs where "pr \<in> set cands" "gs \<in> set (pf_eligible_gpu_sets pr)"
    "preempt_set cfg now p pressured ws gs = Some sel" by blast
  with preempt_set_spec [of cfg now p pressured ws gs sel] show ?thesis by blast
qed blast

lemma preemption_frees_a_whole_set_witness:
  "\<exists>gs. set [(demo_worker ''w1'' ''a'' 9000 READY)\<lparr>wk_ready_at := Some 0\<rparr>]
    = {w \<in> set [(demo_worker ''w1'' ''a'' 9000 READY)\<lparr>wk_ready_at := Some 0\<rparr>].
         set (wk_gpu_uuids w) \<inter> set gs \<noteq> {}}"
proof -
  let ?w = "(demo_worker ''w1'' ''a'' 9000 READY)\<lparr>wk_ready_at := Some 0\<rparr>"
  have p: "choose_preemption demo_cfg 60000000 [demo_profile ''pb'' ''b'' [[''g0'']] 9000] [?w]
      (demo_pressure ''b'') {''a'', ''b''} = Some [?w]" by code_simp
  have "wk_model_id ?w \<in> {''a'', ''b''}" by code_simp
  then have "\<not> (\<forall>w \<in> set [?w]. w \<in> set [?w] \<and> wk_model_id w \<notin> {''a'', ''b''} \<and> wk_admitted w = {}
      \<and> residency_satisfied demo_cfg w 60000000)" by simp
  with preemption_frees_a_whole_set [OF p] show ?thesis by blast
qed

text \<open>
  A start planned with resident Prism engines fits beside the engines the plan saw: it leaves a
  GPU that was within its limits within them.
\<close>

theorem prism_plan_start_safe:
  assumes "cfg_ok cfg" "pc_max_workers_per_gpu cfg \<le> pc_max_cached_per_gpu cfg"
    "vram_safe cfg [w \<leftarrow> ws. wk_state w \<in> set active_states] g"
    "StartPlacement pr gs r \<in> set (plan_prism cfg now all_gpus ws pressures profiles)"
  shows "vram_safe cfg
    (apply_actions wid now [w \<leftarrow> ws. wk_state w \<in> set active_states] [StartPlacement pr gs r]) g"
proof -
  define e where "e = \<lparr>pe_cfg = cfg, pe_now = now, pe_gpus = all_gpus,
    pe_live = [w \<leftarrow> ws. wk_state w \<in> set active_states],
    pe_pressed = pressed_models (real_pressures pressures), pe_profiles = profiles\<rparr>"
  have plan: "plan_prism cfg now all_gpus ws pressures profiles =
    (case first_some (prism_pressure e)
        (sort_key (\<lambda>p. (qp_preload p, qp_oldest_enqueued_at p)) pressures) of
      None \<Rightarrow> [] | Some acts \<Rightarrow> acts)"
    by (simp only: plan_prism_def Let_def e_def)
  with assms(4) obtain acts where acts: "first_some (prism_pressure e)
      (sort_key (\<lambda>p. (qp_preload p, qp_oldest_enqueued_at p)) pressures) = Some acts"
    "StartPlacement pr gs r \<in> set acts" by (auto split: option.split_asm)
  from first_some_SomeD [OF acts(1)] acts(2) obtain p where
    "prism_pressure e p = Some acts" "StartPlacement pr gs r \<in> set acts" by blast
  from prism_pressure_outcome [OF this(1)] this(2) have
    f: "pr \<in> set (kvcached_candidates (pe_profiles e) (qp_model_id p))"
    "prism_fits (pe_cfg e) pr gs (pe_live e)"
    by (cases; auto)+
  let ?w = "new_worker wid pr gs 0 now"
  have w: "wk_profile ?w = pr" "wk_gpu_uuids ?w = gs" "wk_state ?w = LOADING"
    by (simp_all add: new_worker_def)
  have states: "\<forall>w \<in> set (pe_live e). wk_state w \<noteq> COLD \<and> wk_state w \<noteq> SLEEPING"
    by (auto simp: e_def active_states_def)
  have kv: "pf_engine pr = VLLM" "pf_memory_backend pr = ''kvcached''"
    using f(1) by (auto simp: kvcached_candidates_def)
  have "vram_safe cfg (pe_live e @ [?w]) g"
  proof (cases "g \<in> set gs")
    case True
    show ?thesis
      using prism_start_vram_safe [OF f(2) _ True states w kv] assms(1,2) by (simp add: e_def)
  next
    case False
    then have "g \<notin> set (wk_gpu_uuids ?w)" using w by simp
    from start_elsewhere [OF this] assms(3) show ?thesis by (simp add: e_def)
  qed
  then show ?thesis by (simp add: apply_actions_def e_def)
qed

lemma prism_plan_start_safe_witness:
  "vram_safe demo_cfg (apply_actions ''w2'' 0
      [w \<leftarrow> [demo_worker ''w1'' ''a'' 9000 READY]. wk_state w \<in> set active_states]
      [StartPlacement (demo_profile ''pb'' ''b'' [[''g0'']] 9000) [''g0''] ''prism_cold_backlog'']) ''g0''"
proof (rule prism_plan_start_safe)
  show "StartPlacement (demo_profile ''pb'' ''b'' [[''g0'']] 9000) [''g0''] ''prism_cold_backlog''
    \<in> set (plan_prism demo_cfg 0 {''g0''} [demo_worker ''w1'' ''a'' 9000 READY] [demo_pressure ''b'']
        [(''b'', [demo_profile ''pb'' ''b'' [[''g0'']] 9000])])" by code_simp
qed code_simp+

end
