(* ===== verification/Workers.thy ===== *)
theory Workers
  imports Domain
begin

text \<open>
  \<^verbatim>\<open>src/src/llm_rio/workers.py\<close>, first part: the worker supervisor's state, the checks and the
  command line of \<open>launch\<close>, port allocation, GPU sharing, the environment and the redaction of
  secrets; \<open>add_kvcached_vllm_flags\<close> of \<^verbatim>\<open>src/src/llm_rio/prism.py\<close> and \<open>gpu_environment\<close> of
  \<^verbatim>\<open>src/src/llm_rio/inventory.py\<close>. The lifecycle of a worker is in the theory \<open>WorkerSteps\<close>.

  A command line is a list of arguments whose numbers and JSON values are not rendered. Creating a
  process, the worker's fresh id and the outcome of persisting are inputs. Error messages keep
  their fixed text, without the values the code formats into them.
\<close>

section \<open>The supervisor\<close>

record supervisor_settings =
  ws_port_start :: int
  ws_port_end :: int
  ws_max_workers_per_gpu :: int
  ws_max_cached_per_gpu :: int
  ws_kvcached_enabled :: bool
  ws_cache_mode_ram :: bool
  ws_persistent_cache :: bool
  ws_vllm_executable :: string
  ws_llama_executable :: string
  ws_enable_llama :: bool
  ws_drain_watchdog :: "rat option"
  ws_api_key :: string

definition ram_weight_cache_enabled :: "supervisor_settings \<Rightarrow> bool" where
  "ram_weight_cache_enabled st \<longleftrightarrow> ws_kvcached_enabled st \<and> ws_cache_mode_ram st"

text \<open>
  The continuations that wait at an \<open>await\<close>: the startup poll, a transition that has to take the
  worker's transition lock, and the second half of a transition that holds it.
\<close>

datatype task =
    AwaitReady string
  | Offload string
  | StopTask string bool
  | OffloadFinish string
  | WakeFinish string
  | StopFinish string bool

record supervisor =
  sv_workers :: "(string, worker) dict"
  sv_drain_to_sleep :: "string set"
  sv_processes :: "string set"
  sv_pending :: "task list"
  sv_rows :: "(string, runtime_state \<times> int option) dict"
  sv_events :: "(string \<times> string) list"
  sv_emitted :: "(string \<times> string) list"

definition resident_states :: "runtime_state list" where
  "resident_states = [LOADING, READY, DRAINING, OFFLOADING, WAKING, STOPPING]"

definition occupied_gpu_uuids :: "supervisor \<Rightarrow> string set" where
  "occupied_gpu_uuids sv =
     set (concat (map wk_gpu_uuids [w \<leftarrow> vals (sv_workers sv). wk_state w \<in> set resident_states]))"

definition cached_gpu_uuids :: "supervisor \<Rightarrow> string set" where
  "cached_gpu_uuids sv =
     set (concat (map wk_gpu_uuids [w \<leftarrow> vals (sv_workers sv). wk_state w = SLEEPING]))"

definition persist :: "worker \<Rightarrow> supervisor \<Rightarrow> supervisor" where
  "persist w sv = sv\<lparr>sv_rows := AList.update (wk_id w) (wk_state w, wk_pid w) (sv_rows sv)\<rparr>"

definition record_event :: "string \<Rightarrow> string \<Rightarrow> supervisor \<Rightarrow> supervisor" where
  "record_event kind wid sv = sv\<lparr>sv_events := sv_events sv @ [(kind, wid)]\<rparr>"

definition emit :: "string \<Rightarrow> string \<Rightarrow> supervisor \<Rightarrow> supervisor" where
  "emit wid event sv = sv\<lparr>sv_emitted := sv_emitted sv @ [(wid, event)]\<rparr>"

definition cleanup :: "string \<Rightarrow> supervisor \<Rightarrow> supervisor" where
  "cleanup wid sv = sv\<lparr>sv_drain_to_sleep := sv_drain_to_sleep sv - {wid},
                       sv_processes := sv_processes sv - {wid}\<rparr>"

definition spawn :: "task \<Rightarrow> supervisor \<Rightarrow> supervisor" where
  "spawn t sv = sv\<lparr>sv_pending := sv_pending sv @ [t]\<rparr>"

section \<open>Ports and GPU sharing\<close>

definition allocate_port :: "supervisor_settings \<Rightarrow> supervisor \<Rightarrow> exn + int" where
  "allocate_port st sv =
     (let used = map wk_port [w \<leftarrow> vals (sv_workers sv). wk_state w \<noteq> COLD]
      in case find (\<lambda>p. p \<notin> set used) [ws_port_start st..ws_port_end st] of
           Some p \<Rightarrow> Inr p
         | None \<Rightarrow> Inl (WorkerLaunchError ''private worker port range is exhausted''))"

definition kvcached_profile :: "placement_profile \<Rightarrow> bool" where
  "kvcached_profile p \<longleftrightarrow> pf_engine p = VLLM \<and> pf_memory_backend p = ''kvcached''"

definition can_share_gpus ::
  "supervisor_settings \<Rightarrow> placement_profile \<Rightarrow> string list \<Rightarrow> worker list \<Rightarrow> bool" where
  "can_share_gpus st p gpus overlapping \<longleftrightarrow>
     ws_kvcached_enabled st \<and> kvcached_profile p
     \<and> list_all (\<lambda>w. kvcached_profile (wk_profile w)) overlapping
     \<and> list_all (\<lambda>g.
         (let colocated = [w \<leftarrow> overlapping. g \<in> set (wk_gpu_uuids w)];
              active = [w \<leftarrow> colocated. wk_state w \<in> set resident_states]
          in int (length active) < ws_max_workers_per_gpu st
             \<and> int (length colocated) < ws_max_cached_per_gpu st)) gpus"

section \<open>The command line\<close>

datatype arg = A string | AInt int | AFloat rat | AJson json

fun json_truthy :: "json \<Rightarrow> bool" where
  "json_truthy JNull = False"
| "json_truthy (JBool b) = b"
| "json_truthy (JInt i) = (i \<noteq> 0)"
| "json_truthy (JFloat r) = (r \<noteq> 0)"
| "json_truthy (JStr s) = (s \<noteq> [])"
| "json_truthy (JList xs) = (xs \<noteq> [])"
| "json_truthy (JDict d) = (d \<noteq> [])"

fun str_arg :: "json \<Rightarrow> arg" where
  "str_arg (JStr s) = A s"
| "str_arg (JInt i) = AInt i"
| "str_arg (JFloat r) = AFloat r"
| "str_arg v = AJson v"

definition flag_name :: "string \<Rightarrow> string" where
  "flag_name k = ''--'' @ map (\<lambda>c. if c = CHR ''_'' then CHR ''-'' else c) k"

fun launch_flag :: "string \<times> json \<Rightarrow> arg list" where
  "launch_flag (k, JBool b) = (if b then [A (flag_name k)] else [])"
| "launch_flag (k, JList items) = concat (map (\<lambda>i. [A (flag_name k), str_arg i]) items)"
| "launch_flag (k, JDict d) = [A (flag_name k), AJson (JDict d)]"
| "launch_flag (k, JNull) = []"
| "launch_flag (k, v) = [A (flag_name k), str_arg v]"

definition opt_int :: "string \<Rightarrow> int option \<Rightarrow> arg list" where
  "opt_int flag v = (case v of None \<Rightarrow> [] | Some i \<Rightarrow> [A flag, AInt i])"

definition opt_str :: "string list \<Rightarrow> string option \<Rightarrow> arg list" where
  "opt_str flags v = (case v of None \<Rightarrow> [] | Some s \<Rightarrow> map A flags @ [A s])"

text \<open>\<open>parsers\<close> is what \<open>detect_vllm_parser_configuration\<close> reads from the model's directory.\<close>

definition vllm_command ::
  "supervisor_settings \<Rightarrow> worker \<Rightarrow> string \<Rightarrow> string \<Rightarrow> string option \<times> string option \<Rightarrow> arg list" where
  "vllm_command st w path name parsers =
     (let p = wk_profile w in
      [A (ws_vllm_executable st), A ''serve'', A path, A ''--host'', A ''127.0.0.1'',
       A ''--port'', AInt (wk_port w), A ''--api-key'', A (ws_api_key st),
       A ''--served-model-name'', A name,
       A ''--tensor-parallel-size'', AInt (pf_tensor_parallel_size p),
       A ''--pipeline-parallel-size'', AInt (pf_pipeline_parallel_size p),
       A ''--dtype'', A (pf_dtype p), A ''--max-model-len'', AInt (pf_max_model_len p),
       A ''--gpu-memory-utilization'', AFloat (pf_gpu_memory_utilization p)]
      @ opt_int ''--max-num-seqs'' (pf_max_num_seqs p)
      @ opt_int ''--max-num-batched-tokens'' (pf_max_num_batched_tokens p)
      @ (case pf_quantization p of
           Some q \<Rightarrow> if q = [] then [] else [A ''--quantization'', A q]
         | None \<Rightarrow> [])
      @ opt_str [''--enable-auto-tool-choice'', ''--tool-call-parser''] (fst parsers)
      @ opt_str [''--reasoning-parser''] (snd parsers)
      @ (if ram_weight_cache_enabled st \<and> pf_memory_backend p = ''kvcached''
            \<and> \<not> (case map_of (pf_launch_args p) ''enable_sleep_mode'' of
                   None \<Rightarrow> False | Some v \<Rightarrow> json_truthy v)
         then [A ''--enable-sleep-mode''] else []))"

definition llama_command ::
  "supervisor_settings \<Rightarrow> worker \<Rightarrow> string \<Rightarrow> arg list" where
  "llama_command st w path =
     (let p = wk_profile w in
      [A (ws_llama_executable st), A ''--model'', A path, A ''--host'', A ''127.0.0.1'',
       A ''--port'', AInt (wk_port w), A ''--ctx-size'', AInt (pf_max_model_len p),
       A ''--api-key'', A (ws_api_key st)]
      @ opt_int ''--parallel'' (pf_max_num_seqs p))"

definition add_kvcached_vllm_flags :: "bool \<Rightarrow> arg list \<Rightarrow> exn + arg list" where
  "add_kvcached_vllm_flags enabled command =
     (if \<not> enabled then Inr command
      else if A ''--enable-prefix-caching'' \<in> set command
      then Inl (RuntimeError ''kvcached profiles cannot enable vLLM prefix caching'')
      else if A ''--no-enable-prefix-caching'' \<in> set command then Inr command
      else Inr (command @ [A ''--no-enable-prefix-caching'']))"

definition worker_command ::
  "supervisor_settings \<Rightarrow> worker \<Rightarrow> string \<Rightarrow> string \<Rightarrow> string option \<times> string option
   \<Rightarrow> exn + arg list" where
  "worker_command st w path name parsers =
     (let p = wk_profile w;
          base = (case pf_engine p of
                    VLLM \<Rightarrow> Some (vllm_command st w path name parsers)
                  | LLAMA_CPP \<Rightarrow> if ws_enable_llama st then Some (llama_command st w path) else None)
      in case base of
           None \<Rightarrow> Inl (WorkerLaunchError ''engine is disabled or unsupported'')
         | Some cmd \<Rightarrow>
             (let command = cmd @ concat (map launch_flag (pf_launch_args p))
              in if pf_memory_backend p = ''kvcached''
                 then if \<not> ws_kvcached_enabled st
                      then Inl (WorkerLaunchError
                        ''kvcached placement profile cannot run while kvcached mode is disabled'')
                      else add_kvcached_vllm_flags (ws_kvcached_enabled st) command
                 else Inr command))"

text \<open>
  The loop enumerates a copy of the list it updates, so an argument is redacted when the original
  argument before it is \<open>--api-key\<close>.
\<close>

fun redact_from :: "bool \<Rightarrow> arg list \<Rightarrow> arg list" where
  "redact_from hidden [] = []"
| "redact_from hidden (x # xs) =
     (if hidden then A ''[REDACTED]'' else x) # redact_from (x = A ''--api-key'') xs"

definition redact_command :: "arg list \<Rightarrow> arg list" where
  "redact_command command = redact_from False command"

section \<open>The environment\<close>

fun split_on :: "char \<Rightarrow> string \<Rightarrow> string list" where
  "split_on c [] = [[]]"
| "split_on c (x # xs) =
     (if x = c then [] # split_on c xs
      else case split_on c xs of y # ys \<Rightarrow> (x # y) # ys | [] \<Rightarrow> [[x]])"

fun join_with :: "string \<Rightarrow> string list \<Rightarrow> string" where
  "join_with sep [] = []"
| "join_with sep [x] = x"
| "join_with sep (x # y # rest) = x @ sep @ join_with sep (y # rest)"

definition dict_update :: "('k, 'v) dict \<Rightarrow> ('k, 'v) dict \<Rightarrow> ('k, 'v) dict" where
  "dict_update d e = fold (\<lambda>(k, v). AList.update k v) e d"

text \<open>
  \<open>executable_dir\<close> is the resolved directory of an engine path that has one, \<open>None\<close> for a bare
  name.
\<close>

definition gpu_environment ::
  "(string, string) dict \<Rightarrow> (string, string) dict \<Rightarrow> string option \<Rightarrow> string list
   \<Rightarrow> (string, string) dict" where
  "gpu_environment environ overrides executable_dir gpus =
     (let env = AList.update ''CUDA_VISIBLE_DEVICES'' (join_with '','' gpus)
                  (dict_update environ overrides)
      in case executable_dir of
           None \<Rightarrow> env
         | Some dir \<Rightarrow>
             (let entries = split_on (CHR '':'')
                    (case map_of env ''PATH'' of None \<Rightarrow> [] | Some v \<Rightarrow> v)
              in if dir \<in> set entries then env
                 else AList.update ''PATH''
                        (join_with '':'' (dir # [x \<leftarrow> entries. x \<noteq> []])) env))"

definition worker_environment ::
  "supervisor_settings \<Rightarrow> worker \<Rightarrow> (string, string) dict \<Rightarrow> (string, string) dict
   \<Rightarrow> exn + (string, string) dict" where
  "worker_environment st w env kvcached_env =
     (if pf_engine (wk_profile w) \<noteq> VLLM then Inr env
      else
        (let env1 = AList.update ''VLLM_API_KEY'' (ws_api_key st) env
         in if pf_memory_backend (wk_profile w) \<noteq> ''kvcached'' then Inr env1
            else if \<not> ws_kvcached_enabled st
            then Inl (WorkerLaunchError
              ''kvcached placement profile cannot run while kvcached mode is disabled'')
            else
              (let env2 = dict_update env1 kvcached_env
               in Inr (if ram_weight_cache_enabled st
                       then AList.update ''VLLM_SERVER_DEV_MODE'' ''1'' env2 else env2))))"

section \<open>launch\<close>

text \<open>What the operating system and the database answer: a process, no process, or a process whose
  row cannot be written.\<close>

datatype spawn_outcome = Spawned int | SpawnFailed exn | PersistFailed int exn

definition overlapping_workers :: "supervisor \<Rightarrow> string list \<Rightarrow> worker list" where
  "overlapping_workers sv gpus =
     [w \<leftarrow> vals (sv_workers sv). wk_state w \<noteq> COLD \<and> set (wk_gpu_uuids w) \<inter> set gpus \<noteq> {}]"

definition launch_checks ::
  "supervisor_settings \<Rightarrow> supervisor \<Rightarrow> placement_profile \<Rightarrow> string list \<Rightarrow> exn option" where
  "launch_checks st sv p gpus =
     (if int (length gpus) \<noteq> pf_gpu_count p \<or> gpus \<notin> set (pf_eligible_gpu_sets p)
      then Some (WorkerLaunchError ''placement does not match a validated GPU set'')
      else if ws_kvcached_enabled st \<and> \<not> kvcached_profile p
      then Some (WorkerLaunchError
        ''kvcached mode accepts only vLLM profiles validated with kvcached'')
      else
        (let overlapping = overlapping_workers sv gpus;
             overlap = set (concat (map wk_gpu_uuids overlapping)) \<inter> set gpus
         in if overlap \<noteq> {} \<and> \<not> can_share_gpus st p gpus overlapping
            then Some (WorkerLaunchError ''GPU UUIDs already owned'')
            else None))"

text \<open>\<open>base_env\<close> is the result of \<open>gpu_environment\<close>.\<close>

definition launch ::
  "supervisor_settings \<Rightarrow> string \<Rightarrow> datetime \<Rightarrow> placement_profile \<Rightarrow> string list \<Rightarrow> string \<Rightarrow> string
   \<Rightarrow> string option \<times> string option \<Rightarrow> (string, string) dict \<Rightarrow> (string, string) dict
   \<Rightarrow> spawn_outcome \<Rightarrow> supervisor \<Rightarrow> supervisor \<times> (exn + worker)" where
  "launch st wid now p gpus path name parsers base_env kvcached_env outcome sv =
     (case launch_checks st sv p gpus of
        Some err \<Rightarrow> (sv, Inl err)
      | None \<Rightarrow>
          (case allocate_port st sv of
             Inl err \<Rightarrow> (sv, Inl err)
           | Inr port \<Rightarrow>
               (let w = new_worker wid p gpus port now;
                    sv1 = sv\<lparr>sv_workers := AList.update wid w (sv_workers sv)\<rparr>;
                    popped = (\<lambda>s. s\<lparr>sv_workers := AList.delete wid (sv_workers s)\<rparr>)
                in case worker_command st w path name parsers of
                     Inl err \<Rightarrow> (popped sv1, Inl err)
                   | Inr command \<Rightarrow>
                       (case worker_environment st w base_env kvcached_env of
                          Inl err \<Rightarrow> (popped sv1, Inl err)
                        | Inr env \<Rightarrow>
                            (case outcome of
                               SpawnFailed err \<Rightarrow> (popped (cleanup wid sv1), Inl err)
                             | PersistFailed pid err \<Rightarrow>
                                 (popped (cleanup wid
                                    (sv1\<lparr>sv_processes := insert wid (sv_processes sv1)\<rparr>)), Inl err)
                             | Spawned pid \<Rightarrow>
                                 (let w' = w\<lparr>wk_pid := Some pid\<rparr>;
                                      sv2 = sv1\<lparr>sv_workers := AList.update wid w' (sv_workers sv1),
                                                sv_processes := insert wid (sv_processes sv1)\<rparr>
                                  in (spawn (AwaitReady wid)
                                        (record_event ''WORKER_LOADING'' wid (persist w' sv2)),
                                      Inr w')))))))"

section \<open>The recorded command\<close>

lemma redact_key:
  assumes "k1 \<noteq> ''--api-key''" "k2 \<noteq> ''--api-key''"
  shows "redact_from h (pre @ A ''--api-key'' # A k1 # post)
    = redact_from h (pre @ A ''--api-key'' # A k2 # post)"
  using assms by (induction pre arbitrary: h) auto

text \<open>The key stands in one place of the base command, after \<open>--api-key\<close>.\<close>

definition key_command :: "(string \<Rightarrow> arg list) \<Rightarrow> bool" where
  "key_command f \<longleftrightarrow> (\<exists>pre post. \<forall>k. f k = pre @ A ''--api-key'' # A k # post)"

lemma key_commandI: "(\<And>k. f k = pre @ A ''--api-key'' # A k # post) \<Longrightarrow> key_command f"
  by (auto simp: key_command_def)

lemma vllm_key_command: "key_command (\<lambda>k. vllm_command (st\<lparr>ws_api_key := k\<rparr>) w path name parsers)"
proof (rule key_commandI)
  fix k
  show "vllm_command (st\<lparr>ws_api_key := k\<rparr>) w path name parsers =
    [A (ws_vllm_executable st), A ''serve'', A path, A ''--host'', A ''127.0.0.1'',
       A ''--port'', AInt (wk_port w)] @ A ''--api-key'' # A k #
    drop 9 (vllm_command st w path name parsers)"
    by (simp add: vllm_command_def Let_def ram_weight_cache_enabled_def)
qed

lemma llama_key_command: "key_command (\<lambda>k. llama_command (st\<lparr>ws_api_key := k\<rparr>) w path)"
proof (rule key_commandI)
  fix k
  show "llama_command (st\<lparr>ws_api_key := k\<rparr>) w path =
    [A (ws_llama_executable st), A ''--model'', A path, A ''--host'', A ''127.0.0.1'',
       A ''--port'', AInt (wk_port w), A ''--ctx-size'',
       AInt (pf_max_model_len (wk_profile w))] @ A ''--api-key'' # A k #
    drop 11 (llama_command st w path)"
    by (simp add: llama_command_def Let_def)
qed

definition is_internal_key :: "string \<Rightarrow> bool" where
  "is_internal_key k \<longleftrightarrow> take 13 k = ''rio_internal_''"

lemma internal_key_no_flag:
  assumes "is_internal_key k"
  shows "k \<noteq> ''--api-key''" "k \<noteq> ''--enable-prefix-caching''" "k \<noteq> ''--no-enable-prefix-caching''"
  using assms by (auto simp: is_internal_key_def)

lemma key_command_redact:
  assumes "key_command f" "is_internal_key k1" "is_internal_key k2"
  shows "redact_command (f k1 @ tl_args) = redact_command (f k2 @ tl_args)"
    "x \<noteq> A k1 \<Longrightarrow> x \<noteq> A k2 \<Longrightarrow> x \<in> set (f k1) \<longleftrightarrow> x \<in> set (f k2)"
proof -
  from assms(1) obtain pre post where f: "\<And>k. f k = pre @ A ''--api-key'' # A k # post"
    by (auto simp: key_command_def)
  show "redact_command (f k1 @ tl_args) = redact_command (f k2 @ tl_args)"
    using redact_key [OF internal_key_no_flag(1) [OF assms(2)] internal_key_no_flag(1) [OF assms(3)],
        of False pre "post @ tl_args"] by (simp add: f redact_command_def)
  show "x \<noteq> A k1 \<Longrightarrow> x \<noteq> A k2 \<Longrightarrow> x \<in> set (f k1) \<longleftrightarrow> x \<in> set (f k2)"
    by (simp add: f)
qed

lemma add_flags_redact:
  assumes "key_command f" "is_internal_key k1" "is_internal_key k2"
  shows "map_sum id redact_command (add_kvcached_vllm_flags e (f k1 @ tl_args))
    = map_sum id redact_command (add_kvcached_vllm_flags e (f k2 @ tl_args))"
proof -
  have "A ''--enable-prefix-caching'' \<in> set (f k1 @ tl_args) \<longleftrightarrow> A ''--enable-prefix-caching'' \<in> set (f k2 @ tl_args)"
    "A ''--no-enable-prefix-caching'' \<in> set (f k1 @ tl_args) \<longleftrightarrow> A ''--no-enable-prefix-caching'' \<in> set (f k2 @ tl_args)"
    using key_command_redact(2) [OF assms] internal_key_no_flag [OF assms(2)]
      internal_key_no_flag [OF assms(3)] by auto
  with key_command_redact(1) [OF assms, of tl_args]
    key_command_redact(1) [OF assms, of "tl_args @ [A ''--no-enable-prefix-caching'']"]
  show ?thesis by (simp add: add_kvcached_vllm_flags_def)
qed

definition demo_settings :: supervisor_settings where
  "demo_settings =
     \<lparr>ws_port_start = 9000, ws_port_end = 9001, ws_max_workers_per_gpu = 2,
      ws_max_cached_per_gpu = 8, ws_kvcached_enabled = True, ws_cache_mode_ram = True,
      ws_persistent_cache = False, ws_vllm_executable = ''vllm'',
      ws_llama_executable = ''llama-server'', ws_enable_llama = False, ws_drain_watchdog = None,
      ws_api_key = ''rio_internal_k''\<rparr>"

definition demo_sup_profile :: placement_profile where
  "demo_sup_profile =
     \<lparr>pf_id = ''p'', pf_model_id = ''m'', pf_model_revision = ''r'', pf_engine = VLLM,
      pf_engine_version = ''1'', pf_machine_fingerprint = ''f'', pf_gpu_count = 1,
      pf_tensor_parallel_size = 1, pf_pipeline_parallel_size = 1,
      pf_eligible_gpu_sets = [[''g0'']], pf_dtype = ''auto'', pf_quantization = None,
      pf_max_model_len = 4096, pf_max_num_seqs = None, pf_max_num_batched_tokens = None,
      pf_predicted_tokens_per_second = 100, pf_load_and_warmup_seconds = 10,
      pf_idle_vram = [9000], pf_peak_vram = [9000], pf_headroom = [0], pf_capabilities = {},
      pf_launch_args = [], pf_gpu_memory_utilization = 1, pf_kv_cache_capacity_tokens = None,
      pf_max_full_length_concurrency = None, pf_memory_backend = ''kvcached'',
      pf_sleep_vram = None, pf_offload_seconds = None, pf_activation_seconds = None\<rparr>"

text \<open>
  The command recorded for a launch does not depend on the internal API key: with any two keys
  of the supervisor's form the redacted command lines (or the errors) are the same, so the event
  log reveals nothing of it.
\<close>

theorem redacted_command_hides_the_key:
  assumes "is_internal_key k1" "is_internal_key k2"
  shows "map_sum id redact_command (worker_command (st\<lparr>ws_api_key := k1\<rparr>) w path name parsers)
    = map_sum id redact_command (worker_command (st\<lparr>ws_api_key := k2\<rparr>) w path name parsers)"
proof -
  note v = key_command_redact(1) [OF vllm_key_command assms] add_flags_redact [OF vllm_key_command assms]
  note l = key_command_redact(1) [OF llama_key_command assms] add_flags_redact [OF llama_key_command assms]
  show ?thesis by (simp add: worker_command_def Let_def v l split: engine.splits)
qed

lemma redacted_command_hides_the_key_witness:
  "map_sum id redact_command (worker_command (demo_settings\<lparr>ws_api_key := ''rio_internal_a''\<rparr>)
      (new_worker ''w'' demo_sup_profile [''g0''] 9000 0) ''/m'' ''m'' (None, None))
    = map_sum id redact_command (worker_command (demo_settings\<lparr>ws_api_key := ''rio_internal_b''\<rparr>)
      (new_worker ''w'' demo_sup_profile [''g0''] 9000 0) ''/m'' ''m'' (None, None))"
proof -
  have "is_internal_key ''rio_internal_a''" "is_internal_key ''rio_internal_b''"
    by (simp_all add: is_internal_key_def)
  from redacted_command_hides_the_key [OF this] show ?thesis .
qed

end
