(* ===== verification/WorkerSteps.thy ===== *)
theory WorkerSteps
  imports Workers
begin

text \<open>
  \<^verbatim>\<open>src/src/llm_rio/workers.py\<close>, second part: the lifecycle of a worker under the supervisor.

  Each definition is one section of a coroutine between two places where another can run: the
  code's lock sections with the persistence and events that follow them. What remains to be done
  after an \<open>await\<close> is a \<open>task\<close> in \<open>sv_pending\<close>; \<open>sup_step\<close> interleaves calls and tasks in every
  order. The transition lock of a worker is held exactly while the finishing half of its
  transition is pending, so a transition can begin only when none is. The answer of an engine to
  \<open>/sleep\<close> or \<open>/wake_up\<close> is the name of the exception it raised, if any. Persisting a row does not
  fail here, apart from \<open>launch\<close>, which handles it.
\<close>

section \<open>Startup, exit and failure\<close>

definition set_worker :: "string \<Rightarrow> worker \<Rightarrow> supervisor \<Rightarrow> supervisor" where
  "set_worker wid w sv = sv\<lparr>sv_workers := AList.update wid w (sv_workers sv)\<rparr>"

definition get_worker :: "supervisor \<Rightarrow> string \<Rightarrow> worker option" where
  "get_worker sv wid = map_of (sv_workers sv) wid"

definition fail_worker :: "string \<Rightarrow> string \<Rightarrow> supervisor \<Rightarrow> supervisor" where
  "fail_worker wid reason sv =
     (case get_worker sv wid of
        None \<Rightarrow> sv
      | Some w \<Rightarrow>
          if wk_state w = COLD then sv
          else
            (let w' = w\<lparr>wk_admitted := {}, wk_outstanding := 0, wk_state := COLD, wk_pid := None\<rparr>
             in emit wid (''failed:'' @ reason)
                  (cleanup wid (record_event ''WORKER_FAILED'' wid (persist w' (set_worker wid w' sv))))))"

datatype probe = ProbeExited | ProbeHealthy | ProbeRetry | ProbeTimeout

definition await_ready :: "string \<Rightarrow> probe \<Rightarrow> datetime \<Rightarrow> supervisor \<Rightarrow> supervisor" where
  "await_ready wid probe now sv =
     (case probe of
        ProbeExited \<Rightarrow> fail_worker wid ''process_exited_during_startup'' sv
      | ProbeTimeout \<Rightarrow> fail_worker wid ''startup_timeout'' sv
      | ProbeRetry \<Rightarrow> spawn (AwaitReady wid) sv
      | ProbeHealthy \<Rightarrow>
          (case get_worker sv wid of
             None \<Rightarrow> sv
           | Some w \<Rightarrow>
               if wk_state w \<noteq> LOADING then sv
               else
                 (let w' = w\<lparr>wk_state := READY, wk_ready_at := Some now, wk_last_demand_at := now\<rparr>
                  in emit wid ''ready''
                       (record_event ''WORKER_READY'' wid (persist w' (set_worker wid w' sv))))))"

definition monitor_exit :: "string \<Rightarrow> string \<Rightarrow> supervisor \<Rightarrow> supervisor" where
  "monitor_exit wid code sv =
     (case get_worker sv wid of
        None \<Rightarrow> sv
      | Some w \<Rightarrow> if wk_state w \<in> {STOPPING, COLD} then sv
                  else fail_worker wid (''unexpected_exit_'' @ code) sv)"

section \<open>Admission\<close>

definition admit ::
  "string \<Rightarrow> string \<Rightarrow> int \<Rightarrow> datetime \<Rightarrow> supervisor \<Rightarrow> supervisor \<times> (exn + unit)" where
  "admit wid rid tokens now sv =
     (case get_worker sv wid of
        None \<Rightarrow> (sv, Inl (KeyError wid))
      | Some w \<Rightarrow>
          if wk_state w \<noteq> READY then (sv, Inl (RuntimeError ''worker is not routable''))
          else (set_worker wid (w\<lparr>wk_admitted := insert rid (wk_admitted w),
                                  wk_accepted := wk_accepted w + 1,
                                  wk_outstanding := wk_outstanding w + tokens,
                                  wk_last_demand_at := now\<rparr>) sv, Inr ()))"

definition release :: "string \<Rightarrow> string \<Rightarrow> int \<Rightarrow> datetime \<Rightarrow> supervisor \<Rightarrow> supervisor" where
  "release wid rid tokens now sv =
     (case get_worker sv wid of
        None \<Rightarrow> sv
      | Some w \<Rightarrow>
          (let w' = w\<lparr>wk_admitted := wk_admitted w - {rid}, wk_last_demand_at := now,
                      wk_outstanding := max 0 (wk_outstanding w - tokens)\<rparr>;
               drained = (wk_state w' = DRAINING \<and> wk_admitted w' = {});
               offload = (drained \<and> wid \<in> sv_drain_to_sleep sv);
               sv1 = set_worker wid w' sv
           in emit wid ''released''
                (if offload then spawn (Offload wid) sv1
                 else if drained then spawn (StopTask wid False) sv1
                 else sv1)))"

section \<open>Draining, sleeping, waking, stopping\<close>

definition drain :: "string \<Rightarrow> datetime \<Rightarrow> supervisor \<Rightarrow> supervisor" where
  "drain wid now sv =
     (case get_worker sv wid of
        None \<Rightarrow> sv
      | Some w \<Rightarrow>
          if wk_state w \<in> {DRAINING, STOPPING, COLD} then sv
          else
            (let w' = w\<lparr>wk_state := DRAINING, wk_drain_started_at := Some now\<rparr>;
                 sv1 = record_event ''WORKER_DRAINING'' wid (persist w'
                   (set_worker wid w' (sv\<lparr>sv_drain_to_sleep := sv_drain_to_sleep sv - {wid}\<rparr>)))
             in if wk_admitted w = {} then spawn (StopTask wid False) sv1 else sv1))"

definition sleep_worker ::
  "supervisor_settings \<Rightarrow> string \<Rightarrow> datetime \<Rightarrow> supervisor \<Rightarrow> supervisor" where
  "sleep_worker st wid now sv =
     (if \<not> ram_weight_cache_enabled st then drain wid now sv
      else case get_worker sv wid of
        None \<Rightarrow> sv
      | Some w \<Rightarrow>
          if wk_state w \<in> {COLD, OFFLOADING, SLEEPING, WAKING, STOPPING} then sv
          else if wk_state w = LOADING then sv
          else
            (let sv1 = sv\<lparr>sv_drain_to_sleep := insert wid (sv_drain_to_sleep sv)\<rparr>
             in if wk_admitted w \<noteq> {}
                then (let w' = w\<lparr>wk_state := DRAINING, wk_drain_started_at := Some now\<rparr>
                      in record_event ''WORKER_DRAINING_TO_RAM'' wid
                           (persist w' (set_worker wid w' sv1)))
                else spawn (Offload wid) sv1))"

definition offload_begin :: "string \<Rightarrow> datetime \<Rightarrow> supervisor \<Rightarrow> supervisor" where
  "offload_begin wid now sv =
     (case get_worker sv wid of
        None \<Rightarrow> sv
      | Some w \<Rightarrow>
          if wk_state w \<in> {COLD, SLEEPING, STOPPING} then sv
          else if wk_admitted w \<noteq> {}
          then set_worker wid (w\<lparr>wk_state := DRAINING, wk_drain_started_at := Some now\<rparr>)
                 (sv\<lparr>sv_drain_to_sleep := insert wid (sv_drain_to_sleep sv)\<rparr>)
          else
            (let w' = w\<lparr>wk_state := OFFLOADING, wk_drain_started_at := None\<rparr>
             in spawn (OffloadFinish wid) (record_event ''WORKER_OFFLOADING'' wid (persist w'
                  (set_worker wid w' (sv\<lparr>sv_drain_to_sleep := sv_drain_to_sleep sv - {wid}\<rparr>))))))"

definition offload_finish ::
  "string \<Rightarrow> string option \<Rightarrow> rat \<Rightarrow> datetime \<Rightarrow> supervisor \<Rightarrow> supervisor" where
  "offload_finish wid failure elapsed now sv =
     (case failure of
        Some exc \<Rightarrow> fail_worker wid (''weight_offload_failed:'' @ exc) sv
      | None \<Rightarrow>
     (case get_worker sv wid of
        None \<Rightarrow> sv
      | Some w \<Rightarrow>
          if wk_state w \<noteq> OFFLOADING then sv
          else
            (let w' = w\<lparr>wk_state := SLEEPING, wk_sleeping_at := Some now,
                        wk_last_offload := Some elapsed, wk_host_cached := True\<rparr>
             in emit wid ''sleeping''
                  (record_event ''WORKER_WEIGHTS_CACHED'' wid (persist w' (set_worker wid w' sv))))))"

definition wake_begin ::
  "supervisor_settings \<Rightarrow> string \<Rightarrow> supervisor \<Rightarrow> supervisor \<times> (exn + unit)" where
  "wake_begin st wid sv =
     (if \<not> ram_weight_cache_enabled st
      then (sv, Inl (WorkerLaunchError ''host-RAM weight caching is disabled''))
      else case get_worker sv wid of
        None \<Rightarrow> (sv, Inr ())
      | Some w \<Rightarrow>
          if wk_state w \<noteq> SLEEPING then (sv, Inr ())
          else
            (let w' = w\<lparr>wk_state := WAKING\<rparr>
             in (spawn (WakeFinish wid)
                   (record_event ''WORKER_WAKING'' wid (persist w' (set_worker wid w' sv))), Inr ())))"

definition wake_finish ::
  "supervisor_settings \<Rightarrow> string \<Rightarrow> string option \<Rightarrow> rat \<Rightarrow> datetime \<Rightarrow> supervisor
   \<Rightarrow> supervisor" where
  "wake_finish st wid failure elapsed now sv =
     (case failure of
        Some exc \<Rightarrow> fail_worker wid (''weight_restore_failed:'' @ exc) sv
      | None \<Rightarrow>
     (case get_worker sv wid of
        None \<Rightarrow> sv
      | Some w \<Rightarrow>
          if wk_state w \<noteq> WAKING then sv
          else
            (let w' = w\<lparr>wk_state := READY, wk_ready_at := Some now, wk_last_demand_at := now,
                        wk_sleeping_at := None, wk_last_activation := Some elapsed,
                        wk_host_cached := (if ws_persistent_cache st then wk_host_cached w
                                           else False)\<rparr>
             in emit wid ''ready''
                  (record_event ''WORKER_WEIGHTS_RESTORED'' wid (persist w' (set_worker wid w' sv))))))"

text \<open>One iteration of \<open>enforce_drain_watchdogs\<close>; the stop it awaits is a task.\<close>

definition watchdog_overdue :: "supervisor_settings \<Rightarrow> datetime \<Rightarrow> worker \<Rightarrow> bool" where
  "watchdog_overdue st now w \<longleftrightarrow>
     (case (ws_drain_watchdog st, wk_drain_started_at w) of
        (Some limit, Some t) \<Rightarrow> wk_state w = DRAINING \<and> total_seconds (now - t) > limit
      | _ \<Rightarrow> False)"

definition watchdog_check ::
  "supervisor_settings \<Rightarrow> datetime \<Rightarrow> string \<Rightarrow> supervisor \<Rightarrow> supervisor \<times> (string \<times> string set) list" where
  "watchdog_check st now wid sv =
     (case get_worker sv wid of
        None \<Rightarrow> (sv, [])
      | Some w \<Rightarrow> if watchdog_overdue st now w
                  then (spawn (StopTask wid True) sv, [(wk_id w, wk_admitted w)])
                  else (sv, []))"

definition stop_begin :: "string \<Rightarrow> bool \<Rightarrow> supervisor \<Rightarrow> supervisor" where
  "stop_begin wid force sv =
     (case get_worker sv wid of
        None \<Rightarrow> sv
      | Some w \<Rightarrow>
          if wk_state w = COLD then sv
          else if wk_admitted w \<noteq> {} \<and> \<not> force then sv
          else
            (let w' = w\<lparr>wk_state := STOPPING\<rparr>
             in spawn (StopFinish wid force) (persist w' (set_worker wid w' sv))))"

definition stop_finish :: "string \<Rightarrow> supervisor \<Rightarrow> supervisor" where
  "stop_finish wid sv =
     (case get_worker sv wid of
        None \<Rightarrow> sv
      | Some w \<Rightarrow>
          (let w' = w\<lparr>wk_state := COLD, wk_pid := None, wk_admitted := {}, wk_outstanding := 0,
                      wk_sleeping_at := None, wk_host_cached := False\<rparr>
           in cleanup wid (emit wid ''cold'' (record_event ''WORKER_COLD'' wid (persist w'
                (set_worker wid w'
                   (sv\<lparr>sv_drain_to_sleep := sv_drain_to_sleep sv - {wid}\<rparr>)))))))"

definition stop_all :: "bool \<Rightarrow> datetime \<Rightarrow> supervisor \<Rightarrow> supervisor" where
  "stop_all force now sv =
     (let ids = keys (sv_workers sv);
          sv1 = (if force then sv else fold (\<lambda>wid. drain wid now) ids sv)
      in fold (\<lambda>wid. spawn (StopTask wid force)) ids sv1)"

section \<open>Interleavings\<close>

definition finishers :: "supervisor \<Rightarrow> string \<Rightarrow> task list" where
  "finishers sv wid =
     [t \<leftarrow> sv_pending sv. t \<in> {OffloadFinish wid, WakeFinish wid, StopFinish wid True,
                                  StopFinish wid False}]"

definition transition_locked :: "supervisor \<Rightarrow> string \<Rightarrow> bool" where
  "transition_locked sv wid \<longleftrightarrow> finishers sv wid \<noteq> []"

definition take_task :: "task \<Rightarrow> supervisor \<Rightarrow> supervisor" where
  "take_task t sv = sv\<lparr>sv_pending := remove1 t (sv_pending sv)\<rparr>"

inductive sup_step :: "supervisor_settings \<Rightarrow> supervisor \<Rightarrow> supervisor \<Rightarrow> bool"
  for st :: supervisor_settings where
  launch: "wid \<notin> set (keys (sv_workers sv)) \<Longrightarrow>
    sup_step st sv (fst (launch st wid now p gpus path name parsers env kenv outcome sv))"
| admit: "0 \<le> tokens \<Longrightarrow> sup_step st sv (fst (admit wid rid tokens now sv))"
| release: "sup_step st sv (release wid rid tokens now sv)"
| drain: "sup_step st sv (drain wid now sv)"
| sleep: "sup_step st sv (sleep_worker st wid now sv)"
| wake: "\<not> transition_locked sv wid \<Longrightarrow> sup_step st sv (fst (wake_begin st wid sv))"
| watchdog: "sup_step st sv (fst (watchdog_check st now wid sv))"
| stop_all: "sup_step st sv (stop_all force now sv)"
| stop_request: "sup_step st sv (spawn (StopTask wid force) sv)"
| monitor: "sup_step st sv (monitor_exit wid code sv)"
| await_ready: "AwaitReady wid \<in> set (sv_pending sv) \<Longrightarrow>
    sup_step st sv (await_ready wid probe now (take_task (AwaitReady wid) sv))"
| offload: "Offload wid \<in> set (sv_pending sv) \<Longrightarrow> \<not> transition_locked sv wid \<Longrightarrow>
    sup_step st sv (offload_begin wid now (take_task (Offload wid) sv))"
| stop: "StopTask wid force \<in> set (sv_pending sv) \<Longrightarrow> \<not> transition_locked sv wid \<Longrightarrow>
    sup_step st sv (stop_begin wid force (take_task (StopTask wid force) sv))"
| offload_finish: "OffloadFinish wid \<in> set (sv_pending sv) \<Longrightarrow>
    sup_step st sv (offload_finish wid failure elapsed now (take_task (OffloadFinish wid) sv))"
| wake_finish: "WakeFinish wid \<in> set (sv_pending sv) \<Longrightarrow>
    sup_step st sv (wake_finish st wid failure elapsed now (take_task (WakeFinish wid) sv))"
| stop_finish: "StopFinish wid force \<in> set (sv_pending sv) \<Longrightarrow>
    sup_step st sv (stop_finish wid (take_task (StopFinish wid force) sv))"

definition sup_init :: supervisor where
  "sup_init = \<lparr>sv_workers = [], sv_drain_to_sleep = {}, sv_processes = {}, sv_pending = [],
               sv_rows = [], sv_events = [], sv_emitted = []\<rparr>"

inductive sup_reachable :: "supervisor_settings \<Rightarrow> supervisor \<Rightarrow> bool"
  for st :: supervisor_settings where
  init: "sup_reachable st sup_init"
| step: "sup_reachable st sv \<Longrightarrow> sup_step st sv sv' \<Longrightarrow> sup_reachable st sv'"

section \<open>The invariant\<close>

lemma pending_simps [simp]:
  "sv_pending (persist w sv) = sv_pending sv" "sv_pending (record_event k i sv) = sv_pending sv"
  "sv_pending (emit i e sv) = sv_pending sv" "sv_pending (cleanup i sv) = sv_pending sv"
  "sv_pending (set_worker i w sv) = sv_pending sv" "sv_pending (spawn t sv) = sv_pending sv @ [t]"
  "sv_pending (take_task t sv) = remove1 t (sv_pending sv)"
  "sv_pending (sv\<lparr>sv_drain_to_sleep := d\<rparr>) = sv_pending sv"
  by (simp_all add: persist_def record_event_def emit_def cleanup_def set_worker_def spawn_def
      take_task_def)

lemma get_worker_simps [simp]:
  "get_worker (persist w sv) i = get_worker sv i" "get_worker (record_event k j sv) i = get_worker sv i"
  "get_worker (emit j e sv) i = get_worker sv i" "get_worker (cleanup j sv) i = get_worker sv i"
  "get_worker (spawn t sv) i = get_worker sv i" "get_worker (take_task t sv) i = get_worker sv i"
  "get_worker (set_worker j w sv) i = (if i = j then Some w else get_worker sv i)"
  "get_worker (sv\<lparr>sv_drain_to_sleep := d\<rparr>) i = get_worker sv i"
  by (simp_all add: get_worker_def persist_def record_event_def emit_def cleanup_def set_worker_def
      spawn_def take_task_def map_of_update)

lemma finishers_cong: "sv_pending sv = sv_pending sv' \<Longrightarrow> finishers sv i = finishers sv' i"
  by (simp add: finishers_def)

definition stop_pending :: "task set \<Rightarrow> string \<Rightarrow> bool" where
  "stop_pending ts wid \<longleftrightarrow> StopTask wid True \<in> ts \<or> StopTask wid False \<in> ts"

definition worker_ok :: "task set \<Rightarrow> string \<Rightarrow> worker \<Rightarrow> bool" where
  "worker_ok ts wid w \<longleftrightarrow>
     wk_id w = wid \<and>
     (wk_admitted w \<noteq> {} \<longrightarrow> wk_state w \<in> {READY, DRAINING, STOPPING}) \<and>
     0 \<le> wk_outstanding w \<and>
     (wk_state w = DRAINING \<longrightarrow> wk_drain_started_at w \<noteq> None \<and>
        (wk_admitted w = {} \<longrightarrow> Offload wid \<in> ts \<or> stop_pending ts wid)) \<and>
     (wk_state w = OFFLOADING \<longrightarrow> OffloadFinish wid \<in> ts) \<and>
     (wk_state w = WAKING \<longrightarrow> WakeFinish wid \<in> ts) \<and>
     (wk_state w = STOPPING \<longrightarrow> StopFinish wid True \<in> ts \<or> StopFinish wid False \<in> ts) \<and>
     (wk_state w = LOADING \<longrightarrow> AwaitReady wid \<in> ts) \<and>
     (wk_state w = SLEEPING \<longrightarrow> wk_host_cached w \<and> wk_sleeping_at w \<noteq> None)"

definition sup_inv :: "supervisor \<Rightarrow> bool" where
  "sup_inv sv \<longleftrightarrow>
     (\<forall>wid w. get_worker sv wid = Some w \<longrightarrow> worker_ok (set (sv_pending sv)) wid w) \<and>
     (\<forall>wid. length (finishers sv wid) \<le> 1)"

lemma worker_ok_mono: "worker_ok ts wid w \<Longrightarrow> ts \<subseteq> ts' \<Longrightarrow> worker_ok ts' wid w"
  by (cases "wk_state w") (auto simp: worker_ok_def stop_pending_def)

fun task_worker :: "task \<Rightarrow> string" where
  "task_worker (AwaitReady i) = i"
| "task_worker (Offload i) = i"
| "task_worker (StopTask i f) = i"
| "task_worker (OffloadFinish i) = i"
| "task_worker (WakeFinish i) = i"
| "task_worker (StopFinish i f) = i"

text \<open>A worker's conditions mention its own tasks only.\<close>

lemma worker_ok_others:
  assumes "worker_ok ts wid w" "\<And>t. task_worker t = wid \<Longrightarrow> t \<in> ts \<Longrightarrow> t \<in> ts'"
  shows "worker_ok ts' wid w"
proof -
  have "worker_ok {t \<in> ts. task_worker t = wid} wid w"
    using assms(1) by (simp add: worker_ok_def stop_pending_def)
  moreover have "{t \<in> ts. task_worker t = wid} \<subseteq> ts'" using assms(2) by blast
  ultimately show ?thesis by (rule worker_ok_mono)
qed

text \<open>How a section keeps the invariant: it accounts for its own worker and its own tasks.\<close>

lemma sup_inv_update:
  assumes "sup_inv sv"
    and "\<And>i. i \<noteq> wid \<Longrightarrow> get_worker sv' i = get_worker sv i"
    and "\<And>w. get_worker sv' wid = Some w \<Longrightarrow> worker_ok (set (sv_pending sv')) wid w"
    and "\<And>t. task_worker t \<noteq> wid \<Longrightarrow> t \<in> set (sv_pending sv) \<Longrightarrow> t \<in> set (sv_pending sv')"
    and "\<And>i. length (finishers sv' i) \<le> 1"
  shows "sup_inv sv'"
  unfolding sup_inv_def
proof (intro conjI allI impI)
  fix i w assume g: "get_worker sv' i = Some w"
  show "worker_ok (set (sv_pending sv')) i w"
  proof (cases "i = wid")
    case True
    with assms(3) g show ?thesis by simp
  next
    case False
    with assms(1,2) g have "worker_ok (set (sv_pending sv)) i w" by (simp add: sup_inv_def)
    then show ?thesis by (rule worker_ok_others) (use assms(4) False in blast)
  qed
qed (rule assms(5))

lemma sup_invD:
  assumes "sup_inv sv" "get_worker sv wid = Some w"
  shows "worker_ok (set (sv_pending sv)) wid w"
  using assms by (simp add: sup_inv_def)

text \<open>
  What a section does to the pending tasks: it may have taken one of its worker's tasks, and it
  adds tasks that hold no lock, or begins a transition when the worker's lock is free.
\<close>

definition holds_no_lock :: "task \<Rightarrow> bool" where
  "holds_no_lock t \<longleftrightarrow> (case t of AwaitReady _ \<Rightarrow> True | Offload _ \<Rightarrow> True | StopTask _ _ \<Rightarrow> True | _ \<Rightarrow> False)"

definition tasks_step :: "supervisor \<Rightarrow> string \<Rightarrow> task list \<Rightarrow> task list \<Rightarrow> bool" where
  "tasks_step sv wid base ts \<longleftrightarrow>
     (base = sv_pending sv \<or> (\<exists>t. task_worker t = wid \<and> base = remove1 t (sv_pending sv))) \<and>
     (list_all holds_no_lock ts
      \<or> \<not> transition_locked sv wid \<and> (\<exists>t. ts = [t] \<and> task_worker t = wid))"

lemma remove1_keeps:
  "task_worker x \<noteq> task_worker t \<Longrightarrow> x \<in> set xs \<Longrightarrow> x \<in> set (remove1 t xs)"
  by (metis in_set_remove1)

lemma filter_remove1_le: "length [x \<leftarrow> remove1 t xs. P x] \<le> length [x \<leftarrow> xs. P x]"
  by (induction xs) auto

lemma section_inv:
  assumes "sup_inv sv" "sv_pending sv' = base @ ts" "tasks_step sv wid base ts"
    and "\<And>i. i \<noteq> wid \<Longrightarrow> get_worker sv' i = get_worker sv i"
    and "\<And>w. get_worker sv' wid = Some w \<Longrightarrow> worker_ok (set base \<union> set ts) wid w"
  shows "sup_inv sv'"
proof (rule sup_inv_update [OF assms(1,4)])
  fix w assume "get_worker sv' wid = Some w"
  with assms(2,5) show "worker_ok (set (sv_pending sv')) wid w" by simp
next
  fix t assume "task_worker t \<noteq> wid" "t \<in> set (sv_pending sv)"
  with assms(2,3) show "t \<in> set (sv_pending sv')"
    by (auto simp: tasks_step_def intro: remove1_keeps)
next
  fix i
  let ?P = "\<lambda>t. t \<in> {OffloadFinish i, WakeFinish i, StopFinish i True, StopFinish i False}"
  have le: "length (filter ?P base) \<le> length (finishers sv i)"
    using assms(3) filter_remove1_le [of ?P _ "sv_pending sv"]
    unfolding finishers_def tasks_step_def by (metis order_refl)
  have fin: "length (finishers sv' i) = length (filter ?P base) + length (filter ?P ts)"
    by (simp add: finishers_def assms(2))
  have ts: "filter ?P ts = [] \<or> finishers sv i = [] \<and> length ts \<le> 1"
  proof (cases "list_all holds_no_lock ts")
    case True
    then show ?thesis by (auto simp: filter_empty_conv list_all_iff holds_no_lock_def)
  next
    case False
    with assms(3) obtain t where t: "ts = [t]" "task_worker t = wid" "finishers sv wid = []"
      by (auto simp: tasks_step_def transition_locked_def)
    then show ?thesis by (cases "i = wid") auto
  qed
  have one: "length (finishers sv i) \<le> 1" using assms(1) by (simp add: sup_inv_def)
  show "length (finishers sv' i) \<le> 1"
  proof (cases "filter ?P ts = []")
    case True
    then have "length (finishers sv' i) = length (filter ?P base)" unfolding fin by simp
    with le one show ?thesis by linarith
  next
    case False
    with ts have "finishers sv i = []" "length ts \<le> 1" by blast+
    with le fin have "length (finishers sv' i) = length (filter ?P ts)" by simp
    also have "\<dots> \<le> length ts" by (rule length_filter_le)
    finally show ?thesis using \<open>length ts \<le> 1\<close> by linarith
  qed
qed

section \<open>Every section keeps it\<close>

lemma fail_worker_get:
  "get_worker (fail_worker wid reason sv) i =
     (if i = wid then (case get_worker sv wid of None \<Rightarrow> None
        | Some w \<Rightarrow> Some (if wk_state w = COLD then w
            else w\<lparr>wk_admitted := {}, wk_outstanding := 0, wk_state := COLD, wk_pid := None\<rparr>))
      else get_worker sv i)"
  "sv_pending (fail_worker wid reason sv) = sv_pending sv"
  by (auto simp: fail_worker_def Let_def split: option.splits)

lemma worker_ok_cold: "wk_id w = wid \<Longrightarrow> wk_state w = COLD \<Longrightarrow> wk_admitted w = {} \<Longrightarrow>
    0 \<le> wk_outstanding w \<Longrightarrow> worker_ok ts wid w"
  by (simp add: worker_ok_def)

lemma worker_ok_is_cold: "worker_ok ts wid w \<Longrightarrow> wk_state w = COLD \<Longrightarrow> worker_ok ts' wid w"
  by (simp add: worker_ok_def)

lemma worker_ok_failed:
  assumes "worker_ok ts wid v"
  shows "worker_ok ts' wid (if wk_state v = COLD then v
      else v\<lparr>wk_admitted := {}, wk_outstanding := 0, wk_state := COLD, wk_pid := None\<rparr>)"
proof (cases "wk_state v = COLD")
  case True
  with assms worker_ok_is_cold show ?thesis by simp
next
  case False
  with assms show ?thesis by (simp add: worker_ok_def)
qed

text \<open>Failing a worker keeps the invariant, also when a task of its own has just been taken.\<close>

lemma fail_inv_gen:
  assumes "sup_inv sv" "tasks_step sv wid (sv_pending sv1) []"
    "\<And>i. get_worker sv1 i = get_worker sv i"
  shows "sup_inv (fail_worker wid reason sv1)"
proof (rule section_inv [OF assms(1) _ assms(2)])
  fix w assume "get_worker (fail_worker wid reason sv1) wid = Some w"
  then obtain v where v: "get_worker sv wid = Some v" "w = (if wk_state v = COLD then v
      else v\<lparr>wk_admitted := {}, wk_outstanding := 0, wk_state := COLD, wk_pid := None\<rparr>)"
    by (cases "get_worker sv wid") (simp_all add: fail_worker_get assms(3))
  show "worker_ok (set (sv_pending sv1) \<union> set []) wid w"
    unfolding v(2) by (rule worker_ok_failed [OF sup_invD [OF assms(1) v(1)]])
qed (simp_all add: fail_worker_get assms(3))

lemma tasks_step_none [simp]: "tasks_step sv wid (sv_pending sv) []"
  by (simp add: tasks_step_def)

lemma tasks_step_take [simp]: "task_worker t = wid \<Longrightarrow> tasks_step sv wid (remove1 t (sv_pending sv)) []"
  by (auto simp: tasks_step_def)

lemma tasks_step_add: "tasks_step sv wid base [] \<Longrightarrow> holds_no_lock t \<Longrightarrow> tasks_step sv wid base [t]"
  by (simp add: tasks_step_def)

lemma tasks_step_begin:
  "tasks_step sv wid base [] \<Longrightarrow> \<not> transition_locked sv wid \<Longrightarrow> task_worker t = wid \<Longrightarrow>
     tasks_step sv wid base [t]"
  by (simp add: tasks_step_def)

lemma fail_inv: "sup_inv sv \<Longrightarrow> sup_inv (fail_worker wid reason sv)"
  by (rule fail_inv_gen) simp_all

lemma fail_take_inv:
  "sup_inv sv \<Longrightarrow> task_worker t = wid \<Longrightarrow> sup_inv (fail_worker wid reason (take_task t sv))"
  by (rule fail_inv_gen) simp_all


text \<open>
  The sections, over a base that is the pending tasks with or without one taken: \<open>sv1\<close> is \<open>sv\<close> or
  \<open>take_task t sv\<close>.
\<close>

definition same_workers :: "supervisor \<Rightarrow> supervisor \<Rightarrow> bool" where
  "same_workers sv sv1 \<longleftrightarrow> (\<forall>i. get_worker sv1 i = get_worker sv i)"

lemma same_workers_simps [simp]:
  "same_workers sv sv" "same_workers sv (take_task t sv)"
  by (simp_all add: same_workers_def)

lemma stay_inv:
  assumes "sup_inv sv" "tasks_step sv wid (sv_pending sv1) []" "same_workers sv sv1"
    "\<And>w. get_worker sv wid = Some w \<Longrightarrow> worker_ok (set (sv_pending sv1)) wid w"
  shows "sup_inv sv1"
  by (rule section_inv [OF assms(1) _ assms(2)]) (use assms(3,4) in \<open>simp_all add: same_workers_def\<close>)

text \<open>A worker that does not wait for the task just taken is as before.\<close>

lemma taken_ok:
  assumes "worker_ok ts wid w" "\<And>x. x \<in> ts \<Longrightarrow> x \<noteq> t \<Longrightarrow> x \<in> ts'"
    "t \<in> ts' \<or> (case t of
       AwaitReady i \<Rightarrow> wk_state w \<noteq> LOADING
     | Offload i \<Rightarrow> wk_state w \<noteq> DRAINING \<or> wk_admitted w \<noteq> {}
     | StopTask i f \<Rightarrow> wk_state w \<noteq> DRAINING \<or> wk_admitted w \<noteq> {}
     | OffloadFinish i \<Rightarrow> wk_state w \<noteq> OFFLOADING
     | WakeFinish i \<Rightarrow> wk_state w \<noteq> WAKING
     | StopFinish i f \<Rightarrow> wk_state w \<noteq> STOPPING)"
  shows "worker_ok ts' wid w"
proof (cases "t \<in> ts'")
  case True
  then have "ts \<subseteq> ts'" using assms(2) by blast
  with assms(1) show ?thesis by (rule worker_ok_mono)
next
  case False
  with assms(3) have "case t of
       AwaitReady i \<Rightarrow> wk_state w \<noteq> LOADING
     | Offload i \<Rightarrow> wk_state w \<noteq> DRAINING \<or> wk_admitted w \<noteq> {}
     | StopTask i f \<Rightarrow> wk_state w \<noteq> DRAINING \<or> wk_admitted w \<noteq> {}
     | OffloadFinish i \<Rightarrow> wk_state w \<noteq> OFFLOADING
     | WakeFinish i \<Rightarrow> wk_state w \<noteq> WAKING
     | StopFinish i f \<Rightarrow> wk_state w \<noteq> STOPPING" by simp
  then show ?thesis
    using assms(1) assms(2)
    by (cases t; cases "wk_state w") (auto simp: worker_ok_def stop_pending_def)
qed

lemma admit_inv:
  assumes "sup_inv sv" "0 \<le> tokens"
  shows "sup_inv (fst (admit wid rid tokens now sv))"
proof (cases "get_worker sv wid")
  case (Some w)
  note ok = sup_invD [OF assms(1) Some]
  show ?thesis
  proof (cases "wk_state w = READY")
    case True
    have "worker_ok (set (sv_pending sv)) wid (w\<lparr>wk_admitted := insert rid (wk_admitted w),
        wk_accepted := wk_accepted w + 1, wk_outstanding := wk_outstanding w + tokens,
        wk_last_demand_at := now\<rparr>)"
      using ok True assms(2) by (simp add: worker_ok_def)
    with Some True show ?thesis
      by (intro section_inv [OF assms(1) _ tasks_step_none]) (auto simp: admit_def)
  qed (use Some assms in \<open>simp add: admit_def\<close>)
qed (use assms in \<open>simp add: admit_def\<close>)

lemma release_inv:
  assumes "sup_inv sv"
  shows "sup_inv (release wid rid tokens now sv)"
proof (cases "get_worker sv wid")
  case (Some w)
  note ok = sup_invD [OF assms(1) Some]
  let ?w = "w\<lparr>wk_admitted := wk_admitted w - {rid}, wk_last_demand_at := now,
      wk_outstanding := max 0 (wk_outstanding w - tokens)\<rparr>"
  let ?ts = "if wk_state w = DRAINING \<and> wk_admitted w - {rid} = {}
    then [if wid \<in> sv_drain_to_sleep sv then Offload wid else StopTask wid False] else []"
  have "worker_ok (set (sv_pending sv) \<union> set ?ts) wid ?w"
    using ok by (cases "wk_state w") (auto simp: worker_ok_def stop_pending_def)
  moreover have "tasks_step sv wid (sv_pending sv) ?ts"
    by (simp add: tasks_step_def holds_no_lock_def)
  moreover have "sv_pending (release wid rid tokens now sv) = sv_pending sv @ ?ts"
    using Some by (simp add: release_def Let_def)
  moreover have "get_worker (release wid rid tokens now sv) i
      = (if i = wid then Some ?w else get_worker sv i)" for i
    using Some by (simp add: release_def Let_def)
  ultimately show ?thesis by (intro section_inv [OF assms]) auto
qed (use assms in \<open>simp add: release_def\<close>)

lemma drain_inv:
  assumes "sup_inv sv"
  shows "sup_inv (drain wid now sv)"
proof (cases "get_worker sv wid")
  case (Some w)
  note ok = sup_invD [OF assms(1) Some]
  show ?thesis
  proof (cases "wk_state w \<in> {DRAINING, STOPPING, COLD}")
    case False
    let ?w = "w\<lparr>wk_state := DRAINING, wk_drain_started_at := Some now\<rparr>"
    let ?ts = "if wk_admitted w = {} then [StopTask wid False] else []"
    have "worker_ok (set (sv_pending sv) \<union> set ?ts) wid ?w"
      using ok by (auto simp: worker_ok_def stop_pending_def)
    moreover have "tasks_step sv wid (sv_pending sv) ?ts"
      by (simp add: tasks_step_def holds_no_lock_def)
    moreover have "sv_pending (drain wid now sv) = sv_pending sv @ ?ts"
      using Some False by (simp add: drain_def Let_def)
    moreover have "get_worker (drain wid now sv) i
        = (if i = wid then Some ?w else get_worker sv i)" for i
      using Some False by (simp add: drain_def Let_def)
    ultimately show ?thesis by (intro section_inv [OF assms]) auto
  qed (use Some assms in \<open>simp add: drain_def\<close>)
qed (use assms in \<open>simp add: drain_def\<close>)

lemma sleep_inv:
  assumes "sup_inv sv"
  shows "sup_inv (sleep_worker st wid now sv)"
proof (cases "ram_weight_cache_enabled st \<and> get_worker sv wid \<noteq> None")
  case True
  then obtain w where Some: "get_worker sv wid = Some w" by auto
  note ok = sup_invD [OF assms(1) Some]
  show ?thesis
  proof (cases "wk_state w \<in> {READY, DRAINING}")
    case st: True
    let ?w = "if wk_admitted w = {} then w
      else w\<lparr>wk_state := DRAINING, wk_drain_started_at := Some now\<rparr>"
    let ?ts = "if wk_admitted w = {} then [Offload wid] else []"
    have "worker_ok (set (sv_pending sv) \<union> set ?ts) wid ?w"
      using ok st by (auto simp: worker_ok_def stop_pending_def)
    moreover have "tasks_step sv wid (sv_pending sv) ?ts"
      by (simp add: tasks_step_def holds_no_lock_def)
    moreover have "sv_pending (sleep_worker st wid now sv) = sv_pending sv @ ?ts"
      using Some True st by (cases "wk_state w") (simp_all add: sleep_worker_def Let_def)
    moreover have "get_worker (sleep_worker st wid now sv) i
        = (if i = wid then Some ?w else get_worker sv i)" for i
      using Some True st by (cases "wk_state w") (simp_all add: sleep_worker_def Let_def)
    ultimately show ?thesis by (intro section_inv [OF assms]) auto
  next
    case False
    with Some True have "sleep_worker st wid now sv = sv"
      by (cases "wk_state w") (simp_all add: sleep_worker_def)
    with assms show ?thesis by simp
  qed
next
  case False
  then have "sleep_worker st wid now sv = drain wid now sv \<or> sleep_worker st wid now sv = sv"
    by (cases "get_worker sv wid") (simp_all add: sleep_worker_def)
  with assms drain_inv show ?thesis by metis
qed

lemma tasks_step_two:
  "task_worker t = wid \<Longrightarrow> list_all holds_no_lock ts \<Longrightarrow>
     tasks_step sv wid (remove1 t (sv_pending sv)) ts"
  by (auto simp: tasks_step_def)

lemma await_ready_inv:
  assumes "sup_inv sv" "AwaitReady wid \<in> set (sv_pending sv)"
  shows "sup_inv (await_ready wid probe now (take_task (AwaitReady wid) sv))"
proof (cases probe)
  case ProbeExited
  with fail_take_inv [OF assms(1)] show ?thesis by (simp add: await_ready_def)
next
  case ProbeTimeout
  with fail_take_inv [OF assms(1)] show ?thesis by (simp add: await_ready_def)
next
  case ProbeRetry
  have "worker_ok (set (remove1 (AwaitReady wid) (sv_pending sv)) \<union> set [AwaitReady wid]) wid w"
    if "get_worker sv wid = Some w" for w
    by (rule taken_ok [OF sup_invD [OF assms(1) that], where t = "AwaitReady wid"])
      (auto simp: in_set_remove1)
  then show ?thesis
    using ProbeRetry
    by (intro section_inv [OF assms(1) _ tasks_step_two [where t = "AwaitReady wid"
          and ts = "[AwaitReady wid]"]])
      (auto simp: await_ready_def holds_no_lock_def)
next
  case ProbeHealthy
  let ?base = "remove1 (AwaitReady wid) (sv_pending sv)"
  have keep: "worker_ok (set ?base) wid w"
    if "get_worker sv wid = Some w" "wk_state w \<noteq> LOADING" for w
    by (rule taken_ok [OF sup_invD [OF assms(1) that(1)], where t = "AwaitReady wid"])
      (use that(2) in \<open>auto simp: in_set_remove1\<close>)
  have ready: "worker_ok (set ?base) wid
      (w\<lparr>wk_state := READY, wk_ready_at := Some now, wk_last_demand_at := now\<rparr>)"
    if "get_worker sv wid = Some w" for w
    using sup_invD [OF assms(1) that] by (simp add: worker_ok_def)
  show ?thesis
    using ProbeHealthy keep ready
    by (intro section_inv [OF assms(1) _ tasks_step_take [where t = "AwaitReady wid"]])
      (auto simp: await_ready_def Let_def split: option.splits if_splits)
qed

lemma monitor_inv: "sup_inv sv \<Longrightarrow> sup_inv (monitor_exit wid code sv)"
  using fail_inv by (auto simp: monitor_exit_def split: option.splits)

lemma watchdog_inv:
  assumes "sup_inv sv"
  shows "sup_inv (fst (watchdog_check st now wid sv))"
proof (cases "get_worker sv wid")
  case (Some w)
  have "worker_ok (set (sv_pending sv) \<union> set [StopTask wid True]) wid w"
    using sup_invD [OF assms Some] by (rule worker_ok_mono) auto
  then have "sup_inv (spawn (StopTask wid True) sv)"
    using Some
    by (intro section_inv [OF assms _ tasks_step_add [OF tasks_step_none [of sv wid]]])
      (auto simp: holds_no_lock_def)
  with Some assms show ?thesis by (simp add: watchdog_check_def)
qed (use assms in \<open>simp add: watchdog_check_def\<close>)

lemma offload_inv:
  assumes "sup_inv sv" "\<not> transition_locked sv wid"
  shows "sup_inv (offload_begin wid now (take_task (Offload wid) sv))"
proof -
  let ?base = "remove1 (Offload wid) (sv_pending sv)"
  have keep: "worker_ok (set ?base) wid w"
    if "get_worker sv wid = Some w" "wk_state w \<noteq> DRAINING \<or> wk_admitted w \<noteq> {}" for w
    by (rule taken_ok [OF sup_invD [OF assms(1) that(1)], where t = "Offload wid"])
      (use that(2) in \<open>auto simp: in_set_remove1\<close>)
  show ?thesis
  proof (cases "get_worker sv wid")
    case None
    then show ?thesis
      by (intro section_inv [OF assms(1) _ tasks_step_take [where t = "Offload wid"]])
        (auto simp: offload_begin_def)
  next
    case (Some w)
    note ok = sup_invD [OF assms(1) Some]
    consider "wk_state w \<in> {COLD, SLEEPING, STOPPING}"
      | "wk_state w \<notin> {COLD, SLEEPING, STOPPING}" "wk_admitted w \<noteq> {}"
      | "wk_state w \<notin> {COLD, SLEEPING, STOPPING}" "wk_admitted w = {}" by blast
    then show ?thesis
    proof cases
      case 1
      with keep Some show ?thesis
        by (intro section_inv [OF assms(1) _ tasks_step_take [where t = "Offload wid"]])
          (auto simp: offload_begin_def)
    next
      case 2
      have "worker_ok (set ?base) wid (w\<lparr>wk_state := DRAINING, wk_drain_started_at := Some now\<rparr>)"
        using ok 2 by (simp add: worker_ok_def)
      with 2 Some show ?thesis
        by (intro section_inv [OF assms(1) _ tasks_step_take [where t = "Offload wid"]])
          (auto simp: offload_begin_def)
    next
      case 3
      have "worker_ok (set ?base \<union> set [OffloadFinish wid]) wid
          (w\<lparr>wk_state := OFFLOADING, wk_drain_started_at := None\<rparr>)"
        using ok 3 by (simp add: worker_ok_def)
      with 3 Some show ?thesis
        by (intro section_inv [OF assms(1) _ tasks_step_begin
              [OF tasks_step_take [where t = "Offload wid"] assms(2)]])
          (auto simp: offload_begin_def Let_def)
    qed
  qed
qed

lemma stop_begin_inv:
  assumes "sup_inv sv" "\<not> transition_locked sv wid"
  shows "sup_inv (stop_begin wid force (take_task (StopTask wid force) sv))"
proof -
  let ?base = "remove1 (StopTask wid force) (sv_pending sv)"
  have keep: "worker_ok (set ?base) wid w"
    if "get_worker sv wid = Some w" "wk_state w \<noteq> DRAINING \<or> wk_admitted w \<noteq> {}" for w
    by (rule taken_ok [OF sup_invD [OF assms(1) that(1)], where t = "StopTask wid force"])
      (use that(2) in \<open>auto simp: in_set_remove1\<close>)
  show ?thesis
  proof (cases "get_worker sv wid")
    case None
    then show ?thesis
      by (intro section_inv [OF assms(1) _ tasks_step_take [where t = "StopTask wid force"]])
        (auto simp: stop_begin_def)
  next
    case (Some w)
    note ok = sup_invD [OF assms(1) Some]
    show ?thesis
    proof (cases "wk_state w = COLD \<or> wk_admitted w \<noteq> {} \<and> \<not> force")
      case True
      then have eq: "stop_begin wid force (take_task (StopTask wid force) sv)
          = take_task (StopTask wid force) sv"
        using Some by (auto simp: stop_begin_def)
      have "wk_state w \<noteq> DRAINING \<or> wk_admitted w \<noteq> {}" using True by auto
      with keep Some show ?thesis
        unfolding eq
        by (intro section_inv [OF assms(1) _ tasks_step_take [where t = "StopTask wid force"]]) auto
    next
      case False
      have "worker_ok (set ?base \<union> set [StopFinish wid force]) wid (w\<lparr>wk_state := STOPPING\<rparr>)"
        using ok by (cases force) (simp_all add: worker_ok_def)
      with False Some show ?thesis
        by (intro section_inv [OF assms(1) _ tasks_step_begin
              [OF tasks_step_take [where t = "StopTask wid force"] assms(2)]])
          (auto simp: stop_begin_def Let_def)
    qed
  qed
qed

lemma wake_begin_inv:
  assumes "sup_inv sv" "\<not> transition_locked sv wid"
  shows "sup_inv (fst (wake_begin st wid sv))"
proof (cases "get_worker sv wid")
  case None
  with assms show ?thesis by (simp add: wake_begin_def)
next
  case (Some w)
  show ?thesis
  proof (cases "ram_weight_cache_enabled st \<and> wk_state w = SLEEPING")
    case True
    have "worker_ok (set (sv_pending sv) \<union> set [WakeFinish wid]) wid (w\<lparr>wk_state := WAKING\<rparr>)"
      using sup_invD [OF assms(1) Some] True by (simp add: worker_ok_def)
    with True Some show ?thesis
      by (intro section_inv [OF assms(1) _ tasks_step_begin [OF tasks_step_none assms(2)]])
        (auto simp: wake_begin_def Let_def)
  next
    case False
    with Some assms show ?thesis by (auto simp: wake_begin_def)
  qed
qed

lemma offload_finish_inv:
  assumes "sup_inv sv"
  shows "sup_inv (offload_finish wid failure elapsed now (take_task (OffloadFinish wid) sv))"
proof (cases failure)
  case (Some exc)
  with fail_take_inv [OF assms] show ?thesis by (simp add: offload_finish_def)
next
  case None
  let ?base = "remove1 (OffloadFinish wid) (sv_pending sv)"
  have keep: "worker_ok (set ?base) wid w"
    if "get_worker sv wid = Some w" "wk_state w \<noteq> OFFLOADING" for w
    by (rule taken_ok [OF sup_invD [OF assms(1) that(1)], where t = "OffloadFinish wid"])
      (use that(2) in \<open>auto simp: in_set_remove1\<close>)
  have slept: "worker_ok (set ?base) wid (w\<lparr>wk_state := SLEEPING, wk_sleeping_at := Some now,
      wk_last_offload := Some elapsed, wk_host_cached := True\<rparr>)"
    if "get_worker sv wid = Some w" "wk_state w = OFFLOADING" for w
    using sup_invD [OF assms(1) that(1)] that(2) by (simp add: worker_ok_def)
  show ?thesis
    using None keep slept
    by (intro section_inv [OF assms(1) _ tasks_step_take [where t = "OffloadFinish wid"]])
      (auto simp: offload_finish_def Let_def split: option.splits if_splits)
qed

lemma wake_finish_inv:
  assumes "sup_inv sv"
  shows "sup_inv (wake_finish st wid failure elapsed now (take_task (WakeFinish wid) sv))"
proof (cases failure)
  case (Some exc)
  with fail_take_inv [OF assms] show ?thesis by (simp add: wake_finish_def)
next
  case None
  let ?base = "remove1 (WakeFinish wid) (sv_pending sv)"
  have keep: "worker_ok (set ?base) wid w"
    if "get_worker sv wid = Some w" "wk_state w \<noteq> WAKING" for w
    by (rule taken_ok [OF sup_invD [OF assms(1) that(1)], where t = "WakeFinish wid"])
      (use that(2) in \<open>auto simp: in_set_remove1\<close>)
  have woken: "worker_ok (set ?base) wid (w\<lparr>wk_state := READY, wk_ready_at := Some now,
      wk_last_demand_at := now, wk_sleeping_at := None, wk_last_activation := Some elapsed,
      wk_host_cached := False\<rparr>)"
    "worker_ok (set ?base) wid (w\<lparr>wk_state := READY, wk_ready_at := Some now,
      wk_last_demand_at := now, wk_sleeping_at := None, wk_last_activation := Some elapsed\<rparr>)"
    if "get_worker sv wid = Some w" for w
    using sup_invD [OF assms(1) that(1)] by (simp_all add: worker_ok_def)
  show ?thesis
    using None keep woken
    by (intro section_inv [OF assms(1) _ tasks_step_take [where t = "WakeFinish wid"]])
      (auto simp: wake_finish_def Let_def split: option.splits if_splits)
qed

lemma stop_finish_inv:
  assumes "sup_inv sv"
  shows "sup_inv (stop_finish wid (take_task (StopFinish wid force) sv))"
proof (cases "get_worker sv wid")
  case None
  then show ?thesis
    by (intro section_inv [OF assms(1) _ tasks_step_take [where t = "StopFinish wid force"]])
      (auto simp: stop_finish_def)
next
  case (Some w)
  have "worker_ok (set (remove1 (StopFinish wid force) (sv_pending sv))) wid
      (w\<lparr>wk_state := COLD, wk_pid := None, wk_admitted := {}, wk_outstanding := 0,
         wk_sleeping_at := None, wk_host_cached := False\<rparr>)"
    using sup_invD [OF assms(1) Some] by (simp add: worker_ok_def)
  with Some show ?thesis
    by (intro section_inv [OF assms(1) _ tasks_step_take [where t = "StopFinish wid force"]])
      (auto simp: stop_finish_def Let_def)
qed

lemma stop_all_drains_inv: "sup_inv sv \<Longrightarrow> sup_inv (fold (\<lambda>wid. drain wid now) ids sv)"
  by (induction ids arbitrary: sv) (auto intro: drain_inv)

lemma spawn_inv:
  assumes "sup_inv sv" "holds_no_lock t"
  shows "sup_inv (spawn t sv)"
proof (rule section_inv [OF assms(1) _ tasks_step_add [OF tasks_step_none [of sv "task_worker t"] assms(2)]])
  fix w assume "get_worker (spawn t sv) (task_worker t) = Some w"
  then have "worker_ok (set (sv_pending sv)) (task_worker t) w" using sup_invD [OF assms(1)] by simp
  then show "worker_ok (set (sv_pending sv) \<union> set [t]) (task_worker t) w"
    by (rule worker_ok_mono) auto
qed simp_all

lemma stop_all_spawns_inv:
  "sup_inv sv \<Longrightarrow> sup_inv (fold (\<lambda>wid. spawn (StopTask wid force)) ids sv)"
  by (induction ids arbitrary: sv) (simp_all add: spawn_inv holds_no_lock_def)

lemma stop_all_inv: "sup_inv sv \<Longrightarrow> sup_inv (stop_all force now sv)"
  by (auto simp: stop_all_def Let_def intro: stop_all_spawns_inv stop_all_drains_inv)

text \<open>The outcomes of a launch under a fresh id.\<close>

lemma launch_cases:
  assumes "wid \<notin> set (keys (sv_workers sv))"
  obtains err where "snd (launch st wid now p gpus path name parsers env kenv outcome sv) = Inl err"
      "\<And>i. get_worker (fst (launch st wid now p gpus path name parsers env kenv outcome sv)) i
        = get_worker sv i"
      "sv_pending (fst (launch st wid now p gpus path name parsers env kenv outcome sv)) = sv_pending sv"
    | w port pid where "snd (launch st wid now p gpus path name parsers env kenv outcome sv) = Inr w"
      "launch_checks st sv p gpus = None" "allocate_port st sv = Inr port"
      "w = (new_worker wid p gpus port now)\<lparr>wk_pid := Some pid\<rparr>"
      "\<And>i. get_worker (fst (launch st wid now p gpus path name parsers env kenv outcome sv)) i
        = (if i = wid then Some w else get_worker sv i)"
      "sv_pending (fst (launch st wid now p gpus path name parsers env kenv outcome sv))
        = sv_pending sv @ [AwaitReady wid]"
proof -
  let ?l = "launch st wid now p gpus path name parsers env kenv outcome sv"
  have fresh: "get_worker sv wid = None" using assms by (simp add: get_worker_def map_of_eq_None_iff)
  have undone: "map_of (AList.delete wid (AList.update wid v (sv_workers sv))) i = get_worker sv i" for v i
    using fresh by (simp add: map_of_delete map_of_update get_worker_def)
  show thesis
  proof (cases "launch_checks st sv p gpus")
    case (Some err)
    then show thesis by (intro that(1)) (auto simp: launch_def)
  next
    case checks: None
    show thesis
    proof (cases "allocate_port st sv")
      case (Inl err)
      with checks show thesis by (intro that(1)) (auto simp: launch_def)
    next
      case (Inr port)
      let ?w = "new_worker wid p gpus port now"
      show thesis
      proof (cases "worker_command st ?w path name parsers")
        case (Inl err)
        with checks Inr undone show thesis
          by (intro that(1)) (auto simp: launch_def Let_def get_worker_def)
      next
        case cmd: (Inr command)
        show thesis
        proof (cases "worker_environment st ?w env kenv")
          case (Inl err)
          with checks Inr cmd undone show thesis
            by (intro that(1)) (auto simp: launch_def Let_def get_worker_def)
        next
          case en: (Inr e)
          show thesis
          proof (cases outcome)
            case (Spawned pid)
            with checks Inr cmd en show thesis
              by (intro that(2) [of "?w\<lparr>wk_pid := Some pid\<rparr>" port pid])
                (auto simp: launch_def Let_def get_worker_def map_of_update record_event_def
                  persist_def spawn_def)
          next
            case (SpawnFailed err)
            with checks Inr cmd en undone show thesis
              by (intro that(1)) (auto simp: launch_def Let_def get_worker_def cleanup_def)
          next
            case (PersistFailed pid err)
            with checks Inr cmd en undone show thesis
              by (intro that(1)) (auto simp: launch_def Let_def get_worker_def cleanup_def)
          qed
        qed
      qed
    qed
  qed
qed

lemma launch_inv:
  assumes "sup_inv sv" "wid \<notin> set (keys (sv_workers sv))"
  shows "sup_inv (fst (launch st wid now p gpus path name parsers env kenv outcome sv))"
proof (cases rule: launch_cases [OF assms(2), of st now p gpus path name parsers env kenv outcome])
  case (1 err)
  show ?thesis
    by (rule section_inv [OF assms(1) _ tasks_step_none [of sv wid]])
      (use 1 sup_invD [OF assms(1)] in simp_all)
next
  case (2 w port pid)
  have "worker_ok (set (sv_pending sv) \<union> set [AwaitReady wid]) wid w"
    unfolding 2(4) by (simp add: worker_ok_def new_worker_def)
  with 2 show ?thesis
    by (intro section_inv [OF assms(1) _ tasks_step_add [OF tasks_step_none [of sv wid]]])
      (auto simp: holds_no_lock_def)
qed

lemma step_inv: "sup_step st sv sv' \<Longrightarrow> sup_inv sv \<Longrightarrow> sup_inv sv'"
proof (induction rule: sup_step.induct)
  case (launch wid sv now p gpus path name parsers env kenv outcome)
  then show ?case by (intro launch_inv)
next
  case (admit tokens sv wid rid now)
  then show ?case by (intro admit_inv)
next
  case (stop_request sv wid force)
  then show ?case by (intro spawn_inv) (simp_all add: holds_no_lock_def)
qed (auto intro: release_inv drain_inv sleep_inv wake_begin_inv watchdog_inv stop_all_inv monitor_inv
  await_ready_inv offload_inv stop_begin_inv offload_finish_inv wake_finish_inv stop_finish_inv)

lemma init_inv: "sup_inv sup_init"
  by (simp add: sup_inv_def sup_init_def get_worker_def finishers_def)

lemma reachable_inv: "sup_reachable st sv \<Longrightarrow> sup_inv sv"
  by (induction rule: sup_reachable.induct) (auto intro: init_inv step_inv)

section \<open>COLD is final\<close>

definition cold :: "supervisor \<Rightarrow> string \<Rightarrow> bool" where
  "cold sv wid \<longleftrightarrow> (\<exists>w. get_worker sv wid = Some w \<and> wk_state w = COLD)"

lemma cold_keeps:
  assumes "cold sv i"
  shows "cold (take_task t sv) i" "cold (fail_worker wid reason sv) i"
    "cold (spawn t sv) i" "cold (drain wid now sv) i"
  using assms
  by (auto simp: cold_def fail_worker_get drain_def Let_def split: option.splits)

lemma cold_fold_drain: "cold sv i \<Longrightarrow> cold (fold (\<lambda>wid. drain wid now) ids sv) i"
  by (induction ids arbitrary: sv) (auto intro: cold_keeps)

lemma cold_fold_spawn: "cold sv i \<Longrightarrow> cold (fold (\<lambda>wid. spawn (StopTask wid force)) ids sv) i"
  by (induction ids arbitrary: sv) (auto intro: cold_keeps)

lemma cold_step: "sup_step st sv sv' \<Longrightarrow> cold sv i \<Longrightarrow> cold sv' i"
proof (induction rule: sup_step.induct)
  case (launch wid sv now p gpus path name parsers env kenv outcome)
  have "get_worker sv wid = None"
    using launch(1) by (simp add: get_worker_def map_of_eq_None_iff)
  with launch(2) show ?case
    by (cases rule: launch_cases [OF launch(1), of st now p gpus path name parsers env kenv outcome])
      (auto simp: cold_def)
next
  case (admit tokens sv wid rid now)
  then show ?case by (auto simp: cold_def admit_def split: option.splits)
next
  case (release sv wid rid tokens now)
  then show ?case by (auto simp: cold_def release_def Let_def split: option.splits)
next
  case (drain sv wid now)
  then show ?case by (rule cold_keeps)
next
  case (sleep sv wid now)
  then show ?case
    using cold_keeps(4) [of sv i wid now]
    by (auto simp: cold_def sleep_worker_def Let_def split: option.splits)
next
  case (wake sv wid)
  then show ?case by (auto simp: cold_def wake_begin_def Let_def split: option.splits)
next
  case (watchdog sv now wid)
  then show ?case by (auto simp: cold_def watchdog_check_def Let_def split: option.splits)
next
  case (stop_all sv force now)
  then show ?case by (auto simp: stop_all_def Let_def intro: cold_fold_drain cold_fold_spawn)
next
  case (stop_request sv wid force)
  then show ?case by (rule cold_keeps)
next
  case (monitor sv wid code)
  then show ?case
    using cold_keeps(2) by (auto simp: monitor_exit_def split: option.splits)
next
  case (await_ready wid sv probe now)
  then have c: "cold (take_task (AwaitReady wid) sv) i" by (intro cold_keeps)
  then show ?case
    using cold_keeps(2) [OF c] by (cases probe)
      (auto simp: await_ready_def cold_def Let_def split: option.splits)
next
  case (offload wid sv now)
  then show ?case by (auto simp: cold_def offload_begin_def Let_def split: option.splits)
next
  case (stop wid force sv)
  then show ?case by (auto simp: cold_def stop_begin_def Let_def split: option.splits)
next
  case (offload_finish wid sv failure elapsed now)
  then have c: "cold (take_task (OffloadFinish wid) sv) i" by (intro cold_keeps)
  then show ?case
    using cold_keeps(2) [OF c]
    by (auto simp: offload_finish_def cold_def Let_def split: option.splits)
next
  case (wake_finish wid sv failure elapsed now)
  then have c: "cold (take_task (WakeFinish wid) sv) i" by (intro cold_keeps)
  then show ?case
    using cold_keeps(2) [OF c]
    by (auto simp: wake_finish_def cold_def Let_def split: option.splits)
next
  case (stop_finish wid force sv)
  then show ?case by (auto simp: cold_def stop_finish_def Let_def split: option.splits)
qed

section \<open>Properties\<close>

definition demo_launched :: supervisor where
  "demo_launched = fst (launch demo_settings ''w'' 0 demo_sup_profile [''g0''] ''/m'' ''m''
     (None, None) [] [] (Spawned 7) sup_init)"

lemma demo_launched_loading:
  "case get_worker demo_launched ''w'' of
     Some w \<Rightarrow> wk_state w = LOADING \<and> wk_id w = ''w'' \<and> wk_admitted w = {}
   | None \<Rightarrow> False"
  by code_simp

lemma demo_launched_reachable: "sup_reachable demo_settings demo_launched"
  unfolding demo_launched_def
  by (rule sup_reachable.step [OF sup_reachable.init sup_step.launch]) (simp add: sup_init_def)

text \<open>
  C4: a worker is never offloaded, asleep, waking, loading or cold with an admitted request, in any
  interleaving of launches, admissions, releases, drains, sleeps, wakes, stops, watchdogs, exits and
  the second halves of their transitions; its outstanding token work is never negative.
\<close>

theorem no_request_on_an_offloaded_worker:
  assumes "sup_reachable st sv" "get_worker sv wid = Some w"
    "wk_state w \<in> {LOADING, OFFLOADING, SLEEPING, WAKING, COLD}"
  shows "wk_admitted w = {} \<and> 0 \<le> wk_outstanding w"
  using sup_invD [OF reachable_inv [OF assms(1)] assms(2)] assms(3)
  by (cases "wk_state w") (simp_all add: worker_ok_def)

lemma no_request_on_an_offloaded_worker_witness:
  "\<exists>w. get_worker demo_launched ''w'' = Some w \<and> wk_admitted w = {}"
proof -
  obtain w where w: "get_worker demo_launched ''w'' = Some w" "wk_state w = LOADING"
    using demo_launched_loading by (auto split: option.splits)
  with no_request_on_an_offloaded_worker [OF demo_launched_reachable w(1)] show ?thesis by simp
qed

text \<open>
  C8: no transition is lost. In every reachable state a draining worker whose requests have all
  been released has a pending offload or stop, an offloading, waking, stopping or loading worker
  has the continuation that ends that state pending, and a worker has at most one transition under
  way.
\<close>

theorem no_transition_is_lost:
  assumes "sup_reachable st sv" "get_worker sv wid = Some w"
  shows "(case wk_state w of
      DRAINING \<Rightarrow> wk_admitted w = {} \<longrightarrow> Offload wid \<in> set (sv_pending sv)
        \<or> StopTask wid True \<in> set (sv_pending sv) \<or> StopTask wid False \<in> set (sv_pending sv)
    | OFFLOADING \<Rightarrow> OffloadFinish wid \<in> set (sv_pending sv)
    | WAKING \<Rightarrow> WakeFinish wid \<in> set (sv_pending sv)
    | STOPPING \<Rightarrow> StopFinish wid True \<in> set (sv_pending sv) \<or> StopFinish wid False \<in> set (sv_pending sv)
    | LOADING \<Rightarrow> AwaitReady wid \<in> set (sv_pending sv)
    | _ \<Rightarrow> True) \<and> length (finishers sv wid) \<le> 1"
  using sup_invD [OF reachable_inv [OF assms(1)] assms(2)] reachable_inv [OF assms(1)]
  by (cases "wk_state w") (simp_all add: worker_ok_def stop_pending_def sup_inv_def)

lemma no_transition_is_lost_witness:
  "AwaitReady ''w'' \<in> set (sv_pending demo_launched)"
proof -
  obtain w where w: "get_worker demo_launched ''w'' = Some w" "wk_state w = LOADING"
    using demo_launched_loading by (auto split: option.splits)
  with no_transition_is_lost [OF demo_launched_reachable w(1)] show ?thesis by simp
qed

text \<open>
  A cold worker stays cold. Whatever runs next (a startup probe that comes back, the end of an
  offload or a wake that was under way when the worker failed, another drain), the worker is still
  there and still cold, and it accepts no request.
\<close>

theorem cold_is_final:
  assumes "sup_step st sv sv'" "get_worker sv wid = Some w" "wk_state w = COLD"
  shows "\<exists>w'. get_worker sv' wid = Some w' \<and> wk_state w' = COLD \<and>
    snd (admit wid rid tokens now sv') = Inl (RuntimeError ''worker is not routable'')"
proof -
  from cold_step [OF assms(1)] assms(2,3) have "cold sv' wid" by (simp add: cold_def)
  then show ?thesis by (auto simp: cold_def admit_def)
qed

lemma cold_is_final_witness:
  "\<exists>w'. get_worker (drain ''w'' 5 (monitor_exit ''w'' ''1'' demo_launched)) ''w'' = Some w' \<and> wk_state w' = COLD"
proof -
  have "case get_worker (monitor_exit ''w'' ''1'' demo_launched) ''w'' of
      Some w \<Rightarrow> wk_state w = COLD | None \<Rightarrow> False" by code_simp
  then obtain w where "get_worker (monitor_exit ''w'' ''1'' demo_launched) ''w'' = Some w" "wk_state w = COLD"
    by (auto split: option.splits)
  from cold_is_final [OF sup_step.drain this] show ?thesis by blast
qed

text \<open>
  A drain of an idle worker ends it. Draining schedules a stop; carrying out the stop and its
  end leaves the worker cold, its row cold without a process id, its process forgotten and no
  offload to RAM scheduled for it.
\<close>

theorem drain_of_idle_worker_ends_cold:
  assumes "get_worker sv wid = Some w" "wk_id w = wid" "wk_admitted w = {}"
    "wk_state w \<notin> {DRAINING, STOPPING, COLD}"
    and "sv1 = drain wid now sv"
    and "sv2 = stop_begin wid False (take_task (StopTask wid False) sv1)"
    and "sv3 = stop_finish wid (take_task (StopFinish wid False) sv2)"
  shows "StopTask wid False \<in> set (sv_pending sv1) \<and> StopFinish wid False \<in> set (sv_pending sv2) \<and>
    cold sv3 wid \<and> map_of (sv_rows sv3) wid = Some (COLD, None) \<and>
    wid \<notin> sv_processes sv3 \<and> wid \<notin> sv_drain_to_sleep sv3"
proof -
  have d: "get_worker sv1 wid = Some (w\<lparr>wk_state := DRAINING, wk_drain_started_at := Some now\<rparr>)"
    "StopTask wid False \<in> set (sv_pending sv1)"
    using assms(1,3,4,5) by (simp_all add: drain_def Let_def)
  have b: "get_worker sv2 wid = Some (w\<lparr>wk_state := STOPPING, wk_drain_started_at := Some now\<rparr>)"
    "StopFinish wid False \<in> set (sv_pending sv2)"
    using d(1) assms(3,6) by (simp_all add: stop_begin_def Let_def)
  then show ?thesis
    using d(2) assms(2,7)
    by (simp add: stop_finish_def Let_def cold_def cleanup_def emit_def record_event_def persist_def
        map_of_update)
      (simp add: get_worker_def set_worker_def map_of_update)
qed

lemma drain_of_idle_worker_ends_cold_witness:
  "cold (stop_finish ''w'' (take_task (StopFinish ''w'' False) (stop_begin ''w'' False
     (take_task (StopTask ''w'' False) (drain ''w'' 1 demo_launched))))) ''w''"
proof -
  obtain w where "get_worker demo_launched ''w'' = Some w" "wk_id w = ''w''" "wk_admitted w = {}"
    "wk_state w \<notin> {DRAINING, STOPPING, COLD}"
    using demo_launched_loading by (auto split: option.splits)
  from drain_of_idle_worker_ends_cold [OF this refl refl refl] show ?thesis by blast
qed

text \<open>
  A launch that succeeds respects the machine. Its GPU set is one the profile was validated on;
  its port is in the private range and no live worker has it; no live worker shares its GPUs
  without kvcached, and with kvcached each of its GPUs has room for one more resident and one more
  cached worker.
\<close>

theorem launch_respects_the_machine:
  assumes "wid \<notin> set (keys (sv_workers sv))"
    and "snd (launch st wid now p gpus path name parsers env kenv outcome sv) = Inr w"
  shows "wk_gpu_uuids w = gpus \<and> gpus \<in> set (pf_eligible_gpu_sets p) \<and>
    ws_port_start st \<le> wk_port w \<and> wk_port w \<le> ws_port_end st \<and>
    (\<forall>v \<in> set (vals (sv_workers sv)). wk_state v \<noteq> COLD \<longrightarrow> wk_port v \<noteq> wk_port w) \<and>
    (overlapping_workers sv gpus \<noteq> [] \<longrightarrow> ws_kvcached_enabled st \<and>
      (\<forall>g \<in> set gpus.
        int (length [v \<leftarrow> overlapping_workers sv gpus. g \<in> set (wk_gpu_uuids v)
          \<and> wk_state v \<in> set resident_states]) < ws_max_workers_per_gpu st \<and>
        int (length [v \<leftarrow> overlapping_workers sv gpus. g \<in> set (wk_gpu_uuids v)])
          < ws_max_cached_per_gpu st))"
proof (cases rule: launch_cases [OF assms(1), of st now p gpus path name parsers env kenv outcome])
  case (1 err)
  with assms(2) show ?thesis by simp
next
  case (2 v port pid)
  have w: "wk_gpu_uuids w = gpus" "wk_port w = port"
    using 2(1,4) assms(2) by (simp_all add: new_worker_def)
  from 2(3) have "find (\<lambda>q. q \<notin> set (map wk_port [w \<leftarrow> vals (sv_workers sv). wk_state w \<noteq> COLD]))
      [ws_port_start st..ws_port_end st] = Some port"
    by (auto simp: allocate_port_def Let_def split: option.splits)
  from find_SomeD [OF this] have port: "ws_port_start st \<le> port" "port \<le> ws_port_end st"
    "\<forall>v \<in> set (vals (sv_workers sv)). wk_state v \<noteq> COLD \<longrightarrow> wk_port v \<noteq> port" by auto
  from 2(2) have el: "gpus \<in> set (pf_eligible_gpu_sets p)"
    and ov: "set (concat (map wk_gpu_uuids (overlapping_workers sv gpus))) \<inter> set gpus = {}
      \<or> can_share_gpus st p gpus (overlapping_workers sv gpus)"
    by (auto simp: launch_checks_def Let_def split: if_splits)
  have "can_share_gpus st p gpus (overlapping_workers sv gpus)"
    if ne: "overlapping_workers sv gpus \<noteq> []"
  proof -
    obtain u where "u \<in> set (overlapping_workers sv gpus)" using ne by (meson last_in_set)
    then have "set (concat (map wk_gpu_uuids (overlapping_workers sv gpus))) \<inter> set gpus \<noteq> {}"
      by (fastforce simp: overlapping_workers_def)
    with ov show ?thesis by blast
  qed
  then have sh: "overlapping_workers sv gpus \<noteq> [] \<longrightarrow> ws_kvcached_enabled st \<and>
      (\<forall>g \<in> set gpus.
        int (length [v \<leftarrow> overlapping_workers sv gpus. g \<in> set (wk_gpu_uuids v)
          \<and> wk_state v \<in> set resident_states]) < ws_max_workers_per_gpu st \<and>
        int (length [v \<leftarrow> overlapping_workers sv gpus. g \<in> set (wk_gpu_uuids v)])
          < ws_max_cached_per_gpu st)"
    by (auto simp: can_share_gpus_def list_all_iff Let_def)
  show ?thesis unfolding w by (intro conjI refl el port sh)
qed

lemma launch_respects_the_machine_witness:
  "\<exists>w. snd (launch demo_settings ''v'' 1 demo_sup_profile [''g0''] ''/m'' ''m'' (None, None) [] []
      (Spawned 8) demo_launched) = Inr w \<and> wk_port w = 9001 \<and>
    (\<forall>v \<in> set (vals (sv_workers demo_launched)). wk_state v \<noteq> COLD \<longrightarrow> wk_port v \<noteq> wk_port w)"
proof -
  have "case snd (launch demo_settings ''v'' 1 demo_sup_profile [''g0''] ''/m'' ''m'' (None, None) [] []
      (Spawned 8) demo_launched) of Inr w \<Rightarrow> wk_port w = 9001 | Inl _ \<Rightarrow> False" by code_simp
  then obtain w where w: "snd (launch demo_settings ''v'' 1 demo_sup_profile [''g0''] ''/m'' ''m''
      (None, None) [] [] (Spawned 8) demo_launched) = Inr w" "wk_port w = 9001"
    by (auto split: sum.splits)
  have "''v'' \<notin> set (keys (sv_workers demo_launched))" by code_simp
  from launch_respects_the_machine [OF this w(1)] w show ?thesis by blast
qed

end
