(* ===== verification/StorageTables.thy ===== *)
theory StorageTables
  imports Domain
begin

text \<open>
  The schema of \<^verbatim>\<open>src/src/llm_rio/storage.py\<close>: one record per table, the database as a record of
  tables, the constraints the schema declares (primary keys, UNIQUE, CHECK and REFERENCES) as the
  tests the inserts run, and the statements' common shapes (an update of the rows a WHERE clause
  selects, the one row a unique key selects).

  An operation that runs in a transaction returns an exception or its result with the new
  database; an exception rolls back, so the old database stays. ISO timestamps are times (the
  text order of UTC timestamps is their order in time); generated ids and the clock are arguments.
  JSON columns hold the decoded value.
\<close>

section \<open>Tables\<close>

record account_row =
  qa_id :: string
  qa_nickname :: string
  qa_balance :: int
  qa_limit :: int
  qa_baseline :: int
  qa_reset_at :: "datetime option"
  qa_unlimited :: bool
  qa_created_at :: datetime

record key_row =
  ak_id :: string
  ak_nickname :: string
  ak_role :: role
  ak_account :: string
  ak_prefix :: string
  ak_hash :: string
  ak_encrypted :: string
  ak_active :: bool
  ak_created_at :: datetime
  ak_last_used_at :: "datetime option"

record model_row =
  mc_id :: string
  mc_nickname :: string
  mc_repo :: string
  mc_requested_revision :: "string option"
  mc_resolved_revision :: "string option"
  mc_state :: catalog_state
  mc_artifact_path :: "string option"
  mc_artifact_hashes :: "json list"
  mc_capabilities :: "string list"
  mc_request_limits :: "(string, json) dict"
  mc_request_defaults :: "(string, json) dict"
  mc_source_model :: "string option"
  mc_created_by :: string
  mc_created_at :: datetime
  mc_updated_at :: datetime

record grant_row =
  mg_key :: string
  mg_model :: string
  mg_created_at :: datetime

record job_row =
  mj_id :: string
  mj_model :: string
  mj_state :: string
  mj_stage :: string
  mj_progress :: "(string, json) dict"
  mj_failure :: "(string, json) dict option"
  mj_grants :: "string list"
  mj_created_at :: datetime
  mj_updated_at :: datetime

record profile_row =
  mp_id :: string
  mp_model :: string
  mp_fingerprint :: string
  mp_key :: string
  mp_profile :: "(string, json) dict"
  mp_verified_at :: datetime
  mp_active :: bool

datatype reservation_state = RESERVED | SETTLED | RELEASED

record reservation_row =
  qr_id :: string
  qr_request :: string
  qr_hash :: string
  qr_account :: string
  qr_key :: string
  qr_model :: string
  qr_reserved :: int
  qr_actual :: "int option"
  qr_state :: reservation_state
  qr_created_at :: datetime
  qr_settled_at :: "datetime option"

record ledger_row =
  ql_id :: string
  ql_account :: string
  ql_reservation :: string
  ql_delta :: int
  ql_reason :: string
  ql_created_at :: datetime

datatype request_state = RQ_QUEUED | RQ_ADMITTED | RQ_COMPLETED | RQ_FAILED

record inference_row =
  ir_id :: string
  ir_key :: string
  ir_account :: string
  ir_model :: string
  ir_reservation :: string
  ir_worker :: "string option"
  ir_state :: request_state
  ir_estimated :: int
  ir_prompt :: "int option"
  ir_completion :: "int option"
  ir_error :: "string option"
  ir_test_run :: "string option"
  ir_client_worker :: "string option"
  ir_accepted :: nat
  ir_completions :: nat
  ir_created_at :: datetime
  ir_admitted_at :: "datetime option"
  ir_completed_at :: "datetime option"

text \<open>
  The ten metric columns that the two summary tables share (\<open>_METRICS\<close> of
  \<^verbatim>\<open>src/src/llm_rio/usage_summary.py\<close>). The code adds them column by column: they are a
  commutative group, so that the library's sums apply to them.
\<close>

datatype metrics = Metrics
  (mt_requests: int) (mt_successful: int) (mt_failed: int) (mt_reserved: int)
  (mt_charged: int) (mt_prompt: int) (mt_completion: int) (mt_output: int)
  (mt_seconds: rat) (mt_timed: int)

instantiation metrics :: ab_group_add
begin

definition zero_metrics :: metrics where
  "zero_metrics = Metrics 0 0 0 0 0 0 0 0 0 0"

fun plus_metrics :: "metrics \<Rightarrow> metrics \<Rightarrow> metrics" where
  "plus_metrics (Metrics a1 a2 a3 a4 a5 a6 a7 a8 a9 a10) (Metrics b1 b2 b3 b4 b5 b6 b7 b8 b9 b10) =
     Metrics (a1 + b1) (a2 + b2) (a3 + b3) (a4 + b4) (a5 + b5) (a6 + b6) (a7 + b7) (a8 + b8)
       (a9 + b9) (a10 + b10)"

fun uminus_metrics :: "metrics \<Rightarrow> metrics" where
  "uminus_metrics (Metrics a1 a2 a3 a4 a5 a6 a7 a8 a9 a10) =
     Metrics (- a1) (- a2) (- a3) (- a4) (- a5) (- a6) (- a7) (- a8) (- a9) (- a10)"

definition minus_metrics :: "metrics \<Rightarrow> metrics \<Rightarrow> metrics" where
  "minus_metrics a b = a + (- b)"

instance
proof
  fix a b c :: metrics
  show "a + b + c = a + (b + c)" by (cases a; cases b; cases c) simp
  show "a + b = b + a" by (cases a; cases b) simp
  show "0 + a = a" by (cases a) (simp add: zero_metrics_def)
  show "- a + a = 0" by (cases a) (simp add: zero_metrics_def)
  show "a - b = a + (- b)" by (rule minus_metrics_def)
qed

end

lemma metrics_sel_plus [simp]:
  "mt_requests (a + b) = mt_requests a + mt_requests b"
  "mt_charged (a + b) = mt_charged a + mt_charged b"
  "mt_prompt (a + b) = mt_prompt a + mt_prompt b"
  "mt_completion (a + b) = mt_completion a + mt_completion b"
  "mt_successful (a + b) = mt_successful a + mt_successful b"
  "mt_failed (a + b) = mt_failed a + mt_failed b"
  by (cases a; cases b; simp)+

lemma metrics_sel_zero [simp]:
  "mt_requests 0 = 0" "mt_charged 0 = 0" "mt_prompt 0 = 0" "mt_completion 0 = 0"
  "mt_successful 0 = 0" "mt_failed 0 = 0"
  by (simp_all add: zero_metrics_def)

datatype window = CURRENT | TOTAL

record period_row =
  up_window :: window
  up_start :: datetime
  up_end :: datetime
  up_summarized_at :: datetime
  up_metrics :: metrics

record summary_row =
  us_window :: window
  us_account :: string
  us_key :: string
  us_model :: string
  us_metrics :: metrics
  us_first :: "datetime option"
  us_last :: "datetime option"

record worker_row =
  wr_id :: string
  wr_model :: string
  wr_profile :: string
  wr_gpus :: "string list"
  wr_port :: int
  wr_pid :: "int option"
  wr_state :: runtime_state
  wr_created_at :: datetime
  wr_updated_at :: datetime

record event_row =
  ev_type :: string
  ev_entity :: "string option"
  ev_payload :: "(string, json) dict"
  ev_created_at :: datetime

record service_row =
  sv_mode :: service_mode
  sv_fingerprint :: "string option"
  sv_updated_at :: datetime

record database =
  db_accounts :: "account_row list"
  db_keys :: "key_row list"
  db_models :: "model_row list"
  db_grants :: "grant_row list"
  db_jobs :: "job_row list"
  db_profiles :: "profile_row list"
  db_reservations :: "reservation_row list"
  db_ledger :: "ledger_row list"
  db_requests :: "inference_row list"
  db_periods :: "period_row list"
  db_summaries :: "summary_row list"
  db_workers :: "worker_row list"
  db_events :: "event_row list"
  db_service :: service_row

text \<open>A new database: empty tables, and the singleton row of the service's mode.\<close>

definition empty_database :: "datetime \<Rightarrow> database" where
  "empty_database now =
     \<lparr>db_accounts = [], db_keys = [], db_models = [], db_grants = [], db_jobs = [],
      db_profiles = [], db_reservations = [], db_ledger = [], db_requests = [], db_periods = [],
      db_summaries = [], db_workers = [], db_events = [],
      db_service = \<lparr>sv_mode = ACTIVE, sv_fingerprint = None, sv_updated_at = now\<rparr>\<rparr>"

section \<open>Statements\<close>

definition update_rows :: "('r \<Rightarrow> bool) \<Rightarrow> ('r \<Rightarrow> 'r) \<Rightarrow> 'r list \<Rightarrow> 'r list" where
  "update_rows P f rows = map (\<lambda>r. if P r then f r else r) rows"

definition rowcount :: "('r \<Rightarrow> bool) \<Rightarrow> 'r list \<Rightarrow> nat" where
  "rowcount P rows = length (filter P rows)"

definition sum_where :: "('r \<Rightarrow> bool) \<Rightarrow> ('r \<Rightarrow> 'n::monoid_add) \<Rightarrow> 'r list \<Rightarrow> 'n" where
  "sum_where P f rows = sum_list (map f (filter P rows))"

abbreviation has_row :: "('r \<Rightarrow> 'k) \<Rightarrow> 'k \<Rightarrow> 'r list \<Rightarrow> bool" where
  "has_row key k rows \<equiv> k \<in> key ` set rows"

abbreviation find_row :: "('r \<Rightarrow> 'k) \<Rightarrow> 'k \<Rightarrow> 'r list \<Rightarrow> 'r option" where
  "find_row key k rows \<equiv> find (\<lambda>r. key r = k) rows"

abbreviation unique_on :: "('r \<Rightarrow> 'k) \<Rightarrow> 'r list \<Rightarrow> bool" where
  "unique_on key rows \<equiv> distinct (map key rows)"

text \<open>A step of a transaction after another: the first exception ends it.\<close>

fun and_then :: "'e + 'a \<Rightarrow> ('a \<Rightarrow> 'e + 'b) \<Rightarrow> 'e + 'b" where
  "and_then (Inl e) f = Inl e"
| "and_then (Inr x) f = f x"

text \<open>\<open>LIKE 'deleted-%'\<close> ignores the case of ASCII letters; \<open>startswith\<close> does not.\<close>

definition ascii_lower :: "char \<Rightarrow> char" where
  "ascii_lower c = (if of_char c \<ge> (65 :: nat) \<and> of_char c \<le> (90 :: nat)
                    then char_of (of_char c + 32 :: nat) else c)"

definition like_deleted :: "string \<Rightarrow> bool" where
  "like_deleted p \<longleftrightarrow> map ascii_lower (take 8 p) = ''deleted-''"

definition startswith :: "string \<Rightarrow> string \<Rightarrow> bool" where
  "startswith pre s \<longleftrightarrow> take (length pre) s = pre"

section \<open>Lemmas on tables\<close>

lemma update_rows_simps [simp]:
  "update_rows P f [] = []"
  "update_rows P f (r # rs) = (if P r then f r else r) # update_rows P f rs"
  by (simp_all add: update_rows_def)

lemma length_update_rows [simp]: "length (update_rows P f rows) = length rows"
  by (simp add: update_rows_def)

lemma set_update_rows: "set (update_rows P f rows) = (\<lambda>r. if P r then f r else r) ` set rows"
  by (simp add: update_rows_def)

lemma map_update_rows:
  assumes "\<And>r. P r \<Longrightarrow> g (f r) = g r"
  shows "map g (update_rows P f rows) = map g rows"
  using assms by (simp add: update_rows_def)

lemma image_update_rows:
  assumes "\<And>r. P r \<Longrightarrow> g (f r) = g r"
  shows "g ` set (update_rows P f rows) = g ` set rows"
  using assms by (induction rows) auto

lemma update_rows_none: "\<forall>r \<in> set rows. \<not> P r \<Longrightarrow> update_rows P f rows = rows"
  by (induction rows) auto

lemma find_update_rows:
  assumes "\<And>r. P r \<Longrightarrow> key (f r) = key r"
  shows "find_row key k (update_rows P f rows) =
           map_option (\<lambda>r. if P r then f r else r) (find_row key k rows)"
  using assms by (induction rows) auto

lemma find_row_key: "find_row key k rows = Some r \<Longrightarrow> r \<in> set rows \<and> key r = k"
  by (induction rows) (auto split: if_splits)

lemma find_row_None: "find_row key k rows = None \<longleftrightarrow> k \<notin> key ` set rows"
  by (induction rows) auto

lemma find_row_unique:
  assumes "unique_on key rows" "r \<in> set rows"
  shows "find_row key (key r) rows = Some r"
  using assms by (induction rows) auto

lemma unique_onD: "unique_on key rows \<Longrightarrow> r \<in> set rows \<Longrightarrow> s \<in> set rows \<Longrightarrow> key r = key s \<Longrightarrow> r = s"
  by (auto simp: distinct_map inj_on_def)

lemma sum_where_simps [simp]:
  "sum_where P f [] = 0"
  "sum_where P f (r # rs) = (if P r then f r + sum_where P f rs else sum_where P f rs)"
  "sum_where P f (xs @ ys) = sum_where P f xs + sum_where P f ys"
  by (simp_all add: sum_where_def)

lemma sum_where_none: "\<forall>r \<in> set rows. \<not> P r \<Longrightarrow> sum_where P f rows = 0"
  by (induction rows) auto

lemma sum_where_nonneg:
  "(\<And>r. r \<in> set rows \<Longrightarrow> 0 \<le> (f r :: int)) \<Longrightarrow> 0 \<le> sum_where P f rows"
  by (induction rows) auto

lemma sum_where_cong:
  assumes "\<And>r. r \<in> set rows \<Longrightarrow> P r = Q r" "\<And>r. r \<in> set rows \<Longrightarrow> P r \<Longrightarrow> f r = g r"
  shows "sum_where P f rows = sum_where Q g rows"
  using assms by (induction rows) auto

text \<open>An update of the one row with a given key changes a sum by that row's change.\<close>

lemma sum_where_update_one:
  fixes v :: "'r \<Rightarrow> 'n::ab_group_add"
  assumes "unique_on key rows" "r \<in> set rows" "key r = k"
  shows "sum_list (map v (update_rows (\<lambda>x. key x = k) f rows)) =
           sum_list (map v rows) + (v (f r) - v r)"
  using assms
proof (induction rows)
  case (Cons x xs)
  show ?case
  proof (cases "x = r")
    case True
    have "\<forall>y \<in> set xs. key y \<noteq> k"
      using Cons.prems True by (auto simp: image_iff)
    then show ?thesis using True Cons.prems by (simp add: update_rows_none)
  next
    case False
    then have "r \<in> set xs" "key x \<noteq> k" using Cons.prems by (auto simp: image_iff)
    then show ?thesis using Cons by (simp add: algebra_simps)
  qed
qed simp

lemma sum_where_if: "sum_where P f rows = sum_list (map (\<lambda>r. if P r then f r else 0) rows)"
  by (induction rows) auto

lemma and_then_Inr: "and_then x f = Inr y \<longleftrightarrow> (\<exists>a. x = Inr a \<and> f a = Inr y)"
  by (cases x) auto

end
