(* ===== verification/Security.thy ===== *)
theory Security
  imports StorageTables
begin

text \<open>
  \<^verbatim>\<open>src/src/llm_rio/security.py\<close> (the principal, API key format and its searchable prefix) and the
  role checks of \<^verbatim>\<open>src/src/llm_rio/api/dependencies.py\<close>. Password hashing (argon2) and the vault's
  encryption (Fernet) are third-party: they are functions given to the definitions that use them,
  and \<open>verify\<close> answers \<open>None\<close> where the library raises.
\<close>

record principal =
  pr_key_id :: string
  pr_nickname :: string
  pr_role :: role
  pr_account :: string
  pr_unlimited :: bool

text \<open>\<open>issue_api_key\<close>; the secret part is a random text.\<close>

definition issue_api_key :: "string \<Rightarrow> string \<Rightarrow> string \<times> string" where
  "issue_api_key key_id secret =
     (let public_id = take 12 (filter (\<lambda>c. c \<noteq> CHR ''-'') key_id);
          token = ''rio_'' @ public_id @ ''_'' @ secret
      in (token, take 24 token))"

definition verify_api_key ::
  "(string \<Rightarrow> string \<Rightarrow> bool option) \<Rightarrow> string \<Rightarrow> string \<Rightarrow> bool" where
  "verify_api_key verify stored token =
     (case verify stored token of None \<Rightarrow> False | Some b \<Rightarrow> b)"

definition token_prefix :: "string \<Rightarrow> exn + string" where
  "token_prefix token =
     (if \<not> startswith ''rio_'' token \<or> length token < 24
      then Inl (Rio (AuthenticationError ''Invalid or inactive API key''))
      else Inr (take 24 token))"

text \<open>
  \<open>current_principal\<close>: the bearer credentials (scheme and token), and the database's answer for
  the token's prefix. It also notes the key's nickname and role for the access log (not modelled).
\<close>

definition current_principal ::
  "(string \<Rightarrow> string \<Rightarrow> principal option) \<Rightarrow> (string \<times> string) option \<Rightarrow> exn + principal" where
  "current_principal authenticate credentials =
     (case credentials of
        None \<Rightarrow> Inl (Rio (AuthenticationError ''A Bearer API key is required''))
      | Some (scheme, token) \<Rightarrow>
          if map ascii_lower scheme \<noteq> ''bearer''
          then Inl (Rio (AuthenticationError ''A Bearer API key is required''))
          else and_then (token_prefix token) (\<lambda>prefix.
            case authenticate prefix token of
              None \<Rightarrow> Inl (Rio (AuthenticationError ''Invalid or inactive API key''))
            | Some p \<Rightarrow> Inr p))"

definition require_roles :: "role list \<Rightarrow> principal \<Rightarrow> exn + principal" where
  "require_roles roles p =
     (if pr_role p \<notin> set roles then Inl (Rio AuthorizationError) else Inr p)"

definition staff_principal :: "principal \<Rightarrow> exn + principal" where
  "staff_principal = require_roles [TA, ADMIN]"

definition admin_principal :: "principal \<Rightarrow> exn + principal" where
  "admin_principal = require_roles [ADMIN]"

section \<open>Lemmas\<close>

lemma issued_prefix_length:
  assumes "length secret \<ge> 19"
  shows "length (fst (issue_api_key k secret)) \<ge> 24"
  using assms by (simp add: issue_api_key_def Let_def)

lemma issued_token_prefix:
  assumes "length secret \<ge> 19" "issue_api_key k secret = (token, prefix)"
  shows "token_prefix token = Inr prefix"
proof -
  have "length token \<ge> 24" using issued_prefix_length [OF assms(1), of k] assms(2) by simp
  moreover have "startswith ''rio_'' token" "prefix = take 24 token"
    using assms(2) by (auto simp: issue_api_key_def startswith_def Let_def)
  ultimately show ?thesis by (simp add: token_prefix_def)
qed

lemma issued_prefix_not_deleted:
  assumes "issue_api_key k secret = (token, prefix)"
  shows "\<not> like_deleted prefix" "\<not> startswith ''deleted-'' prefix"
  using assms by (auto simp: issue_api_key_def Let_def like_deleted_def startswith_def
      ascii_lower_def take_Cons')

lemma staff_principal_iff: "staff_principal p = Inr q \<longleftrightarrow> q = p \<and> pr_role p \<in> {TA, ADMIN}"
  by (auto simp: staff_principal_def require_roles_def)

lemma admin_principal_iff: "admin_principal p = Inr q \<longleftrightarrow> q = p \<and> pr_role p = ADMIN"
  by (auto simp: admin_principal_def require_roles_def)

end
