(* ===== verification/Quota.thy ===== *)
theory Quota
  imports Security
begin

text \<open>
  The token accounting of \<^verbatim>\<open>src/src/llm_rio/storage.py\<close>: reserving credit, recording and admitting a
  request, settling and releasing a reservation, the usage report, and the recovery after a
  restart. \<open>uuid4\<close> and the clock are arguments.
\<close>

section \<open>Reserving\<close>

text \<open>The insert of a reservation, with the constraints of its table.\<close>

definition insert_reservation :: "reservation_row \<Rightarrow> database \<Rightarrow> exn + database" where
  "insert_reservation r db =
     (if has_row qr_id (qr_id r) (db_reservations db)
         \<or> has_row qr_request (qr_request r) (db_reservations db)
         \<or> has_row (\<lambda>x. (qr_key x, qr_hash x)) (qr_key r, qr_hash r) (db_reservations db)
      then Inl (IntegrityError ''UNIQUE'')
      else if qr_reserved r < 0 then Inl (IntegrityError ''CHECK'')
      else if \<not> has_row qa_id (qr_account r) (db_accounts db)
         \<or> \<not> has_row ak_id (qr_key r) (db_keys db) \<or> \<not> has_row mc_id (qr_model r) (db_models db)
      then Inl (IntegrityError ''FOREIGN KEY'')
      else Inr (db\<lparr>db_reservations := db_reservations db @ [r]\<rparr>))"

definition add_balance :: "string \<Rightarrow> int \<Rightarrow> database \<Rightarrow> exn + database" where
  "add_balance aid n db =
     (if \<exists>a \<in> set (db_accounts db). qa_id a = aid \<and> qa_balance a + n < 0
      then Inl (IntegrityError ''CHECK'')
      else Inr (db\<lparr>db_accounts := update_rows (\<lambda>a. qa_id a = aid)
                   (\<lambda>a. a\<lparr>qa_balance := qa_balance a + n\<rparr>) (db_accounts db)\<rparr>))"

definition ledger_conflict :: "ledger_row \<Rightarrow> database \<Rightarrow> bool" where
  "ledger_conflict l db \<longleftrightarrow>
     has_row ql_id (ql_id l) (db_ledger db)
     \<or> has_row (\<lambda>x. (ql_reservation x, ql_reason x)) (ql_reservation l, ql_reason l) (db_ledger db)"

definition insert_ledger :: "ledger_row \<Rightarrow> database \<Rightarrow> exn + database" where
  "insert_ledger l db =
     (if ledger_conflict l db then Inl (IntegrityError ''UNIQUE'')
      else Inr (db\<lparr>db_ledger := db_ledger db @ [l]\<rparr>))"

definition insert_or_ignore_ledger :: "ledger_row \<Rightarrow> database \<Rightarrow> database" where
  "insert_or_ignore_ledger l db =
     (if ledger_conflict l db then db else db\<lparr>db_ledger := db_ledger db @ [l]\<rparr>)"

text \<open>
  \<open>reserve_quota\<close>: \<open>rid\<close> and \<open>lid\<close> are the two fresh ids. A repeated idempotency key answers the
  first reservation when the request id is the same one, and is a conflict otherwise.
\<close>

definition reserve_quota ::
  "string \<Rightarrow> string \<Rightarrow> datetime \<Rightarrow> string \<Rightarrow> string \<Rightarrow> principal \<Rightarrow> string \<Rightarrow> int \<Rightarrow> database
     \<Rightarrow> exn + (string \<times> database)" where
  "reserve_quota rid lid now request_id hash p model_id estimated db =
     (case find_row (\<lambda>x. (qr_key x, qr_hash x)) (pr_key_id p, hash) (db_reservations db) of
        Some e \<Rightarrow>
          if qr_request e \<noteq> request_id
          then Inl (rio ''idempotency_conflict''
                    ''The idempotency key was already used for another request'' 409 [])
          else Inr (qr_id e, db)
      | None \<Rightarrow>
          (case find_row qa_id (pr_account p) (db_accounts db) of
             None \<Rightarrow> Inl (RuntimeError ''quota account is missing'')
           | Some a \<Rightarrow>
               if \<not> qa_unlimited a \<and> qa_balance a < estimated
               then Inl (Rio (QuotaExceededError (qa_balance a) estimated))
               else and_then
                 (insert_reservation
                   \<lparr>qr_id = rid, qr_request = request_id, qr_hash = hash,
                    qr_account = pr_account p, qr_key = pr_key_id p, qr_model = model_id,
                    qr_reserved = estimated, qr_actual = None, qr_state = RESERVED,
                    qr_created_at = now, qr_settled_at = None\<rparr> db)
                 (\<lambda>db1.
                   if qa_unlimited a then Inr (rid, db1)
                   else and_then (add_balance (pr_account p) (- estimated) db1) (\<lambda>db2.
                     and_then (insert_ledger
                         \<lparr>ql_id = lid, ql_account = pr_account p, ql_reservation = rid,
                          ql_delta = - estimated, ql_reason = ''reservation'',
                          ql_created_at = now\<rparr> db2)
                       (\<lambda>db3. Inr (rid, db3))))))"

section \<open>Requests\<close>

text \<open>
  \<open>INSERT OR IGNORE\<close>: a row with that id is kept as it is; a foreign key that points nowhere is
  still an error.
\<close>

definition create_inference_request ::
  "datetime \<Rightarrow> string \<Rightarrow> principal \<Rightarrow> string \<Rightarrow> string \<Rightarrow> int \<Rightarrow> string option \<Rightarrow> string option
     \<Rightarrow> database \<Rightarrow> exn + database" where
  "create_inference_request now request_id p model_id reservation_id estimated test_run client db =
     (if has_row ir_id request_id (db_requests db) then Inr db
      else if \<not> has_row ak_id (pr_key_id p) (db_keys db)
         \<or> \<not> has_row qa_id (pr_account p) (db_accounts db)
         \<or> \<not> has_row mc_id model_id (db_models db)
         \<or> \<not> has_row qr_id reservation_id (db_reservations db)
      then Inl (IntegrityError ''FOREIGN KEY'')
      else Inr (db\<lparr>db_requests := db_requests db @
        [\<lparr>ir_id = request_id, ir_key = pr_key_id p, ir_account = pr_account p,
          ir_model = model_id, ir_reservation = reservation_id, ir_worker = None,
          ir_state = RQ_QUEUED, ir_estimated = estimated, ir_prompt = None, ir_completion = None,
          ir_error = None, ir_test_run = test_run, ir_client_worker = client, ir_accepted = 0,
          ir_completions = 0, ir_created_at = now, ir_admitted_at = None,
          ir_completed_at = None\<rparr>]\<rparr>))"

definition admissible :: "string \<Rightarrow> inference_row \<Rightarrow> bool" where
  "admissible request_id r \<longleftrightarrow> ir_id r = request_id \<and> ir_state r = RQ_QUEUED"

definition mark_request_admitted ::
  "datetime \<Rightarrow> string \<Rightarrow> string \<Rightarrow> database \<Rightarrow> bool \<times> database" where
  "mark_request_admitted now request_id worker_id db =
     (rowcount (admissible request_id) (db_requests db) = 1,
      db\<lparr>db_requests := update_rows (admissible request_id)
           (\<lambda>r. r\<lparr>ir_state := RQ_ADMITTED, ir_worker := Some worker_id,
                  ir_admitted_at := Some now, ir_accepted := ir_accepted r + 1\<rparr>)
           (db_requests db)\<rparr>)"

definition admitted_request_ids :: "database \<Rightarrow> string set" where
  "admitted_request_ids db =
     ir_id ` set (filter (\<lambda>r. ir_state r = RQ_ADMITTED) (db_requests db))"

section \<open>Settling\<close>

text \<open>
  What a settlement charges and refunds, and the updates of the reservation and of the request.
\<close>

definition charge_of :: "int \<Rightarrow> reservation_row \<Rightarrow> int" where
  "charge_of actual r = min (max 0 actual) (qr_reserved r)"

definition settle_row :: "datetime \<Rightarrow> int \<Rightarrow> reservation_row \<Rightarrow> reservation_row" where
  "settle_row now charged r =
     r\<lparr>qr_actual := Some charged, qr_state := SETTLED, qr_settled_at := Some now\<rparr>"

definition complete_row ::
  "datetime \<Rightarrow> int option \<Rightarrow> int option \<Rightarrow> string option \<Rightarrow> inference_row \<Rightarrow> inference_row" where
  "complete_row now prompt completion err r =
     r\<lparr>ir_state := (case err of
                     None \<Rightarrow> RQ_COMPLETED
                   | Some e \<Rightarrow> if e = '''' then RQ_COMPLETED else RQ_FAILED),
       ir_prompt := prompt, ir_completion := completion, ir_error := err,
       ir_completed_at := Some now, ir_completions := ir_completions r + 1\<rparr>"

definition refund_row :: "string \<Rightarrow> datetime \<Rightarrow> reservation_row \<Rightarrow> int \<Rightarrow> ledger_row" where
  "refund_row lid now r refund =
     \<lparr>ql_id = lid, ql_account = qr_account r, ql_reservation = qr_id r, ql_delta = refund,
      ql_reason = ''settlement_refund'', ql_created_at = now\<rparr>"

definition refund_account ::
  "string \<Rightarrow> datetime \<Rightarrow> reservation_row \<Rightarrow> int \<Rightarrow> database \<Rightarrow> exn + database" where
  "refund_account lid now r refund db =
     (case find_row qa_id (qr_account r) (db_accounts db) of
        None \<Rightarrow> Inr db
      | Some a \<Rightarrow>
          if qa_unlimited a \<or> refund = 0 then Inr db
          else and_then (add_balance (qr_account r) refund db) (\<lambda>db1.
            Inr (insert_or_ignore_ledger (refund_row lid now r refund) db1)))"

definition settle_quota ::
  "string \<Rightarrow> datetime \<Rightarrow> string \<Rightarrow> int \<Rightarrow> int option \<Rightarrow> int option \<Rightarrow> string option \<Rightarrow> database
     \<Rightarrow> exn + database" where
  "settle_quota lid now reservation_id actual prompt completion err db =
     (case find_row qr_id reservation_id (db_reservations db) of
        None \<Rightarrow> Inr db
      | Some r \<Rightarrow>
          if qr_state r \<noteq> RESERVED then Inr db
          else let charged = charge_of actual r in
            and_then (refund_account lid now r (qr_reserved r - charged) db) (\<lambda>db1.
              Inr (db1\<lparr>
                db_reservations := update_rows
                  (\<lambda>x. qr_id x = reservation_id \<and> qr_state x = RESERVED)
                  (settle_row now charged) (db_reservations db1),
                db_requests := update_rows (\<lambda>x. ir_reservation x = reservation_id)
                  (complete_row now prompt completion err) (db_requests db1)\<rparr>)))"

definition release_reservation ::
  "string \<Rightarrow> datetime \<Rightarrow> string \<Rightarrow> string \<Rightarrow> database \<Rightarrow> exn + database" where
  "release_reservation lid now reservation_id err db =
     settle_quota lid now reservation_id 0 None None (Some err) db"

section \<open>Usage and recovery\<close>

text \<open>The view \<open>account_lifetime_usage\<close>: no row for an account without settled requests.\<close>

definition settled_charge :: "reservation_row \<Rightarrow> int" where
  "settled_charge r = (case qr_actual r of None \<Rightarrow> 0 | Some n \<Rightarrow> n)"

definition account_lifetime_usage :: "string \<Rightarrow> database \<Rightarrow> (int \<times> int) option" where
  "account_lifetime_usage aid db =
     (let raw = filter (\<lambda>r. qr_state r = SETTLED \<and> qr_account r = aid) (db_reservations db);
          old = filter (\<lambda>s. us_window s = TOTAL \<and> us_account s = aid) (db_summaries db)
      in if raw = [] \<and> old = [] then None
         else Some (sum_list (map settled_charge raw)
                      + sum_list (map (\<lambda>s. mt_charged (us_metrics s)) old),
                    int (length raw) + sum_list (map (\<lambda>s. mt_requests (us_metrics s)) old)))"

definition key_lifetime_usage :: "string \<Rightarrow> database \<Rightarrow> (int \<times> int) option" where
  "key_lifetime_usage kid db =
     (let raw = filter (\<lambda>r. qr_state r = SETTLED \<and> qr_key r = kid) (db_reservations db);
          old = filter (\<lambda>s. us_window s = TOTAL \<and> us_key s = kid) (db_summaries db)
      in if raw = [] \<and> old = [] then None
         else Some (sum_list (map settled_charge raw)
                      + sum_list (map (\<lambda>s. mt_charged (us_metrics s)) old),
                    int (length raw) + sum_list (map (\<lambda>s. mt_requests (us_metrics s)) old)))"

definition lifetime_charged :: "string \<Rightarrow> database \<Rightarrow> int" where
  "lifetime_charged aid db = (case account_lifetime_usage aid db of None \<Rightarrow> 0 | Some (c, _) \<Rightarrow> c)"

definition used_since_baseline :: "string \<Rightarrow> database \<Rightarrow> int" where
  "used_since_baseline aid db =
     max 0 (lifetime_charged aid db -
       (case find_row qa_id aid (db_accounts db) of None \<Rightarrow> 0 | Some a \<Rightarrow> qa_baseline a))"

record usage_report =
  ur_account :: string
  ur_nickname :: "string option"
  ur_balance :: int
  ur_limit :: int
  ur_unlimited :: bool
  ur_used :: int
  ur_charged :: int
  ur_lifetime :: int
  ur_settled :: int
  ur_reset_at :: "datetime option"

definition usage :: "principal \<Rightarrow> database \<Rightarrow> usage_report" where
  "usage p db =
     (let a = find_row qa_id (pr_account p) (db_accounts db);
          used = used_since_baseline (pr_account p) db
      in \<lparr>ur_account = pr_account p, ur_nickname = map_option qa_nickname a,
          ur_balance = (case a of None \<Rightarrow> 0 | Some x \<Rightarrow> qa_balance x),
          ur_limit = (case a of None \<Rightarrow> 0 | Some x \<Rightarrow> qa_limit x),
          ur_unlimited = (case a of None \<Rightarrow> False | Some x \<Rightarrow> qa_unlimited x),
          ur_used = used, ur_charged = used, ur_lifetime = lifetime_charged (pr_account p) db,
          ur_settled = (case account_lifetime_usage (pr_account p) db of
                          None \<Rightarrow> 0 | Some (_, n) \<Rightarrow> n),
          ur_reset_at = Option.bind a qa_reset_at\<rparr>)"

text \<open>
  \<open>recover_orphaned_state\<close>: every reservation that is still held is released, one transaction
  each (\<open>lid\<close> gives the fresh ledger id of each refund); then the workers and the model jobs are
  reset.
\<close>

fun release_all ::
  "(string \<Rightarrow> string) \<Rightarrow> datetime \<Rightarrow> string list \<Rightarrow> database \<Rightarrow> exn + database" where
  "release_all lid now [] db = Inr db"
| "release_all lid now (rid # rest) db =
     and_then (release_reservation (lid rid) now rid ''service_restarted'' db)
       (release_all lid now rest)"

definition reserved_ids :: "database \<Rightarrow> string list" where
  "reserved_ids db = map qr_id (filter (\<lambda>r. qr_state r = RESERVED) (db_reservations db))"

definition recover_orphaned_state ::
  "(string \<Rightarrow> string) \<Rightarrow> datetime \<Rightarrow> database \<Rightarrow> exn + database" where
  "recover_orphaned_state lid now db =
     and_then (release_all lid now (reserved_ids db) db) (\<lambda>db1.
       Inr (db1\<lparr>
         db_workers := update_rows (\<lambda>w. wr_state w \<noteq> COLD \<or> wr_pid w \<noteq> None)
           (\<lambda>w. w\<lparr>wr_state := COLD, wr_pid := None, wr_updated_at := now\<rparr>) (db_workers db1),
         db_jobs := update_rows
           (\<lambda>j. mj_state j = ''RUNNING'' \<and> map ascii_lower (take 7 (mj_stage j)) = ''validat'')
           (\<lambda>j. j\<lparr>mj_state := ''QUEUED'', mj_stage := ''validation_requeued'',
                  mj_updated_at := now\<rparr>) (db_jobs db1)\<rparr>))"

section \<open>The books: invariant and sums\<close>

text \<open>
  What the tables of the accounting satisfy: the schema's unique keys and references, no negative
  balance, and the shape of a held and of a settled reservation with its ledger rows and requests.
\<close>

definition reservation_ok :: "reservation_row \<Rightarrow> bool" where
  "reservation_ok r \<longleftrightarrow> 0 \<le> qr_reserved r \<and>
     (qr_state r = RESERVED \<and> qr_actual r = None \<and> qr_settled_at r = None
      \<or> qr_state r = SETTLED \<and> qr_settled_at r \<noteq> None
         \<and> (case qr_actual r of None \<Rightarrow> False | Some c \<Rightarrow> 0 \<le> c \<and> c \<le> qr_reserved r))"

definition reservations_ok :: "database \<Rightarrow> bool" where
  "reservations_ok db \<longleftrightarrow>
     unique_on qr_id (db_reservations db) \<and> unique_on qr_request (db_reservations db)
     \<and> unique_on (\<lambda>x. (qr_key x, qr_hash x)) (db_reservations db)
     \<and> (\<forall>r \<in> set (db_reservations db).
          reservation_ok r \<and> has_row qa_id (qr_account r) (db_accounts db)
          \<and> has_row mc_id (qr_model r) (db_models db))"

definition accounts_ok :: "database \<Rightarrow> bool" where
  "accounts_ok db \<longleftrightarrow>
     unique_on qa_id (db_accounts db) \<and> (\<forall>a \<in> set (db_accounts db). 0 \<le> qa_balance a)"

text \<open>A ledger row belongs to a reservation, and only a settled one has a refund.\<close>

definition ledger_ok :: "database \<Rightarrow> bool" where
  "ledger_ok db \<longleftrightarrow>
     (\<forall>l \<in> set (db_ledger db). has_row qr_id (ql_reservation l) (db_reservations db)
        \<and> (ql_reason l = ''reservation'' \<or>
            ql_reason l = ''settlement_refund'' \<and>
              ql_reservation l \<notin> qr_id ` {r \<in> set (db_reservations db). qr_state r = RESERVED}))"

text \<open>
  A request is the one its reservation was made for. It is accepted by a worker at most once and
  completed at most once; while its reservation is held it is queued or admitted and not completed.
\<close>

definition request_ok :: "database \<Rightarrow> inference_row \<Rightarrow> bool" where
  "request_ok db i \<longleftrightarrow>
     (ir_reservation i, ir_id i) \<in> (\<lambda>r. (qr_id r, qr_request r)) ` set (db_reservations db)
     \<and> ir_accepted i \<le> 1 \<and> (ir_state i = RQ_QUEUED \<longrightarrow> ir_accepted i = 0)
     \<and> ir_completions i \<le> 1
     \<and> (ir_reservation i \<in> qr_id ` {r \<in> set (db_reservations db). qr_state r = RESERVED}
          \<longrightarrow> ir_completions i = 0 \<and> ir_state i \<in> {RQ_QUEUED, RQ_ADMITTED})"

definition requests_ok :: "database \<Rightarrow> bool" where
  "requests_ok db \<longleftrightarrow>
     unique_on ir_id (db_requests db) \<and> (\<forall>i \<in> set (db_requests db). request_ok db i)"

definition books_ok :: "database \<Rightarrow> bool" where
  "books_ok db \<longleftrightarrow> accounts_ok db \<and> reservations_ok db \<and> ledger_ok db \<and> requests_ok db"

text \<open>An account's credit: what it still has, what is held, and what was ever charged.\<close>

definition balance_of :: "string \<Rightarrow> database \<Rightarrow> int" where
  "balance_of aid db = (case find_row qa_id aid (db_accounts db) of None \<Rightarrow> 0 | Some a \<Rightarrow> qa_balance a)"

definition outstanding :: "string \<Rightarrow> database \<Rightarrow> int" where
  "outstanding aid db =
     sum_where (\<lambda>r. qr_state r = RESERVED \<and> qr_account r = aid) qr_reserved (db_reservations db)"

definition charged_raw :: "string \<Rightarrow> database \<Rightarrow> int" where
  "charged_raw aid db =
     sum_where (\<lambda>r. qr_state r = SETTLED \<and> qr_account r = aid) settled_charge (db_reservations db)"

definition charged_old :: "string \<Rightarrow> database \<Rightarrow> int" where
  "charged_old aid db =
     sum_where (\<lambda>s. us_window s = TOTAL \<and> us_account s = aid) (\<lambda>s. mt_charged (us_metrics s))
       (db_summaries db)"

definition funds :: "string \<Rightarrow> database \<Rightarrow> int" where
  "funds aid db = balance_of aid db + outstanding aid db + lifetime_charged aid db"

definition limited :: "string \<Rightarrow> database \<Rightarrow> bool" where
  "limited aid db = (case find_row qa_id aid (db_accounts db) of
                       None \<Rightarrow> False | Some a \<Rightarrow> \<not> qa_unlimited a)"

definition ledger_total :: "string \<Rightarrow> database \<Rightarrow> int" where
  "ledger_total aid db = sum_where (\<lambda>l. ql_account l = aid) ql_delta (db_ledger db)"

lemma lifetime_charged_eq: "lifetime_charged aid db = charged_raw aid db + charged_old aid db"
  by (auto simp: lifetime_charged_def account_lifetime_usage_def charged_raw_def charged_old_def
      sum_where_def Let_def)

text \<open>A held reservation's share of the three sums, before and after it is settled.\<close>

definition share :: "string \<Rightarrow> reservation_row \<Rightarrow> int" where
  "share aid r = (if qr_account r \<noteq> aid then 0 else if qr_state r = RESERVED then qr_reserved r
                  else if qr_state r = SETTLED then settled_charge r else 0)"

lemma outstanding_charged:
  "outstanding aid db + charged_raw aid db = sum_list (map (share aid) (db_reservations db))"
proof -
  have "sum_where (\<lambda>r. qr_state r = RESERVED \<and> qr_account r = aid) qr_reserved rows
      + sum_where (\<lambda>r. qr_state r = SETTLED \<and> qr_account r = aid) settled_charge rows
      = sum_list (map (share aid) rows)" for rows
    by (induction rows) (auto simp: share_def)
  then show ?thesis by (simp add: outstanding_def charged_raw_def)
qed

lemma funds_eq:
  "funds aid db = balance_of aid db + sum_list (map (share aid) (db_reservations db))
                  + charged_old aid db"
  using outstanding_charged [of aid db] by (simp add: funds_def lifetime_charged_eq)

section \<open>Settling: the books afterwards\<close>

definition refunds :: "reservation_row \<Rightarrow> int \<Rightarrow> database \<Rightarrow> bool" where
  "refunds r charged db \<longleftrightarrow> limited (qr_account r) db \<and> qr_reserved r - charged \<noteq> 0"

text \<open>What settling a held reservation does, with no branch left that raises.\<close>

definition settled_db ::
  "string \<Rightarrow> datetime \<Rightarrow> reservation_row \<Rightarrow> int \<Rightarrow> int option \<Rightarrow> int option \<Rightarrow> string option
     \<Rightarrow> database \<Rightarrow> database" where
  "settled_db lid now r charged prompt completion err db =
     db\<lparr>db_accounts :=
          (if refunds r charged db
           then update_rows (\<lambda>a. qa_id a = qr_account r)
                  (\<lambda>a. a\<lparr>qa_balance := qa_balance a + (qr_reserved r - charged)\<rparr>) (db_accounts db)
           else db_accounts db),
        db_ledger :=
          (if refunds r charged db
              \<and> \<not> ledger_conflict (refund_row lid now r (qr_reserved r - charged)) db
           then db_ledger db @ [refund_row lid now r (qr_reserved r - charged)]
           else db_ledger db),
        db_reservations := update_rows (\<lambda>x. qr_id x = qr_id r \<and> qr_state x = RESERVED)
          (settle_row now charged) (db_reservations db),
        db_requests := update_rows (\<lambda>x. ir_reservation x = qr_id r)
          (complete_row now prompt completion err) (db_requests db)\<rparr>"

lemma charge_bounds:
  assumes "reservation_ok r"
  shows "0 \<le> charge_of actual r" "charge_of actual r \<le> qr_reserved r"
  using assms by (auto simp: charge_of_def reservation_ok_def)

lemma settle_skip:
  assumes "\<And>r. r \<in> set (db_reservations db) \<Longrightarrow> qr_id r = rid \<Longrightarrow> qr_state r \<noteq> RESERVED"
  shows "settle_quota lid now rid actual prompt completion err db = Inr db"
proof (cases "find_row qr_id rid (db_reservations db)")
  case (Some r)
  then show ?thesis using assms find_row_key [OF Some] by (simp add: settle_quota_def)
qed (simp add: settle_quota_def)

lemma ledger_conflict_accounts [simp]:
  "ledger_conflict l (db_accounts_update f db) = ledger_conflict l db"
  by (simp add: ledger_conflict_def)

lemma refund_account_held:
  assumes "accounts_ok db" "0 \<le> qr_reserved r - charged"
  shows "refund_account lid now r (qr_reserved r - charged) db = Inr (db\<lparr>
        db_accounts :=
          (if refunds r charged db
           then update_rows (\<lambda>a. qa_id a = qr_account r)
                  (\<lambda>a. a\<lparr>qa_balance := qa_balance a + (qr_reserved r - charged)\<rparr>) (db_accounts db)
           else db_accounts db),
        db_ledger :=
          (if refunds r charged db
              \<and> \<not> ledger_conflict (refund_row lid now r (qr_reserved r - charged)) db
           then db_ledger db @ [refund_row lid now r (qr_reserved r - charged)]
           else db_ledger db)\<rparr>)"
proof (cases "find_row qa_id (qr_account r) (db_accounts db)")
  case None
  then show ?thesis by (simp add: refund_account_def refunds_def limited_def)
next
  case (Some a)
  have "\<not> (\<exists>x \<in> set (db_accounts db). qa_id x = qr_account r
            \<and> qa_balance x + (qr_reserved r - charged) < 0)"
    using assms by (force simp: accounts_ok_def)
  then show ?thesis using Some
    by (auto simp: refund_account_def refunds_def limited_def add_balance_def
        insert_or_ignore_ledger_def)
qed

lemma settle_held:
  assumes "accounts_ok db" "reservations_ok db"
    and "r \<in> set (db_reservations db)" "qr_state r = RESERVED"
  shows "settle_quota lid now (qr_id r) actual prompt completion err db =
           Inr (settled_db lid now r (charge_of actual r) prompt completion err db)"
proof -
  have f: "find_row qr_id (qr_id r) (db_reservations db) = Some r"
    using assms by (auto intro: find_row_unique simp: reservations_ok_def)
  have "0 \<le> qr_reserved r - charge_of actual r"
    using charge_bounds [of r actual] assms by (auto simp: reservations_ok_def)
  from refund_account_held [OF assms(1) this]
  show ?thesis using assms(4) f by (simp add: settle_quota_def settled_db_def Let_def)
qed

lemma settle_cases:
  assumes "accounts_ok db" "reservations_ok db"
  obtains (skip) "\<And>lid now actual prompt completion err.
        settle_quota lid now rid actual prompt completion err db = Inr db"
      "rid \<notin> qr_id ` {r \<in> set (db_reservations db). qr_state r = RESERVED}"
  | (held) r where "r \<in> set (db_reservations db)" "qr_id r = rid" "qr_state r = RESERVED"
      "\<And>lid now actual prompt completion err.
        settle_quota lid now rid actual prompt completion err db =
          Inr (settled_db lid now r (charge_of actual r) prompt completion err db)"
proof (cases "\<exists>r \<in> set (db_reservations db). qr_id r = rid \<and> qr_state r = RESERVED")
  case True
  then obtain r where "r \<in> set (db_reservations db)" "qr_id r = rid" "qr_state r = RESERVED"
    by blast
  with settle_held [OF assms] show ?thesis by (intro that(2)) auto
next
  case False
  then show ?thesis by (intro that(1) settle_skip) auto
qed

lemma settled_reservations:
  assumes "unique_on qr_id (db_reservations db)" "r \<in> set (db_reservations db)"
    "qr_state r = RESERVED"
  shows "db_reservations (settled_db lid now r charged prompt completion err db) =
           update_rows (\<lambda>x. qr_id x = qr_id r) (settle_row now charged) (db_reservations db)"
proof -
  have "x \<in> set (db_reservations db) \<Longrightarrow> qr_id x = qr_id r \<Longrightarrow> x = r" for x
    using unique_onD [OF assms(1)] assms(2) by blast
  then show ?thesis using assms(3) by (auto simp: settled_db_def update_rows_def)
qed

lemma settle_row_sel [simp]:
  "qr_id (settle_row now c r) = qr_id r" "qr_request (settle_row now c r) = qr_request r"
  "qr_hash (settle_row now c r) = qr_hash r" "qr_account (settle_row now c r) = qr_account r"
  "qr_key (settle_row now c r) = qr_key r" "qr_model (settle_row now c r) = qr_model r"
  "qr_reserved (settle_row now c r) = qr_reserved r" "qr_state (settle_row now c r) = SETTLED"
  "qr_actual (settle_row now c r) = Some c" "qr_settled_at (settle_row now c r) = Some now"
  by (simp_all add: settle_row_def)

lemma settled_db_sel [simp]:
  "db_summaries (settled_db lid now r c p k e db) = db_summaries db"
  "db_periods (settled_db lid now r c p k e db) = db_periods db"
  "db_keys (settled_db lid now r c p k e db) = db_keys db"
  "db_models (settled_db lid now r c p k e db) = db_models db"
  "db_workers (settled_db lid now r c p k e db) = db_workers db"
  "db_jobs (settled_db lid now r c p k e db) = db_jobs db"
  by (simp_all add: settled_db_def)

lemma held_ids_settled:
  assumes "unique_on qr_id (db_reservations db)" "r \<in> set (db_reservations db)"
    "qr_state r = RESERVED"
  shows "qr_id ` {x \<in> set (db_reservations (settled_db lid now r c p k e db)). qr_state x = RESERVED}
         = qr_id ` {x \<in> set (db_reservations db). qr_state x = RESERVED} - {qr_id r}"
  by (auto simp: settled_reservations [OF assms] set_update_rows split: if_splits)

lemma reservation_requests_settled [simp]:
  "(\<lambda>r. (qr_id r, qr_request r)) ` set (db_reservations (settled_db lid now r c p k e db))
     = (\<lambda>r. (qr_id r, qr_request r)) ` set (db_reservations db)"
  by (simp add: settled_db_def image_update_rows)

lemma reservation_ids_settled [simp]:
  "qr_id ` set (db_reservations (settled_db lid now r c p k e db)) = qr_id ` set (db_reservations db)"
  by (simp add: settled_db_def image_update_rows)

section \<open>The invariant is kept\<close>

lemma accounts_settled:
  assumes "accounts_ok db" "c \<le> qr_reserved r"
  shows "accounts_ok (settled_db lid now r c p k e db)"
proof -
  have "accounts_ok (db\<lparr>db_accounts := update_rows (\<lambda>a. qa_id a = qr_account r)
          (\<lambda>a. a\<lparr>qa_balance := qa_balance a + (qr_reserved r - c)\<rparr>) (db_accounts db)\<rparr>)"
    using assms by (auto simp: accounts_ok_def map_update_rows set_update_rows)
  then show ?thesis using assms(1) by (simp add: accounts_ok_def settled_db_def)
qed

lemma account_ids_settled [simp]:
  "qa_id ` set (db_accounts (settled_db lid now r c p k e db)) = qa_id ` set (db_accounts db)"
  by (simp add: settled_db_def image_update_rows)

lemma reservations_settled:
  assumes "reservations_ok db" "r \<in> set (db_reservations db)" "qr_state r = RESERVED"
    "0 \<le> c" "c \<le> qr_reserved r"
  shows "reservations_ok (settled_db lid now r c p k e db)"
proof -
  have u: "unique_on qr_id (db_reservations db)" using assms by (simp add: reservations_ok_def)
  have "reservation_ok (settle_row now c r)"
    using assms by (auto simp: reservation_ok_def)
  moreover have "x \<in> set (db_reservations db) \<Longrightarrow> qr_id x = qr_id r \<Longrightarrow> x = r" for x
    using unique_onD [OF u] assms(2) by blast
  ultimately show ?thesis
    using assms(1)
    by (auto simp: reservations_ok_def settled_reservations [OF u assms(2,3)] map_update_rows
        set_update_rows)
qed

lemma ledger_settled:
  assumes "ledger_ok db" "reservations_ok db" "r \<in> set (db_reservations db)"
    "qr_state r = RESERVED"
  shows "ledger_ok (settled_db lid now r c p k e db)"
proof -
  have u: "unique_on qr_id (db_reservations db)" using assms by (simp add: reservations_ok_def)
  have "set (db_ledger (settled_db lid now r c p k e db))
      \<subseteq> insert (refund_row lid now r (qr_reserved r - c)) (set (db_ledger db))"
    by (auto simp: settled_db_def)
  moreover have "qr_id r \<in> qr_id ` set (db_reservations db)" using assms by blast
  ultimately show ?thesis
    using assms(1) unfolding ledger_ok_def held_ids_settled [OF u assms(3,4)] reservation_ids_settled
    by (fastforce simp: refund_row_def)
qed

lemma complete_row_sel [simp]:
  "ir_id (complete_row now p k e i) = ir_id i"
  "ir_reservation (complete_row now p k e i) = ir_reservation i"
  "ir_accepted (complete_row now p k e i) = ir_accepted i"
  "ir_completions (complete_row now p k e i) = ir_completions i + 1"
  "ir_state (complete_row now p k e i) \<noteq> RQ_QUEUED"
  "ir_state (complete_row now p k e i) \<noteq> RQ_ADMITTED"
  by (auto simp: complete_row_def split: option.splits)

lemma requests_settled:
  assumes "requests_ok db" "reservations_ok db" "r \<in> set (db_reservations db)"
    "qr_state r = RESERVED"
  shows "requests_ok (settled_db lid now r c p k e db)"
proof -
  let ?db = "settled_db lid now r c p k e db"
  have u: "unique_on qr_id (db_reservations db)" using assms by (simp add: reservations_ok_def)
  have held: "qr_id r \<in> qr_id ` {x \<in> set (db_reservations db). qr_state x = RESERVED}"
    using assms by blast
  have req: "db_requests ?db = update_rows (\<lambda>x. ir_reservation x = qr_id r)
      (complete_row now p k e) (db_requests db)"
    by (simp add: settled_db_def)
  have "request_ok ?db i" if "request_ok db i" "ir_reservation i \<noteq> qr_id r" for i
    using that unfolding request_ok_def held_ids_settled [OF u assms(3,4)]
      reservation_requests_settled
    by auto
  moreover have "request_ok ?db (complete_row now p k e i)"
    if "request_ok db i" "ir_reservation i = qr_id r" for i
    using that held unfolding request_ok_def held_ids_settled [OF u assms(3,4)]
      reservation_requests_settled
    by auto
  ultimately show ?thesis
    using assms(1) by (auto simp: requests_ok_def req map_update_rows set_update_rows)
qed

lemma books_settled:
  assumes "books_ok db" "r \<in> set (db_reservations db)" "qr_state r = RESERVED"
  shows "books_ok (settled_db lid now r (charge_of actual r) p k e db)"
proof -
  have ok: "accounts_ok db" "reservations_ok db" "ledger_ok db" "requests_ok db"
    using assms by (simp_all add: books_ok_def)
  have "reservation_ok r" using ok assms by (simp add: reservations_ok_def)
  note b = charge_bounds [OF this, of actual]
  show ?thesis
    using accounts_settled [OF ok(1) b(2)] reservations_settled [OF ok(2) assms(2,3) b]
      ledger_settled [OF ok(3,2) assms(2,3)] requests_settled [OF ok(4,2) assms(2,3)]
    by (simp add: books_ok_def)
qed

text \<open>Settling never raises, and keeps the books.\<close>

lemma settle_total:
  assumes "books_ok db"
  obtains db' where "settle_quota lid now rid actual p k e db = Inr db'" "books_ok db'"
proof (rule settle_cases [of db rid])
  show "accounts_ok db" "reservations_ok db" using assms by (simp_all add: books_ok_def)
next
  assume "\<And>lid now actual prompt completion err.
        settle_quota lid now rid actual prompt completion err db = Inr db"
  then show thesis using that assms by blast
next
  fix r assume "r \<in> set (db_reservations db)" "qr_state r = RESERVED" and
    "\<And>lid now actual prompt completion err.
        settle_quota lid now rid actual prompt completion err db =
          Inr (settled_db lid now r (charge_of actual r) prompt completion err db)"
  then show thesis using that books_settled [OF assms] by blast
qed

lemma settle_books: "books_ok db \<Longrightarrow> settle_quota lid now rid actual p k e db = Inr db' \<Longrightarrow> books_ok db'"
  by (metis settle_total sum.inject(2))

section \<open>Reserving and admitting: the books afterwards\<close>

definition held_row ::
  "string \<Rightarrow> datetime \<Rightarrow> string \<Rightarrow> string \<Rightarrow> principal \<Rightarrow> string \<Rightarrow> int \<Rightarrow> reservation_row" where
  "held_row rid now request_id hash p model_id estimated =
     \<lparr>qr_id = rid, qr_request = request_id, qr_hash = hash, qr_account = pr_account p,
      qr_key = pr_key_id p, qr_model = model_id, qr_reserved = estimated, qr_actual = None,
      qr_state = RESERVED, qr_created_at = now, qr_settled_at = None\<rparr>"

lemma held_row_sel [simp]:
  "qr_id (held_row rid now rq h p m n) = rid" "qr_request (held_row rid now rq h p m n) = rq"
  "qr_hash (held_row rid now rq h p m n) = h" "qr_key (held_row rid now rq h p m n) = pr_key_id p"
  "qr_account (held_row rid now rq h p m n) = pr_account p"
  "qr_model (held_row rid now rq h p m n) = m"
  "qr_reserved (held_row rid now rq h p m n) = n"
  "qr_state (held_row rid now rq h p m n) = RESERVED"
  "qr_actual (held_row rid now rq h p m n) = None"
  "qr_settled_at (held_row rid now rq h p m n) = None"
  by (simp_all add: held_row_def)

text \<open>The database after a reservation was taken from the account \<open>a\<close>.\<close>

definition reserved_db ::
  "string \<Rightarrow> datetime \<Rightarrow> account_row \<Rightarrow> reservation_row \<Rightarrow> database \<Rightarrow> database" where
  "reserved_db lid now a r db =
     (if qa_unlimited a then db\<lparr>db_reservations := db_reservations db @ [r]\<rparr>
      else db\<lparr>db_reservations := db_reservations db @ [r],
              db_accounts := update_rows (\<lambda>x. qa_id x = qr_account r)
                (\<lambda>x. x\<lparr>qa_balance := qa_balance x + - qr_reserved r\<rparr>) (db_accounts db),
              db_ledger := db_ledger db @
                [\<lparr>ql_id = lid, ql_account = qr_account r, ql_reservation = qr_id r,
                  ql_delta = - qr_reserved r, ql_reason = ''reservation'', ql_created_at = now\<rparr>]\<rparr>)"

lemma reserve_cases:
  assumes "reserve_quota rid lid now rq h p m n db = Inr (x, db')"
  obtains (again) e where "e \<in> set (db_reservations db)" "qr_key e = pr_key_id p" "qr_hash e = h"
      "qr_request e = rq" "x = qr_id e" "db' = db"
  | (taken) a where "x = rid" "find_row qa_id (pr_account p) (db_accounts db) = Some a"
      "qa_unlimited a \<or> n \<le> qa_balance a" "0 \<le> n" "m \<in> mc_id ` set (db_models db)"
      "rid \<notin> qr_id ` set (db_reservations db)" "rq \<notin> qr_request ` set (db_reservations db)"
      "(pr_key_id p, h) \<notin> (\<lambda>x. (qr_key x, qr_hash x)) ` set (db_reservations db)"
      "db' = reserved_db lid now a (held_row rid now rq h p m n) db"
proof (cases "find_row (\<lambda>x. (qr_key x, qr_hash x)) (pr_key_id p, h) (db_reservations db)")
  case (Some e)
  then show thesis using assms find_row_key [OF Some]
    by (intro again [of e]) (auto simp: reserve_quota_def split: if_splits)
next
  case None
  then obtain a where a: "find_row qa_id (pr_account p) (db_accounts db) = Some a"
    using assms by (auto simp: reserve_quota_def split: option.splits)
  show thesis
    using assms None a
    by (intro taken [of a])
      (auto simp: reserve_quota_def and_then_Inr insert_reservation_def add_balance_def
        insert_ledger_def reserved_db_def held_row_def split: if_splits)
qed

text \<open>An account that cannot pay is refused, and nothing is changed.\<close>

lemma reserve_refuses:
  assumes "find_row (\<lambda>x. (qr_key x, qr_hash x)) (pr_key_id p, h) (db_reservations db) = None"
    and "find_row qa_id (pr_account p) (db_accounts db) = Some a"
    and "\<not> qa_unlimited a" "qa_balance a < n"
  shows "reserve_quota rid lid now rq h p m n db = Inl (Rio (QuotaExceededError (qa_balance a) n))"
  using assms by (simp add: reserve_quota_def)

lemma reserved_db_sel [simp]:
  "db_reservations (reserved_db lid now a r db) = db_reservations db @ [r]"
  "db_requests (reserved_db lid now a r db) = db_requests db"
  "db_summaries (reserved_db lid now a r db) = db_summaries db"
  "db_keys (reserved_db lid now a r db) = db_keys db"
  "db_models (reserved_db lid now a r db) = db_models db"
  "qa_id ` set (db_accounts (reserved_db lid now a r db)) = qa_id ` set (db_accounts db)"
  by (simp_all add: reserved_db_def image_update_rows)

lemma accounts_reserved:
  assumes "accounts_ok db" "find_row qa_id (qr_account r) (db_accounts db) = Some a"
    "qa_unlimited a \<or> qr_reserved r \<le> qa_balance a"
  shows "accounts_ok (reserved_db lid now a r db)"
proof (cases "qa_unlimited a")
  case False
  have u: "unique_on qa_id (db_accounts db)" using assms by (simp add: accounts_ok_def)
  have "x = a" if "x \<in> set (db_accounts db)" "qa_id x = qr_account r" for x
    using that unique_onD [OF u] find_row_key [OF assms(2)] by auto
  then show ?thesis using assms False
    by (auto simp: accounts_ok_def reserved_db_def map_update_rows set_update_rows)
qed (use assms in \<open>simp add: accounts_ok_def reserved_db_def\<close>)

lemma books_reserve:
  assumes "books_ok db" "reserve_quota rid lid now rq h p m n db = Inr (x, db')"
  shows "books_ok db'"
  using assms(2)
proof (cases rule: reserve_cases)
  case again
  then show ?thesis using assms(1) by simp
next
  case (taken a)
  let ?r = "held_row rid now rq h p m n"
  have ok: "accounts_ok db" "reservations_ok db" "ledger_ok db" "requests_ok db"
    using assms by (simp_all add: books_ok_def)
  have acc: "accounts_ok (reserved_db lid now a ?r db)"
    using taken ok by (intro accounts_reserved) auto
  have "qa_id a = pr_account p" "a \<in> set (db_accounts db)"
    using find_row_key [OF taken(2)] by auto
  then have "pr_account p \<in> qa_id ` set (db_accounts db)" by (metis imageI)
  then have res: "reservations_ok (reserved_db lid now a ?r db)"
    using ok(2) taken by (auto simp: reservations_ok_def reservation_ok_def)
  have fresh: "qr_id ` {r \<in> set (db_reservations (reserved_db lid now a ?r db)). qr_state r = RESERVED}
      = insert rid (qr_id ` {r \<in> set (db_reservations db). qr_state r = RESERVED})"
  proof -
    have "{r \<in> set (db_reservations (reserved_db lid now a ?r db)). qr_state r = RESERVED}
        = insert ?r {r \<in> set (db_reservations db). qr_state r = RESERVED}"
      by auto
    then show ?thesis by simp
  qed
  have led: "ledger_ok (reserved_db lid now a ?r db)"
    using ok(3) taken(6) unfolding ledger_ok_def fresh
    by (auto simp: reserved_db_def)
  have "request_ok (reserved_db lid now a ?r db) i" if "request_ok db i" for i
    using that taken(6) unfolding request_ok_def fresh by auto
  then have "requests_ok (reserved_db lid now a ?r db)" using ok(4) by (simp add: requests_ok_def)
  then show ?thesis using acc res led taken by (simp add: books_ok_def)
qed

text \<open>
  Recording a request, for the reservation that was made for it; a repeated id is ignored.
\<close>

lemma books_create:
  assumes "books_ok db" "(rid, rq) \<in> (\<lambda>r. (qr_id r, qr_request r)) ` set (db_reservations db)"
    and "create_inference_request now rq p m rid n t c db = Inr db'"
  shows "books_ok db'"
proof (cases "rq \<in> ir_id ` set (db_requests db)")
  case True
  then show ?thesis using assms by (simp add: create_inference_request_def)
next
  case False
  then obtain i where i: "db' = db\<lparr>db_requests := db_requests db @ [i]\<rparr>" "ir_id i = rq"
      "ir_reservation i = rid" "ir_accepted i = 0" "ir_completions i = 0" "ir_state i = RQ_QUEUED"
    using assms(3) by (auto simp: create_inference_request_def split: if_splits)
  then have new: "request_ok db i" using assms(2) by (simp add: request_ok_def)
  have old: "request_ok db' = request_ok db" by (simp add: i fun_eq_iff request_ok_def)
  then have "requests_ok db'"
    using assms(1) new False i by (simp add: books_ok_def requests_ok_def old)
  then show ?thesis using assms(1) i
    by (simp add: books_ok_def accounts_ok_def reservations_ok_def ledger_ok_def)
qed

lemma books_admit:
  assumes "books_ok db"
  shows "books_ok (snd (mark_request_admitted now rq w db))"
proof -
  have "requests_ok (db\<lparr>db_requests := update_rows (admissible rq)
           (\<lambda>r. r\<lparr>ir_state := RQ_ADMITTED, ir_worker := Some w,
                  ir_admitted_at := Some now, ir_accepted := ir_accepted r + 1\<rparr>)
           (db_requests db)\<rparr>)" (is "requests_ok ?db")
  proof -
    have "request_ok ?db i" if "request_ok db i" "\<not> admissible rq i" for i
      using that by (simp add: request_ok_def)
    moreover have "request_ok ?db (i\<lparr>ir_state := RQ_ADMITTED, ir_worker := Some w,
        ir_admitted_at := Some now, ir_accepted := ir_accepted i + 1\<rparr>)"
      if "request_ok db i" "admissible rq i" for i
      using that by (simp add: request_ok_def admissible_def)
    ultimately show ?thesis
      using assms by (auto simp: books_ok_def requests_ok_def map_update_rows set_update_rows)
  qed
  then show ?thesis using assms
    by (simp add: mark_request_admitted_def books_ok_def accounts_ok_def reservations_ok_def
        ledger_ok_def)
qed

section \<open>Conservation of credit\<close>

lemma find_account_update:
  "find_row qa_id aid (update_rows (\<lambda>a. qa_id a = b) (\<lambda>a. a\<lparr>qa_balance := g a\<rparr>) rows) =
     map_option (\<lambda>a. if aid = b then a\<lparr>qa_balance := g a\<rparr> else a) (find_row qa_id aid rows)"
  by (induction rows) auto

lemma limited_settled [simp]: "limited aid (settled_db lid now r c p k e db) = limited aid db"
  by (auto simp: limited_def settled_db_def find_account_update split: option.splits)

lemma limited_reserved [simp]: "limited aid (reserved_db lid now a r db) = limited aid db"
  by (auto simp: limited_def reserved_db_def find_account_update split: option.splits)

lemma balance_settled:
  "balance_of aid (settled_db lid now r c p k e db) =
     balance_of aid db + (if qr_account r = aid \<and> refunds r c db then qr_reserved r - c else 0)"
  by (auto simp: balance_of_def settled_db_def find_account_update refunds_def limited_def
      split: option.splits)

lemma balance_reserved:
  "find_row qa_id (qr_account r) (db_accounts db) = Some a \<Longrightarrow>
     balance_of aid (reserved_db lid now a r db) =
     balance_of aid db - (if qr_account r = aid \<and> \<not> qa_unlimited a then qr_reserved r else 0)"
  by (auto simp: balance_of_def reserved_db_def find_account_update split: option.splits)

lemma shares_settled:
  assumes "unique_on qr_id (db_reservations db)" "r \<in> set (db_reservations db)"
    "qr_state r = RESERVED"
  shows "sum_list (map (share aid) (db_reservations (settled_db lid now r c p k e db))) =
           sum_list (map (share aid) (db_reservations db))
           + (if qr_account r = aid then c - qr_reserved r else 0)"
  using sum_where_update_one [OF assms(1,2) refl, of "share aid" "settle_row now c"] assms(3)
  by (simp add: settled_reservations [OF assms] share_def settled_charge_def)

lemma lifetime_settled:
  assumes "unique_on qr_id (db_reservations db)" "r \<in> set (db_reservations db)"
    "qr_state r = RESERVED"
  shows "lifetime_charged aid (settled_db lid now r c p k e db) =
           lifetime_charged aid db + (if qr_account r = aid then c else 0)"
proof -
  have "charged_old aid (settled_db lid now r c p k e db) = charged_old aid db"
    by (simp add: charged_old_def)
  then show ?thesis
    using assms(3) sum_where_update_one [OF assms(1,2) refl,
        of "\<lambda>r. if qr_state r = SETTLED \<and> qr_account r = aid then settled_charge r else 0"
          "settle_row now c"]
    by (simp add: lifetime_charged_eq charged_raw_def sum_where_if settled_reservations [OF assms])
      (simp add: settled_charge_def)
qed

lemma funds_settled:
  assumes "reservations_ok db" "r \<in> set (db_reservations db)" "qr_state r = RESERVED"
    "limited aid db"
  shows "funds aid (settled_db lid now r c p k e db) = funds aid db"
proof -
  have u: "unique_on qr_id (db_reservations db)" using assms by (simp add: reservations_ok_def)
  have "charged_old aid (settled_db lid now r c p k e db) = charged_old aid db"
    by (simp add: charged_old_def)
  then show ?thesis
    using assms(4) shares_settled [OF u assms(2,3), of aid lid now c p k e]
    by (auto simp: funds_eq balance_settled refunds_def)
qed

lemma settle_funds:
  assumes "books_ok db" "settle_quota lid now rid actual p k e db = Inr db'"
    "limited aid db"
  shows "funds aid db' = funds aid db \<and> limited aid db'"
proof -
  have ok: "accounts_ok db" "reservations_ok db" using assms by (simp_all add: books_ok_def)
  from ok show ?thesis
  proof (cases rule: settle_cases [of db rid])
    case skip
    then show ?thesis using assms by simp
  next
    case (held r)
    then show ?thesis using assms funds_settled [OF ok(2) held(1,3)] by auto
  qed
qed

lemma reserve_funds:
  assumes "reserve_quota rid lid now rq h p m n db = Inr (x, db')" "limited aid db"
  shows "funds aid db' = funds aid db \<and> limited aid db'"
  using assms(1)
proof (cases rule: reserve_cases)
  case again
  then show ?thesis using assms by simp
next
  case (taken a)
  let ?r = "held_row rid now rq h p m n"
  have "charged_old aid (reserved_db lid now a ?r db) = charged_old aid db"
    by (simp add: charged_old_def)
  moreover have "aid = pr_account p \<Longrightarrow> \<not> qa_unlimited a"
    using assms(2) taken(2) by (simp add: limited_def)
  ultimately show ?thesis using taken assms(2)
    by (auto simp: funds_eq balance_reserved [of ?r] share_def)
qed

text \<open>The ledger follows the balance of an account, row by row.\<close>

lemma ledger_settled_db:
  assumes "ledger_ok db" "r \<in> set (db_reservations db)" "qr_state r = RESERVED"
    "lid \<notin> ql_id ` set (db_ledger db)"
  shows "balance_of aid (settled_db lid now r c p k e db)
           - ledger_total aid (settled_db lid now r c p k e db)
         = balance_of aid db - ledger_total aid db"
proof -
  have held: "qr_id r \<in> qr_id ` {r \<in> set (db_reservations db). qr_state r = RESERVED}"
    using assms by blast
  have "(qr_id r, ''settlement_refund'') \<notin> (\<lambda>x. (ql_reservation x, ql_reason x)) ` set (db_ledger db)"
  proof
    assume "(qr_id r, ''settlement_refund'') \<in> (\<lambda>x. (ql_reservation x, ql_reason x)) ` set (db_ledger db)"
    then obtain x where x: "x \<in> set (db_ledger db)" "ql_reservation x = qr_id r"
        "ql_reason x = ''settlement_refund''"
      by auto
    have "ql_reason x = ''reservation'' \<or> ql_reason x = ''settlement_refund'' \<and>
        ql_reservation x \<notin> qr_id ` {r \<in> set (db_reservations db). qr_state r = RESERVED}"
      using assms(1) x(1) unfolding ledger_ok_def by blast
    then have "qr_id r \<notin> qr_id ` {r \<in> set (db_reservations db). qr_state r = RESERVED}"
      using x(2,3) by simp
    then show False using held by blast
  qed
  then have "\<not> ledger_conflict (refund_row lid now r n) db" for n
    using assms(4) by (simp add: ledger_conflict_def refund_row_def)
  then have "ledger_total aid (settled_db lid now r c p k e db) = ledger_total aid db
      + (if qr_account r = aid \<and> refunds r c db then qr_reserved r - c else 0)"
    by (simp add: ledger_total_def settled_db_def) (simp add: refund_row_def)
  then show ?thesis by (simp add: balance_settled)
qed

lemma settle_ledger:
  assumes "books_ok db" "settle_quota lid now rid actual p k e db = Inr db'"
    "lid \<notin> ql_id ` set (db_ledger db)"
  shows "balance_of aid db' - ledger_total aid db' = balance_of aid db - ledger_total aid db"
proof -
  have ok: "accounts_ok db" "reservations_ok db" "ledger_ok db"
    using assms by (simp_all add: books_ok_def)
  from ok(1,2) show ?thesis
  proof (cases rule: settle_cases [of db rid])
    case skip
    then show ?thesis using assms by simp
  next
    case (held r)
    then show ?thesis using assms ledger_settled_db [OF ok(3) held(1,3) assms(3)] by auto
  qed
qed

lemma reserve_ledger:
  assumes "reserve_quota rid lid now rq h p m n db = Inr (x, db')"
  shows "balance_of aid db' - ledger_total aid db' = balance_of aid db - ledger_total aid db"
  using assms
proof (cases rule: reserve_cases)
  case (taken a)
  then show ?thesis
    using balance_reserved [of "held_row rid now rq h p m n" db a aid lid now]
    by (simp add: ledger_total_def reserved_db_def)
qed simp

section \<open>Recovery\<close>

lemma release_all_total:
  assumes "books_ok db"
  obtains db' where "release_all lid now rids db = Inr db'" "books_ok db'"
    "\<And>aid. limited aid db \<Longrightarrow> limited aid db' \<and> funds aid db' = funds aid db"
    "\<And>aid. lifetime_charged aid db' = lifetime_charged aid db"
    "qr_id ` {r \<in> set (db_reservations db'). qr_state r = RESERVED}
       = qr_id ` {r \<in> set (db_reservations db). qr_state r = RESERVED} - set rids"
proof (atomize_elim, use assms in \<open>induction rids arbitrary: db\<close>)
  case (Cons rid rids)
  have ok: "accounts_ok db" "reservations_ok db" using Cons by (simp_all add: books_ok_def)
  have u: "unique_on qr_id (db_reservations db)" using ok by (simp add: reservations_ok_def)
  from ok obtain db1 where db1: "release_reservation (lid rid) now rid ''service_restarted'' db = Inr db1"
      "qr_id ` {r \<in> set (db_reservations db1). qr_state r = RESERVED}
       = qr_id ` {r \<in> set (db_reservations db). qr_state r = RESERVED} - {rid}"
      "\<And>aid. lifetime_charged aid db1 = lifetime_charged aid db"
  proof (cases rule: settle_cases [of db rid])
    case skip
    then show ?thesis using that by (auto simp: release_reservation_def)
  next
    case (held r)
    moreover have "charge_of 0 r = 0"
      using held(1) ok(2) by (auto simp: charge_of_def reservations_ok_def reservation_ok_def)
    ultimately show ?thesis
      using that held_ids_settled [OF u held(1,3)] lifetime_settled [OF u held(1,3)]
      by (auto simp: release_reservation_def)
  qed
  have b: "books_ok db1" using settle_books [OF Cons.prems] db1 by (simp add: release_reservation_def)
  have f: "limited aid db \<Longrightarrow> funds aid db1 = funds aid db \<and> limited aid db1" for aid
    using settle_funds [OF Cons.prems] db1 by (simp add: release_reservation_def)
  from Cons.IH [OF b] obtain db' where "release_all lid now rids db1 = Inr db'" "books_ok db'"
    "\<And>aid. limited aid db1 \<Longrightarrow> limited aid db' \<and> funds aid db' = funds aid db1"
    "\<And>aid. lifetime_charged aid db' = lifetime_charged aid db1"
    "qr_id ` {r \<in> set (db_reservations db'). qr_state r = RESERVED}
       = qr_id ` {r \<in> set (db_reservations db1). qr_state r = RESERVED} - set rids"
    by blast
  then show ?case using db1 f by (intro exI [of _ db']) auto
qed auto

end
