(* ===== verification/UsageSummary.thy ===== *)
theory UsageSummary
  imports Quota
begin

text \<open>
  \<^verbatim>\<open>src/src/llm_rio/usage_summary.py\<close>: folding the settled reservations up to a cutoff into the
  summary tables and deleting the raw rows, and the dashboard over both. A window's metrics are
  values of the group \<open>metrics\<close>; SQLite's \<open>julianday\<close> is the function \<open>jd\<close>. Groups come in the
  order of their first row (the code's results do not depend on the order).
\<close>

section \<open>The joined rows and their metrics\<close>

definition left_join :: "inference_row list \<Rightarrow> reservation_row \<Rightarrow> (reservation_row \<times> inference_row option) list" where
  "left_join reqs q =
     (case filter (\<lambda>r. ir_reservation r = qr_id q) reqs of
        [] \<Rightarrow> [(q, None)]
      | rs \<Rightarrow> map (\<lambda>r. (q, Some r)) rs)"

definition eligible :: "datetime \<Rightarrow> reservation_row \<Rightarrow> bool" where
  "eligible cutoff q \<longleftrightarrow>
     qr_state q = SETTLED \<and> (case qr_settled_at q of None \<Rightarrow> False | Some t \<Rightarrow> t \<le> cutoff)"

type_synonym joined = "reservation_row \<times> inference_row option"

definition joined_rows :: "(reservation_row \<Rightarrow> bool) \<Rightarrow> database \<Rightarrow> joined list" where
  "joined_rows P db = concat (map (left_join (db_requests db)) (filter P (db_reservations db)))"

fun coalesce0 :: "int option \<Rightarrow> int" where
  "coalesce0 None = 0"
| "coalesce0 (Some n) = n"

text \<open>The CASE of the three rate columns: a request with output whose active time is positive.\<close>

definition active_days :: "(datetime \<Rightarrow> rat) \<Rightarrow> inference_row option \<Rightarrow> rat option" where
  "active_days jd r =
     (case r of
        None \<Rightarrow> None
      | Some i \<Rightarrow>
          if 0 < coalesce0 (ir_completion i) then
            (case (ir_admitted_at i, ir_completed_at i) of
               (Some a, Some c) \<Rightarrow> if jd c > jd a then Some (jd c - jd a) else None
             | _ \<Rightarrow> None)
          else None)"

definition joined_metrics :: "(datetime \<Rightarrow> rat) \<Rightarrow> joined \<Rightarrow> metrics" where
  "joined_metrics jd x = (case x of (q, r) \<Rightarrow>
     let done_ok = (case r of None \<Rightarrow> False | Some i \<Rightarrow> ir_state i = RQ_COMPLETED);
         prompt = (case r of None \<Rightarrow> 0 | Some i \<Rightarrow> coalesce0 (ir_prompt i));
         completion = (case r of None \<Rightarrow> 0 | Some i \<Rightarrow> coalesce0 (ir_completion i));
         active = active_days jd r
     in Metrics 1 (if done_ok then 1 else 0) (if done_ok then 0 else 1) (qr_reserved q)
          (coalesce0 (qr_actual q)) prompt completion
          (case active of None \<Rightarrow> 0 | Some _ \<Rightarrow> completion)
          (case active of None \<Rightarrow> 0 | Some d \<Rightarrow> d * 86400)
          (case active of None \<Rightarrow> 0 | Some _ \<Rightarrow> 1))"

definition completed_or_settled :: "joined \<Rightarrow> datetime option" where
  "completed_or_settled x = (case x of (q, r) \<Rightarrow>
     (case Option.bind r ir_completed_at of Some t \<Rightarrow> Some t | None \<Rightarrow> qr_settled_at q))"

text \<open>SQL's aggregate MIN and MAX skip NULL; the scalar ones of the upsert do not.\<close>

fun agg :: "(datetime \<Rightarrow> datetime \<Rightarrow> datetime) \<Rightarrow> datetime option list \<Rightarrow> datetime option" where
  "agg f [] = None"
| "agg f (x # xs) = (case (x, agg f xs) of
     (None, y) \<Rightarrow> y | (Some a, None) \<Rightarrow> Some a | (Some a, Some b) \<Rightarrow> Some (f a b))"

definition scalar :: "(datetime \<Rightarrow> datetime \<Rightarrow> datetime) \<Rightarrow> datetime option \<Rightarrow> datetime option \<Rightarrow> datetime option" where
  "scalar f x y = (case (x, y) of (Some a, Some b) \<Rightarrow> Some (f a b) | _ \<Rightarrow> None)"

section \<open>Summarizing\<close>

type_synonym group_key = "string \<times> string \<times> string"

definition group_of :: "joined \<Rightarrow> group_key" where
  "group_of x = (qr_account (fst x), qr_key (fst x), qr_model (fst x))"

record usage_group =
  ug_key :: group_key
  ug_metrics :: metrics
  ug_first :: "datetime option"
  ug_last :: "datetime option"

definition make_group :: "(datetime \<Rightarrow> rat) \<Rightarrow> joined list \<Rightarrow> group_key \<Rightarrow> usage_group" where
  "make_group jd rows k =
     (let mine = filter (\<lambda>x. group_of x = k) rows
      in \<lparr>ug_key = k, ug_metrics = sum_list (map (joined_metrics jd) mine),
          ug_first = agg min (map completed_or_settled mine),
          ug_last = agg max (map completed_or_settled mine)\<rparr>)"

definition usage_groups :: "(datetime \<Rightarrow> rat) \<Rightarrow> joined list \<Rightarrow> usage_group list" where
  "usage_groups jd rows = map (make_group jd rows) (remdups (map group_of rows))"

definition metrics_ok :: "metrics \<Rightarrow> bool" where
  "metrics_ok m \<longleftrightarrow> 0 \<le> mt_requests m \<and> 0 \<le> mt_successful m \<and> 0 \<le> mt_failed m
     \<and> 0 \<le> mt_reserved m \<and> 0 \<le> mt_charged m \<and> 0 \<le> mt_prompt m \<and> 0 \<le> mt_completion m
     \<and> 0 \<le> mt_output m \<and> 0 \<le> mt_seconds m \<and> 0 \<le> mt_timed m"

definition summary_key :: "summary_row \<Rightarrow> window \<times> group_key" where
  "summary_key s = (us_window s, us_account s, us_key s, us_model s)"

definition upsert_summary :: "summary_row list \<Rightarrow> usage_group \<Rightarrow> summary_row list" where
  "upsert_summary rows g =
     (if has_row summary_key (TOTAL, ug_key g) rows
      then update_rows (\<lambda>s. summary_key s = (TOTAL, ug_key g))
             (\<lambda>s. s\<lparr>us_metrics := us_metrics s + ug_metrics g,
                    us_first := scalar min (us_first s) (ug_first g),
                    us_last := scalar max (us_last s) (ug_last g)\<rparr>) rows
      else rows @ [case ug_key g of (a, k, m) \<Rightarrow>
             \<lparr>us_window = TOTAL, us_account = a, us_key = k, us_model = m,
              us_metrics = ug_metrics g, us_first = ug_first g, us_last = ug_last g\<rparr>])"

definition upsert_period :: "period_row \<Rightarrow> period_row list \<Rightarrow> period_row list" where
  "upsert_period p rows =
     (if has_row up_window (up_window p) rows
      then update_rows (\<lambda>x. up_window x = up_window p) (\<lambda>_. p) rows
      else rows @ [p])"

record summary_result =
  sr_start :: datetime
  sr_end :: datetime
  sr_requests :: int
  sr_rows :: nat
  sr_summarized :: metrics
  sr_deleted_requests :: nat
  sr_deleted_reservations :: nat
  sr_deleted_ledger :: nat
  sr_remaining :: nat
  sr_current :: metrics
  sr_lifetime :: metrics

text \<open>
  \<open>summarize_usage_records\<close>: \<open>aware\<close> is whether the cutoff carries a timezone and \<open>cutoff\<close> the
  instant in UTC. The CHECK constraints of the summary table are tested on every inserted group.
\<close>

definition stale_ids :: "datetime \<Rightarrow> database \<Rightarrow> string set" where
  "stale_ids cutoff db = qr_id ` set (filter (eligible cutoff) (db_reservations db))"

definition summarized_db ::
  "(datetime \<Rightarrow> rat) \<Rightarrow> datetime \<Rightarrow> datetime \<Rightarrow> datetime \<Rightarrow> database \<Rightarrow> database" where
  "summarized_db jd now cutoff period_start db =
     (let groups = usage_groups jd (joined_rows (eligible cutoff) db);
          old_total = find_row up_window TOTAL (db_periods db);
          lifetime = (case old_total of None \<Rightarrow> 0 | Some p \<Rightarrow> up_metrics p)
                     + sum_list (map ug_metrics groups);
          start = (case old_total of None \<Rightarrow> period_start | Some p \<Rightarrow> up_start p)
      in db\<lparr>db_summaries := fold (\<lambda>g rows. upsert_summary rows g) groups
               (filter (\<lambda>s. us_window s \<noteq> CURRENT) (db_summaries db)),
            db_periods :=
              upsert_period \<lparr>up_window = TOTAL, up_start = start, up_end = cutoff,
                  up_summarized_at = now, up_metrics = lifetime\<rparr>
                (upsert_period \<lparr>up_window = CURRENT, up_start = cutoff, up_end = cutoff,
                    up_summarized_at = now, up_metrics = 0\<rparr> (db_periods db)),
            db_ledger := filter (\<lambda>l. ql_reservation l \<notin> stale_ids cutoff db) (db_ledger db),
            db_requests := filter (\<lambda>r. ir_reservation r \<notin> stale_ids cutoff db) (db_requests db),
            db_reservations := filter (\<lambda>q. \<not> eligible cutoff q) (db_reservations db)\<rparr>)"

definition summarize_from ::
  "(datetime \<Rightarrow> rat) \<Rightarrow> datetime \<Rightarrow> datetime \<Rightarrow> datetime \<Rightarrow> database
     \<Rightarrow> exn + (summary_result \<times> database)" where
  "summarize_from jd now cutoff period_start db =
     (let groups = usage_groups jd (joined_rows (eligible cutoff) db);
          db' = summarized_db jd now cutoff period_start db;
          batch = sum_list (map ug_metrics groups)
      in if \<exists>g \<in> set groups. \<not> metrics_ok (ug_metrics g) then Inl (IntegrityError ''CHECK'')
         else Inr
           (\<lparr>sr_start = period_start, sr_end = cutoff, sr_requests = mt_requests batch,
             sr_rows = length groups, sr_summarized = batch,
             sr_deleted_requests =
               rowcount (\<lambda>r. ir_reservation r \<in> stale_ids cutoff db) (db_requests db),
             sr_deleted_reservations = rowcount (eligible cutoff) (db_reservations db),
             sr_deleted_ledger =
               rowcount (\<lambda>l. ql_reservation l \<in> stale_ids cutoff db) (db_ledger db),
             sr_remaining = length (db_requests db'), sr_current = 0,
             sr_lifetime = (case find_row up_window TOTAL (db_periods db) of
                              None \<Rightarrow> 0 | Some p \<Rightarrow> up_metrics p) + batch\<rparr>, db'))"

definition summarize_usage_records ::
  "(datetime \<Rightarrow> rat) \<Rightarrow> datetime \<Rightarrow> bool \<Rightarrow> datetime \<Rightarrow> database
     \<Rightarrow> exn + (summary_result \<times> database)" where
  "summarize_usage_records jd now aware cutoff db =
     (if \<not> aware
      then Inl (rio ''invalid_summary_cutoff''
                ''The usage summary cutoff must include a timezone'' 422 [])
      else case find_row up_window CURRENT (db_periods db) of
        Some p \<Rightarrow>
          if cutoff \<le> up_end p
          then Inl (rio ''summary_cutoff_not_advanced''
                 ''The usage summary cutoff must be later than the previous cutoff'' 409
                 [(''previous_cutoff'', JInt (up_end p))])
          else summarize_from jd now cutoff (up_end p) db
      | None \<Rightarrow>
          summarize_from jd now cutoff
            (case agg min (map ug_first (usage_groups jd (joined_rows (eligible cutoff) db))) of
               None \<Rightarrow> cutoff | Some t \<Rightarrow> t) db)"

text \<open>\<open>Database.summarize_usage\<close>: without a cutoff, everything up to now.\<close>

definition summarize_usage ::
  "(datetime \<Rightarrow> rat) \<Rightarrow> datetime \<Rightarrow> (bool \<times> datetime) option \<Rightarrow> database
     \<Rightarrow> exn + (summary_result \<times> database)" where
  "summarize_usage jd now through db =
     (case through of
        None \<Rightarrow> summarize_usage_records jd now True now db
      | Some (aware, cutoff) \<Rightarrow> summarize_usage_records jd now aware cutoff db)"

section \<open>The dashboard\<close>

record window_payload =
  wp_start :: datetime
  wp_end :: datetime
  wp_metrics :: metrics
  wp_token_usage :: int
  wp_elapsed :: rat
  wp_tokens_per_second :: rat
  wp_tokens_per_minute :: rat
  wp_output_rate :: "rat option"

definition window_payload_of :: "metrics \<Rightarrow> datetime \<Rightarrow> datetime \<Rightarrow> window_payload" where
  "window_payload_of m start stop =
     (let elapsed = max 0 (total_seconds (stop - start));
          tokens = mt_prompt m + mt_completion m
      in \<lparr>wp_start = start, wp_end = stop, wp_metrics = m, wp_token_usage = tokens,
          wp_elapsed = elapsed,
          wp_tokens_per_second = (if elapsed > 0 then of_int tokens / elapsed else 0),
          wp_tokens_per_minute = (if elapsed > 0 then of_int tokens * 60 / elapsed else 0),
          wp_output_rate = (if mt_seconds m > 0 then Some (of_int (mt_output m) / mt_seconds m)
                            else None)\<rparr>)"

text \<open>The rows that the popularity ranking adds up: a model's name and four of its sums.\<close>

record model_usage =
  mu_model_id :: string
  mu_model :: string
  mu_requests :: int
  mu_charged :: int
  mu_prompt :: int
  mu_completion :: int

record ranked_model =
  rk_usage :: model_usage
  rk_rank :: nat
  rk_tokens :: int
  rk_share :: rat

definition mu_tokens :: "model_usage \<Rightarrow> int" where
  "mu_tokens u = mu_prompt u + mu_completion u"

definition add_usage :: "model_usage \<Rightarrow> model_usage \<Rightarrow> model_usage" where
  "add_usage a b = a\<lparr>mu_requests := mu_requests a + mu_requests b,
     mu_charged := mu_charged a + mu_charged b, mu_prompt := mu_prompt a + mu_prompt b,
     mu_completion := mu_completion a + mu_completion b\<rparr>"

definition merge_usage :: "model_usage \<Rightarrow> (string, model_usage) dict \<Rightarrow> (string, model_usage) dict" where
  "merge_usage u d =
     (let item = (case map_of d (mu_model_id u) of
                    Some x \<Rightarrow> x
                  | None \<Rightarrow> u\<lparr>mu_requests := 0, mu_charged := 0, mu_prompt := 0, mu_completion := 0\<rparr>)
      in AList.update (mu_model_id u) (add_usage item u) d)"

definition popularity :: "model_usage list \<Rightarrow> model_usage list \<Rightarrow> ranked_model list" where
  "popularity base extra =
     (let by_model = fold merge_usage (base @ extra) [];
          ranked = sort_key (\<lambda>u. (- mu_tokens u, mu_model u)) (vals by_model);
          grand = sum_list (map mu_tokens ranked)
      in map (\<lambda>(i, u). \<lparr>rk_usage = u, rk_rank = i, rk_tokens = mu_tokens u,
                       rk_share = (if grand \<noteq> 0 then of_int (mu_tokens u) / of_int grand else 0)\<rparr>)
           (enumerate 1 ranked))"

definition usage_of_metrics :: "string \<Rightarrow> string \<Rightarrow> metrics \<Rightarrow> model_usage" where
  "usage_of_metrics mid name m =
     \<lparr>mu_model_id = mid, mu_model = name, mu_requests = mt_requests m, mu_charged = mt_charged m,
      mu_prompt = mt_prompt m, mu_completion = mt_completion m\<rparr>"

text \<open>Rows whose model is in the catalog, grouped by it.\<close>

definition settled_rows :: "database \<Rightarrow> joined list" where
  "settled_rows db =
     filter (\<lambda>x. has_row mc_id (qr_model (fst x)) (db_models db))
       (joined_rows (\<lambda>q. qr_state q = SETTLED) db)"

definition model_name :: "database \<Rightarrow> string \<Rightarrow> string" where
  "model_name db mid = (case find_row mc_id mid (db_models db) of None \<Rightarrow> [] | Some m \<Rightarrow> mc_nickname m)"

definition raw_models :: "(datetime \<Rightarrow> rat) \<Rightarrow> database \<Rightarrow> model_usage list" where
  "raw_models jd db =
     map (\<lambda>mid. usage_of_metrics mid (model_name db mid)
            (sum_list (map (joined_metrics jd)
              (filter (\<lambda>x. qr_model (fst x) = mid) (settled_rows db)))))
       (remdups (map (\<lambda>x. qr_model (fst x)) (settled_rows db)))"

definition summary_models :: "database \<Rightarrow> model_usage list" where
  "summary_models db =
     (let rows = filter (\<lambda>s. us_window s = TOTAL \<and> has_row mc_id (us_model s) (db_models db))
                   (db_summaries db)
      in map (\<lambda>mid. usage_of_metrics mid (model_name db mid)
                (sum_list (map us_metrics (filter (\<lambda>s. us_model s = mid) rows))))
           (remdups (map us_model rows)))"

definition raw_metrics :: "(datetime \<Rightarrow> rat) \<Rightarrow> database \<Rightarrow> metrics" where
  "raw_metrics jd db = sum_list (map (joined_metrics jd) (settled_rows db))"

definition summary_metrics :: "database \<Rightarrow> metrics" where
  "summary_metrics db = sum_where (\<lambda>s. us_window s = TOTAL) us_metrics (db_summaries db)"

record dashboard =
  da_generated :: datetime
  da_current :: window_payload
  da_total :: window_payload
  da_current_popularity :: "ranked_model list"
  da_total_popularity :: "ranked_model list"

definition usage_dashboard :: "(datetime \<Rightarrow> rat) \<Rightarrow> datetime \<Rightarrow> database \<Rightarrow> dashboard" where
  "usage_dashboard jd now db =
     (let earliest = (case agg min (map (\<lambda>x. qr_settled_at (fst x)) (settled_rows db)) of
                        None \<Rightarrow> now | Some t \<Rightarrow> t);
          start = (\<lambda>w. case find_row up_window w (db_periods db) of
                         None \<Rightarrow> earliest | Some p \<Rightarrow> up_start p);
          raw = raw_models jd db
      in \<lparr>da_generated = now,
          da_current = window_payload_of (raw_metrics jd db) (start CURRENT) now,
          da_total = window_payload_of (summary_metrics db + raw_metrics jd db) (start TOTAL) now,
          da_current_popularity = popularity raw [],
          da_total_popularity = popularity (summary_models db) raw\<rparr>)"

section \<open>Sums over groups\<close>

lemma sum_over_groups:
  fixes f :: "'a \<Rightarrow> 'n::comm_monoid_add"
  assumes "distinct ks" "key ` set rows \<subseteq> set ks"
  shows "sum_list (map (\<lambda>k. sum_list (map f (filter (\<lambda>x. key x = k) rows))) ks) =
           sum_list (map f rows)"
  using assms(2)
proof (induction rows)
  case Nil
  show ?case by (simp add: sum_list_0)
next
  case (Cons x rows)
  have "sum_list (map (\<lambda>k. sum_list (map f (filter (\<lambda>y. key y = k) (x # rows)))) ks)
      = (\<Sum>k \<in> set ks. (if k = key x then f x else 0)
          + sum_list (map f (filter (\<lambda>y. key y = k) rows)))"
    using assms(1) by (auto simp: sum_list_distinct_conv_sum_set intro!: sum.cong)
  also have "\<dots> = f x + (\<Sum>k \<in> set ks. sum_list (map f (filter (\<lambda>y. key y = k) rows)))"
    using Cons.prems by (simp add: sum.distrib)
  also have "\<dots> = f x + sum_list (map f rows)"
    using Cons assms(1) by (simp add: sum_list_distinct_conv_sum_set)
  finally show ?case by simp
qed

lemma sum_list_if_filter:
  "sum_list (map (\<lambda>x. if P x then f x else (0::'n::monoid_add)) xs) = sum_list (map f (filter P xs))"
  by (induction xs) auto

text \<open>An additive value of the metrics of the groups that a predicate on their keys selects.\<close>

lemma groups_sum:
  fixes h :: "metrics \<Rightarrow> 'n::comm_monoid_add"
  assumes h: "h 0 = 0" "\<And>a b. h (a + b) = h a + h b"
  shows "sum_list (map (\<lambda>g. h (ug_metrics g)) (filter (\<lambda>g. Q (ug_key g)) (usage_groups jd rows))) =
           sum_list (map (\<lambda>x. h (joined_metrics jd x)) (filter (\<lambda>x. Q (group_of x)) rows))"
proof -
  have hs: "h (sum_list (map f xs)) = sum_list (map (\<lambda>x. h (f x)) xs)" for f and xs :: "joined list"
    by (induction xs) (auto simp: h)
  have "sum_list (map (\<lambda>g. h (ug_metrics g)) (filter (\<lambda>g. Q (ug_key g)) (usage_groups jd rows)))
      = sum_list (map (\<lambda>k. sum_list (map (\<lambda>x. if Q (group_of x) then h (joined_metrics jd x) else 0)
          (filter (\<lambda>x. group_of x = k) rows))) (remdups (map group_of rows)))"
  proof -
    have key: "(if Q k then h (sum_list (map (joined_metrics jd) (filter (\<lambda>x. group_of x = k) rows))) else 0)
      = sum_list (map (\<lambda>x. if Q (group_of x) then h (joined_metrics jd x) else 0)
          (filter (\<lambda>x. group_of x = k) rows))" for k
      unfolding hs by (induction rows) auto
    have "sum_list (map (\<lambda>g. h (ug_metrics g)) (filter (\<lambda>g. Q (ug_key g)) (usage_groups jd rows)))
      = sum_list (map (\<lambda>g. if Q (ug_key g) then h (ug_metrics g) else 0) (usage_groups jd rows))"
      by (rule sum_list_if_filter [symmetric])
    also have "\<dots> = sum_list (map (\<lambda>k. if Q k
        then h (sum_list (map (joined_metrics jd) (filter (\<lambda>x. group_of x = k) rows))) else 0)
        (remdups (map group_of rows)))"
      unfolding usage_groups_def map_map
      by (rule arg_cong [where f = sum_list]) (simp only: comp_def make_group_def Let_def
          usage_group.select_convs)
    finally show ?thesis unfolding key .
  qed
  also have "\<dots> = sum_list (map (\<lambda>x. if Q (group_of x) then h (joined_metrics jd x) else 0) rows)"
    by (rule sum_over_groups) auto
  finally show ?thesis by (simp add: sum_list_if_filter)
qed

section \<open>The summary table\<close>

lemma upsert_summary_keys:
  "map summary_key (upsert_summary rows g) =
     (if has_row summary_key (TOTAL, ug_key g) rows then map summary_key rows
      else map summary_key rows @ [(TOTAL, ug_key g)])"
  by (cases "ug_key g") (simp add: upsert_summary_def map_update_rows summary_key_def)

lemma upsert_summary_unique:
  "unique_on summary_key rows \<Longrightarrow> unique_on summary_key (upsert_summary rows g)"
  by (simp add: upsert_summary_keys)

lemma upsert_summary_sum:
  fixes h :: "metrics \<Rightarrow> 'n::ab_group_add"
  assumes h: "\<And>a b. h (a + b) = h a + h b" and u: "unique_on summary_key rows"
  shows "sum_where (\<lambda>s. Q (summary_key s)) (\<lambda>s. h (us_metrics s)) (upsert_summary rows g) =
           sum_where (\<lambda>s. Q (summary_key s)) (\<lambda>s. h (us_metrics s)) rows
           + (if Q (TOTAL, ug_key g) then h (ug_metrics g) else 0)"
proof (cases "has_row summary_key (TOTAL, ug_key g) rows")
  case True
  then obtain s where s: "s \<in> set rows" "summary_key s = (TOTAL, ug_key g)" by auto
  let ?f = "\<lambda>s. s\<lparr>us_metrics := us_metrics s + ug_metrics g,
                    us_first := scalar min (us_first s) (ug_first g),
                    us_last := scalar max (us_last s) (ug_last g)\<rparr>"
  have "summary_key (?f s) = summary_key s" for s by (simp add: summary_key_def)
  then show ?thesis
    using True s sum_where_update_one [OF u s(1,2),
        of "\<lambda>s. if Q (summary_key s) then h (us_metrics s) else 0" ?f]
    by (simp add: upsert_summary_def sum_where_if h)
next
  case False
  then show ?thesis
    by (cases "ug_key g") (simp add: upsert_summary_def summary_key_def)
qed

lemma upsert_fold_sum:
  fixes h :: "metrics \<Rightarrow> 'n::ab_group_add"
  assumes h: "\<And>a b. h (a + b) = h a + h b" and u: "unique_on summary_key rows"
  shows "unique_on summary_key (fold (\<lambda>g rows. upsert_summary rows g) gs rows)
       \<and> sum_where (\<lambda>s. Q (summary_key s)) (\<lambda>s. h (us_metrics s))
           (fold (\<lambda>g rows. upsert_summary rows g) gs rows) =
         sum_where (\<lambda>s. Q (summary_key s)) (\<lambda>s. h (us_metrics s)) rows
         + sum_list (map (\<lambda>g. h (ug_metrics g)) (filter (\<lambda>g. Q (TOTAL, ug_key g)) gs))"
  using u
proof (induction gs arbitrary: rows)
  case (Cons g gs)
  show ?case
    using Cons.IH [OF upsert_summary_unique [OF Cons.prems, of g]]
      upsert_summary_sum [OF h Cons.prems, of Q g]
    by (simp add: algebra_simps)
qed simp

section \<open>One request per reservation\<close>

lemma unique_reservation_requests:
  assumes "books_ok db"
  shows "unique_on ir_reservation (db_requests db)"
proof -
  have u: "unique_on qr_id (db_reservations db)" and i: "unique_on ir_id (db_requests db)"
    and ok: "\<And>i. i \<in> set (db_requests db) \<Longrightarrow> request_ok db i"
    using assms by (simp_all add: books_ok_def reservations_ok_def requests_ok_def)
  have "x = y" if x: "x \<in> set (db_requests db)" "y \<in> set (db_requests db)"
      "ir_reservation x = ir_reservation y" for x y
  proof -
    obtain a b where ab: "a \<in> set (db_reservations db)" "b \<in> set (db_reservations db)"
        "qr_id a = ir_reservation x" "qr_request a = ir_id x"
        "qr_id b = ir_reservation y" "qr_request b = ir_id y"
      using ok [OF x(1)] ok [OF x(2)] by (auto simp: request_ok_def)
    then have "a = b" using unique_onD [OF u] x(3) by metis
    then show ?thesis using unique_onD [OF i x(1,2)] ab by simp
  qed
  then show ?thesis
    using i by (auto simp: distinct_map inj_on_def)
qed

lemma left_join_single:
  assumes "unique_on ir_reservation reqs"
  shows "left_join reqs q = [(q, find_row ir_reservation (qr_id q) reqs)]"
proof (cases "find_row ir_reservation (qr_id q) reqs")
  case None
  then have "filter (\<lambda>r. ir_reservation r = qr_id q) reqs = []"
    by (auto simp: find_row_None filter_empty_conv image_iff)
  then show ?thesis using None by (simp add: left_join_def)
next
  case (Some r)
  then have "filter (\<lambda>r. ir_reservation r = qr_id q) reqs = [r]"
    using assms
  proof (induction reqs)
    case (Cons x xs)
    show ?case
    proof (cases "ir_reservation x = qr_id q")
      case True
      then have "filter (\<lambda>r. ir_reservation r = qr_id q) xs = []"
        using Cons.prems by (auto simp: filter_empty_conv image_iff)
      then show ?thesis using True Cons.prems by simp
    next
      case False
      then show ?thesis using Cons by simp
    qed
  qed simp
  then show ?thesis using Some by (simp add: left_join_def)
qed

lemma joined_rows_single:
  assumes "unique_on ir_reservation (db_requests db)"
  shows "joined_rows P db =
    map (\<lambda>q. (q, find_row ir_reservation (qr_id q) (db_requests db))) (filter P (db_reservations db))"
proof -
  have "left_join (db_requests db) = (\<lambda>q. [(q, find_row ir_reservation (qr_id q) (db_requests db))])"
    by (rule ext) (rule left_join_single [OF assms])
  then show ?thesis by (simp add: joined_rows_def)
qed

section \<open>What summarizing keeps\<close>

lemma sum_where_filter: "sum_where P f (filter Q rows) = sum_where (\<lambda>r. Q r \<and> P r) f rows"
  by (simp add: sum_where_def conj_commute)

lemma sum_where_split:
  fixes f :: "'r \<Rightarrow> 'n::comm_monoid_add"
  shows "sum_where P f rows = sum_where (\<lambda>r. E r \<and> P r) f rows + sum_where (\<lambda>r. \<not> E r \<and> P r) f rows"
  by (induction rows) (auto simp: ac_simps)

definition total_period :: "database \<Rightarrow> metrics" where
  "total_period db = (case find_row up_window TOTAL (db_periods db) of None \<Rightarrow> 0 | Some p \<Rightarrow> up_metrics p)"

text \<open>
  The summary tables have their primary keys, and the period row of the lifetime window holds
  the sum of the per-model rows.
\<close>

definition summaries_ok :: "database \<Rightarrow> bool" where
  "summaries_ok db \<longleftrightarrow>
     unique_on summary_key (db_summaries db) \<and> unique_on up_window (db_periods db)
     \<and> total_period db = summary_metrics db"

lemma summarized_sum:
  fixes h :: "metrics \<Rightarrow> 'n::ab_group_add"
  assumes h: "h 0 = 0" "\<And>a b. h (a + b) = h a + h b"
    and u: "unique_on summary_key (db_summaries db)"
  shows "sum_where (\<lambda>s. us_window s = TOTAL \<and> Q (us_account s, us_key s, us_model s))
           (\<lambda>s. h (us_metrics s)) (db_summaries (summarized_db jd now cutoff start db)) =
         sum_where (\<lambda>s. us_window s = TOTAL \<and> Q (us_account s, us_key s, us_model s))
           (\<lambda>s. h (us_metrics s)) (db_summaries db)
         + sum_list (map (\<lambda>x. h (joined_metrics jd x))
             (filter (\<lambda>x. Q (group_of x)) (joined_rows (eligible cutoff) db)))"
proof -
  let ?gs = "usage_groups jd (joined_rows (eligible cutoff) db)"
  let ?Q = "\<lambda>k. fst k = TOTAL \<and> Q (snd k)"
  have u': "unique_on summary_key (filter (\<lambda>s. us_window s \<noteq> CURRENT) (db_summaries db))"
    using u by (simp add: distinct_map_filter)
  have q: "(\<lambda>s. us_window s = TOTAL \<and> Q (us_account s, us_key s, us_model s))
      = (\<lambda>s. ?Q (summary_key s))"
    by (simp add: fun_eq_iff summary_key_def)
  have "sum_where (\<lambda>s. ?Q (summary_key s)) (\<lambda>s. h (us_metrics s))
        (filter (\<lambda>s. us_window s \<noteq> CURRENT) (db_summaries db))
      = sum_where (\<lambda>s. ?Q (summary_key s)) (\<lambda>s. h (us_metrics s)) (db_summaries db)"
    unfolding sum_where_filter by (rule sum_where_cong) (auto simp: summary_key_def)
  moreover have "sum_list (map (\<lambda>g. h (ug_metrics g)) (filter (\<lambda>g. ?Q (TOTAL, ug_key g)) ?gs))
      = sum_list (map (\<lambda>x. h (joined_metrics jd x))
             (filter (\<lambda>x. Q (group_of x)) (joined_rows (eligible cutoff) db)))"
    using groups_sum [OF h, of Q jd "joined_rows (eligible cutoff) db"] by simp
  ultimately show ?thesis
    using upsert_fold_sum [OF h(2) u', where Q = ?Q and gs = ?gs]
    unfolding q by (simp add: summarized_db_def Let_def)
qed

lemma summarized_sel [simp]:
  "db_accounts (summarized_db jd now cutoff start db) = db_accounts db"
  "db_keys (summarized_db jd now cutoff start db) = db_keys db"
  "db_models (summarized_db jd now cutoff start db) = db_models db"
  "db_reservations (summarized_db jd now cutoff start db)
     = filter (\<lambda>q. \<not> eligible cutoff q) (db_reservations db)"
  "db_requests (summarized_db jd now cutoff start db)
     = filter (\<lambda>r. ir_reservation r \<notin> stale_ids cutoff db) (db_requests db)"
  "db_ledger (summarized_db jd now cutoff start db)
     = filter (\<lambda>l. ql_reservation l \<notin> stale_ids cutoff db) (db_ledger db)"
  by (simp_all add: summarized_db_def Let_def)

lemma eligible_settled: "eligible cutoff q \<Longrightarrow> qr_state q = SETTLED"
  by (simp add: eligible_def)

lemma joined_charge [simp]: "mt_charged (joined_metrics jd (q, r)) = settled_charge q"
  by (cases "qr_actual q") (simp_all add: joined_metrics_def settled_charge_def Let_def)

lemma joined_requests [simp]: "mt_requests (joined_metrics jd x) = 1"
  by (cases x) (simp add: joined_metrics_def Let_def)

text \<open>A sum over the raw rows, moved to the summaries: nothing is lost or counted twice.\<close>

lemma summarized_moves:
  fixes h :: "metrics \<Rightarrow> 'n::ab_group_add"
  assumes h: "h 0 = 0" "\<And>a b. h (a + b) = h a + h b"
    and u: "unique_on summary_key (db_summaries db)" "unique_on ir_reservation (db_requests db)"
    and v: "\<And>q r. h (joined_metrics jd (q, r)) = v q"
    and Q: "\<And>q r. Q (group_of (q, r)) = R q"
  shows "sum_where (\<lambda>q. qr_state q = SETTLED \<and> R q) v
           (db_reservations (summarized_db jd now cutoff start db))
         + sum_where (\<lambda>s. us_window s = TOTAL \<and> Q (us_account s, us_key s, us_model s))
           (\<lambda>s. h (us_metrics s)) (db_summaries (summarized_db jd now cutoff start db)) =
         sum_where (\<lambda>q. qr_state q = SETTLED \<and> R q) v (db_reservations db)
         + sum_where (\<lambda>s. us_window s = TOTAL \<and> Q (us_account s, us_key s, us_model s))
           (\<lambda>s. h (us_metrics s)) (db_summaries db)"
proof -
  have "sum_list (map (\<lambda>x. h (joined_metrics jd x))
             (filter (\<lambda>x. Q (group_of x)) (joined_rows (eligible cutoff) db)))
      = sum_where (\<lambda>q. eligible cutoff q \<and> qr_state q = SETTLED \<and> R q) v (db_reservations db)"
  proof -
    have "(\<lambda>q. eligible cutoff q \<and> qr_state q = SETTLED \<and> R q) = (\<lambda>q. eligible cutoff q \<and> R q)"
      by (auto simp: fun_eq_iff eligible_settled)
    then show ?thesis
      by (simp add: joined_rows_single [OF u(2)] sum_where_def filter_map comp_def v Q conj_commute)
  qed
  moreover have "sum_where (\<lambda>q. qr_state q = SETTLED \<and> R q) v
           (db_reservations (summarized_db jd now cutoff start db))
      = sum_where (\<lambda>q. \<not> eligible cutoff q \<and> qr_state q = SETTLED \<and> R q) v (db_reservations db)"
    by (simp add: sum_where_filter)
  ultimately show ?thesis
    using summarized_sum [OF h u(1), of Q jd now cutoff start]
      sum_where_split [of "\<lambda>q. qr_state q = SETTLED \<and> R q" v "db_reservations db" "eligible cutoff"]
    by (simp add: algebra_simps)
qed

lemma summarize_cases:
  assumes "summarize_usage_records jd now aware cutoff db = Inr (res, db')"
  obtains start where "aware" "db' = summarized_db jd now cutoff start db"
    "\<And>p. find_row up_window CURRENT (db_periods db) = Some p \<Longrightarrow> up_end p < cutoff"
    "sr_start res = start" "sr_end res = cutoff"
    "sr_deleted_reservations res = rowcount (eligible cutoff) (db_reservations db)"
    "sr_lifetime res = total_period db
       + sum_list (map ug_metrics (usage_groups jd (joined_rows (eligible cutoff) db)))"
  using assms
  by (auto simp: summarize_usage_records_def summarize_from_def Let_def total_period_def
      split: if_splits option.splits)

lemma kept_ids:
  assumes "unique_on qr_id (db_reservations db)"
  shows "q \<in> set (db_reservations db) \<Longrightarrow> eligible cutoff q \<longleftrightarrow> qr_id q \<in> stale_ids cutoff db"
  using unique_onD [OF assms] by (auto simp: stale_ids_def)

lemma held_kept:
  "{r \<in> set (db_reservations (summarized_db jd now cutoff start db)). qr_state r = RESERVED}
     = {r \<in> set (db_reservations db). qr_state r = RESERVED}"
  by (auto simp: eligible_def)

lemma books_summarized:
  assumes "books_ok db"
  shows "books_ok (summarized_db jd now cutoff start db)" (is "books_ok ?db")
proof -
  have u: "unique_on qr_id (db_reservations db)"
    using assms by (simp add: books_ok_def reservations_ok_def)
  have acc: "accounts_ok ?db" using assms by (simp add: books_ok_def accounts_ok_def)
  have res: "reservations_ok ?db"
    using assms by (simp add: books_ok_def reservations_ok_def distinct_map_filter)
  have "qr_id ` set (db_reservations ?db) = qr_id ` set (db_reservations db) - stale_ids cutoff db"
    using kept_ids [OF u, of _ cutoff] by (auto simp: image_iff)
  then have led: "ledger_ok ?db"
    using assms unfolding books_ok_def ledger_ok_def held_kept by (simp; blast)
  have "request_ok ?db i" if "request_ok db i" "ir_reservation i \<notin> stale_ids cutoff db" for i
  proof -
    have "(ir_reservation i, ir_id i) \<in> (\<lambda>r. (qr_id r, qr_request r)) ` set (db_reservations ?db)"
      using that kept_ids [OF u, of _ cutoff] by (auto simp: request_ok_def)
    then show ?thesis using that(1) unfolding request_ok_def held_kept by simp
  qed
  then have "requests_ok ?db"
    using assms by (auto simp: books_ok_def requests_ok_def distinct_map_filter)
  then show ?thesis using acc res led by (simp add: books_ok_def)
qed

lemma usage_summarized:
  assumes "books_ok db" "summaries_ok db"
  shows "lifetime_charged aid (summarized_db jd now cutoff start db) = lifetime_charged aid db"
    and "usage p (summarized_db jd now cutoff start db) = usage p db"
proof -
  let ?db = "summarized_db jd now cutoff start db"
  note u = unique_reservation_requests [OF assms(1)]
  have s: "unique_on summary_key (db_summaries db)" using assms(2) by (simp add: summaries_ok_def)
  have count: "(case account_lifetime_usage aid d of None \<Rightarrow> 0 | Some (_, n) \<Rightarrow> n) =
      sum_where (\<lambda>q. qr_state q = SETTLED \<and> qr_account q = aid) (\<lambda>_. 1) (db_reservations d)
      + sum_where (\<lambda>s. us_window s = TOTAL \<and> us_account s = aid) (\<lambda>s. mt_requests (us_metrics s))
          (db_summaries d)" for aid d
    by (auto simp: account_lifetime_usage_def Let_def sum_where_def sum_list_triv)
  have c: "lifetime_charged aid ?db = lifetime_charged aid db" for aid
    using summarized_moves [OF _ _ s u, where h = mt_charged and Q = "\<lambda>k. fst k = aid"
        and R = "\<lambda>q. qr_account q = aid" and jd = jd and cutoff = cutoff and now = now
        and start = start and v = settled_charge]
    by (simp add: lifetime_charged_eq charged_raw_def charged_old_def group_of_def)
  have n: "(case account_lifetime_usage aid ?db of None \<Rightarrow> 0 | Some (_, n) \<Rightarrow> n)
      = (case account_lifetime_usage aid db of None \<Rightarrow> 0 | Some (_, n) \<Rightarrow> n)" for aid
    unfolding count
    using summarized_moves [OF _ _ s u, where h = mt_requests and Q = "\<lambda>k. fst k = aid"
        and R = "\<lambda>q. qr_account q = aid" and jd = jd and cutoff = cutoff and now = now
        and start = start and v = "\<lambda>_. 1"]
    by (simp add: group_of_def)
  show "lifetime_charged aid ?db = lifetime_charged aid db" by (rule c)
  have "used_since_baseline aid ?db = used_since_baseline aid db" for aid
    by (simp add: used_since_baseline_def c)
  then show "usage p ?db = usage p db" unfolding usage_def c n by simp
qed

lemma funds_summarized:
  assumes "books_ok db" "summaries_ok db"
  shows "funds aid (summarized_db jd now cutoff start db) = funds aid db"
proof -
  have "outstanding aid (summarized_db jd now cutoff start db) = outstanding aid db"
    by (simp add: outstanding_def sum_where_filter)
      (rule sum_where_cong; auto simp: eligible_def)
  then show ?thesis
    using usage_summarized(1) [OF assms] by (simp add: funds_def balance_of_def)
qed

lemma limited_summarized [simp]:
  "limited aid (summarized_db jd now cutoff start db) = limited aid db"
  by (simp add: limited_def)

lemma find_upsert_period:
  "find_row up_window w (upsert_period p rows) =
     (if up_window p = w then Some p else find_row up_window w rows)"
proof -
  have old: "find_row up_window w (update_rows (\<lambda>x. up_window x = up_window p) (\<lambda>_. p) rows) =
      (if up_window p = w \<and> has_row up_window w rows then Some p else find_row up_window w rows)"
    by (induction rows) auto
  have new: "find_row up_window w (rows @ [p]) =
      (case find_row up_window w rows of Some x \<Rightarrow> Some x
       | None \<Rightarrow> if up_window p = w then Some p else None)"
    by (induction rows) auto
  show ?thesis
  proof (cases "has_row up_window (up_window p) rows")
    case True
    then show ?thesis unfolding upsert_period_def if_P [OF True] old by auto
  next
    case False
    then show ?thesis
      unfolding upsert_period_def if_not_P [OF False] new
      using find_row_None [of up_window w rows] by (auto split: option.splits)
  qed
qed

lemma upsert_period_unique:
  assumes "unique_on up_window rows"
  shows "unique_on up_window (upsert_period p rows)"
proof -
  have "map up_window (update_rows (\<lambda>x. up_window x = up_window p) (\<lambda>_. p) rows) = map up_window rows"
    by (rule map_update_rows) simp
  then show ?thesis using assms by (auto simp: upsert_period_def)
qed

lemma find_summarized_total:
  "find_row up_window TOTAL (db_periods (summarized_db jd now cutoff start db)) =
     Some \<lparr>up_window = TOTAL,
       up_start = (case find_row up_window TOTAL (db_periods db) of None \<Rightarrow> start | Some p \<Rightarrow> up_start p),
       up_end = cutoff, up_summarized_at = now,
       up_metrics = total_period db
         + sum_list (map ug_metrics (usage_groups jd (joined_rows (eligible cutoff) db)))\<rparr>"
  by (simp add: summarized_db_def Let_def find_upsert_period total_period_def)

lemma find_summarized_current:
  "find_row up_window CURRENT (db_periods (summarized_db jd now cutoff start db)) =
     Some \<lparr>up_window = CURRENT, up_start = cutoff, up_end = cutoff, up_summarized_at = now,
       up_metrics = 0\<rparr>"
  by (simp add: summarized_db_def Let_def find_upsert_period)

lemma summary_metrics_summarized:
  assumes "summaries_ok db"
  shows "summary_metrics (summarized_db jd now cutoff start db) =
    summary_metrics db + sum_list (map (joined_metrics jd) (joined_rows (eligible cutoff) db))"
  using assms summarized_sum [of "\<lambda>m. m" db "\<lambda>_. True" jd now cutoff start]
  by (simp add: summary_metrics_def summaries_ok_def)

lemma summaries_summarized:
  assumes "summaries_ok db"
  shows "summaries_ok (summarized_db jd now cutoff start db)" (is "summaries_ok ?db")
proof -
  have "total_period ?db = total_period db
      + sum_list (map ug_metrics (usage_groups jd (joined_rows (eligible cutoff) db)))"
    unfolding total_period_def [of ?db] find_summarized_total by simp
  moreover have "sum_list (map ug_metrics (usage_groups jd (joined_rows (eligible cutoff) db)))
      = sum_list (map (joined_metrics jd) (joined_rows (eligible cutoff) db))"
    using groups_sum [of "\<lambda>m. m" "\<lambda>_. True"] by simp
  ultimately have t: "total_period ?db = summary_metrics ?db"
    using assms summary_metrics_summarized [OF assms, of jd now cutoff start]
    by (simp add: summaries_ok_def)
  have "unique_on summary_key (filter (\<lambda>s. us_window s \<noteq> CURRENT) (db_summaries db))"
    using assms by (simp add: summaries_ok_def distinct_map_filter)
  from upsert_fold_sum [OF _ this, where h = mt_charged]
  have "unique_on summary_key (db_summaries ?db)" by (simp add: summarized_db_def Let_def)
  moreover have "unique_on up_window (db_periods ?db)"
    using assms by (simp add: summarized_db_def Let_def upsert_period_unique summaries_ok_def)
  ultimately show ?thesis using t by (simp add: summaries_ok_def)
qed

lemma settled_rows_ok:
  assumes "books_ok db"
  shows "settled_rows db = map (\<lambda>q. (q, find_row ir_reservation (qr_id q) (db_requests db)))
           (filter (\<lambda>q. qr_state q = SETTLED) (db_reservations db))"
proof -
  have "qr_model q \<in> mc_id ` set (db_models db)" if "q \<in> set (db_reservations db)" for q
    using assms that by (simp add: books_ok_def reservations_ok_def)
  then have "filter (\<lambda>q. qr_state q = SETTLED \<and> has_row mc_id (qr_model q) (db_models db))
      (db_reservations db) = filter (\<lambda>q. qr_state q = SETTLED) (db_reservations db)"
    by (intro filter_cong) auto
  then show ?thesis
    by (simp add: settled_rows_def joined_rows_single [OF unique_reservation_requests [OF assms]]
        filter_map comp_def)
qed

lemma find_row_filter:
  "(\<And>r. r \<in> set rows \<Longrightarrow> key r = k \<Longrightarrow> P r) \<Longrightarrow> find_row key k (filter P rows) = find_row key k rows"
  by (induction rows) auto

lemma raw_metrics_summarized:
  assumes "books_ok db"
  shows "raw_metrics jd (summarized_db jd now cutoff start db)
      + sum_list (map (joined_metrics jd) (joined_rows (eligible cutoff) db)) = raw_metrics jd db"
proof -
  let ?db = "summarized_db jd now cutoff start db"
  have u: "unique_on qr_id (db_reservations db)"
    using assms by (simp add: books_ok_def reservations_ok_def)
  let ?m = "\<lambda>q. joined_metrics jd (q, find_row ir_reservation (qr_id q) (db_requests db))"
  have same: "find_row ir_reservation (qr_id q) (db_requests ?db)
      = find_row ir_reservation (qr_id q) (db_requests db)"
    if "q \<in> set (db_reservations db)" "\<not> eligible cutoff q" for q
    using that kept_ids [OF u that(1), of cutoff] by (auto intro: find_row_filter)
  have "raw_metrics jd ?db = sum_where (\<lambda>q. \<not> eligible cutoff q \<and> qr_state q = SETTLED) ?m (db_reservations db)"
    unfolding raw_metrics_def settled_rows_ok [OF books_summarized [OF assms]] sum_where_def
    using same by (auto simp: comp_def conj_commute intro!: arg_cong [where f = sum_list])
  moreover have "raw_metrics jd db = sum_where (\<lambda>q. qr_state q = SETTLED) ?m (db_reservations db)"
    by (simp add: raw_metrics_def settled_rows_ok [OF assms] sum_where_def comp_def)
  moreover have "sum_list (map (joined_metrics jd) (joined_rows (eligible cutoff) db))
      = sum_where (\<lambda>q. eligible cutoff q \<and> qr_state q = SETTLED) ?m (db_reservations db)"
  proof -
    have "(\<lambda>q. eligible cutoff q \<and> qr_state q = SETTLED) = eligible cutoff"
      by (auto simp: fun_eq_iff eligible_settled)
    then show ?thesis
      by (simp add: joined_rows_single [OF unique_reservation_requests [OF assms]] sum_where_def comp_def)
  qed
  ultimately show ?thesis
    using sum_where_split [of "\<lambda>q. qr_state q = SETTLED" ?m "db_reservations db" "eligible cutoff"]
    by (simp add: add.commute)
qed

end
