(* ===== verification/StorageKeys.thy ===== *)
theory StorageKeys
  imports UsageSummary
begin

text \<open>
  API keys and quotas in \<^verbatim>\<open>src/src/llm_rio/storage.py\<close> (authentication, key selectors, creating,
  listing, revoking, restoring, rotating and deleting keys, changing and resetting quotas), and the
  two key routes of \<^verbatim>\<open>src/src/llm_rio/api/routes_admin.py\<close> that add checks of their own. The argon2
  hash and the encrypted copy of a secret are values given to the operations that store them.
\<close>

section \<open>Looking keys up\<close>

definition authenticate ::
  "(string \<Rightarrow> string \<Rightarrow> bool option) \<Rightarrow> datetime \<Rightarrow> string \<Rightarrow> string \<Rightarrow> database
     \<Rightarrow> principal option \<times> database" where
  "authenticate verify now prefix token db =
     (case find (\<lambda>k. ak_prefix k = prefix \<and> ak_active k) (db_keys db) of
        None \<Rightarrow> (None, db)
      | Some k \<Rightarrow>
          (case find_row qa_id (ak_account k) (db_accounts db) of
             None \<Rightarrow> (None, db)
           | Some a \<Rightarrow>
               if \<not> verify_api_key verify (ak_hash k) token then (None, db)
               else (Some \<lparr>pr_key_id = ak_id k, pr_nickname = ak_nickname k, pr_role = ak_role k,
                           pr_account = ak_account k, pr_unlimited = qa_unlimited a\<rparr>,
                     db\<lparr>db_keys := update_rows (\<lambda>x. ak_id x = ak_id k)
                          (\<lambda>x. x\<lparr>ak_last_used_at := Some now\<rparr>) (db_keys db)\<rparr>)))"

definition key_by_selector ::
  "(string \<Rightarrow> string \<Rightarrow> bool option) \<Rightarrow> bool \<Rightarrow> string \<Rightarrow> database \<Rightarrow> (string \<times> string) option" where
  "key_by_selector verify active_only selector db =
     (let visible = filter (\<lambda>k. ak_active k \<or> \<not> active_only) (db_keys db)
      in case find_row ak_nickname selector visible of
           Some k \<Rightarrow> Some (ak_id k, ak_nickname k)
         | None \<Rightarrow>
             if \<not> startswith ''rio_'' selector \<or> length selector < 24 then None
             else case find_row ak_prefix (take 24 selector) visible of
                    None \<Rightarrow> None
                  | Some k \<Rightarrow> if verify_api_key verify (ak_hash k) selector
                              then Some (ak_id k, ak_nickname k) else None)"

definition key_count :: "database \<Rightarrow> nat" where
  "key_count db = length (db_keys db)"

section \<open>Creating and listing keys\<close>

definition insert_or_ignore_account :: "account_row \<Rightarrow> database \<Rightarrow> database" where
  "insert_or_ignore_account a db =
     (if has_row qa_id (qa_id a) (db_accounts db)
         \<or> has_row qa_nickname (qa_nickname a) (db_accounts db)
         \<or> qa_balance a < 0 \<or> qa_limit a < 0
      then db else db\<lparr>db_accounts := db_accounts db @ [a]\<rparr>)"

definition insert_key :: "key_row \<Rightarrow> database \<Rightarrow> exn + database" where
  "insert_key k db =
     (if has_row ak_id (ak_id k) (db_keys db) \<or> has_row ak_nickname (ak_nickname k) (db_keys db)
         \<or> has_row ak_prefix (ak_prefix k) (db_keys db)
      then Inl (IntegrityError ''UNIQUE'')
      else if \<not> has_row qa_id (ak_account k) (db_accounts db)
      then Inl (IntegrityError ''FOREIGN KEY'')
      else Inr (db\<lparr>db_keys := db_keys db @ [k]\<rparr>))"

record key_spec =
  ks_id :: string
  ks_nickname :: string
  ks_role :: role
  ks_account :: string
  ks_account_nickname :: string
  ks_prefix :: string
  ks_hash :: string
  ks_encrypted :: string
  ks_limit :: int
  ks_unlimited :: bool

definition create_key :: "datetime \<Rightarrow> key_spec \<Rightarrow> database \<Rightarrow> exn + database" where
  "create_key now s db =
     (let unlimited = (ks_role s = ADMIN \<or> ks_unlimited s);
          db1 = insert_or_ignore_account
            \<lparr>qa_id = ks_account s, qa_nickname = ks_account_nickname s, qa_balance = ks_limit s,
             qa_limit = ks_limit s, qa_baseline = 0, qa_reset_at = None, qa_unlimited = unlimited,
             qa_created_at = now\<rparr> db;
          db2 = (if ks_role s = ADMIN
                 then db1\<lparr>db_accounts := update_rows (\<lambda>a. qa_id a = ks_account s)
                        (\<lambda>a. a\<lparr>qa_unlimited := True\<rparr>) (db_accounts db1)\<rparr>
                 else db1)
      in insert_key
           \<lparr>ak_id = ks_id s, ak_nickname = ks_nickname s, ak_role = ks_role s,
            ak_account = ks_account s, ak_prefix = ks_prefix s, ak_hash = ks_hash s,
            ak_encrypted = ks_encrypted s, ak_active = True, ak_created_at = now,
            ak_last_used_at = None\<rparr> db2)"

record key_listing =
  kl_key :: key_row
  kl_account :: account_row
  kl_api_key :: string
  kl_used :: int
  kl_lifetime :: int
  kl_key_lifetime :: int
  kl_settled :: int
  kl_granted :: "string list"

definition granted_models :: "string \<Rightarrow> database \<Rightarrow> model_row list" where
  "granted_models kid db =
     filter (\<lambda>m. (kid, mc_id m) \<in> (\<lambda>g. (mg_key g, mg_model g)) ` set (db_grants db)) (db_models db)"

definition list_key :: "(string \<Rightarrow> string) \<Rightarrow> database \<Rightarrow> key_row \<times> account_row \<Rightarrow> key_listing" where
  "list_key decrypt db x = (case x of (k, a) \<Rightarrow>
     \<lparr>kl_key = k, kl_account = a, kl_api_key = decrypt (ak_encrypted k),
      kl_used = max 0 (lifetime_charged (qa_id a) db - qa_baseline a),
      kl_lifetime = lifetime_charged (qa_id a) db,
      kl_key_lifetime = (case key_lifetime_usage (ak_id k) db of None \<Rightarrow> 0 | Some (c, _) \<Rightarrow> c),
      kl_settled = (case account_lifetime_usage (qa_id a) db of None \<Rightarrow> 0 | Some (_, n) \<Rightarrow> n),
      kl_granted = sort (map mc_nickname (granted_models (ak_id k) db))\<rparr>)"

definition list_keys :: "(string \<Rightarrow> string) \<Rightarrow> database \<Rightarrow> key_listing list" where
  "list_keys decrypt db =
     map (list_key decrypt db)
       (sort_key (\<lambda>(k, a). ak_nickname k)
         (List.map_filter (\<lambda>k. if like_deleted (ak_prefix k) then None
                          else map_option (Pair k) (find_row qa_id (ak_account k) (db_accounts db)))
           (db_keys db)))"

section \<open>Revoking, rotating and deleting\<close>

definition is_active_admin :: "key_row \<Rightarrow> bool" where
  "is_active_admin k \<longleftrightarrow> ak_role k = ADMIN \<and> ak_active k"

definition active_admins :: "database \<Rightarrow> nat" where
  "active_admins db = rowcount is_active_admin (db_keys db)"

definition last_admin_key :: "string \<Rightarrow> exn" where
  "last_admin_key msg = rio ''last_admin_key'' msg 409 []"

definition set_key_active :: "string \<Rightarrow> bool \<Rightarrow> database \<Rightarrow> exn + (bool \<times> database)" where
  "set_key_active kid active db =
     (case find_row ak_id kid (db_keys db) of
        None \<Rightarrow> Inr (False, db)
      | Some k \<Rightarrow>
          if active \<and> startswith ''deleted-'' (ak_prefix k) then Inr (False, db)
          else if \<not> active \<and> is_active_admin k \<and> active_admins db \<le> 1
          then Inl (last_admin_key
                 ''Create another administrator before revoking the last active admin key'')
          else Inr (True, db\<lparr>db_keys := update_rows (\<lambda>x. ak_id x = kid)
                              (\<lambda>x. x\<lparr>ak_active := active\<rparr>) (db_keys db)\<rparr>))"

definition replaceable :: "string \<Rightarrow> key_row \<Rightarrow> bool" where
  "replaceable kid k \<longleftrightarrow> ak_id k = kid \<and> \<not> like_deleted (ak_prefix k)"

definition replace_key_secret ::
  "string \<Rightarrow> string \<Rightarrow> string \<Rightarrow> string \<Rightarrow> database \<Rightarrow> exn + (bool \<times> database)" where
  "replace_key_secret kid prefix hash encrypted db =
     (if (\<exists>k \<in> set (db_keys db). replaceable kid k)
         \<and> (\<exists>k \<in> set (db_keys db). ak_id k \<noteq> kid \<and> ak_prefix k = prefix)
      then Inl (IntegrityError ''UNIQUE'')
      else Inr (0 < rowcount (replaceable kid) (db_keys db),
        db\<lparr>db_keys := update_rows (replaceable kid)
             (\<lambda>k. k\<lparr>ak_prefix := prefix, ak_hash := hash, ak_encrypted := encrypted,
                    ak_active := True\<rparr>) (db_keys db)\<rparr>))"

definition tombstone :: "string \<Rightarrow> string" where
  "tombstone kid = ''deleted-'' @ kid"

definition delete_key :: "string \<Rightarrow> string \<Rightarrow> database \<Rightarrow> exn + (bool \<times> database)" where
  "delete_key encrypted kid db =
     (case find_row ak_id kid (db_keys db) of
        None \<Rightarrow> Inr (False, db)
      | Some k \<Rightarrow>
          if is_active_admin k \<and> active_admins db \<le> 1
          then Inl (last_admin_key
                 ''Create another administrator before deleting the last active admin key'')
          else if \<exists>x \<in> set (db_keys db). ak_id x \<noteq> kid
                    \<and> (ak_nickname x = tombstone kid \<or> ak_prefix x = tombstone kid)
          then Inl (IntegrityError ''UNIQUE'')
          else Inr (True, db\<lparr>
            db_keys := update_rows (\<lambda>x. ak_id x = kid)
              (\<lambda>x. x\<lparr>ak_active := False, ak_nickname := tombstone kid, ak_prefix := tombstone kid,
                     ak_hash := tombstone kid, ak_encrypted := encrypted\<rparr>) (db_keys db),
            db_grants := filter (\<lambda>g. mg_key g \<noteq> kid) (db_grants db)\<rparr>))"

text \<open>The route \<open>rotate_key\<close>: the key must not be deleted; the new secret's prefix is derived from its id.\<close>

definition rotate_key ::
  "string \<Rightarrow> string \<Rightarrow> (string \<Rightarrow> string) \<Rightarrow> (string \<Rightarrow> string) \<Rightarrow> database
     \<Rightarrow> exn + (string option \<times> database)" where
  "rotate_key kid secret hash encrypt db =
     (case find (replaceable kid) (db_keys db) of
        None \<Rightarrow> Inr (None, db)
      | Some k \<Rightarrow>
          (case issue_api_key kid secret of (token, prefix) \<Rightarrow>
             and_then (replace_key_secret kid prefix (hash token) (encrypt token) db)
               (\<lambda>(_, db'). Inr (Some token, db'))))"

section \<open>Quotas\<close>

definition update_quota :: "string \<Rightarrow> int \<Rightarrow> bool \<Rightarrow> database \<Rightarrow> exn + (bool \<times> database)" where
  "update_quota kid limit unlimited db =
     (case find_row ak_id kid (db_keys db) of
        None \<Rightarrow> Inr (False, db)
      | Some k \<Rightarrow>
          if ak_role k = ADMIN \<and> \<not> unlimited
          then Inl (rio ''invalid_quota'' ''Admin keys must remain unlimited'' 409 [])
          else if limit < 0 \<and> has_row qa_id (ak_account k) (db_accounts db)
          then Inl (IntegrityError ''CHECK'')
          else let remaining = max 0 (limit - used_since_baseline (ak_account k) db)
            in Inr (True, db\<lparr>db_accounts := update_rows (\<lambda>a. qa_id a = ak_account k)
                 (\<lambda>a. a\<lparr>qa_balance := remaining, qa_limit := limit, qa_unlimited := unlimited\<rparr>)
                 (db_accounts db)\<rparr>))"

record reset_report =
  rr_account :: string
  rr_limit :: int
  rr_balance :: int
  rr_unlimited :: bool
  rr_used :: int
  rr_reset_at :: datetime

definition reset_usage :: "datetime \<Rightarrow> string \<Rightarrow> database \<Rightarrow> reset_report option \<times> database" where
  "reset_usage now kid db =
     (case Option.bind (find_row ak_id kid (db_keys db))
             (\<lambda>k. find_row qa_id (ak_account k) (db_accounts db)) of
        None \<Rightarrow> (None, db)
      | Some a \<Rightarrow>
          (Some \<lparr>rr_account = qa_id a, rr_limit = qa_limit a, rr_balance = qa_limit a,
                 rr_unlimited = qa_unlimited a, rr_used = 0, rr_reset_at = now\<rparr>,
           db\<lparr>db_accounts := update_rows (\<lambda>x. qa_id x = qa_id a)
                (\<lambda>x. x\<lparr>qa_balance := qa_limit x, qa_baseline := lifetime_charged (qa_id a) db,
                       qa_reset_at := Some now\<rparr>) (db_accounts db)\<rparr>))"

section \<open>The administration steps\<close>

inductive key_step :: "database \<Rightarrow> database \<Rightarrow> bool" where
  KAuth: "authenticate verify now prefix token db = (p, db') \<Longrightarrow> key_step db db'"
| KCreate: "create_key now s db = Inr db' \<Longrightarrow> key_step db db'"
| KActive: "set_key_active kid active db = Inr (b, db') \<Longrightarrow> key_step db db'"
| KReplace: "replace_key_secret kid prefix hash encrypted db = Inr (b, db') \<Longrightarrow> key_step db db'"
| KDelete: "delete_key encrypted kid db = Inr (b, db') \<Longrightarrow> key_step db db'"
| KQuota: "update_quota kid limit unlimited db = Inr (b, db') \<Longrightarrow> key_step db db'"
| KReset: "reset_usage now kid db = (res, db') \<Longrightarrow> key_step db db'"

definition keys_ok :: "database \<Rightarrow> bool" where
  "keys_ok db \<longleftrightarrow> unique_on ak_id (db_keys db)"

text \<open>What a step may do to the table of keys: change rows in place, or add one with a new id.\<close>

lemma rowcount_update_mono:
  assumes "\<And>r. r \<in> set rows \<Longrightarrow> P r \<Longrightarrow> Q r \<Longrightarrow> P (f r)"
  shows "rowcount P rows \<le> rowcount P (update_rows Q f rows)"
  using assms by (induction rows) (auto simp: rowcount_def)

lemma rowcount_update_le_one:
  assumes "unique_on key rows"
  shows "rowcount P rows \<le> rowcount P (update_rows (\<lambda>x. key x = k) f rows) + 1"
  using assms
proof (induction rows)
  case (Cons x xs)
  show ?case
  proof (cases "key x = k")
    case True
    have "\<forall>y \<in> set xs. key y \<noteq> k" using Cons.prems True by (auto simp: image_iff)
    then show ?thesis using True by (simp add: update_rows_none rowcount_def)
  next
    case False
    then show ?thesis using Cons by (simp add: rowcount_def)
  qed
qed (simp add: rowcount_def)

text \<open>Deactivating one key costs at most one active administrator, and only if it is one.\<close>

lemma rowcount_update_unaffected:
  assumes "unique_on key rows" "r \<in> set rows" "key r = k" "\<not> P r"
  shows "rowcount P rows \<le> rowcount P (update_rows (\<lambda>x. key x = k) f rows)"
proof (rule rowcount_update_mono)
  fix x assume "x \<in> set rows" "P x" "key x = k"
  moreover have "x = r" using unique_onD [OF assms(1)] calculation assms(2,3) by blast
  ultimately show "P (f x)" using assms(4) by simp
qed

lemma admins_update_mono:
  assumes "\<And>k. is_active_admin k \<Longrightarrow> Q k \<Longrightarrow> is_active_admin (f k)"
    and "Suc 0 \<le> rowcount is_active_admin rows"
  shows "Suc 0 \<le> rowcount is_active_admin (update_rows Q f rows)"
  using rowcount_update_mono [of rows is_active_admin Q f] assms by fastforce

lemma deactivate_admins:
  assumes "keys_ok db" "find_row ak_id kid (db_keys db) = Some k"
    and "\<not> (is_active_admin k \<and> active_admins db \<le> 1)" "1 \<le> active_admins db"
  shows "1 \<le> rowcount is_active_admin (update_rows (\<lambda>x. ak_id x = kid) f (db_keys db))"
proof (cases "is_active_admin k")
  case True
  then show ?thesis
    using assms rowcount_update_le_one [of ak_id "db_keys db" is_active_admin kid f]
    by (simp add: keys_ok_def active_admins_def)
next
  case False
  have "k \<in> set (db_keys db)" "ak_id k = kid" using find_row_key [OF assms(2)] by auto
  with False assms(1,4) show ?thesis
    using rowcount_update_unaffected [where key = ak_id and rows = "db_keys db" and r = k
        and k = kid and P = is_active_admin and f = f]
    by (simp add: keys_ok_def active_admins_def)
qed

lemma insert_key_keys:
  assumes "insert_key k db = Inr db'"
  shows "db_keys db' = db_keys db @ [k] \<and> ak_id k \<notin> ak_id ` set (db_keys db)"
  using assms by (auto simp: insert_key_def split: if_splits)

lemma create_key_keys:
  assumes "create_key now s db = Inr db'"
  shows "\<exists>k. db_keys db' = db_keys db @ [k] \<and> ak_id k = ks_id s \<and> ks_id s \<notin> ak_id ` set (db_keys db)
             \<and> ak_active k \<and> ak_role k = ks_role s \<and> ak_prefix k = ks_prefix s"
proof -
  have keys: "db_keys (if c then d\<lparr>db_accounts := x\<rparr> else d) = db_keys d" for c d x by simp
  have acc: "db_keys (insert_or_ignore_account a db) = db_keys db" for a
    by (simp add: insert_or_ignore_account_def)
  show ?thesis
    using insert_key_keys [OF assms [unfolded create_key_def Let_def]] unfolding keys acc by auto
qed

lemma key_step_admins:
  assumes "key_step db db'" "keys_ok db" "1 \<le> active_admins db"
  shows "keys_ok db' \<and> 1 \<le> active_admins db'"
  using assms
proof cases
  case (KAuth verify now prefix token p)
  then show ?thesis
    using assms(2,3)
    by (auto simp: authenticate_def keys_ok_def active_admins_def map_update_rows
        split: option.splits if_splits intro!: admins_update_mono)
      (simp_all add: is_active_admin_def)
next
  case (KCreate now s)
  then obtain k where "db_keys db' = db_keys db @ [k]" "ak_id k \<notin> ak_id ` set (db_keys db)"
    using create_key_keys [OF KCreate] by auto
  then show ?thesis using assms(2,3) by (auto simp: keys_ok_def active_admins_def rowcount_def)
next
  case (KActive kid active b)
  show ?thesis
  proof (cases active)
    case True
    then show ?thesis
      using KActive assms(2,3)
      by (auto simp: set_key_active_def keys_ok_def active_admins_def map_update_rows
          split: option.splits if_splits intro!: admins_update_mono)
        (simp_all add: is_active_admin_def)
  next
    case False
    then show ?thesis
      using KActive assms(2,3) deactivate_admins [OF assms(2) _ _ assms(3)]
      by (auto simp: set_key_active_def keys_ok_def active_admins_def map_update_rows
          split: option.splits if_splits)
  qed
next
  case (KReplace kid prefix hash encrypted b)
  have "is_active_admin (k\<lparr>ak_prefix := prefix, ak_hash := hash, ak_encrypted := encrypted,
      ak_active := True\<rparr>)" if "is_active_admin k" for k
    using that by (simp add: is_active_admin_def)
  then have "rowcount is_active_admin (db_keys db) \<le> rowcount is_active_admin
      (update_rows (replaceable kid) (\<lambda>k. k\<lparr>ak_prefix := prefix, ak_hash := hash,
        ak_encrypted := encrypted, ak_active := True\<rparr>) (db_keys db))"
    by (intro rowcount_update_mono)
  then show ?thesis using KReplace assms(2,3)
    by (auto simp: replace_key_secret_def keys_ok_def active_admins_def map_update_rows
        split: if_splits)
next
  case (KDelete encrypted kid b)
  then show ?thesis
    using assms(2,3) deactivate_admins [OF assms(2) _ _ assms(3)]
    by (auto simp: delete_key_def keys_ok_def active_admins_def map_update_rows
        split: option.splits if_splits)
next
  case (KQuota kid limit unlimited b)
  then have "db_keys db' = db_keys db"
    by (auto simp: update_quota_def Let_def split: option.splits if_splits)
  then show ?thesis using assms(2,3) by (simp add: keys_ok_def active_admins_def)
next
  case (KReset now kid res)
  then have "db_keys db' = db_keys db" by (auto simp: reset_usage_def split: option.splits)
  then show ?thesis using assms(2,3) by (simp add: keys_ok_def active_admins_def)
qed


section \<open>Deleted keys\<close>

lemma startswith_like_deleted: "startswith ''deleted-'' p \<Longrightarrow> like_deleted p"
proof -
  have "map ascii_lower ''deleted-'' = ''deleted-''" by code_simp
  then show "startswith ''deleted-'' p \<Longrightarrow> like_deleted p"
    by (simp add: startswith_def like_deleted_def numeral_eq_Suc)
qed

text \<open>The id's row is there, inactive, with the tombstone's prefix.\<close>

definition dead_row :: "key_row \<Rightarrow> bool" where
  "dead_row k \<longleftrightarrow> \<not> ak_active k \<and> startswith ''deleted-'' (ak_prefix k)"

definition dead_key :: "string \<Rightarrow> database \<Rightarrow> bool" where
  "dead_key kid db \<longleftrightarrow> kid \<in> ak_id ` set (db_keys db)
     \<and> (\<forall>k \<in> set (db_keys db). ak_id k = kid \<longrightarrow> dead_row k)"

lemma dead_key_update:
  assumes "dead_key kid db" "db_keys db' = update_rows P f (db_keys db)"
    and "\<And>k. ak_id (f k) = ak_id k"
    and "\<And>k. k \<in> set (db_keys db) \<Longrightarrow> ak_id k = kid \<Longrightarrow> P k \<Longrightarrow> dead_row k \<Longrightarrow> dead_row (f k)"
  shows "dead_key kid db'"
proof -
  have "ak_id ` set (db_keys db') = ak_id ` set (db_keys db)"
    unfolding assms(2) by (rule image_update_rows) (rule assms(3))
  moreover have "dead_row k" if "k \<in> set (db_keys db')" "ak_id k = kid" for k
    using that assms(1,3,4) unfolding assms(2) set_update_rows
    by (auto simp: dead_key_def split: if_splits)
  ultimately show ?thesis using assms(1) by (simp add: dead_key_def)
qed

lemma key_step_dead:
  assumes "key_step db db'" "dead_key kid db"
  shows "dead_key kid db'"
  using assms
proof cases
  case (KAuth verify now prefix token p)
  show ?thesis
  proof (cases "db' = db")
    case False
    then have "db_keys db' = update_rows (\<lambda>x. ak_id x = pr_key_id (the p))
        (\<lambda>x. x\<lparr>ak_last_used_at := Some now\<rparr>) (db_keys db)"
      using KAuth by (auto simp: authenticate_def split: option.splits if_splits)
    then show ?thesis by (rule dead_key_update [OF assms(2)]) (auto simp: dead_row_def)
  qed (use assms(2) in simp)
next
  case (KCreate now s)
  obtain k where "db_keys db' = db_keys db @ [k]" "ak_id k \<notin> ak_id ` set (db_keys db)"
    using create_key_keys [OF KCreate] by auto
  then show ?thesis using assms(2) by (auto simp: dead_key_def)
next
  case (KActive k active b)
  show ?thesis
  proof (cases "db' = db")
    case False
    obtain r where r: "find_row ak_id k (db_keys db) = Some r"
      using KActive False by (auto simp: set_key_active_def split: option.splits)
    have keys: "db_keys db' = update_rows (\<lambda>x. ak_id x = k) (\<lambda>x. x\<lparr>ak_active := active\<rparr>) (db_keys db)"
      and no: "\<not> (active \<and> startswith ''deleted-'' (ak_prefix r))"
      using KActive False r by (auto simp: set_key_active_def split: if_splits)
    have "k = kid \<Longrightarrow> \<not> active"
      using no assms(2) find_row_key [OF r] by (auto simp: dead_key_def dead_row_def)
    then show ?thesis
      by (intro dead_key_update [OF assms(2) keys]) (auto simp: dead_row_def)
  qed (use assms(2) in simp)
next
  case (KReplace k prefix hash encrypted b)
  then have "db_keys db' = update_rows (replaceable k) (\<lambda>k. k\<lparr>ak_prefix := prefix, ak_hash := hash,
      ak_encrypted := encrypted, ak_active := True\<rparr>) (db_keys db)"
    by (auto simp: replace_key_secret_def split: if_splits)
  then show ?thesis
    by (rule dead_key_update [OF assms(2)])
      (auto simp: dead_row_def replaceable_def dest: startswith_like_deleted)
next
  case (KDelete encrypted k b)
  show ?thesis
  proof (cases "db' = db")
    case False
    then have "db_keys db' = update_rows (\<lambda>x. ak_id x = k)
        (\<lambda>x. x\<lparr>ak_active := False, ak_nickname := tombstone k, ak_prefix := tombstone k,
               ak_hash := tombstone k, ak_encrypted := encrypted\<rparr>) (db_keys db)"
      using KDelete by (auto simp: delete_key_def split: option.splits if_splits)
    then show ?thesis
      by (rule dead_key_update [OF assms(2)])
        (auto simp: dead_row_def tombstone_def startswith_def)
  qed (use assms(2) in simp)
next
  case (KQuota k limit unlimited b)
  then have "db_keys db' = db_keys db"
    by (auto simp: update_quota_def Let_def split: option.splits if_splits)
  then show ?thesis using assms(2) by (simp add: dead_key_def)
next
  case (KReset now k res)
  then have "db_keys db' = db_keys db" by (auto simp: reset_usage_def split: option.splits)
  then show ?thesis using assms(2) by (simp add: dead_key_def)
qed

lemma tombstone_dead:
  "dead_row (k\<lparr>ak_active := False, ak_nickname := n, ak_prefix := tombstone kid, ak_hash := h,
     ak_encrypted := e\<rparr>)"
  by (simp add: dead_row_def tombstone_def startswith_def)

lemma delete_makes_dead:
  assumes "delete_key encrypted kid db = Inr (True, db')"
  shows "dead_key kid db'"
proof -
  obtain k where k: "find_row ak_id kid (db_keys db) = Some k"
    using assms by (auto simp: delete_key_def split: option.splits)
  then have "db_keys db' = update_rows (\<lambda>x. ak_id x = kid)
        (\<lambda>x. x\<lparr>ak_active := False, ak_nickname := tombstone kid, ak_prefix := tombstone kid,
               ak_hash := tombstone kid, ak_encrypted := encrypted\<rparr>) (db_keys db)"
    using assms by (auto simp: delete_key_def split: if_splits)
  then have keys: "db_keys db' = update_rows (\<lambda>x. ak_id x = kid)
        (\<lambda>x. x\<lparr>ak_active := False, ak_nickname := tombstone kid, ak_prefix := tombstone kid,
               ak_hash := tombstone kid, ak_encrypted := encrypted\<rparr>) (db_keys db)" .
  have "ak_id ` set (db_keys db') = ak_id ` set (db_keys db)"
    unfolding keys by (rule image_update_rows) simp
  moreover have "kid \<in> ak_id ` set (db_keys db)" using find_row_key [OF k] by blast
  moreover have "\<forall>r \<in> set (db_keys db'). ak_id r = kid \<longrightarrow> dead_row r"
    unfolding keys set_update_rows by (simp add: tombstone_dead ball_Un)
  ultimately show ?thesis by (simp add: dead_key_def)
qed

lemma dead_key_rejected:
  assumes "dead_key kid db" "authenticate verify now prefix token db = (Some p, db')"
  shows "pr_key_id p \<noteq> kid"
proof -
  obtain k where "find (\<lambda>k. ak_prefix k = prefix \<and> ak_active k) (db_keys db) = Some k"
      "pr_key_id p = ak_id k"
    using assms(2) by (auto simp: authenticate_def split: option.splits if_splits)
  then have "k \<in> set (db_keys db)" "ak_active k" using find_SomeD by metis+
  then show ?thesis using assms(1) \<open>pr_key_id p = ak_id k\<close> by (auto simp: dead_key_def dead_row_def)
qed

end
