(* ===== verification/StorageModels.thy ===== *)
theory StorageModels
  imports StorageKeys
begin

text \<open>
  The model catalog in \<^verbatim>\<open>src/src/llm_rio/storage.py\<close>: registration jobs, request defaults, listing,
  grants, the service mode, the machine fingerprint and the event log; and the creation of a key
  with grants by \<^verbatim>\<open>src/src/llm_rio/api/routes_admin.py\<close>. JSON columns hold the decoded values.
\<close>

section \<open>Registration jobs\<close>

definition insert_model :: "model_row \<Rightarrow> database \<Rightarrow> exn + database" where
  "insert_model m db =
     (if has_row mc_id (mc_id m) (db_models db) \<or> has_row mc_nickname (mc_nickname m) (db_models db)
      then Inl (IntegrityError ''UNIQUE'')
      else if \<not> has_row ak_id (mc_created_by m) (db_keys db)
      then Inl (IntegrityError ''FOREIGN KEY'')
      else Inr (db\<lparr>db_models := db_models db @ [m]\<rparr>))"

definition create_model_job ::
  "string \<Rightarrow> string \<Rightarrow> datetime \<Rightarrow> string \<Rightarrow> string \<Rightarrow> string option \<Rightarrow> string \<Rightarrow> string list
     \<Rightarrow> database \<Rightarrow> exn + ((string \<times> string) \<times> database)" where
  "create_model_job model_id job_id now nickname repo revision creator grants db =
     (let existing = ak_id ` set (filter (\<lambda>k. ak_active k \<and> ak_id k \<in> set grants) (db_keys db));
          missing = sort (remdups (filter (\<lambda>g. g \<notin> existing) grants))
      in if grants \<noteq> [] \<and> missing \<noteq> []
         then Inl (rio ''grant_key_not_found''
                ''One or more requested grant keys do not exist or are inactive'' 404
                [(''missing_key_ids'', JList (map JStr missing))])
         else and_then
           (insert_model
             \<lparr>mc_id = model_id, mc_nickname = nickname, mc_repo = repo,
              mc_requested_revision = revision, mc_resolved_revision = None, mc_state = REQUESTED,
              mc_artifact_path = None, mc_artifact_hashes = [], mc_capabilities = [],
              mc_request_limits = [], mc_request_defaults = [], mc_source_model = None,
              mc_created_by = creator, mc_created_at = now, mc_updated_at = now\<rparr> db)
           (\<lambda>db1.
             if has_row mj_id job_id (db_jobs db1) then Inl (IntegrityError ''UNIQUE'')
             else Inr ((model_id, job_id), db1\<lparr>db_jobs := db_jobs db1 @
               [\<lparr>mj_id = job_id, mj_model = model_id, mj_state = ''QUEUED'', mj_stage = ''resolve'',
                 mj_progress = [], mj_failure = None, mj_grants = grants, mj_created_at = now,
                 mj_updated_at = now\<rparr>]\<rparr>)))"

record job_update =
  ju_state :: string
  ju_stage :: string
  ju_catalog :: catalog_state
  ju_progress :: "(string, json) dict option"
  ju_failure :: "(string, json) dict option"
  ju_revision :: "string option"
  ju_artifact :: "string option"
  ju_capabilities :: "string list option"

definition or_keep :: "'a option \<Rightarrow> 'a \<Rightarrow> 'a" where
  "or_keep v old = (case v of None \<Rightarrow> old | Some x \<Rightarrow> x)"

definition update_model_job :: "datetime \<Rightarrow> string \<Rightarrow> job_update \<Rightarrow> database \<Rightarrow> exn + database" where
  "update_model_job now job_id u db =
     (case find_row mj_id job_id (db_jobs db) of
        None \<Rightarrow> Inl (KeyError job_id)
      | Some j \<Rightarrow> Inr (db\<lparr>
          db_jobs := update_rows (\<lambda>x. mj_id x = job_id)
            (\<lambda>x. x\<lparr>mj_state := ju_state u, mj_stage := ju_stage u,
                   mj_progress := or_keep (ju_progress u) [],
                   mj_failure := (case ju_failure u of Some [] \<Rightarrow> None | f \<Rightarrow> f),
                   mj_updated_at := now\<rparr>) (db_jobs db),
          db_models := update_rows (\<lambda>m. mc_id m = mj_model j)
            (\<lambda>m. m\<lparr>mc_state := ju_catalog u, mc_updated_at := now,
                   mc_resolved_revision :=
                     (case ju_revision u of None \<Rightarrow> mc_resolved_revision m | r \<Rightarrow> r),
                   mc_artifact_path :=
                     (case ju_artifact u of None \<Rightarrow> mc_artifact_path m | p \<Rightarrow> p),
                   mc_capabilities := or_keep (ju_capabilities u) (mc_capabilities m)\<rparr>)
            (db_models db)\<rparr>))"

definition get_model_job :: "string \<Rightarrow> database \<Rightarrow> (job_row \<times> model_row) option" where
  "get_model_job job_id db =
     Option.bind (find_row mj_id job_id (db_jobs db)) (\<lambda>j.
       map_option (Pair j) (find_row mc_id (mj_model j) (db_models db)))"

section \<open>The catalog\<close>

definition model_by_nickname :: "string \<Rightarrow> database \<Rightarrow> model_row option" where
  "model_by_nickname name db = find_row mc_nickname name (db_models db)"

definition model_by_id :: "string \<Rightarrow> database \<Rightarrow> model_row option" where
  "model_by_id mid db = find_row mc_id mid (db_models db)"

text \<open>\<open>None\<close> removes a default, a value sets it.\<close>

definition apply_default :: "string \<times> json option \<Rightarrow> (string, json) dict \<Rightarrow> (string, json) dict" where
  "apply_default u d = (case snd u of
     None \<Rightarrow> AList.delete (fst u) d | Some v \<Rightarrow> AList.update (fst u) v d)"

definition update_model_request_defaults ::
  "datetime \<Rightarrow> string \<Rightarrow> (string \<times> json option) list \<Rightarrow> database \<Rightarrow> model_row option \<times> database" where
  "update_model_request_defaults now mid updates db =
     (case find_row mc_id mid (db_models db) of
        None \<Rightarrow> (None, db)
      | Some m \<Rightarrow>
          let db' = db\<lparr>db_models := update_rows (\<lambda>x. mc_id x = mid)
                (\<lambda>x. x\<lparr>mc_request_defaults := fold apply_default updates (mc_request_defaults m),
                       mc_updated_at := now\<rparr>) (db_models db)\<rparr>
          in (model_by_id mid db', db'))"

definition list_models :: "string option \<Rightarrow> database \<Rightarrow> model_row list" where
  "list_models kid db =
     sort_key mc_nickname
       (case kid of
          None \<Rightarrow> db_models db
        | Some k \<Rightarrow> filter (\<lambda>m. mc_state m = AVAILABLE) (granted_models k db))"

text \<open>With the newest registration job of each model (latest creation, then largest id).\<close>

definition newest_job :: "string \<Rightarrow> database \<Rightarrow> job_row option" where
  "newest_job mid db =
     (case filter (\<lambda>j. mj_model j = mid) (db_jobs db) of
        [] \<Rightarrow> None
      | j # js \<Rightarrow> Some (fold (\<lambda>x best. if (mj_created_at best, mj_id best) < (mj_created_at x, mj_id x)
                                    then x else best) js j))"

definition list_models_with_jobs :: "database \<Rightarrow> (model_row \<times> job_row option) list" where
  "list_models_with_jobs db = map (\<lambda>m. (m, newest_job (mc_id m) db)) (list_models None db)"

definition disable_model :: "datetime \<Rightarrow> string \<Rightarrow> database \<Rightarrow> bool \<times> database" where
  "disable_model now mid db =
     (has_row mc_id mid (db_models db),
      db\<lparr>db_models := update_rows (\<lambda>m. mc_id m = mid)
           (\<lambda>m. m\<lparr>mc_state := DISABLED, mc_updated_at := now\<rparr>) (db_models db)\<rparr>)"

section \<open>Grants\<close>

definition has_model_grant :: "string \<Rightarrow> string \<Rightarrow> database \<Rightarrow> bool" where
  "has_model_grant kid mid db \<longleftrightarrow> (\<exists>g \<in> set (db_grants db). mg_key g = kid \<and> mg_model g = mid)"

text \<open>\<open>executemany\<close>: the inserts one after another, each with its constraints.\<close>

fun insert_grants :: "datetime \<Rightarrow> string \<Rightarrow> string list \<Rightarrow> database \<Rightarrow> exn + database" where
  "insert_grants now kid [] db = Inr db"
| "insert_grants now kid (mid # mids) db =
     (if has_model_grant kid mid db then Inl (IntegrityError ''UNIQUE'')
      else if \<not> has_row mc_id mid (db_models db) \<or> \<not> has_row ak_id kid (db_keys db)
      then Inl (IntegrityError ''FOREIGN KEY'')
      else insert_grants now kid mids
        (db\<lparr>db_grants := db_grants db @ [\<lparr>mg_key = kid, mg_model = mid, mg_created_at = now\<rparr>]\<rparr>))"

definition drop_grants :: "string \<Rightarrow> database \<Rightarrow> database" where
  "drop_grants kid db = db\<lparr>db_grants := filter (\<lambda>g. mg_key g \<noteq> kid) (db_grants db)\<rparr>"

definition replace_model_grants :: "datetime \<Rightarrow> string \<Rightarrow> string list \<Rightarrow> database \<Rightarrow> exn + database" where
  "replace_model_grants now kid mids db =
     (if \<not> has_row ak_id kid (db_keys db) then Inl (KeyError kid)
      else insert_grants now kid mids (drop_grants kid db))"

datatype access_mode = ACC_ADD | ACC_REMOVE | ACC_REPLACE

text \<open>
  \<open>update_model_access\<close>: names in no particular order (the code's sets), the models of the three
  modes as dictionaries from nickname to id, and the sorted names that are granted afterwards.
\<close>

definition desired_models ::
  "access_mode \<Rightarrow> string list \<Rightarrow> (string, string) dict \<Rightarrow> (string, string) dict \<Rightarrow> (string, string) dict" where
  "desired_models mode requested existing by_name =
     (case mode of
        ACC_ADD \<Rightarrow> fold (\<lambda>(n, i). AList.update n i) by_name existing
      | ACC_REMOVE \<Rightarrow> filter (\<lambda>(n, i). n \<notin> set requested) existing
      | ACC_REPLACE \<Rightarrow> by_name)"

definition named_models :: "model_row list \<Rightarrow> (string, string) dict" where
  "named_models ms = map (\<lambda>m. (mc_nickname m, mc_id m)) ms"

definition update_model_access ::
  "datetime \<Rightarrow> string \<Rightarrow> string list \<Rightarrow> access_mode \<Rightarrow> database \<Rightarrow> exn + (string list \<times> database)" where
  "update_model_access now kid requested mode db =
     (if \<not> (\<exists>k \<in> set (db_keys db). ak_id k = kid \<and> ak_active k) then Inl (KeyError kid)
      else let by_name = named_models (filter (\<lambda>m. mc_nickname m \<in> set requested) (db_models db));
               missing = sort (remdups (filter (\<lambda>n. n \<notin> set (keys by_name)) requested))
        in if missing \<noteq> []
           then Inl (rio ''model_not_found'' ''One or more model nicknames do not exist'' 404
                  [(''missing_models'', JList (map JStr missing))])
           else let desired = desired_models mode requested
                                (named_models (granted_models kid db)) by_name
             in and_then (insert_grants now kid (vals desired) (drop_grants kid db))
                  (\<lambda>db'. Inr (sort (keys desired), db')))"

section \<open>Service state and events\<close>

definition record_runtime_event ::
  "datetime \<Rightarrow> string \<Rightarrow> string option \<Rightarrow> (string, json) dict \<Rightarrow> database \<Rightarrow> database" where
  "record_runtime_event now kind entity payload db =
     db\<lparr>db_events := db_events db @
       [\<lparr>ev_type = kind, ev_entity = entity, ev_payload = payload, ev_created_at = now\<rparr>]\<rparr>"

fun mode_name :: "service_mode \<Rightarrow> string" where
  "mode_name ACTIVE = ''ACTIVE''"
| "mode_name MODE_DRAINING = ''DRAINING''"
| "mode_name MAINTENANCE_READY = ''MAINTENANCE_READY''"

definition service_mode_of :: "database \<Rightarrow> service_mode" where
  "service_mode_of db = sv_mode (db_service db)"

definition set_service_mode :: "datetime \<Rightarrow> service_mode \<Rightarrow> database \<Rightarrow> database" where
  "set_service_mode now mode db =
     record_runtime_event now ''SERVICE_MODE_CHANGED'' None [(''mode'', JStr (mode_name mode))]
       (db\<lparr>db_service := (db_service db)\<lparr>sv_mode := mode, sv_updated_at := now\<rparr>\<rparr>)"

text \<open>A new fingerprint makes the profiles measured on another machine inactive.\<close>

definition set_machine_fingerprint ::
  "datetime \<Rightarrow> string \<Rightarrow> database \<Rightarrow> string option \<times> database" where
  "set_machine_fingerprint now fp db =
     (let previous = sv_fingerprint (db_service db);
          changed = (case previous of None \<Rightarrow> False | Some p \<Rightarrow> p \<noteq> [] \<and> p \<noteq> fp);
          db1 = (if changed
                 then db\<lparr>db_profiles := update_rows (\<lambda>p. mp_fingerprint p \<noteq> fp)
                        (\<lambda>p. p\<lparr>mp_active := False\<rparr>) (db_profiles db)\<rparr>
                 else db)
      in (previous, db1\<lparr>db_service := (db_service db1)\<lparr>sv_fingerprint := Some fp, sv_updated_at := now\<rparr>\<rparr>))"

section \<open>The route that creates a key\<close>

record new_key_request =
  nk_nickname :: string
  nk_role :: role
  nk_account :: "string option"
  nk_account_nickname :: "string option"
  nk_limit :: "int option"
  nk_models :: "string list"
  nk_api_key :: "string option"

text \<open>
  \<open>_create_key\<close>: \<open>key_id\<close>, \<open>account_id\<close> and \<open>secret\<close> are fresh. The grants are a second
  transaction: when it fails the key stays.
\<close>

definition admin_create_key ::
  "string \<Rightarrow> string \<Rightarrow> string \<Rightarrow> (string \<Rightarrow> string) \<Rightarrow> (string \<Rightarrow> string) \<Rightarrow> datetime
     \<Rightarrow> new_key_request \<Rightarrow> database \<Rightarrow> (exn + (string \<times> string)) \<times> database" where
  "admin_create_key key_id account_id secret hash encrypt now body db =
     (let missing = sort (remdups (filter (\<lambda>n. n \<notin> mc_nickname ` set (db_models db)) (nk_models body)))
      in if missing \<noteq> []
         then (Inl (rio ''model_not_found'' ''One or more model nicknames do not exist'' 404
                 [(''missing_models'', JList (map JStr missing))]), db)
         else
           let account_name = (case nk_account_nickname body of
                 Some n \<Rightarrow> if n = [] then nk_nickname body else n
               | None \<Rightarrow> nk_nickname body);
               account = (case nk_account body of
                 None \<Rightarrow> Inr (account_id, account_name)
               | Some a \<Rightarrow>
                   if a = [] then Inr (account_id, account_name)
                   else (case find_row qa_id a (db_accounts db) of
                           None \<Rightarrow> Inl (rio ''account_not_found'' ''Quota account was not found'' 404 [])
                         | Some r \<Rightarrow> Inr (qa_id r, qa_nickname r)));
               secret_of = (case nk_api_key body of
                   None \<Rightarrow> Inr (issue_api_key key_id secret)
                 | Some t \<Rightarrow> and_then (token_prefix t) (\<lambda>p. Inr (t, p)))
           in case and_then account (\<lambda>acc. and_then secret_of (\<lambda>sec. Inr (acc, sec))) of
                Inl e \<Rightarrow> (Inl e, db)
              | Inr ((aid, aname), (token, prefix)) \<Rightarrow>
                  (case create_key now
                     \<lparr>ks_id = key_id, ks_nickname = nk_nickname body, ks_role = nk_role body,
                      ks_account = aid, ks_account_nickname = aname, ks_prefix = prefix,
                      ks_hash = hash token, ks_encrypted = encrypt token,
                      ks_limit = (case nk_limit body of None \<Rightarrow> 0 | Some n \<Rightarrow> n),
                      ks_unlimited = (nk_limit body = None)\<rparr> db of
                     Inl e \<Rightarrow> (Inl e, db)
                   | Inr db1 \<Rightarrow>
                       if nk_models body = [] then (Inr (key_id, token), db1)
                       else (case update_model_access now key_id (nk_models body) ACC_REPLACE db1 of
                               Inl e \<Rightarrow> (Inl e, db1)
                             | Inr (_, db2) \<Rightarrow> (Inr (key_id, token), db2))))"


section \<open>Grants: lemmas\<close>

definition catalog_ok :: "database \<Rightarrow> bool" where
  "catalog_ok db \<longleftrightarrow> unique_on mc_id (db_models db) \<and> unique_on mc_nickname (db_models db)"

lemma insert_grants_Inr:
  assumes "distinct mids" "set mids \<subseteq> mc_id ` set (db_models db)" "kid \<in> ak_id ` set (db_keys db)"
    and "\<forall>m \<in> set mids. \<not> has_model_grant kid m db"
  shows "insert_grants now kid mids db = Inr (db\<lparr>db_grants := db_grants db @
           map (\<lambda>m. \<lparr>mg_key = kid, mg_model = m, mg_created_at = now\<rparr>) mids\<rparr>)"
  using assms
proof (induction mids arbitrary: db)
  case (Cons m mids)
  let ?db = "db\<lparr>db_grants := db_grants db @ [\<lparr>mg_key = kid, mg_model = m, mg_created_at = now\<rparr>]\<rparr>"
  have "insert_grants now kid mids ?db = Inr (?db\<lparr>db_grants := db_grants ?db @
           map (\<lambda>m. \<lparr>mg_key = kid, mg_model = m, mg_created_at = now\<rparr>) mids\<rparr>)"
    using Cons.prems by (intro Cons.IH) (auto simp: has_model_grant_def)
  then show ?case using Cons.prems by simp
qed simp

lemma no_grant_after_drop [simp]: "\<not> has_model_grant kid m (drop_grants kid db)"
  by (simp add: has_model_grant_def drop_grants_def)

lemma named_functional:
  assumes "catalog_ok db" "(n, i) \<in> set (named_models (db_models db))"
    "(n', i') \<in> set (named_models (db_models db))"
  shows "n = n' \<longleftrightarrow> i = i'"
proof -
  have u: "unique_on mc_id (db_models db)" "unique_on mc_nickname (db_models db)"
    using assms(1) by (simp_all add: catalog_ok_def)
  obtain m m' where m: "m \<in> set (db_models db)" "m' \<in> set (db_models db)" "n = mc_nickname m"
      "i = mc_id m" "n' = mc_nickname m'" "i' = mc_id m'"
    using assms(2,3) by (auto simp: named_models_def)
  show ?thesis using unique_onD [OF u(1) m(1,2)] unique_onD [OF u(2) m(1,2)] m by auto
qed

lemma merge_named:
  assumes "catalog_ok db" "set us \<subseteq> set (named_models (db_models db))"
    "set d \<subseteq> set (named_models (db_models db))" "distinct (keys d)"
  shows "distinct (keys (fold (\<lambda>(n, i). AList.update n i) us d))
       \<and> set (fold (\<lambda>(n, i). AList.update n i) us d) = set us \<union> set d"
  using assms(2-)
proof (induction us arbitrary: d)
  case (Cons u us)
  obtain n i where u: "u = (n, i)" by force
  have one: "set (AList.update n i d) = insert (n, i) (set d)"
  proof (cases "n \<in> set (keys d)")
    case True
    then obtain j where j: "(n, j) \<in> set d" by auto
    then have "j = i" using named_functional [OF assms(1), of n j n i] Cons.prems u by auto
    then have "map_of d n = Some i" using j Cons.prems(3) by simp
    then have "AList.update n i d = d"
      by (induction d) (auto split: if_splits)
    then show ?thesis using j \<open>j = i\<close> by auto
  next
    case False
    then show ?thesis by (simp add: update_absent)
  qed
  have "distinct (keys (AList.update n i d))" using Cons.prems by (simp add: distinct_update)
  then show ?case using Cons.IH [of "AList.update n i d"] Cons.prems one u by auto
qed simp

lemma named_models_filter:
  "catalog_ok db \<Longrightarrow> distinct (keys (named_models (filter P (db_models db))))"
  by (simp add: catalog_ok_def named_models_def comp_def distinct_map_filter)

lemma granted_models_set:
  "set (granted_models kid db) = {m \<in> set (db_models db). has_model_grant kid (mc_id m) db}"
  by (auto simp: granted_models_def has_model_grant_def image_iff)

lemma desired_ok:
  fixes kid :: string and requested :: "string list"
  assumes "catalog_ok db"
  defines "existing \<equiv> named_models (granted_models kid db)"
    and "by_name \<equiv> named_models (filter (\<lambda>m. mc_nickname m \<in> set requested) (db_models db))"
  shows "distinct (keys (desired_models mode requested existing by_name))"
    and "set (desired_models mode requested existing by_name) =
      {x \<in> set (named_models (db_models db)). case mode of
          ACC_ADD \<Rightarrow> x \<in> set existing \<or> fst x \<in> set requested
        | ACC_REMOVE \<Rightarrow> x \<in> set existing \<and> fst x \<notin> set requested
        | ACC_REPLACE \<Rightarrow> fst x \<in> set requested}"
proof -
  have sub: "set existing \<subseteq> set (named_models (db_models db))"
    "set by_name = {x \<in> set (named_models (db_models db)). fst x \<in> set requested}"
    by (auto simp: existing_def by_name_def named_models_def granted_models_def)
  have dist: "distinct (keys existing)" "distinct (keys by_name)"
    using named_models_filter [OF assms(1)] by (simp_all add: existing_def by_name_def granted_models_def)
  have "set by_name \<subseteq> set (named_models (db_models db))" using sub(2) by auto
  note merged = merge_named [OF assms(1) this sub(1) dist(1)]
  show "distinct (keys (desired_models mode requested existing by_name))"
    using merged dist by (cases mode) (auto simp: desired_models_def distinct_map_filter)
  show "set (desired_models mode requested existing by_name) =
      {x \<in> set (named_models (db_models db)). case mode of
          ACC_ADD \<Rightarrow> x \<in> set existing \<or> fst x \<in> set requested
        | ACC_REMOVE \<Rightarrow> x \<in> set existing \<and> fst x \<notin> set requested
        | ACC_REPLACE \<Rightarrow> fst x \<in> set requested}"
    using merged sub by (cases mode) (auto simp: desired_models_def)
qed

end
