(* ===== verification/Billing.thy ===== *)
theory Billing
  imports UsageSummary
begin

text \<open>
  The accounting as a whole: the step relation of the operations that requests, the restart and
  the usage summary run (\<^verbatim>\<open>src/src/llm_rio/storage.py\<close>, \<^verbatim>\<open>src/src/llm_rio/usage_summary.py\<close>), the
  interface that the request handlers rely on when they settle, and the properties of both.
\<close>

section \<open>The interface of a settlement\<close>

text \<open>
  What a handler may rely on when several of its paths settle the same reservation: a settlement
  ends the hold, it leaves other holds alone, and it does nothing to a reservation that is no
  longer held.
\<close>

locale settlement =
  fixes ok :: "'db \<Rightarrow> bool"
    and held :: "string \<Rightarrow> 'db \<Rightarrow> bool"
    and settle :: "string \<Rightarrow> 'how \<Rightarrow> 'db \<Rightarrow> 'db"
  assumes settle_ok: "ok db \<Longrightarrow> ok (settle rid how db)"
    and settle_held: "ok db \<Longrightarrow> held r (settle rid how db) \<longleftrightarrow> held r db \<and> r \<noteq> rid"
    and settle_inert: "ok db \<Longrightarrow> \<not> held rid db \<Longrightarrow> settle rid how db = db"
begin

definition settle_all :: "string \<Rightarrow> 'how list \<Rightarrow> 'db \<Rightarrow> 'db" where
  "settle_all rid hows db = fold (settle rid) hows db"

lemma settle_all_inert: "ok db \<Longrightarrow> \<not> held rid db \<Longrightarrow> settle_all rid hows db = db"
  by (induction hows) (simp_all add: settle_all_def settle_inert)

lemma first_settlement_wins:
  assumes "ok db"
  shows "fold (settle rid) (how # hows) db = settle rid how db"
  using settle_all_inert [of "settle rid how db" rid hows] assms
  by (simp add: settle_all_def settle_ok settle_held)

lemma settled_stays:
  assumes "ok db" "\<not> held rid db"
  shows "\<not> held rid (fold (\<lambda>(r, how). settle r how) moves db)"
  using assms by (induction moves arbitrary: db) (auto simp: settle_ok settle_held)

end

text \<open>How a handler settles: the ledger id, the time, the tokens, and the error code.\<close>

record settle_args =
  sa_ledger_id :: string
  sa_now :: datetime
  sa_actual :: int
  sa_prompt :: "int option"
  sa_completion :: "int option"
  sa_error :: "string option"

definition is_held :: "string \<Rightarrow> database \<Rightarrow> bool" where
  "is_held rid db \<longleftrightarrow> rid \<in> qr_id ` set (filter (\<lambda>r. qr_state r = RESERVED) (db_reservations db))"

definition settle_with :: "string \<Rightarrow> settle_args \<Rightarrow> database \<Rightarrow> database" where
  "settle_with rid a db =
     (case settle_quota (sa_ledger_id a) (sa_now a) rid (sa_actual a) (sa_prompt a)
             (sa_completion a) (sa_error a) db of
        Inl _ \<Rightarrow> db
      | Inr db' \<Rightarrow> db')"

lemma is_held_iff: "is_held rid db \<longleftrightarrow> rid \<in> qr_id ` {r \<in> set (db_reservations db). qr_state r = RESERVED}"
  by (simp add: is_held_def)

lemma settle_with_cases:
  assumes "books_ok db"
  obtains (skip) "settle_with rid a db = db" "\<not> is_held rid db"
  | (held) r where "r \<in> set (db_reservations db)" "qr_id r = rid" "qr_state r = RESERVED"
      "settle_with rid a db = settled_db (sa_ledger_id a) (sa_now a) r (charge_of (sa_actual a) r)
          (sa_prompt a) (sa_completion a) (sa_error a) db"
proof -
  have ok: "accounts_ok db" "reservations_ok db" using assms by (simp_all add: books_ok_def)
  from ok show thesis
  proof (cases rule: settle_cases [of db rid])
    case skip
    then show thesis by (intro that(1)) (auto simp: settle_with_def is_held_def)
  next
    case (held r)
    then show thesis by (intro that(2) [of r]) (auto simp: settle_with_def)
  qed
qed

interpretation quota: settlement books_ok is_held settle_with
proof
  fix db rid and how :: settle_args
  assume ok: "books_ok db"
  from ok show "books_ok (settle_with rid how db)"
    by (cases rule: settle_with_cases [of db rid how]) (auto simp: books_settled ok)
  show "is_held r (settle_with rid how db) \<longleftrightarrow> is_held r db \<and> r \<noteq> rid" for r
    using ok
  proof (cases rule: settle_with_cases [of db rid how])
    case (held x)
    have u: "unique_on qr_id (db_reservations db)"
      using ok by (simp add: books_ok_def reservations_ok_def)
    show ?thesis
      using held_ids_settled [OF u held(1,3)] held(2,4) by (simp add: is_held_iff)
  qed auto
  show "settle_with rid how db = db" if "\<not> is_held rid db"
    using ok
  proof (cases rule: settle_with_cases [of db rid how])
    case (held r)
    then have "is_held rid db" by (auto simp: is_held_def)
    with that show ?thesis by simp
  qed
qed

section \<open>Recovery\<close>

lemma request_ok_jobs [simp]: "request_ok (db\<lparr>db_workers := ws, db_jobs := js\<rparr>) = request_ok db"
  by (simp add: fun_eq_iff request_ok_def)

lemma books_jobs [simp]: "books_ok (db\<lparr>db_workers := ws, db_jobs := js\<rparr>) = books_ok db"
  by (simp add: books_ok_def accounts_ok_def reservations_ok_def ledger_ok_def requests_ok_def)

lemma funds_jobs [simp]:
  "funds aid (db\<lparr>db_workers := ws, db_jobs := js\<rparr>) = funds aid db"
  "limited aid (db\<lparr>db_workers := ws, db_jobs := js\<rparr>) = limited aid db"
  "lifetime_charged aid (db\<lparr>db_workers := ws, db_jobs := js\<rparr>) = lifetime_charged aid db"
  by (simp_all add: funds_eq balance_of_def lifetime_charged_eq charged_raw_def charged_old_def limited_def)

lemma recover_total:
  assumes "books_ok db"
  obtains db' where "recover_orphaned_state lid now db = Inr db'" "books_ok db'"
    "\<And>aid. limited aid db \<Longrightarrow> limited aid db' \<and> funds aid db' = funds aid db"
    "\<And>aid. lifetime_charged aid db' = lifetime_charged aid db"
    "\<And>r. r \<in> set (db_reservations db') \<Longrightarrow> qr_state r \<noteq> RESERVED"
proof (rule release_all_total [OF assms, of lid now "reserved_ids db"])
  fix db1
  assume db1: "release_all lid now (reserved_ids db) db = Inr db1" "books_ok db1"
    "\<And>aid. limited aid db \<Longrightarrow> limited aid db1 \<and> funds aid db1 = funds aid db"
    "\<And>aid. lifetime_charged aid db1 = lifetime_charged aid db"
    "qr_id ` {r \<in> set (db_reservations db1). qr_state r = RESERVED}
       = qr_id ` {r \<in> set (db_reservations db). qr_state r = RESERVED} - set (reserved_ids db)"
  have "set (reserved_ids db) = qr_id ` {r \<in> set (db_reservations db). qr_state r = RESERVED}"
    by (auto simp: reserved_ids_def)
  then have none: "qr_state r \<noteq> RESERVED" if "r \<in> set (db_reservations db1)" for r
    using that db1(5) by auto
  have "\<exists>ws js. recover_orphaned_state lid now db = Inr (db1\<lparr>db_workers := ws, db_jobs := js\<rparr>)"
    unfolding recover_orphaned_state_def db1(1) and_then.simps by (intro exI) (rule refl)
  then obtain ws js
    where eq: "recover_orphaned_state lid now db = Inr (db1\<lparr>db_workers := ws, db_jobs := js\<rparr>)"
    by blast
  show thesis by (rule that [OF eq]) (simp_all add: db1(2,3,4) none)
qed


section \<open>The steps of the accounting\<close>

definition store_ok :: "database \<Rightarrow> bool" where
  "store_ok db \<longleftrightarrow> books_ok db \<and> summaries_ok db"

inductive billing_step :: "database \<Rightarrow> database \<Rightarrow> bool" where
  BReserve: "reserve_quota rid lid now rq h p m n db = Inr (x, db') \<Longrightarrow> billing_step db db'"
| BCreate: "(rid, rq) \<in> (\<lambda>r. (qr_id r, qr_request r)) ` set (db_reservations db) \<Longrightarrow>
    create_inference_request now rq p m rid n t c db = Inr db' \<Longrightarrow> billing_step db db'"
| BAdmit: "billing_step db (snd (mark_request_admitted now rq w db))"
| BSettle: "settle_quota lid now rid actual prompt completion err db = Inr db' \<Longrightarrow>
    billing_step db db'"
| BRecover: "recover_orphaned_state lids now db = Inr db' \<Longrightarrow> billing_step db db'"
| BSummarize: "summarize_usage_records jd now aware cutoff db = Inr (res, db') \<Longrightarrow>
    billing_step db db'"

lemma summaries_untouched:
  assumes "db_summaries db' = db_summaries db" "db_periods db' = db_periods db"
  shows "summaries_ok db' = summaries_ok db"
  using assms by (simp add: summaries_ok_def total_period_def summary_metrics_def)

lemma reserve_summaries:
  assumes "reserve_quota rid lid now rq h p m n db = Inr (x, db')"
  shows "db_summaries db' = db_summaries db \<and> db_periods db' = db_periods db"
  using assms by (cases rule: reserve_cases) (simp_all add: reserved_db_def)

lemma settle_summaries:
  assumes "books_ok db" "settle_quota lid now rid actual p k e db = Inr db'"
  shows "db_summaries db' = db_summaries db \<and> db_periods db' = db_periods db"
proof -
  have ok: "accounts_ok db" "reservations_ok db" using assms by (simp_all add: books_ok_def)
  from ok show ?thesis
    by (cases rule: settle_cases [of db rid]) (use assms(2) in auto)
qed

lemma release_all_summaries:
  assumes "books_ok db" "release_all lid now rids db = Inr db'"
  shows "db_summaries db' = db_summaries db \<and> db_periods db' = db_periods db"
  using assms
proof (induction rids arbitrary: db)
  case (Cons rid rids)
  then obtain db1 where "settle_quota (lid rid) now rid 0 None None (Some ''service_restarted'') db = Inr db1"
      "release_all lid now rids db1 = Inr db'"
    by (auto simp: release_reservation_def and_then_Inr)
  then show ?case
    using Cons.IH [of db1] settle_books [OF Cons.prems(1)] settle_summaries [OF Cons.prems(1)] by metis
qed simp

lemma recover_summaries:
  assumes "books_ok db" "recover_orphaned_state lid now db = Inr db'"
  shows "db_summaries db' = db_summaries db \<and> db_periods db' = db_periods db"
proof -
  obtain db1 where r: "release_all lid now (reserved_ids db) db = Inr db1"
      and s: "db_summaries db' = db_summaries db1" "db_periods db' = db_periods db1"
    using assms(2) unfolding recover_orphaned_state_def and_then_Inr by (elim exE conjE) auto
  show ?thesis using release_all_summaries [OF assms(1) r] s by simp
qed

text \<open>Every step keeps the tables consistent and the funds of a limited account.\<close>

lemma billing_step_keeps:
  assumes "billing_step db db'" "store_ok db"
  shows "store_ok db' \<and> (limited aid db \<longrightarrow> limited aid db' \<and> funds aid db' = funds aid db)"
  using assms
proof cases
  case (BReserve rid lid now rq h p m n x)
  then show ?thesis
    using assms(2) books_reserve [OF _ BReserve] reserve_funds [OF BReserve]
      reserve_summaries [OF BReserve] summaries_untouched [of db' db]
    by (auto simp: store_ok_def)
next
  case (BCreate rid rq now p m n t c)
  have "\<exists>rs. db' = db\<lparr>db_requests := rs\<rparr>"
    using BCreate(2) by (auto simp: create_inference_request_def split: if_splits)
      (metis database.surjective database.update_convs(9))
  then obtain rs where "db' = db\<lparr>db_requests := rs\<rparr>" ..
  then show ?thesis
    using assms(2) books_create [OF _ BCreate] summaries_untouched [of db' db]
    by (auto simp: store_ok_def funds_eq balance_of_def charged_old_def limited_def)
next
  case (BAdmit now rq w)
  then show ?thesis
    using assms(2) books_admit [of db now rq w] summaries_untouched [of db' db]
    by (auto simp: store_ok_def funds_eq balance_of_def charged_old_def limited_def
        mark_request_admitted_def)
next
  case (BSettle lid now rid actual prompt completion err)
  then show ?thesis
    using assms(2) settle_books [OF _ BSettle] settle_funds [OF _ BSettle]
      settle_summaries [OF _ BSettle] summaries_untouched [of db' db]
    by (auto simp: store_ok_def)
next
  case (BRecover lids now)
  have b: "books_ok db" using assms(2) by (simp add: store_ok_def)
  from b obtain d where "recover_orphaned_state lids now db = Inr d" "books_ok d"
      "limited aid db \<Longrightarrow> limited aid d \<and> funds aid d = funds aid db"
    by (rule recover_total [where lid = lids and now = now]) blast
  then show ?thesis
    using BRecover assms(2) recover_summaries [OF b BRecover] summaries_untouched [of db' db]
    by (auto simp: store_ok_def)
next
  case (BSummarize jd now aware cutoff res)
  then show ?thesis
    using assms(2)
    by (elim summarize_cases) (auto simp: store_ok_def books_summarized summaries_summarized
        funds_summarized)
qed

lemma billing_run_keeps:
  assumes "billing_step\<^sup>*\<^sup>* db db'" "store_ok db"
  shows "store_ok db' \<and> (limited aid db \<longrightarrow> limited aid db' \<and> funds aid db' = funds aid db)"
  using assms
proof (induction rule: rtranclp_induct)
  case (step y z)
  then show ?case using billing_step_keeps [OF step.hyps(2), of aid] by auto
qed simp

section \<open>A small database\<close>

definition demo_principal :: principal where
  "demo_principal = \<lparr>pr_key_id = ''k'', pr_nickname = ''alice'', pr_role = USER, pr_account = ''a'',
     pr_unlimited = False\<rparr>"

definition demo_account :: account_row where
  "demo_account = \<lparr>qa_id = ''a'', qa_nickname = ''lab'', qa_balance = 100, qa_limit = 100,
     qa_baseline = 0, qa_reset_at = None, qa_unlimited = False, qa_created_at = 0\<rparr>"

definition demo_key :: key_row where
  "demo_key = \<lparr>ak_id = ''k'', ak_nickname = ''alice'', ak_role = USER, ak_account = ''a'',
     ak_prefix = ''rio_k'', ak_hash = ''h'', ak_encrypted = ''e'', ak_active = True,
     ak_created_at = 0, ak_last_used_at = None\<rparr>"

definition demo_model :: model_row where
  "demo_model = \<lparr>mc_id = ''m'', mc_nickname = ''tiny'', mc_repo = ''org/tiny'',
     mc_requested_revision = None, mc_resolved_revision = None, mc_state = AVAILABLE,
     mc_artifact_path = None, mc_artifact_hashes = [], mc_capabilities = [],
     mc_request_limits = [], mc_request_defaults = [], mc_source_model = None,
     mc_created_by = ''k'', mc_created_at = 0, mc_updated_at = 0\<rparr>"

definition demo_db :: database where
  "demo_db = (empty_database 0)\<lparr>db_accounts := [demo_account], db_keys := [demo_key],
     db_models := [demo_model]\<rparr>"

text \<open>The same database with one reservation of 40 tokens that is held, and its request.\<close>

definition demo_reserved :: database where
  "demo_reserved =
     (case and_then (reserve_quota ''r1'' ''l1'' 5 ''q1'' ''h1'' demo_principal ''m'' 40 demo_db)
        (\<lambda>(rid, db). create_inference_request 5 ''q1'' demo_principal ''m'' rid 40 None None db) of
        Inl _ \<Rightarrow> demo_db
      | Inr db \<Rightarrow> db)"

definition demo_settle :: settle_args where
  "demo_settle = \<lparr>sa_ledger_id = ''l2'', sa_now = 9, sa_actual = 25, sa_prompt = Some 15,
     sa_completion = Some 10, sa_error = None\<rparr>"

lemma demo_store_ok: "store_ok demo_db" "store_ok demo_reserved"
  by code_simp+

definition demo_jd :: "datetime \<Rightarrow> rat" where
  "demo_jd t = of_int t / 86400000000"

lemma demo_limited: "limited ''a'' demo_reserved"
  by code_simp

section \<open>Properties\<close>

text \<open>
  C1: Credit is conserved. Whatever sequence of reservations, requests, admissions, settlements,
  restarts and usage summaries runs, an account with a limit keeps the sum of its balance, of the
  tokens its held reservations took, and of the tokens it was ever charged; its balance and its
  held tokens stay non-negative, so it is never charged more than that sum.
\<close>

theorem credit_is_conserved:
  assumes "billing_step\<^sup>*\<^sup>* db db'" "store_ok db" "limited aid db"
  shows "balance_of aid db' + outstanding aid db' + lifetime_charged aid db'
           = balance_of aid db + outstanding aid db + lifetime_charged aid db
       \<and> 0 \<le> balance_of aid db' \<and> 0 \<le> outstanding aid db'"
proof -
  have ok: "accounts_ok db'" "reservations_ok db'" and f: "funds aid db' = funds aid db"
    using billing_run_keeps [OF assms(1,2), of aid] assms(3)
    by (simp_all add: store_ok_def books_ok_def)
  have "0 \<le> balance_of aid db'"
  proof (cases "find_row qa_id aid (db_accounts db')")
    case (Some a)
    then show ?thesis using ok(1) find_row_key [OF Some] by (simp add: balance_of_def accounts_ok_def)
  qed (simp add: balance_of_def)
  moreover have "0 \<le> outstanding aid db'"
    using ok(2) unfolding outstanding_def
    by (intro sum_where_nonneg) (simp add: reservations_ok_def reservation_ok_def)
  ultimately show ?thesis using f by (simp add: funds_def)
qed

theorem credit_is_conserved_witness:
  "balance_of ''a'' (settle_with ''r1'' demo_settle demo_reserved) = 75
   \<and> balance_of ''a'' (settle_with ''r1'' demo_settle demo_reserved)
     + outstanding ''a'' (settle_with ''r1'' demo_settle demo_reserved)
     + lifetime_charged ''a'' (settle_with ''r1'' demo_settle demo_reserved) = 100"
proof -
  have "billing_step demo_reserved (settle_with ''r1'' demo_settle demo_reserved)"
    by (rule BSettle [of "''l2''" 9 "''r1''" 25 "Some 15" "Some 10" None]) code_simp
  then have "billing_step\<^sup>*\<^sup>* demo_reserved (settle_with ''r1'' demo_settle demo_reserved)" by blast
  from credit_is_conserved [OF this demo_store_ok(2), of "''a''"]
  have "balance_of ''a'' (settle_with ''r1'' demo_settle demo_reserved)
     + outstanding ''a'' (settle_with ''r1'' demo_settle demo_reserved)
     + lifetime_charged ''a'' (settle_with ''r1'' demo_settle demo_reserved)
     = balance_of ''a'' demo_reserved + outstanding ''a'' demo_reserved
       + lifetime_charged ''a'' demo_reserved"
    using demo_limited by simp
  moreover have "balance_of ''a'' demo_reserved + outstanding ''a'' demo_reserved
       + lifetime_charged ''a'' demo_reserved = 100" by code_simp
  moreover have "balance_of ''a'' (settle_with ''r1'' demo_settle demo_reserved) = 75" by code_simp
  ultimately show ?thesis by simp
qed


text \<open>
  C20: Every request is accounted for once. In every reachable state a request was accepted by a
  worker at most once and completed at most once, and while its reservation is held it is not
  completed; it belongs to the reservation that was made for it, and to no other request's.
\<close>

theorem request_counted_once:
  assumes "billing_step\<^sup>*\<^sup>* db db'" "store_ok db"
    and "i \<in> set (db_requests db')"
  shows "ir_accepted i \<le> 1 \<and> ir_completions i \<le> 1
       \<and> (if is_held (ir_reservation i) db' then ir_completions i = 0 else True)
       \<and> distinct (map ir_reservation (db_requests db'))"
proof -
  have b: "books_ok db'" using billing_run_keeps [OF assms(1,2)] by (simp add: store_ok_def)
  then have "request_ok db' i" using assms(3) by (simp add: books_ok_def requests_ok_def)
  then show ?thesis
    using unique_reservation_requests [OF b] by (simp add: request_ok_def is_held_iff)
qed

theorem request_counted_once_witness:
  "map ir_completions (db_requests (settle_with ''r1'' demo_settle demo_reserved)) = [1]
   \<and> ir_completions (hd (db_requests (settle_with ''r1'' demo_settle demo_reserved))) \<le> 1"
proof -
  have "billing_step demo_reserved (settle_with ''r1'' demo_settle demo_reserved)"
    by (rule BSettle [of "''l2''" 9 "''r1''" 25 "Some 15" "Some 10" None]) code_simp
  then have "billing_step\<^sup>*\<^sup>* demo_reserved (settle_with ''r1'' demo_settle demo_reserved)" by blast
  note once = request_counted_once [OF this demo_store_ok(2)]
  have m: "map ir_completions (db_requests (settle_with ''r1'' demo_settle demo_reserved)) = [1]"
    by code_simp
  then have "hd (db_requests (settle_with ''r1'' demo_settle demo_reserved))
      \<in> set (db_requests (settle_with ''r1'' demo_settle demo_reserved))"
    by (intro hd_in_set) auto
  from once [OF this] m show ?thesis by simp
qed

text \<open>
  C9: A reservation is charged once, whichever of the handlers' paths gets there first: of any
  sequence of settlements and releases of a held reservation the first one decides. It charges
  what was used, but never less than nothing nor more than what was reserved.
\<close>

theorem first_settlement_decides:
  assumes "books_ok db" "r \<in> set (db_reservations db)" "qr_state r = RESERVED"
  shows "fold (settle_with (qr_id r)) (a # rest) db = settle_with (qr_id r) a db
       \<and> find_row qr_id (qr_id r) (db_reservations (fold (settle_with (qr_id r)) (a # rest) db))
           = Some (settle_row (sa_now a) (min (max 0 (sa_actual a)) (qr_reserved r)) r)"
proof -
  have ok: "accounts_ok db" "reservations_ok db" using assms by (simp_all add: books_ok_def)
  have u: "unique_on qr_id (db_reservations db)" using ok by (simp add: reservations_ok_def)
  have one: "settle_with (qr_id r) a db = settled_db (sa_ledger_id a) (sa_now a) r
      (charge_of (sa_actual a) r) (sa_prompt a) (sa_completion a) (sa_error a) db"
    using settle_held [OF ok assms(2,3)] by (simp add: settle_with_def)
  have first: "fold (settle_with (qr_id r)) (a # rest) db = settle_with (qr_id r) a db"
    using quota.first_settlement_wins [OF assms(1)] .
  show ?thesis
    unfolding first one settled_reservations [OF u assms(2,3)]
    using find_row_unique [OF u assms(2)]
    by (simp add: find_update_rows charge_of_def)
qed

theorem first_settlement_decides_witness:
  "balance_of ''a'' (fold (settle_with ''r1'')
     [demo_settle, demo_settle\<lparr>sa_actual := 0, sa_error := Some ''late''\<rparr>] demo_reserved) = 75"
proof -
  have r: "\<exists>r. db_reservations demo_reserved = [r] \<and> qr_id r = ''r1'' \<and> qr_state r = RESERVED"
  proof -
    have "map qr_id (db_reservations demo_reserved) = [''r1'']" by code_simp
    moreover have "map qr_state (db_reservations demo_reserved) = [RESERVED]" by code_simp
    ultimately show ?thesis by (cases "db_reservations demo_reserved") auto
  qed
  then obtain r where r: "r \<in> set (db_reservations demo_reserved)" "qr_id r = ''r1''"
      "qr_state r = RESERVED"
    by auto
  have b: "books_ok demo_reserved" using demo_store_ok(2) by (simp add: store_ok_def)
  from first_settlement_decides [OF b r(1,3), of demo_settle
      "[demo_settle\<lparr>sa_actual := 0, sa_error := Some ''late''\<rparr>]"]
  have "fold (settle_with ''r1'') [demo_settle, demo_settle\<lparr>sa_actual := 0, sa_error := Some ''late''\<rparr>]
      demo_reserved = settle_with ''r1'' demo_settle demo_reserved"
    unfolding r(2) by blast
  moreover have "balance_of ''a'' (settle_with ''r1'' demo_settle demo_reserved) = 75" by code_simp
  ultimately show ?thesis by simp
qed

text \<open>
  A retry is free. Once a reservation was granted, the same request with the same
  idempotency key gets the same reservation and changes nothing, and another request with that
  key is refused; this is so in every later state in which the reservation is still recorded.
\<close>

theorem reserve_retry_is_free:
  assumes "books_ok db'" "r \<in> set (db_reservations db')"
    and "qr_key r = pr_key_id p" "qr_hash r = h"
  shows "reserve_quota rid lid now (qr_request r) h p m n db' = Inr (qr_id r, db')
       \<and> (if rq = qr_request r then True
          else exn_code (projl (reserve_quota rid lid now rq h p m n db')) = ''idempotency_conflict'')"
proof -
  have u: "unique_on (\<lambda>x. (qr_key x, qr_hash x)) (db_reservations db')"
    using assms(1) by (simp add: books_ok_def reservations_ok_def)
  have "find_row (\<lambda>x. (qr_key x, qr_hash x)) (pr_key_id p, h) (db_reservations db') = Some r"
    using find_row_unique [OF u assms(2)] assms(3,4) by simp
  then show ?thesis by (simp add: reserve_quota_def)
qed

theorem reserve_retry_is_free_witness:
  "reserve_quota ''r9'' ''l9'' 7 ''q1'' ''h1'' demo_principal ''m'' 40 demo_reserved
     = Inr (''r1'', demo_reserved)"
proof -
  have "map qr_id (db_reservations demo_reserved) = [''r1'']"
    "map (\<lambda>r. (qr_key r, qr_hash r, qr_request r)) (db_reservations demo_reserved)
       = [(''k'', ''h1'', ''q1'')]"
    by code_simp+
  then obtain r where r: "r \<in> set (db_reservations demo_reserved)" "qr_id r = ''r1''"
      "qr_key r = ''k''" "qr_hash r = ''h1''" "qr_request r = ''q1''"
    by (cases "db_reservations demo_reserved") auto
  have b: "books_ok demo_reserved" using demo_store_ok(2) by (simp add: store_ok_def)
  have "qr_key r = pr_key_id demo_principal" using r by (simp add: demo_principal_def)
  from reserve_retry_is_free [OF b r(1) this r(4), of "''r9''" "''l9''" 7 "''m''" 40]
  show ?thesis using r by simp
qed

text \<open>
  C22: Recovery after a restart always succeeds, leaves no reservation held, and gives every
  account with a limit back exactly what its held reservations took: nothing is charged.
\<close>

theorem recovery_refunds_held_credit:
  assumes "books_ok db"
  shows "case recover_orphaned_state lid now db of
           Inl _ \<Rightarrow> False
         | Inr db' \<Rightarrow> reserved_ids db' = [] \<and> lifetime_charged aid db' = lifetime_charged aid db
             \<and> (if limited aid db then balance_of aid db' = balance_of aid db + outstanding aid db
                else True)"
proof (rule recover_total [OF assms, of lid now])
  fix db'
  assume r: "recover_orphaned_state lid now db = Inr db'"
    and f: "\<And>aid. limited aid db \<Longrightarrow> limited aid db' \<and> funds aid db' = funds aid db"
    and c: "\<And>aid. lifetime_charged aid db' = lifetime_charged aid db"
    and none: "\<And>r. r \<in> set (db_reservations db') \<Longrightarrow> qr_state r \<noteq> RESERVED"
  have "outstanding aid db' = 0" unfolding outstanding_def
    by (rule sum_where_none) (use none in blast)
  moreover have "reserved_ids db' = []"
    unfolding reserved_ids_def map_is_Nil_conv filter_empty_conv using none by blast
  ultimately show ?thesis using f [of aid] c [of aid] by (simp add: r funds_def)
qed

theorem recovery_refunds_held_credit_witness:
  "case recover_orphaned_state (\<lambda>r. ''x'' @ r) 20 demo_reserved of
     Inl _ \<Rightarrow> False
   | Inr db' \<Rightarrow> balance_of ''a'' db' = 100"
proof -
  have b: "books_ok demo_reserved" using demo_store_ok(2) by (simp add: store_ok_def)
  have "balance_of ''a'' demo_reserved + outstanding ''a'' demo_reserved = 100" by code_simp
  then show ?thesis
    using recovery_refunds_held_credit [OF b, where lid = "\<lambda>r. ''x'' @ r" and now = 20 and aid = "''a''"] demo_limited
    by (cases "recover_orphaned_state (\<lambda>r. ''x'' @ r) 20 demo_reserved") simp_all
qed

text \<open>
  A settlement is in the ledger: with a fresh ledger id, settling changes the balance of
  every account by exactly the sum of the ledger rows it writes for it, and so does reserving.
\<close>

theorem ledger_follows_balance:
  assumes "books_ok db" "lid \<notin> ql_id ` set (db_ledger db)"
  shows "(case settle_quota lid now rid actual prompt completion err db of
           Inl _ \<Rightarrow> False
         | Inr db' \<Rightarrow> balance_of aid db' - balance_of aid db
                     = ledger_total aid db' - ledger_total aid db)
       \<and> (case reserve_quota rid lid now rq h p m n db of
           Inl _ \<Rightarrow> True
         | Inr (_, db') \<Rightarrow> balance_of aid db' - balance_of aid db
                     = ledger_total aid db' - ledger_total aid db)"
proof
  obtain db' where s: "settle_quota lid now rid actual prompt completion err db = Inr db'"
    using settle_total [OF assms(1)] by blast
  show "case settle_quota lid now rid actual prompt completion err db of
           Inl _ \<Rightarrow> False
         | Inr db' \<Rightarrow> balance_of aid db' - balance_of aid db
                     = ledger_total aid db' - ledger_total aid db"
    using settle_ledger [OF assms(1) s assms(2), of aid] by (simp add: s)
next
  show "case reserve_quota rid lid now rq h p m n db of
           Inl _ \<Rightarrow> True
         | Inr (_, db') \<Rightarrow> balance_of aid db' - balance_of aid db
                     = ledger_total aid db' - ledger_total aid db"
  proof (cases "reserve_quota rid lid now rq h p m n db")
    case (Inr y)
    obtain x db' where "y = (x, db')" by force
    then show ?thesis using reserve_ledger [of rid lid now rq h p m n db x db' aid] Inr by simp
  qed simp
qed

theorem ledger_follows_balance_witness:
  "(case settle_quota ''l2'' 9 ''r1'' 25 None None None demo_reserved of
      Inl _ \<Rightarrow> False
    | Inr db' \<Rightarrow> ledger_total ''a'' db' - ledger_total ''a'' demo_reserved
               = balance_of ''a'' db' - balance_of ''a'' demo_reserved)
   \<and> ledger_total ''a'' demo_reserved = - 40"
proof -
  have b: "books_ok demo_reserved" using demo_store_ok(2) by (simp add: store_ok_def)
  have f: "''l2'' \<notin> ql_id ` set (db_ledger demo_reserved)" by code_simp
  have "ledger_total ''a'' demo_reserved = - 40" by code_simp
  then show ?thesis
    using ledger_follows_balance [OF b f, where now = 9 and rid = "''r1''" and actual = 25
        and prompt = None and completion = None and err = None and aid = "''a''"]
    by (auto split: sum.splits)
qed

lemma unique_filter_find:
  assumes "unique_on key rows" "find_row key k rows = Some r" "f r = x"
  shows "map f (filter (\<lambda>r. key r = k) rows) = [x]"
  using assms
proof (induction rows)
  case (Cons y ys)
  show ?case
  proof (cases "key y = k")
    case True
    then have "filter (\<lambda>r. key r = k) ys = []"
      using Cons.prems(1) by (auto simp: filter_empty_conv image_iff)
    then show ?thesis using True Cons.prems by simp
  next
    case False
    then show ?thesis using Cons by simp
  qed
qed simp

text \<open>
  C21: Summarizing changes no report. A successful summary removes exactly the reservations
  that were settled up to the cutoff, which advanced, and moves what they add up to into the
  lifetime rows: every principal's usage report and every metric of the dashboard's lifetime
  window are what they were.
\<close>

theorem summary_changes_no_report:
  assumes "store_ok db" "summarize_usage_records jd now aware cutoff db = Inr (res, db')"
  shows "usage p db' = usage p db
       \<and> wp_metrics (da_total (usage_dashboard jd t db')) = wp_metrics (da_total (usage_dashboard jd t db))
       \<and> wp_token_usage (da_total (usage_dashboard jd t db'))
           = wp_token_usage (da_total (usage_dashboard jd t db))
       \<and> db_reservations db' = filter (\<lambda>q. \<not> eligible cutoff q) (db_reservations db)
       \<and> map up_end (filter (\<lambda>x. up_window x = CURRENT) (db_periods db')) = [cutoff]"
proof -
  have ok: "books_ok db" "summaries_ok db" using assms(1) by (simp_all add: store_ok_def)
  obtain start where db': "db' = summarized_db jd now cutoff start db"
    using assms(2) by (elim summarize_cases)
  have total: "summary_metrics db' + raw_metrics jd db' = summary_metrics db + raw_metrics jd db"
    using summary_metrics_summarized [OF ok(2), of jd now cutoff start]
      raw_metrics_summarized [OF ok(1), of jd now cutoff start]
    by (simp add: db' ac_simps)
  have "unique_on up_window (db_periods db')"
    using summaries_summarized [OF ok(2)] by (simp add: db' summaries_ok_def)
  then have cur: "map up_end (filter (\<lambda>x. up_window x = CURRENT) (db_periods db')) = [cutoff]"
    using find_summarized_current [of jd now cutoff start db]
    unfolding db' [symmetric] by (rule unique_filter_find) simp
  show ?thesis
    unfolding usage_dashboard_def Let_def window_payload_of_def dashboard.select_convs
    using usage_summarized(2) [OF ok] cur by (simp add: total) (simp add: db')
qed


definition demo_settled :: database where
  "demo_settled = settle_with ''r1'' demo_settle demo_reserved"

theorem summary_changes_no_report_witness:
  "ur_used (usage demo_principal demo_settled) = 25
   \<and> (case summarize_usage_records demo_jd 12 True 10 demo_settled of
        Inl _ \<Rightarrow> False
      | Inr (res, db') \<Rightarrow> db_reservations db' = [] \<and> usage demo_principal db' = usage demo_principal demo_settled)"
proof -
  have ok: "store_ok demo_settled" by code_simp
  have e: "case summarize_usage_records demo_jd 12 True 10 demo_settled of
      Inl _ \<Rightarrow> False | Inr _ \<Rightarrow> True" by code_simp
  then obtain res db' where s: "summarize_usage_records demo_jd 12 True 10 demo_settled = Inr (res, db')"
    by (auto split: sum.splits)
  have "filter (\<lambda>q. \<not> eligible 10 q) (db_reservations demo_settled) = []" by code_simp
  moreover have "ur_used (usage demo_principal demo_settled) = 25" by code_simp
  ultimately show ?thesis
    using summary_changes_no_report [OF ok s, of demo_principal] by (simp add: s)
qed

section \<open>The popularity ranking\<close>

definition usage_dict_ok :: "(string, model_usage) dict \<Rightarrow> bool" where
  "usage_dict_ok d \<longleftrightarrow> distinct (keys d) \<and> list_all (\<lambda>(k, u). mu_model_id u = k) d"

lemma merge_usage_ok: "usage_dict_ok d \<Longrightarrow> usage_dict_ok (merge_usage u d)"
  unfolding usage_dict_ok_def merge_usage_def Let_def
  by (auto intro!: distinct_update list_all_update simp: add_usage_def dest: list_all_map_ofD
      split: option.splits)

lemma sum_update_tokens:
  "distinct (keys d) \<Longrightarrow> sum_list (map (f \<circ> snd) (AList.update k v d)) =
     sum_list (map (f \<circ> snd) d) + f v - (case map_of d k of None \<Rightarrow> (0 :: int) | Some w \<Rightarrow> f w)"
  by (induction d) (auto split: option.splits)

lemma merge_usage_tokens:
  assumes "usage_dict_ok d"
  shows "sum_list (map (mu_tokens \<circ> snd) (merge_usage u d))
           = sum_list (map (mu_tokens \<circ> snd) d) + mu_tokens u"
proof -
  have d: "distinct (keys d)" using assms by (simp add: usage_dict_ok_def)
  show ?thesis
    by (auto simp: merge_usage_def Let_def sum_update_tokens [OF d] mu_tokens_def add_usage_def
        split: option.splits)
qed

lemma merged_ok:
  "usage_dict_ok d \<Longrightarrow> usage_dict_ok (fold merge_usage us d)
     \<and> sum_list (map (mu_tokens \<circ> snd) (fold merge_usage us d))
       = sum_list (map (mu_tokens \<circ> snd) d) + sum_list (map mu_tokens us)"
  by (induction us arbitrary: d) (simp_all add: merge_usage_ok merge_usage_tokens)

text \<open>
  The popularity list is a ranking. It has one entry for each model, with ranks 1, 2, 3 and so
  on, ordered by falling token usage; the usages add up to those of all the rows it was built from,
  and the shares add up to one unless nothing was used.
\<close>

theorem popularity_is_a_ranking:
  "map rk_rank (popularity base extra) = [1..<length (popularity base extra) + 1]
   \<and> distinct (map (\<lambda>r. mu_model_id (rk_usage r)) (popularity base extra))
   \<and> sorted_wrt (\<lambda>a b. rk_tokens b \<le> rk_tokens a) (popularity base extra)
   \<and> sum_list (map rk_tokens (popularity base extra)) = sum_list (map mu_tokens (base @ extra))
   \<and> sum_list (map rk_share (popularity base extra))
       = (if sum_list (map mu_tokens (base @ extra)) = 0 then 0 else 1)"
proof -
  define us where "us = vals (fold merge_usage (base @ extra) [])"
  define ranked where "ranked = sort_key (\<lambda>u. (- mu_tokens u, mu_model u)) us"
  define grand where "grand = sum_list (map mu_tokens ranked)"
  define entry where "entry = (\<lambda>(i :: nat, u). \<lparr>rk_usage = u, rk_rank = i, rk_tokens = mu_tokens u,
      rk_share = (if grand \<noteq> 0 then of_int (mu_tokens u) / of_int grand else 0 :: rat)\<rparr>)"
  have pop: "popularity base extra = map entry (enumerate 1 ranked)"
    unfolding popularity_def Let_def us_def [symmetric] ranked_def [symmetric]
      grand_def [symmetric] entry_def [symmetric] by (rule refl)
  have m: "usage_dict_ok (fold merge_usage (base @ extra) [])"
    "sum_list (map mu_tokens us) = sum_list (map mu_tokens (base @ extra))"
    using merged_ok [of "[]" "base @ extra"] by (simp_all add: usage_dict_ok_def us_def)
  have "map mu_model_id us = keys (fold merge_usage (base @ extra) [])"
    using m(1) by (auto simp: usage_dict_ok_def us_def list_all_iff)
  then have dist: "distinct (map mu_model_id us)" using m(1) by (simp add: usage_dict_ok_def)
  have g: "grand = sum_list (map mu_tokens (base @ extra))"
    using m(2) by (simp add: grand_def ranked_def flip: sum_mset_sum_list)
  have snds: "map f (popularity base extra) = map h ranked"
    if "\<And>i u. f (entry (i, u)) = h u" for f :: "ranked_model \<Rightarrow> 'x" and h
  proof -
    have "map f (popularity base extra) = map h (map snd (enumerate 1 ranked))"
      unfolding pop map_map by (rule map_cong) (auto simp: that)
    then show ?thesis by simp
  qed
  have "map rk_rank (popularity base extra) = map fst (enumerate 1 ranked)"
    unfolding pop map_map by (rule map_cong) (auto simp: entry_def)
  then have ranks: "map rk_rank (popularity base extra) = [1..<length (popularity base extra) + 1]"
    by (simp add: pop)
  have "map (\<lambda>r. mu_model_id (rk_usage r)) (popularity base extra) = map mu_model_id ranked"
    by (rule snds) (simp add: entry_def)
  moreover have "mset (map mu_model_id ranked) = mset (map mu_model_id us)"
    by (simp add: ranked_def)
  ultimately have names: "distinct (map (\<lambda>r. mu_model_id (rk_usage r)) (popularity base extra))"
    using dist by (metis mset_eq_imp_distinct_iff)
  have tokens: "map rk_tokens (popularity base extra) = map mu_tokens ranked"
    by (rule snds) (simp add: entry_def)
  have "sorted (map (\<lambda>u. (- mu_tokens u, mu_model u)) ranked)"
    by (simp add: ranked_def)
  then have "sorted_wrt (\<lambda>a b. mu_tokens b \<le> mu_tokens a) ranked"
    unfolding sorted_map by (rule sorted_wrt_mono_rel [rotated]) auto
  then have "sorted_wrt (\<lambda>a b. b \<le> a) (map mu_tokens ranked)" by (simp add: sorted_wrt_map)
  then have sorted: "sorted_wrt (\<lambda>a b. rk_tokens b \<le> rk_tokens a) (popularity base extra)"
    by (simp add: sorted_wrt_map flip: tokens)
  have "map rk_share (popularity base extra)
      = map (\<lambda>u. if grand \<noteq> 0 then of_int (mu_tokens u) / of_int grand else 0) ranked"
    by (rule snds) (simp add: entry_def)
  moreover have "sum_list (map (\<lambda>u. of_int (mu_tokens u) / of_int n) xs)
      = (of_int (sum_list (map mu_tokens xs)) / of_int n :: rat)" for n xs
    by (induction xs) (simp_all add: add_divide_distrib)
  ultimately have shares: "sum_list (map rk_share (popularity base extra)) = (if grand = 0 then 0 else 1)"
    by (simp add: grand_def [symmetric])
  show ?thesis
    using ranks names sorted shares tokens grand_def g by simp
qed

end
