(* ===== verification/KeyAdmin.thy ===== *)
theory KeyAdmin
  imports StorageModels Billing
begin

text \<open>
  Properties of the key and quota administration of the theory \<open>StorageKeys\<close>, with their
  concrete instances.
\<close>

definition demo_admin_key :: key_row where
  "demo_admin_key = demo_key\<lparr>ak_id := ''root'', ak_nickname := ''root'', ak_role := ADMIN,
     ak_account := ''ra'', ak_prefix := ''rio_root''\<rparr>"

definition demo_admin_db :: database where
  "demo_admin_db = demo_reserved\<lparr>db_keys := [demo_key, demo_admin_key],
     db_accounts := db_accounts demo_reserved @
       [demo_account\<lparr>qa_id := ''ra'', qa_nickname := ''root'', qa_unlimited := True\<rparr>]\<rparr>"

text \<open>
  C26: An administrator always remains. As long as there is an active administrator key, no
  sequence of logins and of key and quota administration calls leads to a state without one.
\<close>

theorem an_administrator_remains:
  assumes "key_step\<^sup>*\<^sup>* db db'" "keys_ok db" "1 \<le> active_admins db"
  shows "1 \<le> active_admins db'"
proof -
  have "keys_ok db' \<and> 1 \<le> active_admins db'"
    using assms
  proof (induction rule: rtranclp_induct)
    case (step y z)
    then show ?case using key_step_admins [OF step.hyps(2)] by blast
  qed simp
  then show ?thesis by simp
qed

theorem an_administrator_remains_witness:
  "(case delete_key ''x'' ''k'' demo_admin_db of
      Inl _ \<Rightarrow> False | Inr (b, db') \<Rightarrow> b \<and> 1 \<le> active_admins db')
   \<and> exn_code (projl (delete_key ''x'' ''root'' demo_admin_db)) = ''last_admin_key''"
proof -
  have "case delete_key ''x'' ''k'' demo_admin_db of Inl _ \<Rightarrow> False | Inr (b, _) \<Rightarrow> b" by code_simp
  then obtain db' where d: "delete_key ''x'' ''k'' demo_admin_db = Inr (True, db')"
    by (auto split: sum.splits)
  have "key_step\<^sup>*\<^sup>* demo_admin_db db'" using KDelete [OF d] by blast
  moreover have "keys_ok demo_admin_db" by code_simp
  moreover have "1 \<le> active_admins demo_admin_db" by code_simp
  ultimately have "1 \<le> active_admins db'" by (rule an_administrator_remains)
  moreover have "exn_code (projl (delete_key ''x'' ''root'' demo_admin_db)) = ''last_admin_key''"
    by code_simp
  ultimately show ?thesis by (simp add: d)
qed

text \<open>
  C37: A deleted key is dead for good. After a key was deleted, no token authenticates as it and it
  cannot be restored or given a new secret, whatever administration calls follow.
\<close>

theorem deleted_key_stays_dead:
  assumes "delete_key encrypted kid db = Inr (True, db1)" "key_step\<^sup>*\<^sup>* db1 db2"
  shows "(case authenticate verify now prefix token db2 of
            (None, _) \<Rightarrow> True | (Some p, _) \<Rightarrow> pr_key_id p \<noteq> kid)
       \<and> set_key_active kid True db2 = Inr (False, db2)
       \<and> (case rotate_key kid secret hash encrypt db2 of
            Inl _ \<Rightarrow> False | Inr (token, db3) \<Rightarrow> token = None \<and> db3 = db2)"
proof -
  have dead: "dead_key kid db2"
    using assms(2) delete_makes_dead [OF assms(1)]
    by (induction rule: rtranclp_induct) (auto intro: key_step_dead)
  have "case authenticate verify now prefix token db2 of
            (None, _) \<Rightarrow> True | (Some p, _) \<Rightarrow> pr_key_id p \<noteq> kid"
  proof -
    obtain q d where a: "authenticate verify now prefix token db2 = (q, d)" by force
    then show ?thesis using dead_key_rejected [OF dead, of verify now prefix token _ d]
      by (cases q) auto
  qed
  moreover obtain k where k: "find_row ak_id kid (db_keys db2) = Some k"
    using dead by (cases "find_row ak_id kid (db_keys db2)") (auto simp: dead_key_def find_row_None)
  then have "startswith ''deleted-'' (ak_prefix k)"
    using dead find_row_key [OF k] by (simp add: dead_key_def dead_row_def)
  then have "set_key_active kid True db2 = Inr (False, db2)"
    by (simp add: set_key_active_def k)
  moreover have "\<not> replaceable kid r" if "r \<in> set (db_keys db2)" for r
    using dead that startswith_like_deleted by (auto simp: dead_key_def dead_row_def replaceable_def)
  then have "find (replaceable kid) (db_keys db2) = None" by (simp add: find_None_iff)
  then have "rotate_key kid secret hash encrypt db2 = Inr (None, db2)" by (simp add: rotate_key_def)
  ultimately show ?thesis by simp
qed

theorem deleted_key_stays_dead_witness:
  "case delete_key ''x'' ''k'' demo_admin_db of
     Inl _ \<Rightarrow> False
   | Inr (_, db1) \<Rightarrow> fst (authenticate (\<lambda>_ _. Some True) 3 ''rio_k'' ''rio_k'' demo_admin_db) \<noteq> None
       \<and> set_key_active ''k'' True db1 = Inr (False, db1)"
proof -
  have "case delete_key ''x'' ''k'' demo_admin_db of Inl _ \<Rightarrow> False | Inr (b, _) \<Rightarrow> b" by code_simp
  then obtain db1 where d: "delete_key ''x'' ''k'' demo_admin_db = Inr (True, db1)"
    by (auto split: sum.splits)
  have "fst (authenticate (\<lambda>_ _. Some True) 3 ''rio_k'' ''rio_k'' demo_admin_db) \<noteq> None"
    by code_simp
  moreover have "set_key_active ''k'' True db1 = Inr (False, db1)"
    using deleted_key_stays_dead [OF d rtranclp.rtrancl_refl] by blast
  ultimately show ?thesis by (simp add: d)
qed

lemma books_accounts:
  assumes "books_ok db" "\<And>a. qa_id (f a) = qa_id a"
    and "\<And>a. 0 \<le> qa_balance a \<Longrightarrow> 0 \<le> qa_balance (f a)"
  shows "books_ok (db\<lparr>db_accounts := update_rows P f (db_accounts db)\<rparr>)" (is "books_ok ?db")
proof -
  have ok: "accounts_ok db" "reservations_ok db" "ledger_ok db" "requests_ok db"
    using assms(1) by (simp_all add: books_ok_def)
  have "map qa_id (update_rows P f (db_accounts db)) = map qa_id (db_accounts db)"
    by (rule map_update_rows) (rule assms(2))
  moreover have "\<forall>a \<in> set (update_rows P f (db_accounts db)). 0 \<le> qa_balance a"
    using ok(1) assms(3) unfolding accounts_ok_def set_update_rows by (auto split: if_splits)
  ultimately have "accounts_ok ?db" using ok(1) by (simp add: accounts_ok_def)
  moreover have "qa_id ` set (db_accounts ?db) = qa_id ` set (db_accounts db)"
    by simp (rule image_update_rows, rule assms(2))
  then have "reservations_ok ?db" using ok(2) by (simp add: reservations_ok_def)
  moreover have "ledger_ok ?db" using ok(3) by (simp add: ledger_ok_def)
  moreover have "request_ok ?db = request_ok db" by (simp add: fun_eq_iff request_ok_def)
  then have "requests_ok ?db" using ok(4) by (simp add: requests_ok_def)
  ultimately show ?thesis by (simp add: books_ok_def)
qed

text \<open>
  Changing a quota leaves what was used as it is and sets the balance to what the new limit
  leaves, never below zero; the books stay consistent. Resetting starts from the full limit.
\<close>

theorem quota_change_sets_remaining:
  assumes "books_ok db" "find_row ak_id kid (db_keys db) = Some k"
    and "update_quota kid limit unlimited db = Inr (True, db')" "pr_account p = ak_account k"
    and "has_row qa_id (ak_account k) (db_accounts db)"
  shows "books_ok db' \<and> ur_used (usage p db') = ur_used (usage p db)
       \<and> ur_limit (usage p db') = limit \<and> ur_unlimited (usage p db') = unlimited
       \<and> ur_balance (usage p db') = max 0 (limit - ur_used (usage p db))
       \<and> ur_used (usage p (snd (reset_usage now kid db'))) = 0
       \<and> ur_balance (usage p (snd (reset_usage now kid db'))) = limit"
proof -
  define rem where "rem = max 0 (limit - used_since_baseline (ak_account k) db)"
  have rem: "0 \<le> rem" by (simp add: rem_def)
  have db': "db' = db\<lparr>db_accounts := update_rows (\<lambda>a. qa_id a = ak_account k)
      (\<lambda>a. a\<lparr>qa_balance := rem, qa_limit := limit, qa_unlimited := unlimited\<rparr>) (db_accounts db)\<rparr>"
    using assms(2,3) by (auto simp: update_quota_def Let_def rem_def split: if_splits)
  have "find_row qa_id (ak_account k) (db_accounts db) \<noteq> None"
    unfolding find_row_None using assms(5) by simp
  then obtain a where "find_row qa_id (ak_account k) (db_accounts db) = Some a" by blast
  then have a: "find_row qa_id (ak_account k) (db_accounts db) = Some a" "qa_id a = ak_account k"
    using find_row_key [of qa_id "ak_account k" "db_accounts db" a] by simp_all
  have a': "find_row qa_id (ak_account k) (db_accounts db')
      = Some (a\<lparr>qa_balance := rem, qa_limit := limit, qa_unlimited := unlimited\<rparr>)"
    using a by (simp add: db' find_update_rows)
  have books: "books_ok db'"
    unfolding db' by (rule books_accounts [OF assms(1)]) (simp_all add: rem)
  have life: "lifetime_charged x db' = lifetime_charged x db" for x
    by (simp add: db' lifetime_charged_eq charged_raw_def charged_old_def)
  have used: "used_since_baseline (ak_account k) db' = used_since_baseline (ak_account k) db"
    unfolding used_since_baseline_def life a' a(1) by simp
  obtain r where r: "snd (reset_usage now kid db') = db'\<lparr>db_accounts := r\<rparr>"
      "find_row qa_id (ak_account k) r = Some (a\<lparr>qa_balance := limit, qa_limit := limit,
         qa_unlimited := unlimited, qa_baseline := lifetime_charged (ak_account k) db',
         qa_reset_at := Some now\<rparr>)"
  proof
    show "snd (reset_usage now kid db') = db'\<lparr>db_accounts := update_rows (\<lambda>x. qa_id x = ak_account k)
                (\<lambda>x. x\<lparr>qa_balance := qa_limit x, qa_baseline := lifetime_charged (ak_account k) db',
                       qa_reset_at := Some now\<rparr>) (db_accounts db')\<rparr>"
      using a' a(2) assms(2) by (simp add: reset_usage_def db')
    show "find_row qa_id (ak_account k) (update_rows (\<lambda>x. qa_id x = ak_account k)
                (\<lambda>x. x\<lparr>qa_balance := qa_limit x, qa_baseline := lifetime_charged (ak_account k) db',
                       qa_reset_at := Some now\<rparr>) (db_accounts db')) = Some (a\<lparr>qa_balance := limit,
         qa_limit := limit, qa_unlimited := unlimited,
         qa_baseline := lifetime_charged (ak_account k) db', qa_reset_at := Some now\<rparr>)"
      using a' a(2) by (simp add: find_update_rows)
  qed
  have "lifetime_charged x (db'\<lparr>db_accounts := r\<rparr>) = lifetime_charged x db'" for x
    by (simp add: lifetime_charged_eq charged_raw_def charged_old_def)
  then have reset: "used_since_baseline (ak_account k) (snd (reset_usage now kid db')) = 0"
    unfolding r(1) by (simp add: used_since_baseline_def r(2))
  show ?thesis
    using books used reset a' r by (simp add: usage_def Let_def assms(4) rem_def)
qed

theorem quota_change_sets_remaining_witness:
  "ur_balance (usage demo_principal demo_settled) = 75
   \<and> (case update_quota ''k'' 60 False demo_settled of
        Inl _ \<Rightarrow> False | Inr (_, db') \<Rightarrow> ur_balance (usage demo_principal db') = 35)"
proof -
  have b: "books_ok demo_settled" by code_simp
  have k: "find_row ak_id ''k'' (db_keys demo_settled) = Some demo_key" by code_simp
  have "case update_quota ''k'' 60 False demo_settled of Inl _ \<Rightarrow> False | Inr (b, _) \<Rightarrow> b" by code_simp
  then obtain db' where u: "update_quota ''k'' 60 False demo_settled = Inr (True, db')"
    by (auto split: sum.splits)
  have a: "pr_account demo_principal = ak_account demo_key"
    "has_row qa_id (ak_account demo_key) (db_accounts demo_settled)" by code_simp+
  have "ur_used (usage demo_principal demo_settled) = 25"
    "ur_balance (usage demo_principal demo_settled) = 75" by code_simp+
  with quota_change_sets_remaining [OF b k u a] show ?thesis by (simp add: u)
qed

text \<open>
  The balance that a quota change sets ignores the tokens that are held: here a limit of 50 is set
  while 40 of the old 100 tokens are held, nothing is used, and the account ends with 90.
\<close>

lemma quota_change_ignores_held_tokens:
  "(case update_quota ''k'' 50 False demo_reserved of
      Inl _ \<Rightarrow> False
    | Inr (_, db') \<Rightarrow>
        ur_limit (usage demo_principal (settle_with ''r1'' (demo_settle\<lparr>sa_actual := 0\<rparr>) db')) = 50
        \<and> ur_balance (usage demo_principal (settle_with ''r1'' (demo_settle\<lparr>sa_actual := 0\<rparr>) db')) = 90)"
  by code_simp

text \<open>
  The check that administrators stay unlimited looks at the role of the key that is changed, not
  at the account: a user key on the administrator's account takes the administrator's credit away.
\<close>

lemma shared_account_limits_administrator:
  "(case update_quota ''k'' 0 False
      (demo_admin_db\<lparr>db_keys := [demo_key\<lparr>ak_account := ''ra''\<rparr>, demo_admin_key]\<rparr>) of
      Inl _ \<Rightarrow> False
    | Inr (_, db') \<Rightarrow> \<not> limited ''ra'' demo_admin_db \<and> limited ''ra'' db' \<and> balance_of ''ra'' db' = 0)"
  by code_simp

section \<open>Granting: the tables afterwards\<close>

lemma named_injective:
  assumes "catalog_ok db" "set d \<subseteq> set (named_models (db_models db))" "distinct (keys d)"
  shows "distinct (vals d)"
proof -
  have "inj_on snd (set d)"
  proof (rule inj_onI)
    fix x y assume xy: "x \<in> set d" "y \<in> set d" and s: "snd x = snd y"
    have "(fst x, snd x) \<in> set (named_models (db_models db))"
      "(fst y, snd y) \<in> set (named_models (db_models db))"
      using assms(2) xy by auto
    from named_functional [OF assms(1) this] show "x = y" using s by (simp add: prod_eq_iff)
  qed
  moreover have "distinct d" using assms(3) by (simp add: distinct_map)
  ultimately show ?thesis by (simp add: distinct_map)
qed

text \<open>The names a key is granted, when its grants are the ids of some named models.\<close>

lemma granted_names_exact:
  assumes "catalog_ok db" "set d \<subseteq> set (named_models (db_models db))" "db_models db' = db_models db"
    and "\<And>m. has_model_grant kid m db' \<longleftrightarrow> m \<in> set (vals d)"
  shows "mc_nickname ` set (granted_models kid db') = set (keys d)"
proof -
  have "mc_id m \<in> set (vals d) \<longleftrightarrow> (mc_nickname m, mc_id m) \<in> set d"
    if "m \<in> set (db_models db)" for m
  proof
    assume "mc_id m \<in> set (vals d)"
    then obtain n where n: "(n, mc_id m) \<in> set d" by auto
    have "(mc_nickname m, mc_id m) \<in> set (named_models (db_models db))"
      using that by (auto simp: named_models_def)
    then have "n = mc_nickname m" using named_functional [OF assms(1)] n assms(2) by blast
    then show "(mc_nickname m, mc_id m) \<in> set d" using n by simp
  qed force
  then have g: "set (granted_models kid db') =
      {m \<in> set (db_models db). (mc_nickname m, mc_id m) \<in> set d}"
    by (auto simp: granted_models_set assms(3,4))
  show ?thesis
  proof (rule set_eqI)
    fix n
    show "n \<in> mc_nickname ` set (granted_models kid db') \<longleftrightarrow> n \<in> set (keys d)"
      unfolding g using assms(2) by (force simp: named_models_def)
  qed
qed

lemma desired_names:
  assumes "catalog_ok db" "set requested \<subseteq> mc_nickname ` set (db_models db)"
  shows "set (keys (desired_models mode requested (named_models (granted_models kid db))
             (named_models (filter (\<lambda>m. mc_nickname m \<in> set requested) (db_models db))))) =
    (case mode of
       ACC_ADD \<Rightarrow> mc_nickname ` set (granted_models kid db) \<union> set requested
     | ACC_REMOVE \<Rightarrow> mc_nickname ` set (granted_models kid db) - set requested
     | ACC_REPLACE \<Rightarrow> set requested)" (is "set (keys ?d) = _")
proof -
  let ?g = "mc_nickname ` set (granted_models kid db)"
  have k: "n \<in> set (keys ?d) \<longleftrightarrow> (\<exists>m \<in> set (db_models db). mc_nickname m = n \<and> (case mode of
        ACC_ADD \<Rightarrow> (n, mc_id m) \<in> set (named_models (granted_models kid db)) \<or> n \<in> set requested
      | ACC_REMOVE \<Rightarrow> (n, mc_id m) \<in> set (named_models (granted_models kid db)) \<and> n \<notin> set requested
      | ACC_REPLACE \<Rightarrow> n \<in> set requested))" for n
    unfolding set_map desired_ok(2) [OF assms(1)]
    by (cases mode) (auto simp: named_models_def image_iff)
  have e: "(n, mc_id m) \<in> set (named_models (granted_models kid db)) \<longleftrightarrow> n \<in> ?g"
    if "m \<in> set (db_models db)" "mc_nickname m = n" for n m
  proof -
    have "x = m" if "x \<in> set (granted_models kid db)" "mc_nickname x = n" for x
      using that \<open>m \<in> set (db_models db)\<close> \<open>mc_nickname m = n\<close> assms(1)
      by (auto simp: granted_models_set catalog_ok_def dest: unique_onD)
    then show ?thesis using that(2) by (auto simp: named_models_def)
  qed
  have sub: "?g \<subseteq> mc_nickname ` set (db_models db)" by (auto simp: granted_models_set)
  have "n \<in> set (keys ?d) \<longleftrightarrow> n \<in> mc_nickname ` set (db_models db) \<and> (case mode of
      ACC_ADD \<Rightarrow> n \<in> ?g \<or> n \<in> set requested
    | ACC_REMOVE \<Rightarrow> n \<in> ?g \<and> n \<notin> set requested
    | ACC_REPLACE \<Rightarrow> n \<in> set requested)" for n
    unfolding k using e by (cases mode) (auto simp: image_iff)
  then show ?thesis using sub assms(2) by (intro set_eqI) (cases mode; auto)
qed

text \<open>
  Model access is what was asked for. For an active key and known nicknames, the call cannot
  fail; afterwards exactly the granted names that the mode asks for are granted, they are what it
  answers, in order, and no other key's grants have changed.
\<close>

theorem access_update_grants:
  assumes "catalog_ok db" "\<exists>k \<in> set (db_keys db). ak_id k = kid \<and> ak_active k"
    and "set requested \<subseteq> mc_nickname ` set (db_models db)"
  shows "case update_model_access now kid requested mode db of
           Inl _ \<Rightarrow> False
         | Inr (names, db') \<Rightarrow>
             sorted names \<and> distinct names
             \<and> set names = (case mode of
                   ACC_ADD \<Rightarrow> mc_nickname ` set (granted_models kid db) \<union> set requested
                 | ACC_REMOVE \<Rightarrow> mc_nickname ` set (granted_models kid db) - set requested
                 | ACC_REPLACE \<Rightarrow> set requested)
             \<and> mc_nickname ` set (granted_models kid db') = set names
             \<and> (if other = kid then True else granted_models other db' = granted_models other db)"
proof -
  define by_name where "by_name = named_models (filter (\<lambda>m. mc_nickname m \<in> set requested) (db_models db))"
  define desired where "desired = desired_models mode requested (named_models (granted_models kid db)) by_name"
  have names: "set (keys by_name) = set requested"
    using assms(3) by (auto simp: by_name_def named_models_def)
  have dist: "distinct (keys desired)" and sub: "set desired \<subseteq> set (named_models (db_models db))"
    using desired_ok [OF assms(1), of mode requested kid] by (auto simp: desired_def by_name_def)
  have ids: "set (vals desired) \<subseteq> mc_id ` set (db_models db)"
    using sub by (auto simp: named_models_def)
  define db' where "db' = (drop_grants kid db)\<lparr>db_grants := db_grants (drop_grants kid db) @
      map (\<lambda>m. \<lparr>mg_key = kid, mg_model = m, mg_created_at = now\<rparr>) (vals desired)\<rparr>"
  have "insert_grants now kid (vals desired) (drop_grants kid db) = Inr db'"
    unfolding db'_def using named_injective [OF assms(1) sub dist] ids assms(2)
  proof (intro insert_grants_Inr)
    show "kid \<in> ak_id ` set (db_keys (drop_grants kid db))"
      using assms(2) by (auto simp: drop_grants_def)
  qed (simp_all add: drop_grants_def [of kid db, THEN arg_cong, of db_models])
  then have res: "update_model_access now kid requested mode db = Inr (sort (keys desired), db')"
    using assms(2) names
    by (simp add: update_model_access_def Let_def by_name_def [symmetric] desired_def [symmetric]
        remdups_eq_nil_iff filter_empty_conv)
  have models: "db_models db' = db_models db" by (simp add: db'_def drop_grants_def)
  have "has_model_grant kid m db' \<longleftrightarrow> m \<in> set (vals desired)" for m
  proof -
    have "has_model_grant kid m db' \<longleftrightarrow> has_model_grant kid m (drop_grants kid db) \<or>
        (\<exists>x \<in> set desired. snd x = m)"
      by (simp add: db'_def has_model_grant_def bex_Un)
    then show ?thesis by auto
  qed
  from granted_names_exact [OF assms(1) sub models this]
  have "mc_nickname ` set (granted_models kid db') = set (keys desired)" .
  moreover have "set (keys desired) = (case mode of
                   ACC_ADD \<Rightarrow> mc_nickname ` set (granted_models kid db) \<union> set requested
                 | ACC_REMOVE \<Rightarrow> mc_nickname ` set (granted_models kid db) - set requested
                 | ACC_REPLACE \<Rightarrow> set requested)"
    using desired_names [OF assms(1,3)] by (simp add: desired_def by_name_def)
  moreover have "granted_models other db' = granted_models other db" if "other \<noteq> kid"
    using that
    by (auto simp: granted_models_def models db'_def drop_grants_def image_iff intro!: filter_cong)
  ultimately show ?thesis using dist by (simp add: res)
qed

theorem access_update_grants_witness:
  "case update_model_access 3 ''k'' [''tiny''] ACC_ADD demo_db of
     Inl _ \<Rightarrow> False | Inr (names, db') \<Rightarrow> mc_nickname ` set (granted_models ''k'' db') = {''tiny''}"
proof -
  have c: "catalog_ok demo_db" by code_simp
  have k: "\<exists>k \<in> set (db_keys demo_db). ak_id k = ''k'' \<and> ak_active k" by code_simp
  have m: "set [''tiny''] \<subseteq> mc_nickname ` set (db_models demo_db)" by code_simp
  have g: "granted_models ''k'' demo_db = []" by code_simp
  from access_update_grants [OF c k m, where now = 3 and mode = ACC_ADD and other = "''z''"] show ?thesis
    by (auto simp: g split: sum.splits prod.splits)
qed

text \<open>
  A machine change turns profiles off. When the machine's fingerprint differs from the recorded
  one, no profile measured on another machine stays active, and no profile of this machine and no
  other table is touched.
\<close>

theorem machine_change_deactivates_profiles:
  assumes "sv_fingerprint (db_service db) = Some old" "old \<noteq> []" "old \<noteq> fp"
    and "set_machine_fingerprint now fp db = (previous, db')"
  shows "previous = Some old \<and> sv_fingerprint (db_service db') = Some fp
       \<and> filter mp_active (db_profiles db') = filter (\<lambda>p. mp_active p \<and> mp_fingerprint p = fp) (db_profiles db)
       \<and> map mp_id (db_profiles db') = map mp_id (db_profiles db)
       \<and> db_reservations db' = db_reservations db"
proof -
  have db': "db_profiles db' = update_rows (\<lambda>p. mp_fingerprint p \<noteq> fp) (\<lambda>p. p\<lparr>mp_active := False\<rparr>) (db_profiles db)"
    "previous = Some old" "sv_fingerprint (db_service db') = Some fp"
    "db_reservations db' = db_reservations db"
    using assms by (auto simp: set_machine_fingerprint_def)
  have "filter mp_active (update_rows (\<lambda>p. mp_fingerprint p \<noteq> fp) (\<lambda>p. p\<lparr>mp_active := False\<rparr>) ps)
      = filter (\<lambda>p. mp_active p \<and> mp_fingerprint p = fp) ps" for ps
    by (induction ps) auto
  moreover have "map mp_id (db_profiles db') = map mp_id (db_profiles db)"
    unfolding db' by (rule map_update_rows) simp
  ultimately show ?thesis using db' by simp
qed

theorem machine_change_deactivates_profiles_witness:
  "sv_fingerprint (db_service (snd (set_machine_fingerprint 2 ''new''
     (snd (set_machine_fingerprint 1 ''old'' demo_db))))) = Some ''new''"
proof -
  have old: "sv_fingerprint (db_service (snd (set_machine_fingerprint 1 ''old'' demo_db))) = Some ''old''"
    by code_simp
  have ne: "''old'' \<noteq> []" "''old'' \<noteq> ''new''" by simp_all
  obtain prev d where s: "set_machine_fingerprint 2 ''new''
      (snd (set_machine_fingerprint 1 ''old'' demo_db)) = (prev, d)"
    by (rule prod.exhaust)
  have "sv_fingerprint (db_service d) = Some ''new''"
    using machine_change_deactivates_profiles [OF old ne s] by blast
  then show ?thesis by (simp only: s snd_conv)
qed

end
