(* ===== verification/Scheduler.thy ===== *)
theory Scheduler
  imports Queueing Planner WorkerSteps StorageModels Billing
begin

text \<open>
  \<^verbatim>\<open>src/src/llm_rio/runtime.py\<close>: the residency scheduler, which composes the queues, the planner,
  the worker supervisor and the database: enqueueing and cancelling, routing popped requests to
  ready workers, leases, the validation GPUs, maintenance, and the reconciliation that turns
  pressures into planner actions.

  A step runs from one \<open>await\<close> that can let others in to the next. \<open>Event\<close>s that only wake the
  scheduler's task are not modelled. A future is an entry of \<open>sc_futures\<close>; a lease's base URL is its
  worker's port. The fresh ledger id of a refund is a function of the reservation. Sets the code
  iterates over are lists here, in an order the results do not depend on.
\<close>

section \<open>State\<close>

record lease =
  le_worker :: string
  le_request :: string
  le_reservation :: string
  le_port :: int
  le_api_key :: string
  le_tokens :: int
  le_admitted_at :: datetime
  le_is_stream :: bool
  le_last_activity :: "datetime option"

datatype future = Waiting | Result lease | Failure exn | Cancelled

record scheduler =
  sc_db :: database
  sc_sup :: supervisor
  sc_queues :: model_queues
  sc_futures :: "(nat, future) dict"
  sc_leases :: "(string, lease) dict"
  sc_validation :: "string list"
  sc_last_arrival :: datetime
  sc_maintenance :: bool
  sc_preload :: "(string, int) dict"
  sc_warm_once :: "string list"
  sc_reported :: "string list"
  sc_todo :: "planner_action list"
  sc_waking :: "string option"
  sc_closed :: bool

record sched_env =
  se_settings :: supervisor_settings
  se_planner :: planner_cfg
  se_gpus :: "string list"
  se_stream_timeout :: "rat option"
  se_validation_idle :: rat
  se_kvcached :: bool
  se_ledger_id :: "string \<Rightarrow> string"

definition set_future :: "nat option \<Rightarrow> future \<Rightarrow> scheduler \<Rightarrow> scheduler" where
  "set_future h v s = (case h of None \<Rightarrow> s | Some f \<Rightarrow> s\<lparr>sc_futures := AList.update f v (sc_futures s)\<rparr>)"

text \<open>\<open>request.assignment and not request.assignment.done()\<close>\<close>

definition waiting :: "nat option \<Rightarrow> scheduler \<Rightarrow> bool" where
  "waiting h s \<longleftrightarrow> (case h of None \<Rightarrow> False | Some f \<Rightarrow> map_of (sc_futures s) f = Some Waiting)"

text \<open>A release whose exception, if there were one, is suppressed.\<close>

definition release_quota :: "sched_env \<Rightarrow> datetime \<Rightarrow> string \<Rightarrow> string \<Rightarrow> scheduler \<Rightarrow> scheduler" where
  "release_quota env now rid reason s =
     (case release_reservation (se_ledger_id env rid) now rid reason (sc_db s) of
        Inl _ \<Rightarrow> s
      | Inr db \<Rightarrow> s\<lparr>sc_db := db\<rparr>)"

definition log_event ::
  "datetime \<Rightarrow> string \<Rightarrow> string option \<Rightarrow> (string, json) dict \<Rightarrow> scheduler \<Rightarrow> scheduler" where
  "log_event now kind entity payload s =
     s\<lparr>sc_db := record_runtime_event now kind entity payload (sc_db s)\<rparr>"

section \<open>Leases and the supervisor's events\<close>

definition worker_event :: "sched_env \<Rightarrow> datetime \<Rightarrow> string \<Rightarrow> string \<Rightarrow> scheduler \<Rightarrow> scheduler" where
  "worker_event env now wid event s =
     (if startswith ''failed:'' event
      then fold (\<lambda>l s. release_quota env now (le_reservation l) ''worker_failed''
                   (s\<lparr>sc_leases := AList.delete (le_request l) (sc_leases s)\<rparr>))
             (filter (\<lambda>l. le_worker l = wid) (vals (sc_leases s))) s
      else s)"

text \<open>A call of the supervisor, and the callbacks for the events it emits.\<close>

definition deliver :: "sched_env \<Rightarrow> datetime \<Rightarrow> scheduler \<Rightarrow> scheduler" where
  "deliver env now s =
     fold (\<lambda>(wid, event). worker_event env now wid event) (sv_emitted (sc_sup s))
       (s\<lparr>sc_sup := (sc_sup s)\<lparr>sv_emitted := []\<rparr>\<rparr>)"

definition with_sup ::
  "sched_env \<Rightarrow> datetime \<Rightarrow> (supervisor \<Rightarrow> supervisor) \<Rightarrow> scheduler \<Rightarrow> scheduler" where
  "with_sup env now f s = deliver env now (s\<lparr>sc_sup := f (sc_sup s)\<rparr>)"

text \<open>\<open>release\<close>: only the first release of a lease reaches the worker.\<close>

definition release_lease :: "sched_env \<Rightarrow> datetime \<Rightarrow> lease \<Rightarrow> scheduler \<Rightarrow> scheduler" where
  "release_lease env now l s =
     (if map_of (sc_leases s) (le_request l) = None then s
      else with_sup env now (release (le_worker l) (le_request l) (le_tokens l) now)
             (s\<lparr>sc_leases := AList.delete (le_request l) (sc_leases s)\<rparr>))"

definition touch :: "datetime \<Rightarrow> lease \<Rightarrow> scheduler \<Rightarrow> scheduler" where
  "touch now l s =
     (case map_of (sc_leases s) (le_request l) of
        None \<Rightarrow> s
      | Some cur \<Rightarrow> s\<lparr>sc_leases := AList.update (le_request l)
                         (cur\<lparr>le_last_activity := Some now\<rparr>) (sc_leases s)\<rparr>)"

section \<open>Enqueueing\<close>

text \<open>
  \<open>enqueue\<close> up to its wait: \<open>f\<close> is the fresh future. The second part runs when the waiting handler
  is cancelled.
\<close>

definition enqueue :: "datetime \<Rightarrow> nat \<Rightarrow> request \<Rightarrow> scheduler \<Rightarrow> scheduler \<times> (exn + unit)" where
  "enqueue now f r s =
     (let s1 = s\<lparr>sc_futures := AList.update f Waiting (sc_futures s)\<rparr>;
          r1 = r\<lparr>rq_assignment := Some f\<rparr>
      in if service_mode_of (sc_db s) \<noteq> ACTIVE then (s1, Inl (Rio MaintenanceError))
         else case for_model (sc_queues s) (rq_model_id r) of (mq, q) \<Rightarrow>
           (case drr_put q r1 of (q', res) \<Rightarrow>
              let s2 = s1\<lparr>sc_queues := set_model mq (rq_model_id r) q'\<rparr>
              in case res of
                   Inl e \<Rightarrow> (s2, Inl e)
                 | Inr _ \<Rightarrow> (s2\<lparr>sc_last_arrival := now\<rparr>, Inr ())))"

definition cancel_enqueued :: "sched_env \<Rightarrow> datetime \<Rightarrow> request \<Rightarrow> scheduler \<Rightarrow> scheduler" where
  "cancel_enqueued env now r s =
     (case mq_remove (sc_queues s) (rq_model_id r) (rq_id r) of (mq, removed) \<Rightarrow>
        let s1 = set_future (rq_assignment r) Cancelled (s\<lparr>sc_queues := mq\<rparr>)
        in if removed \<noteq> None
           then release_quota env now (rq_reservation_id r) ''client_cancelled'' s1
           else s1)"

definition warm_model_once :: "sched_env \<Rightarrow> datetime \<Rightarrow> string \<Rightarrow> scheduler \<Rightarrow> scheduler" where
  "warm_model_once env now mid s =
     (if \<not> se_kvcached env \<or> \<not> pc_weight_cache_enabled (se_planner env) then s
      else log_event now ''PRISM_MODEL_WARM_REQUESTED'' (Some mid) [(''target'', JStr ''host_ram'')]
             (s\<lparr>sc_warm_once := (if mid \<in> set (sc_warm_once s) then sc_warm_once s
                                 else sc_warm_once s @ [mid])\<rparr>))"

section \<open>Routing\<close>

definition ready_workers :: "string \<Rightarrow> scheduler \<Rightarrow> worker list" where
  "ready_workers mid s =
     filter (\<lambda>w. wk_model_id w = mid \<and> is_routable w) (vals (sv_workers (sc_sup s)))"

text \<open>The handler of an exception in the admission of a popped request.\<close>

definition reject_popped ::
  "sched_env \<Rightarrow> datetime \<Rightarrow> bool \<Rightarrow> string \<Rightarrow> request \<Rightarrow> exn \<Rightarrow> scheduler \<Rightarrow> scheduler" where
  "reject_popped env now admitted wid r e s =
     (let s1 = (if admitted
                then with_sup env now (release wid (rq_id r) (rq_estimated_tokens r) now) s else s);
          s2 = release_quota env now (rq_reservation_id r) ''admission_failed'' s1
      in if waiting (rq_assignment r) s2 then set_future (rq_assignment r) (Failure e) s2 else s2)"

definition make_lease :: "sched_env \<Rightarrow> datetime \<Rightarrow> worker \<Rightarrow> request \<Rightarrow> lease" where
  "make_lease env now w r =
     \<lparr>le_worker = wk_id w, le_request = rq_id r, le_reservation = rq_reservation_id r,
      le_port = wk_port w, le_api_key = ws_api_key (se_settings env),
      le_tokens = rq_estimated_tokens r, le_admitted_at = now, le_is_stream = rq_is_stream r,
      le_last_activity = (if rq_is_stream r then Some now else None)\<rparr>"

definition admit_popped :: "sched_env \<Rightarrow> datetime \<Rightarrow> worker \<Rightarrow> request \<Rightarrow> scheduler \<Rightarrow> scheduler" where
  "admit_popped env now w r s =
     (case admit (wk_id w) (rq_id r) (rq_estimated_tokens r) now (sc_sup s) of
        (sv, Inl e) \<Rightarrow> reject_popped env now False (wk_id w) r e (s\<lparr>sc_sup := sv\<rparr>)
      | (sv, Inr ()) \<Rightarrow>
          (case mark_request_admitted now (rq_id r) (wk_id w) (sc_db s) of
             (False, db) \<Rightarrow> reject_popped env now True (wk_id w) r
                (RuntimeError ''request is no longer queued'') (s\<lparr>sc_sup := sv, sc_db := db\<rparr>)
           | (True, db) \<Rightarrow>
               let l = make_lease env now w r;
                   s1 = s\<lparr>sc_sup := sv, sc_db := db,
                          sc_leases := AList.update (rq_id r) l (sc_leases s)\<rparr>
               in if waiting (rq_assignment r) s1 then set_future (rq_assignment r) (Result l) s1
                  else release_lease env now l
                         (release_quota env now (rq_reservation_id r) ''client_cancelled'' s1)))"

text \<open>
  One round of the inner \<open>while\<close>: \<open>None\<close> when \<open>pop\<close> never returns, and whether the loop goes on.
  An exception of \<open>pop\<close> leaves the method; the theory's invariant rules it out.
\<close>

datatype round = Again | Stop | Raised exn

definition route_round ::
  "sched_env \<Rightarrow> datetime \<Rightarrow> string \<Rightarrow> scheduler \<Rightarrow> (round \<times> scheduler) option" where
  "route_round env now mid s =
     (case for_model (sc_queues s) mid of (mq, q) \<Rightarrow>
        let s0 = s\<lparr>sc_queues := mq\<rparr>
        in if drr_len q = 0 then Some (Stop, s0)
           else case min_on wk_outstanding (ready_workers mid s0) of
             None \<Rightarrow> Some (Stop, s0)
           | Some w \<Rightarrow>
               (case drr_pop q of
                  None \<Rightarrow> None
                | Some (q', Inl e) \<Rightarrow> Some (Raised e, s0\<lparr>sc_queues := set_model mq mid q'\<rparr>)
                | Some (q', Inr None) \<Rightarrow> Some (Stop, s0\<lparr>sc_queues := set_model mq mid q'\<rparr>)
                | Some (q', Inr (Some r)) \<Rightarrow>
                    Some (Again, admit_popped env now w r (s0\<lparr>sc_queues := set_model mq mid q'\<rparr>))))"

text \<open>Every round that goes on takes one request, so the queue's length is enough fuel.\<close>

fun route_model ::
  "nat \<Rightarrow> sched_env \<Rightarrow> datetime \<Rightarrow> string \<Rightarrow> scheduler \<Rightarrow> (round \<times> scheduler) option" where
  "route_model 0 env now mid s = Some (Again, s)"
| "route_model (Suc n) env now mid s =
     (case route_round env now mid s of
        None \<Rightarrow> None
      | Some (Again, s') \<Rightarrow> route_model n env now mid s'
      | Some (res, s') \<Rightarrow> Some (res, s'))"

definition queue_length :: "string \<Rightarrow> scheduler \<Rightarrow> nat" where
  "queue_length mid s = nat (drr_len (snd (for_model (sc_queues s) mid)))"

fun route_models ::
  "sched_env \<Rightarrow> datetime \<Rightarrow> string list \<Rightarrow> scheduler \<Rightarrow> (exn option \<times> scheduler) option" where
  "route_models env now [] s = Some (None, s)"
| "route_models env now (mid # mids) s =
     (case route_model (Suc (queue_length mid s)) env now mid s of
        None \<Rightarrow> None
      | Some (Raised e, s') \<Rightarrow> Some (Some e, s')
      | Some (_, s') \<Rightarrow> route_models env now mids s')"

definition route_ready_work ::
  "sched_env \<Rightarrow> datetime \<Rightarrow> scheduler \<Rightarrow> (exn option \<times> scheduler) option" where
  "route_ready_work env now s = route_models env now (pending_models (sc_queues s)) s"


section \<open>Validation GPUs\<close>

definition overlapping_live :: "string list \<Rightarrow> scheduler \<Rightarrow> worker list" where
  "overlapping_live gpus s =
     filter (\<lambda>w. wk_state w \<noteq> COLD \<and> set (wk_gpu_uuids w) \<inter> set gpus \<noteq> {})
       (vals (sv_workers (sc_sup s)))"

text \<open>
  \<open>acquire_validation_gpus\<close> has two sections under the lock. The first refuses or reserves the GPUs
  and starts the transitions of the overlapping workers; the second runs when these are over, with
  the number of transitions that failed.
\<close>

definition acquire_begin ::
  "sched_env \<Rightarrow> datetime \<Rightarrow> string list \<Rightarrow> scheduler \<Rightarrow> (string list option) \<times> scheduler" where
  "acquire_begin env now gpus s =
     (let over = overlapping_live gpus s
      in if service_mode_of (sc_db s) \<noteq> ACTIVE \<or> sc_maintenance s
            \<or> pending_models (sc_queues s) \<noteq> []
            \<or> total_seconds (now - sc_last_arrival s) < se_validation_idle env
            \<or> set gpus \<inter> set (sc_validation s) \<noteq> {}
            \<or> (\<exists>w \<in> set over. wk_admitted w \<noteq> {})
            \<or> (\<exists>w \<in> set over. wk_state w \<notin> {READY, SLEEPING})
         then (None, s)
         else let s1 = s\<lparr>sc_validation := sc_validation s @ gpus\<rparr>
           in (Some (map wk_id over),
               if ram_weight_cache_enabled (se_settings env)
               then fold (\<lambda>w. with_sup env now (sleep_worker (se_settings env) (wk_id w) now))
                      (filter (\<lambda>w. wk_state w = READY) over) s1
               else fold (\<lambda>w. with_sup env now (spawn (StopTask (wk_id w) False))) over s1))"

definition unresolved_workers :: "string list \<Rightarrow> scheduler \<Rightarrow> string list" where
  "unresolved_workers ids s =
     filter (\<lambda>i. case get_worker (sc_sup s) i of
               None \<Rightarrow> False | Some w \<Rightarrow> wk_state w \<notin> {COLD, SLEEPING}) ids"

definition retained_workers :: "string list \<Rightarrow> scheduler \<Rightarrow> string list" where
  "retained_workers ids s =
     filter (\<lambda>i. case get_worker (sc_sup s) i of
               None \<Rightarrow> False | Some w \<Rightarrow> wk_state w = SLEEPING) ids"

definition acquire_finish ::
  "sched_env \<Rightarrow> datetime \<Rightarrow> string list \<Rightarrow> string list \<Rightarrow> nat \<Rightarrow> scheduler \<Rightarrow> bool \<times> scheduler" where
  "acquire_finish env now gpus ids failures s =
     (let unresolved = unresolved_workers ids s;
          demand = (pending_models (sc_queues s) \<noteq> []);
          uuids = JList (map JStr gpus);
          retained = JList (map JStr (retained_workers ids s))
      in if failures \<noteq> 0 \<or> unresolved \<noteq> [] \<or> demand
         then (False, log_event now
                 (if demand \<and> failures = 0 \<and> unresolved = [] then ''VALIDATION_GPUS_DEFERRED''
                  else ''VALIDATION_GPUS_ACQUIRE_FAILED'') None
                 [(''gpu_uuids'', uuids), (''transition_failures'', JInt (int failures)),
                  (''unresolved_worker_ids'', JList (map JStr unresolved)),
                  (''production_demand'', JBool demand),
                  (''preserved_cached_worker_ids'', retained)]
                 (s\<lparr>sc_validation := filter (\<lambda>g. g \<notin> set gpus) (sc_validation s)\<rparr>))
         else (True, log_event now ''VALIDATION_GPUS_ACQUIRED'' None
                 [(''gpu_uuids'', uuids), (''preserved_cached_worker_ids'', retained),
                  (''evicted_cached_worker_ids'',
                     JList (if ram_weight_cache_enabled (se_settings env) then []
                            else map JStr ids))] s))"

definition release_validation_gpus :: "datetime \<Rightarrow> string list \<Rightarrow> scheduler \<Rightarrow> scheduler" where
  "release_validation_gpus now gpus s =
     log_event now ''VALIDATION_GPUS_RELEASED'' None [(''gpu_uuids'', JList (map JStr gpus))]
       (s\<lparr>sc_validation := filter (\<lambda>g. g \<notin> set gpus) (sc_validation s)\<rparr>)"

definition validation_should_yield :: "scheduler \<Rightarrow> bool" where
  "validation_should_yield s \<longleftrightarrow>
     pending_models (sc_queues s) \<noteq> [] \<or> sc_closed s \<or> sc_maintenance s"

section \<open>Maintenance and shutdown\<close>

definition reject_queued :: "sched_env \<Rightarrow> datetime \<Rightarrow> request \<Rightarrow> scheduler \<Rightarrow> scheduler" where
  "reject_queued env now r s =
     release_quota env now (rq_reservation_id r) ''maintenance''
       (if waiting (rq_assignment r) s
        then set_future (rq_assignment r) (Failure (Rio MaintenanceError)) s else s)"

definition drain_workers :: "sched_env \<Rightarrow> datetime \<Rightarrow> scheduler \<Rightarrow> scheduler" where
  "drain_workers env now s =
     fold (\<lambda>wid. with_sup env now (drain wid now)) (keys (sv_workers (sc_sup s))) s"

definition enter_maintenance :: "sched_env \<Rightarrow> datetime \<Rightarrow> scheduler \<Rightarrow> scheduler" where
  "enter_maintenance env now s =
     (case mq_drain_all (sc_queues s) of (mq, rejected) \<Rightarrow>
        drain_workers env now
          (fold (reject_queued env now) rejected
             (s\<lparr>sc_maintenance := True, sc_queues := mq,
                sc_db := set_service_mode now MODE_DRAINING (sc_db s)\<rparr>)))"

definition all_cold :: "scheduler \<Rightarrow> bool" where
  "all_cold s \<longleftrightarrow> (\<forall>w \<in> set (vals (sv_workers (sc_sup s))). wk_state w = COLD)"

definition resume :: "datetime \<Rightarrow> scheduler \<Rightarrow> scheduler \<times> (exn + unit)" where
  "resume now s =
     (if \<not> all_cold s
      then (s, Inl (rio ''maintenance_not_ready'' ''Workers are still draining or stopping'' 409 []))
      else (s\<lparr>sc_db := set_service_mode now ACTIVE (sc_db s), sc_maintenance := False\<rparr>, Inr ()))"

definition close :: "sched_env \<Rightarrow> datetime \<Rightarrow> scheduler \<Rightarrow> scheduler" where
  "close env now s =
     with_sup env now (stop_all True now)
       (fold (\<lambda>l. release_quota env now (le_reservation l) ''service_shutdown'') (vals (sc_leases s))
          (s\<lparr>sc_closed := True\<rparr>))"

section \<open>Reconciliation: leases\<close>

definition stream_expired :: "datetime \<Rightarrow> rat \<Rightarrow> lease \<Rightarrow> bool" where
  "stream_expired now timeout l \<longleftrightarrow> le_is_stream l \<and>
     (case le_last_activity l of None \<Rightarrow> False | Some t \<Rightarrow> timeout \<le> total_seconds (now - t))"

definition expire_inactive_streams :: "sched_env \<Rightarrow> datetime \<Rightarrow> scheduler \<Rightarrow> scheduler" where
  "expire_inactive_streams env now s =
     (case se_stream_timeout env of
        None \<Rightarrow> s
      | Some timeout \<Rightarrow>
          fold (\<lambda>l s. log_event now ''WORKER_STREAM_IDLE_TIMEOUT'' (Some (le_worker l))
                   [(''request_id'', JStr (le_request l)), (''timeout_seconds'', JFloat timeout)]
                   (release_lease env now l
                     (release_quota env now (le_reservation l) ''worker_stream_idle_timeout'' s)))
            (filter (stream_expired now timeout) (vals (sc_leases s))) s)"

definition release_settled_leases :: "sched_env \<Rightarrow> datetime \<Rightarrow> scheduler \<Rightarrow> scheduler" where
  "release_settled_leases env now s =
     fold (release_lease env now)
       (map snd (filter (\<lambda>(rid, l). rid \<notin> admitted_request_ids (sc_db s)) (sc_leases s))) s"

definition drop_overdue :: "sched_env \<Rightarrow> datetime \<Rightarrow> string \<Rightarrow> scheduler \<Rightarrow> scheduler" where
  "drop_overdue env now rid s =
     (case map_of (sc_leases s) rid of
        None \<Rightarrow> s
      | Some l \<Rightarrow> release_quota env now (le_reservation l) ''drain_watchdog''
                    (s\<lparr>sc_leases := AList.delete rid (sc_leases s)\<rparr>))"

text \<open>
  The watchdogs: the workers' checks first, each with the requests it had admitted then; the forced
  stops are the supervisor's tasks.
\<close>

definition enforce_watchdogs :: "sched_env \<Rightarrow> datetime \<Rightarrow> scheduler \<Rightarrow> scheduler" where
  "enforce_watchdogs env now s =
     (let ids = keys (sv_workers (sc_sup s));
          (sv, overdue) = fold (\<lambda>wid (sv, acc).
              case watchdog_check (se_settings env) now wid sv of (sv', hit) \<Rightarrow> (sv', acc @ hit))
            ids (sc_sup s, [])
      in fold (\<lambda>(_, rids) s. fold (drop_overdue env now) (sorted_list_of_set rids) s) overdue
           (s\<lparr>sc_sup := sv\<rparr>))"

section \<open>Reconciliation: pressures\<close>

definition active_workers :: "string \<Rightarrow> scheduler \<Rightarrow> worker list" where
  "active_workers mid s =
     filter (\<lambda>w. wk_model_id w = mid \<and> wk_admitted w \<noteq> {}) (vals (sv_workers (sc_sup s)))"

definition model_pressure :: "string \<Rightarrow> scheduler \<Rightarrow> queue_pressure option" where
  "model_pressure mid s =
     (let q = snd (for_model (sc_queues s) mid);
          active = active_workers mid s;
          oldest = (case oldest_enqueued_at q of None \<Rightarrow> [] | Some t \<Rightarrow> [t])
                   @ map wk_last_demand_at active
      in if oldest = [] then None
         else Some \<lparr>qp_model_id = mid,
           qp_requests = drr_len q + (\<Sum>w\<leftarrow>active. int (card (wk_admitted w))),
           qp_estimated_tokens = estimated_token_work q + (\<Sum>w\<leftarrow>active. wk_outstanding w),
           qp_oldest_enqueued_at = Min (set oldest), qp_preload = False, qp_desired_workers = 1\<rparr>)"

definition demanded_models :: "scheduler \<Rightarrow> string list" where
  "demanded_models s =
     remdups (pending_models (sc_queues s)
       @ map wk_model_id (filter (\<lambda>w. wk_admitted w \<noteq> {}) (vals (sv_workers (sc_sup s)))))"

definition pressures :: "scheduler \<Rightarrow> scheduler \<times> queue_pressure list" where
  "pressures s =
     (fold (\<lambda>mid s. s\<lparr>sc_queues := fst (for_model (sc_queues s) mid)\<rparr>) (demanded_models s) s,
      List.map_filter (\<lambda>mid. model_pressure mid s) (demanded_models s))"

definition warm_models :: "scheduler \<Rightarrow> string set" where
  "warm_models s =
     wk_model_id ` set (filter (\<lambda>w. wk_state w \<in> {READY, SLEEPING}) (vals (sv_workers (sc_sup s))))"

definition warm_or_starting :: "string \<Rightarrow> scheduler \<Rightarrow> int" where
  "warm_or_starting mid s =
     int (length (filter (\<lambda>w. wk_model_id w = mid \<and> wk_state w \<notin> {COLD, STOPPING})
            (vals (sv_workers (sc_sup s)))))"

definition preload_pressures ::
  "datetime \<Rightarrow> string set \<Rightarrow> scheduler \<Rightarrow> queue_pressure list" where
  "preload_pressures now pressured s =
     map (\<lambda>(mid, desired). \<lparr>qp_model_id = mid, qp_requests = 0, qp_estimated_tokens = 1,
            qp_oldest_enqueued_at = now, qp_preload = True, qp_desired_workers = desired\<rparr>)
       (filter (\<lambda>(mid, desired). mid \<notin> pressured \<and> warm_or_starting mid s < desired)
          (sort_key fst (fold (\<lambda>mid. setdefault mid 1) (sc_warm_once s) (sc_preload s))))"

definition report_incompatible ::
  "datetime \<Rightarrow> (string \<Rightarrow> placement_profile list) \<Rightarrow> string \<Rightarrow> scheduler \<Rightarrow> scheduler" where
  "report_incompatible now profiles mid s =
     (if profiles mid \<noteq> [] \<and> \<not> (\<exists>p \<in> set (profiles mid). pf_memory_backend p = ''kvcached'')
         \<and> mid \<notin> set (sc_reported s)
      then log_event now ''PRISM_PROFILE_REVALIDATION_REQUIRED'' (Some mid) []
             (s\<lparr>sc_reported := sc_reported s @ [mid]\<rparr>)
      else s)"

definition is_sleep :: "planner_action \<Rightarrow> bool" where
  "is_sleep a = (case a of SleepPlacement _ _ \<Rightarrow> True | _ \<Rightarrow> False)"

text \<open>
  The planning part of \<open>_reconcile\<close>: the pressures with the preload requirements, the plan, and
  its actions in the order they are carried out, sleeps first. \<open>None\<close> is a plan that never returns.
\<close>

definition plan_actions ::
  "sched_env \<Rightarrow> datetime \<Rightarrow> (string \<Rightarrow> placement_profile list) \<Rightarrow> scheduler \<Rightarrow> scheduler option" where
  "plan_actions env now profiles s =
     (case pressures s of (s1, ps) \<Rightarrow>
        let s2 = s1\<lparr>sc_warm_once := filter (\<lambda>m. m \<notin> warm_models s1) (sc_warm_once s1)\<rparr>;
            all = ps @ preload_pressures now (qp_model_id ` set ps) s2;
            s3 = (if se_kvcached env
                  then fold (report_incompatible now profiles) (map qp_model_id all) s2 else s2)
        in map_option
             (\<lambda>actions. s3\<lparr>sc_todo := filter is_sleep actions @ filter (\<lambda>a. \<not> is_sleep a) actions\<rparr>)
             (plan (se_planner env) now (set (se_gpus env) - set (sc_validation s3))
                (vals (sv_workers (sc_sup s3))) all
                (map (\<lambda>p. (qp_model_id p, profiles (qp_model_id p))) all)))"

text \<open>\<open>_reconcile\<close> up to the actions; an exception of the routing ends it.\<close>

definition reconcile ::
  "sched_env \<Rightarrow> datetime \<Rightarrow> (string \<Rightarrow> placement_profile list) \<Rightarrow> scheduler \<Rightarrow> scheduler option" where
  "reconcile env now profiles s =
     (let s1 = enforce_watchdogs env now (release_settled_leases env now
                 (expire_inactive_streams env now s))
      in case service_mode_of (sc_db s1) of
           MODE_DRAINING \<Rightarrow>
             Some (if sc_validation s1 = [] \<and> all_cold s1
                   then s1\<lparr>sc_db := set_service_mode now MAINTENANCE_READY (sc_db s1)\<rparr> else s1)
         | MAINTENANCE_READY \<Rightarrow> Some s1
         | ACTIVE \<Rightarrow>
             (case route_ready_work env now s1 of
                None \<Rightarrow> None
              | Some (Some _, s2) \<Rightarrow> Some s2
              | Some (None, s2) \<Rightarrow> plan_actions env now profiles s2))"

section \<open>Reconciliation: actions\<close>

text \<open>
  \<open>launcher\<close> is the supervisor's \<open>launch\<close> with the machine's answers: profile, GPUs, model path and
  served name. An exception leaves \<open>_reconcile\<close>, so the rest of its actions is dropped.
\<close>

type_synonym launcher =
  "placement_profile \<Rightarrow> string list \<Rightarrow> string \<Rightarrow> string \<Rightarrow> supervisor \<Rightarrow> supervisor \<times> (exn + worker)"

definition launch_if_active ::
  "sched_env \<Rightarrow> datetime \<Rightarrow> launcher \<Rightarrow> placement_profile \<Rightarrow> string list \<Rightarrow> scheduler \<Rightarrow> scheduler" where
  "launch_if_active env now launcher p gpus s =
     (if sc_maintenance s \<or> service_mode_of (sc_db s) \<noteq> ACTIVE
         \<or> set gpus \<inter> set (sc_validation s) \<noteq> {} then s
      else
        let rejected = log_event now ''PLACEMENT_REJECTED'' (Some (pf_model_id p))
              [(''reason'', JStr ''artifact_path_missing'')] s
        in case model_by_id (pf_model_id p) (sc_db s) of
             None \<Rightarrow> rejected
           | Some m \<Rightarrow>
               (case mc_artifact_path m of
                  None \<Rightarrow> rejected
                | Some path \<Rightarrow>
                    if path = [] then rejected
                    else case launcher p gpus path (mc_nickname m) (sc_sup s) of (sv, res) \<Rightarrow>
                      deliver env now (s\<lparr>sc_sup := sv,
                        sc_todo := (case res of Inl _ \<Rightarrow> [] | Inr _ \<Rightarrow> sc_todo s)\<rparr>)))"

text \<open>
  \<open>_wake_if_active\<close> leaves the lock before it wakes the worker: \<open>sc_waking\<close> is the worker whose wake
  has been approved, and \<open>begin_wake\<close> starts it when its transition lock is free.
\<close>

definition wake_if_active :: "string \<Rightarrow> scheduler \<Rightarrow> scheduler" where
  "wake_if_active wid s =
     (case get_worker (sc_sup s) wid of
        None \<Rightarrow> s
      | Some w \<Rightarrow>
          if sc_maintenance s \<or> service_mode_of (sc_db s) \<noteq> ACTIVE
             \<or> set (wk_gpu_uuids w) \<inter> set (sc_validation s) \<noteq> {} then s
          else s\<lparr>sc_waking := Some wid\<rparr>)"

definition begin_wake :: "sched_env \<Rightarrow> datetime \<Rightarrow> scheduler \<Rightarrow> scheduler" where
  "begin_wake env now s =
     (case sc_waking s of
        None \<Rightarrow> s
      | Some wid \<Rightarrow>
          if ram_weight_cache_enabled (se_settings env) \<and> transition_locked (sc_sup s) wid then s
          else case wake_begin (se_settings env) wid (sc_sup s) of (sv, res) \<Rightarrow>
            deliver env now (s\<lparr>sc_sup := sv, sc_waking := None,
              sc_todo := (case res of Inl _ \<Rightarrow> [] | Inr _ \<Rightarrow> sc_todo s)\<rparr>))"

definition run_action ::
  "sched_env \<Rightarrow> datetime \<Rightarrow> launcher \<Rightarrow> planner_action \<Rightarrow> scheduler \<Rightarrow> scheduler" where
  "run_action env now launcher a s =
     (case a of
        SleepPlacement wid _ \<Rightarrow> with_sup env now (sleep_worker (se_settings env) wid now) s
      | DrainPlacement wid _ \<Rightarrow> with_sup env now (drain wid now) s
      | WakePlacement wid _ \<Rightarrow> wake_if_active wid s
      | StartPlacement p gpus _ \<Rightarrow> launch_if_active env now launcher p gpus s)"

definition next_action :: "sched_env \<Rightarrow> datetime \<Rightarrow> launcher \<Rightarrow> scheduler \<Rightarrow> scheduler" where
  "next_action env now launcher s =
     (case sc_todo s of
        [] \<Rightarrow> s
      | a # rest \<Rightarrow>
          if sc_waking s \<noteq> None then s
          else run_action env now launcher a (s\<lparr>sc_todo := rest\<rparr>))"

section \<open>Preloading\<close>

definition preloadable :: "model_row \<Rightarrow> bool" where
  "preloadable m \<longleftrightarrow> mc_state m = AVAILABLE
     \<and> (case mc_artifact_path m of None \<Rightarrow> False | Some p \<Rightarrow> p \<noteq> [])"

text \<open>\<open>_configure_prism\<close>, for an enabled runtime: the selected models, and what is skipped.\<close>

definition selected_models :: "string list \<Rightarrow> database \<Rightarrow> model_row list" where
  "selected_models selectors db =
     (if selectors = [''*''] then list_models None db
      else List.map_filter (\<lambda>n. find_row mc_nickname n (list_models None db)) selectors)"

definition preload_model :: "datetime \<Rightarrow> model_row \<Rightarrow> scheduler \<Rightarrow> scheduler" where
  "preload_model now m s =
     (if preloadable m
      then s\<lparr>sc_preload := AList.update (mc_id m)
               ((case map_of (sc_preload s) (mc_id m) of None \<Rightarrow> 0 | Some n \<Rightarrow> n) + 1) (sc_preload s)\<rparr>
      else log_event now ''PRISM_PRELOAD_SKIPPED'' (Some (mc_id m))
             [(''nickname'', JStr (mc_nickname m)), (''reason'', JStr ''model_not_available'')] s)"

definition configure_preload :: "datetime \<Rightarrow> string list \<Rightarrow> scheduler \<Rightarrow> scheduler" where
  "configure_preload now selectors s =
     (let selected = selected_models selectors (sc_db s);
          names = mc_nickname ` set selected;
          unknown = filter (\<lambda>n. n \<noteq> ''*'' \<and> n \<notin> names) selectors
      in fold (preload_model now) selected
           (fold (\<lambda>n. log_event now ''PRISM_PRELOAD_SKIPPED'' None
                      [(''nickname'', JStr n), (''reason'', JStr ''model_not_found'')]) unknown s))"

end
