(* ===== verification/SchedulerFrame.thy ===== *)
theory SchedulerFrame
  imports Scheduler
begin

text \<open>
  What each operation of \<^verbatim>\<open>src/src/llm_rio/runtime.py\<close> does to the other components: the parts of
  the state it leaves alone, the queues it keeps well formed, and the supervisor's steps it takes.
\<close>

section \<open>What an operation leaves alone\<close>

text \<open>The parts that routing, leases and the supervisor's events never change.\<close>

definition same_frame :: "scheduler \<Rightarrow> scheduler \<Rightarrow> bool" where
  "same_frame s s' \<longleftrightarrow> sc_validation s' = sc_validation s \<and> sc_maintenance s' = sc_maintenance s
     \<and> service_mode_of (sc_db s') = service_mode_of (sc_db s)"

lemma same_frame_refl [simp]: "same_frame s s"
  by (simp add: same_frame_def)

lemma same_frame_trans: "same_frame s s' \<Longrightarrow> same_frame s' s'' \<Longrightarrow> same_frame s s''"
  by (simp add: same_frame_def)

lemma service_settle:
  assumes "settle_quota lid now rid actual p k e db = Inr db'"
  shows "service_mode_of db' = service_mode_of db"
  using assms
  by (auto simp: settle_quota_def refund_account_def add_balance_def insert_or_ignore_ledger_def
      service_mode_of_def Let_def split: option.splits if_splits sum.splits)

lemma service_admitted [simp]:
  "service_mode_of (snd (mark_request_admitted now rid wid db)) = service_mode_of db"
  by (simp add: mark_request_admitted_def service_mode_of_def)

lemma release_quota_sel [simp]:
  "sc_sup (release_quota env now rid e s) = sc_sup s"
  "sc_queues (release_quota env now rid e s) = sc_queues s"
  "sc_futures (release_quota env now rid e s) = sc_futures s"
  "sc_leases (release_quota env now rid e s) = sc_leases s"
  "sc_validation (release_quota env now rid e s) = sc_validation s"
  "sc_maintenance (release_quota env now rid e s) = sc_maintenance s"
  "sc_todo (release_quota env now rid e s) = sc_todo s"
  "sc_waking (release_quota env now rid e s) = sc_waking s"
  "sc_closed (release_quota env now rid e s) = sc_closed s"
  "service_mode_of (sc_db (release_quota env now rid e s)) = service_mode_of (sc_db s)"
  by (auto simp: release_quota_def release_reservation_def dest: service_settle split: sum.splits)

lemma log_event_sel [simp]:
  "sc_sup (log_event now k i ps s) = sc_sup s" "sc_queues (log_event now k i ps s) = sc_queues s"
  "sc_futures (log_event now k i ps s) = sc_futures s"
  "sc_leases (log_event now k i ps s) = sc_leases s"
  "sc_validation (log_event now k i ps s) = sc_validation s"
  "sc_maintenance (log_event now k i ps s) = sc_maintenance s"
  "sc_todo (log_event now k i ps s) = sc_todo s" "sc_waking (log_event now k i ps s) = sc_waking s"
  "service_mode_of (sc_db (log_event now k i ps s)) = service_mode_of (sc_db s)"
  by (simp_all add: log_event_def record_runtime_event_def service_mode_of_def)

lemma set_future_sel [simp]:
  "sc_sup (set_future h v s) = sc_sup s" "sc_queues (set_future h v s) = sc_queues s"
  "sc_db (set_future h v s) = sc_db s" "sc_leases (set_future h v s) = sc_leases s"
  "sc_validation (set_future h v s) = sc_validation s"
  "sc_maintenance (set_future h v s) = sc_maintenance s"
  "sc_todo (set_future h v s) = sc_todo s" "sc_waking (set_future h v s) = sc_waking s"
  by (simp_all add: set_future_def split: option.splits)

text \<open>A fold of operations that each leave something alone leaves it alone.\<close>

lemma fold_same:
  assumes "\<And>x s. f (g x s) = f s"
  shows "f (fold g xs s) = f s"
  by (induction xs arbitrary: s) (simp_all add: assms)

lemma worker_event_sel [simp]:
  "sc_sup (worker_event env now wid e s) = sc_sup s"
  "sc_queues (worker_event env now wid e s) = sc_queues s"
  "sc_futures (worker_event env now wid e s) = sc_futures s"
  "sc_validation (worker_event env now wid e s) = sc_validation s"
  "sc_maintenance (worker_event env now wid e s) = sc_maintenance s"
  "sc_todo (worker_event env now wid e s) = sc_todo s"
  "sc_waking (worker_event env now wid e s) = sc_waking s"
  "service_mode_of (sc_db (worker_event env now wid e s)) = service_mode_of (sc_db s)"
  by (simp_all add: worker_event_def fold_same [where f = sc_sup] fold_same [where f = sc_queues]
      fold_same [where f = sc_futures] fold_same [where f = sc_validation]
      fold_same [where f = sc_maintenance] fold_same [where f = sc_todo]
      fold_same [where f = sc_waking] fold_same [where f = "\<lambda>s. service_mode_of (sc_db s)"])

lemma deliver_sel [simp]:
  "sc_sup (deliver env now s) = (sc_sup s)\<lparr>sv_emitted := []\<rparr>"
  "sc_queues (deliver env now s) = sc_queues s"
  "sc_futures (deliver env now s) = sc_futures s"
  "sc_validation (deliver env now s) = sc_validation s"
  "sc_maintenance (deliver env now s) = sc_maintenance s"
  "sc_todo (deliver env now s) = sc_todo s" "sc_waking (deliver env now s) = sc_waking s"
  "service_mode_of (sc_db (deliver env now s)) = service_mode_of (sc_db s)"
  by (simp_all add: deliver_def split_def fold_same [where f = sc_sup] fold_same [where f = sc_queues]
      fold_same [where f = sc_futures] fold_same [where f = sc_validation]
      fold_same [where f = sc_maintenance] fold_same [where f = sc_todo]
      fold_same [where f = sc_waking] fold_same [where f = "\<lambda>s. service_mode_of (sc_db s)"])

lemma with_sup_sel [simp]:
  "sc_sup (with_sup env now f s) = (f (sc_sup s))\<lparr>sv_emitted := []\<rparr>"
  "sc_queues (with_sup env now f s) = sc_queues s"
  "sc_futures (with_sup env now f s) = sc_futures s"
  "sc_validation (with_sup env now f s) = sc_validation s"
  "sc_maintenance (with_sup env now f s) = sc_maintenance s"
  "sc_todo (with_sup env now f s) = sc_todo s" "sc_waking (with_sup env now f s) = sc_waking s"
  "service_mode_of (sc_db (with_sup env now f s)) = service_mode_of (sc_db s)"
  by (simp_all add: with_sup_def)

lemma release_lease_sel [simp]:
  "sc_queues (release_lease env now l s) = sc_queues s"
  "sc_futures (release_lease env now l s) = sc_futures s"
  "sc_validation (release_lease env now l s) = sc_validation s"
  "sc_maintenance (release_lease env now l s) = sc_maintenance s"
  "sc_todo (release_lease env now l s) = sc_todo s"
  "sc_waking (release_lease env now l s) = sc_waking s"
  "service_mode_of (sc_db (release_lease env now l s)) = service_mode_of (sc_db s)"
  by (simp_all add: release_lease_def)

lemma reject_popped_sel [simp]:
  "sc_queues (reject_popped env now a wid r e s) = sc_queues s"
  "sc_validation (reject_popped env now a wid r e s) = sc_validation s"
  "sc_maintenance (reject_popped env now a wid r e s) = sc_maintenance s"
  "service_mode_of (sc_db (reject_popped env now a wid r e s)) = service_mode_of (sc_db s)"
  by (simp_all add: reject_popped_def Let_def)

text \<open>The outcomes of admitting a popped request.\<close>

definition leased ::
  "sched_env \<Rightarrow> datetime \<Rightarrow> worker \<Rightarrow> request \<Rightarrow> supervisor \<Rightarrow> scheduler \<Rightarrow> scheduler" where
  "leased env now w r sv s =
     s\<lparr>sc_sup := sv, sc_db := snd (mark_request_admitted now (rq_id r) (wk_id w) (sc_db s)),
       sc_leases := AList.update (rq_id r) (make_lease env now w r) (sc_leases s)\<rparr>"

lemma admit_popped_cases:
  obtains (refused) sv e where
      "admit (wk_id w) (rq_id r) (rq_estimated_tokens r) now (sc_sup s) = (sv, Inl e)"
      "admit_popped env now w r s = reject_popped env now False (wk_id w) r e (s\<lparr>sc_sup := sv\<rparr>)"
  | (stale) sv e where
      "admit (wk_id w) (rq_id r) (rq_estimated_tokens r) now (sc_sup s) = (sv, Inr ())"
      "\<not> fst (mark_request_admitted now (rq_id r) (wk_id w) (sc_db s))"
      "admit_popped env now w r s = reject_popped env now True (wk_id w) r e
         (s\<lparr>sc_sup := sv,
            sc_db := snd (mark_request_admitted now (rq_id r) (wk_id w) (sc_db s))\<rparr>)"
  | (served) sv where
      "admit (wk_id w) (rq_id r) (rq_estimated_tokens r) now (sc_sup s) = (sv, Inr ())"
      "fst (mark_request_admitted now (rq_id r) (wk_id w) (sc_db s))"
      "waiting (rq_assignment r) (leased env now w r sv s)"
      "admit_popped env now w r s =
         set_future (rq_assignment r) (Result (make_lease env now w r)) (leased env now w r sv s)"
  | (abandoned) sv where
      "admit (wk_id w) (rq_id r) (rq_estimated_tokens r) now (sc_sup s) = (sv, Inr ())"
      "fst (mark_request_admitted now (rq_id r) (wk_id w) (sc_db s))"
      "\<not> waiting (rq_assignment r) (leased env now w r sv s)"
      "admit_popped env now w r s = release_lease env now (make_lease env now w r)
         (release_quota env now (rq_reservation_id r) ''client_cancelled'' (leased env now w r sv s))"
proof (cases "admit (wk_id w) (rq_id r) (rq_estimated_tokens r) now (sc_sup s)")
  case (Pair sv res)
  show ?thesis
  proof (cases res)
    case (Inl e)
    with Pair show ?thesis by (intro refused) (simp_all only: admit_popped_def prod.case sum.case)
  next
    case (Inr u)
    then have a: "admit (wk_id w) (rq_id r) (rq_estimated_tokens r) now (sc_sup s) = (sv, Inr ())"
      using Pair by simp
    obtain ok db where m: "mark_request_admitted now (rq_id r) (wk_id w) (sc_db s) = (ok, db)"
      by fastforce
    show ?thesis
    proof (cases ok)
      case False
      with m have m': "mark_request_admitted now (rq_id r) (wk_id w) (sc_db s) = (False, db)" by simp
      then show ?thesis
        by (intro stale [OF a]) (simp_all only: admit_popped_def a m' prod.case sum.case bool.case case_unit_Unity not_False_eq_True fst_conv snd_conv)
    next
      case True
      with m have m': "mark_request_admitted now (rq_id r) (wk_id w) (sc_db s) = (True, db)" by simp
      show ?thesis
      proof (cases "waiting (rq_assignment r) (leased env now w r sv s)")
        case True
        then show ?thesis
          by (intro served [OF a])
            (simp_all only: leased_def admit_popped_def a m' prod.case sum.case bool.case case_unit_Unity not_False_eq_True Let_def
              fst_conv snd_conv if_True)
      next
        case False
        then show ?thesis
          by (intro abandoned [OF a])
            (simp_all only: leased_def admit_popped_def a m' prod.case sum.case bool.case case_unit_Unity not_False_eq_True Let_def
              fst_conv snd_conv if_False)
      qed
    qed
  qed
qed

lemma leased_sel [simp]:
  "sc_queues (leased env now w r sv s) = sc_queues s"
  "sc_validation (leased env now w r sv s) = sc_validation s"
  "sc_maintenance (leased env now w r sv s) = sc_maintenance s"
  "sc_futures (leased env now w r sv s) = sc_futures s"
  "sc_sup (leased env now w r sv s) = sv"
  "service_mode_of (sc_db (leased env now w r sv s)) = service_mode_of (sc_db s)"
  by (simp_all add: leased_def)

lemma admit_popped_sel [simp]:
  "sc_queues (admit_popped env now w r s) = sc_queues s"
  "sc_validation (admit_popped env now w r s) = sc_validation s"
  "sc_maintenance (admit_popped env now w r s) = sc_maintenance s"
  "service_mode_of (sc_db (admit_popped env now w r s)) = service_mode_of (sc_db s)"
  by (cases rule: admit_popped_cases [of w r now s env], simp_all)+

section \<open>Queues\<close>

definition waiting_requests :: "drr \<Rightarrow> request set" where
  "waiting_requests q = set (concat (vals (dq_queues q)))"

text \<open>A queue the scheduler can rely on; the estimates are counts of tokens.\<close>

definition drr_ok :: "drr \<Rightarrow> bool" where
  "drr_ok q \<longleftrightarrow> drr_wf q \<and> (\<forall>r \<in> waiting_requests q. 0 \<le> rq_estimated_tokens r)"

definition queues_ok :: "model_queues \<Rightarrow> bool" where
  "queues_ok mq \<longleftrightarrow> distinct (keys (mq_models mq)) \<and> list_all (\<lambda>(m, q). drr_ok q) (mq_models mq)"

definition queue_of :: "model_queues \<Rightarrow> string \<Rightarrow> drr" where
  "queue_of mq m =
     (case map_of (mq_models mq) m of
        Some q \<Rightarrow> q | None \<Rightarrow> drr_new (mq_total_capacity mq) (mq_tenant_capacity mq))"

lemma drr_new_ok: "drr_ok (drr_new a b)"
  using drr_new_wf by (simp add: drr_ok_def waiting_requests_def drr_new_def)

lemma drr_new_len [simp]: "drr_len (drr_new a b) = 0"
  by (simp add: drr_len_def drr_new_def)

lemma for_model_queue [simp]: "snd (for_model mq m) = queue_of mq m"
  by (auto simp: for_model_def queue_of_def Let_def map_of_setdefault split: option.splits)

lemma queue_of_for_model [simp]: "queue_of (fst (for_model mq m)) m' = queue_of mq m'"
  by (auto simp: for_model_def queue_of_def Let_def map_of_setdefault split: option.splits)

lemma queue_of_set_model [simp]:
  "queue_of (set_model mq m q) m' = (if m' = m then q else queue_of mq m')"
  by (auto simp: set_model_def queue_of_def map_of_update split: option.splits)

lemma queues_okD: "queues_ok mq \<Longrightarrow> drr_ok (queue_of mq m)"
  using list_all_map_ofD [where P = "\<lambda>(m, q). drr_ok q"]
  by (fastforce simp: queues_ok_def queue_of_def drr_new_ok split: option.splits)

lemma queues_ok_for_model [simp]: "queues_ok mq \<Longrightarrow> queues_ok (fst (for_model mq m))"
  by (simp add: queues_ok_def for_model_def Let_def distinct_setdefault list_all_setdefault
      drr_new_ok)

lemma queues_ok_set_model: "queues_ok mq \<Longrightarrow> drr_ok q \<Longrightarrow> queues_ok (set_model mq m q)"
  by (simp add: queues_ok_def set_model_def distinct_update list_all_update)

lemma pending_iff:
  assumes "queues_ok mq"
  shows "m \<in> set (pending_models mq) \<longleftrightarrow> drr_len (queue_of mq m) \<noteq> 0"
proof -
  have "distinct (keys (mq_models mq))" using assms by (simp add: queues_ok_def)
  then have "(m, q) \<in> set (mq_models mq) \<longleftrightarrow> map_of (mq_models mq) m = Some q" for q
    by simp
  then show ?thesis
    by (fastforce simp: pending_models_def queue_of_def split: option.splits)
qed

lemma no_pending:
  assumes "queues_ok mq"
  shows "pending_models mq = [] \<longleftrightarrow> (\<forall>m. drr_len (queue_of mq m) = 0)"
  using pending_iff [OF assms] by (metis empty_iff last_in_set list.set(1))

lemma drr_len_zero: "drr_ok q \<Longrightarrow> drr_len q = 0 \<longleftrightarrow> dq_queues q = []"
  using size_pos [of q] by (auto simp: drr_ok_def drr_len_def)

lemma drr_len_nonneg: "drr_ok q \<Longrightarrow> 0 \<le> drr_len q"
  using size_pos(2) [of q] by (simp add: drr_ok_def drr_len_def)

lemma tenant_view_waiting: "r \<in> set (tenant_view q t) \<Longrightarrow> r \<in> waiting_requests q"
  using map_of_SomeD [of "dq_queues q" t]
  by (cases "map_of (dq_queues q) t") (force simp: waiting_requests_def tenant_view_def)+

lemma pop_ok:
  assumes "drr_ok q" "drr_len q \<noteq> 0"
  obtains q' r where "drr_pop q = Some (q', Inr (Some r))" "drr_ok q'" "drr_len q' = drr_len q - 1"
    "0 \<le> rq_estimated_tokens r" "waiting_requests q = insert r (waiting_requests q')"
proof -
  have "drr_wf q" "dq_queues q \<noteq> []" using assms drr_len_zero by (auto simp: drr_ok_def)
  from drr_pop_serves [OF this] obtain q' r where q': "drr_pop q = Some (q', Inr (Some r))"
    "served q r q'" by blast
  have "mset (concat (vals (dq_queues q))) = add_mset r (mset (concat (vals (dq_queues q'))))"
    using q'(2) by (simp add: served_def)
  then have w: "waiting_requests q = insert r (waiting_requests q')"
    unfolding waiting_requests_def by (metis set_mset_add_mset_insert set_mset_mset)
  then show thesis
    using q' assms(1) by (intro that) (auto simp: served_def drr_ok_def drr_len_def)
qed

lemma put_ok:
  assumes "drr_ok q" "0 \<le> rq_estimated_tokens r" "drr_put q r = (q', res)"
  shows "drr_ok q'" "drr_len q' = (if res = Inr () then drr_len q + 1 else drr_len q)"
    "res = Inr () \<or> res = Inl (Rio QueueFullError)"
proof -
  have wf: "drr_wf q" using assms(1) by (simp add: drr_ok_def)
  have "drr_ok q' \<and> drr_len q' = (if res = Inr () then drr_len q + 1 else drr_len q)
    \<and> (res = Inr () \<or> res = Inl (Rio QueueFullError))"
  proof (cases "at_capacity (dq_total_capacity q) (dq_size q) \<or>
      at_capacity (dq_tenant_capacity q) (int (length (tenant_view q (rq_tenant_id r))))")
    case True
    with drr_put_full [OF wf True] assms show ?thesis by auto
  next
    case False
    have ok: "drr_wf q'" "res = Inr ()" "dq_size q' = dq_size q + 1"
      using drr_put_wf [OF wf, of r] drr_put_ok [of q r] False assms(3) by auto
    have "waiting_requests q' \<subseteq> insert r (waiting_requests q)"
    proof
      fix x assume "x \<in> waiting_requests q'"
      then obtain t tq where tq: "(t, tq) \<in> set (dq_queues q')" "x \<in> set tq"
        by (auto simp: waiting_requests_def)
      then have "x \<in> set (tenant_view q' t)" using tenant_view_mem [OF ok(1) tq(1)] by simp
      then have "x = r \<or> x \<in> set (tenant_view q t)"
        using drr_put_view [OF wf, of r q'] assms(3) ok(2) by (auto split: if_splits)
      then show "x \<in> insert r (waiting_requests q)"
        using tenant_view_waiting by blast
    qed
    then show ?thesis using ok assms(1,2) by (auto simp: drr_ok_def drr_len_def)
  qed
  then show "drr_ok q'" "drr_len q' = (if res = Inr () then drr_len q + 1 else drr_len q)"
    "res = Inr () \<or> res = Inl (Rio QueueFullError)" by auto
qed

lemma remove_ok:
  assumes "drr_ok q" "drr_remove q rid = (q', r)"
  shows "drr_ok q'" "drr_len q = 0 \<Longrightarrow> drr_len q' = 0"
proof -
  have wf: "drr_wf q" using assms(1) by (simp add: drr_ok_def)
  have "drr_ok q' \<and> (drr_len q = 0 \<longrightarrow> drr_len q' = 0)"
  proof (cases r)
    case None
    then show ?thesis using drr_remove_none [OF wf] assms by auto
  next
    case (Some x)
    note rs = drr_remove_some [OF wf assms(2) [unfolded Some]]
    have "waiting_requests q' \<subseteq> waiting_requests q"
    proof
      fix y assume "y \<in> waiting_requests q'"
      then obtain t tq where tq: "(t, tq) \<in> set (dq_queues q')" "y \<in> set tq"
        by (auto simp: waiting_requests_def)
      then have "y \<in> set (tenant_view q' t)" using tenant_view_mem [of q'] rs tq(1) by simp
      then have "y \<in> set (tenant_view q t)"
        using rs notin_set_remove1 by (metis)
      then show "y \<in> waiting_requests q"
        using tenant_view_waiting by blast
    qed
    moreover have "drr_len q \<noteq> 0"
      using rs drr_len_zero [OF assms(1)] by (auto simp: tenant_view_def split: option.splits)
    ultimately show ?thesis using rs assms(1) by (auto simp: drr_ok_def)
  qed
  then show "drr_ok q'" "drr_len q = 0 \<Longrightarrow> drr_len q' = 0" by auto
qed

lemma mq_remove_ok:
  assumes "queues_ok mq" "mq_remove mq m rid = (mq', r)"
  shows "queues_ok mq'" "pending_models mq = [] \<Longrightarrow> pending_models mq' = []"
proof -
  have "queues_ok mq' \<and> (\<forall>m'. drr_len (queue_of mq m') = 0 \<longrightarrow> drr_len (queue_of mq' m') = 0)"
  proof (cases "mq' = mq")
    case False
    then obtain q q' where q: "map_of (mq_models mq) m = Some q" "drr_remove q rid = (q', r)"
      "mq' = set_model mq m q'"
      using assms(2) by (auto simp: mq_remove_def split: option.splits if_splits prod.splits)
    have "queue_of mq m = q" using q(1) by (simp add: queue_of_def)
    then show ?thesis
      using q queues_ok_set_model [OF assms(1)] remove_ok [OF _ q(2)] queues_okD [OF assms(1), of m]
      by auto
  qed (use assms in simp)
  then show "queues_ok mq'" "pending_models mq = [] \<Longrightarrow> pending_models mq' = []"
    using no_pending [OF assms(1)] no_pending [of mq'] by auto
qed

lemma mq_drain_all_ok:
  assumes "queues_ok mq"
  shows "queues_ok (fst (mq_drain_all mq))" "pending_models (fst (mq_drain_all mq)) = []"
proof -
  have "drr_ok (fst (drr_drain q))" if "drr_ok q" for q
    using that drr_drain_spec(1) [of q] by (auto simp: drr_ok_def waiting_requests_def drr_drain_def)
  then show "queues_ok (fst (mq_drain_all mq))"
    using assms by (auto simp: queues_ok_def mq_drain_all_def list_all_iff split_def comp_def)
  show "pending_models (fst (mq_drain_all mq)) = []"
    by (auto simp: pending_models_def mq_drain_all_def drr_drain_def drr_len_def)
qed

section \<open>The supervisor under the scheduler\<close>

lemma workers_simps [simp]:
  "sv_workers (persist w sv) = sv_workers sv" "sv_workers (record_event k i sv) = sv_workers sv"
  "sv_workers (emit i e sv) = sv_workers sv" "sv_workers (cleanup i sv) = sv_workers sv"
  "sv_workers (spawn t sv) = sv_workers sv" "sv_workers (take_task t sv) = sv_workers sv"
  by (simp_all add: persist_def record_event_def emit_def cleanup_def spawn_def take_task_def)

lemma keys_set_worker [simp]:
  "get_worker sv i \<noteq> None \<Longrightarrow> keys (sv_workers (set_worker i w sv)) = keys (sv_workers sv)"
  by (auto simp: get_worker_def set_worker_def map_of_eq_None_iff intro!: keys_update_present)

lemma keys_drop_sleep [simp]:
  "keys (sv_workers (set_worker i w (sv\<lparr>sv_drain_to_sleep := d\<rparr>)))
     = keys (sv_workers (set_worker i w sv))"
  by (simp add: set_worker_def)

lemma op_keys:
  "keys (sv_workers (fail_worker i e sv)) = keys (sv_workers sv)"
  "keys (sv_workers (await_ready i pr now sv)) = keys (sv_workers sv)"
  "keys (sv_workers (monitor_exit i e sv)) = keys (sv_workers sv)"
  "keys (sv_workers (fst (admit i rid n now sv))) = keys (sv_workers sv)"
  "keys (sv_workers (release i rid n now sv)) = keys (sv_workers sv)"
  "keys (sv_workers (drain i now sv)) = keys (sv_workers sv)"
  "keys (sv_workers (sleep_worker st i now sv)) = keys (sv_workers sv)"
  "keys (sv_workers (fst (wake_begin st i sv))) = keys (sv_workers sv)"
  "keys (sv_workers (fst (watchdog_check st now i sv))) = keys (sv_workers sv)"
  by (auto simp: fail_worker_def await_ready_def monitor_exit_def admit_def release_def drain_def
      sleep_worker_def wake_begin_def watchdog_check_def Let_def split: option.splits probe.splits)

lemma stop_all_keys: "keys (sv_workers (stop_all force now sv)) = keys (sv_workers sv)"
proof -
  have "keys (sv_workers (fold (\<lambda>wid. drain wid now) ids sv)) = keys (sv_workers sv)" for ids sv
    by (induction ids arbitrary: sv) (simp_all add: op_keys)
  moreover have "sv_workers (fold (\<lambda>wid. spawn (StopTask wid force)) ids sv) = sv_workers sv" for ids sv
    by (induction ids arbitrary: sv) simp_all
  ultimately show ?thesis by (simp add: stop_all_def Let_def)
qed

text \<open>
  A run of the supervisor: its steps and the deliveries of its events; \<open>launches\<close> tells whether
  workers may be added.
\<close>

inductive sup_run :: "supervisor_settings \<Rightarrow> bool \<Rightarrow> supervisor \<Rightarrow> supervisor \<Rightarrow> bool"
  for st :: supervisor_settings and launches :: bool where
  refl: "sup_run st launches sv sv"
| step: "sup_run st launches sv sv' \<Longrightarrow> sup_step st sv' sv'' \<Longrightarrow>
    launches \<or> keys (sv_workers sv'') = keys (sv_workers sv') \<Longrightarrow> sup_run st launches sv sv''"
| delivered: "sup_run st launches sv sv' \<Longrightarrow> sup_run st launches sv (sv'\<lparr>sv_emitted := es\<rparr>)"

declare sup_run.refl [simp, intro]

lemma sup_run_trans: "sup_run st b sv' sv'' \<Longrightarrow> sup_run st b sv sv' \<Longrightarrow> sup_run st b sv sv''"
  by (induction rule: sup_run.induct) (auto intro: sup_run.intros)

lemma sup_run_launches: "sup_run st b sv sv' \<Longrightarrow> sup_run st True sv sv'"
  by (induction rule: sup_run.induct) (auto intro: sup_run.intros)

lemma sup_run_one:
  "sup_step st sv sv' \<Longrightarrow> keys (sv_workers sv') = keys (sv_workers sv) \<Longrightarrow> sup_run st b sv sv'"
  by (rule sup_run.step [OF sup_run.refl]) auto

lemma emitted_simps [simp]:
  "get_worker (sv\<lparr>sv_emitted := es\<rparr>) i = get_worker sv i"
  "sup_inv (sv\<lparr>sv_emitted := es\<rparr>) = sup_inv sv" "cold (sv\<lparr>sv_emitted := es\<rparr>) i = cold sv i"
  by (simp_all add: sup_inv_def get_worker_def finishers_def cold_def)

lemma run_inv: "sup_run st b sv sv' \<Longrightarrow> sup_inv sv \<Longrightarrow> sup_inv sv'"
  by (induction rule: sup_run.induct) (auto intro: step_inv)

lemma run_cold: "sup_run st b sv sv' \<Longrightarrow> cold sv i \<Longrightarrow> cold sv' i"
  by (induction rule: sup_run.induct) (auto intro: cold_step)

lemma run_keys: "sup_run st False sv sv' \<Longrightarrow> keys (sv_workers sv') = keys (sv_workers sv)"
  by (induction rule: sup_run.induct) simp_all

lemma launch_keys:
  assumes "wid \<notin> set (keys (sv_workers sv))" "distinct (keys (sv_workers sv))"
  shows "distinct (keys (sv_workers (fst (launch st wid now p gpus path name parsers env kenv outcome sv))))"
  using assms
  by (auto simp: launch_def Let_def cleanup_def distinct_update distinct_delete
      split: option.splits sum.splits spawn_outcome.splits)

lemma step_distinct:
  "sup_step st sv sv' \<Longrightarrow> distinct (keys (sv_workers sv)) \<Longrightarrow> distinct (keys (sv_workers sv'))"
proof (induction rule: sup_step.induct)
  case (launch wid sv now p gpus path name parsers env kenv outcome)
  then show ?case by (rule launch_keys)
qed (auto simp: op_keys stop_all_keys offload_begin_def stop_begin_def offload_finish_def
    wake_finish_def stop_finish_def Let_def split: option.splits)

lemma run_distinct:
  "sup_run st b sv sv' \<Longrightarrow> distinct (keys (sv_workers sv)) \<Longrightarrow> distinct (keys (sv_workers sv'))"
  by (induction rule: sup_run.induct) (simp_all add: step_distinct)

text \<open>All workers are cold: as the code tests it, and per worker.\<close>

lemma all_cold_iff:
  assumes "distinct (keys (sv_workers (sc_sup s)))"
  shows "all_cold s \<longleftrightarrow> (\<forall>i \<in> set (keys (sv_workers (sc_sup s))). cold (sc_sup s) i)"
proof -
  have "(k, w) \<in> set (sv_workers (sc_sup s)) \<longleftrightarrow> get_worker (sc_sup s) k = Some w" for k w
    using assms by (simp add: get_worker_def)
  then show ?thesis by (fastforce simp: all_cold_def cold_def)
qed

lemma all_cold_run:
  assumes "sup_run st False (sc_sup s) (sc_sup s')" "distinct (keys (sv_workers (sc_sup s)))"
    "all_cold s"
  shows "all_cold s'"
proof -
  have "keys (sv_workers (sc_sup s')) = keys (sv_workers (sc_sup s))" using assms(1) by (rule run_keys)
  then show ?thesis
    using assms all_cold_iff [of s] all_cold_iff [of s'] run_cold [OF assms(1)] by simp
qed

section \<open>Every operation moves the supervisor by its steps\<close>

abbreviation sup_moves :: "sched_env \<Rightarrow> bool \<Rightarrow> scheduler \<Rightarrow> scheduler \<Rightarrow> bool" where
  "sup_moves env b s s' \<equiv> sup_run (se_settings env) b (sc_sup s) (sc_sup s')"

lemma moves_with_sup:
  assumes "sup_step (se_settings env) (sc_sup s) (f (sc_sup s))"
    "keys (sv_workers (f (sc_sup s))) = keys (sv_workers (sc_sup s))"
  shows "sup_moves env b s (with_sup env now f s)"
  using sup_run.delivered [OF sup_run_one [OF assms]] by simp

lemma moves_fold:
  assumes "\<And>x s. x \<in> set xs \<Longrightarrow> sup_moves env b s (g x s)"
  shows "sup_moves env b s (fold g xs s)"
  using assms
proof (induction xs arbitrary: s)
  case (Cons x xs)
  have "sup_moves env b s (g x s)" "sup_moves env b (g x s) (fold g xs (g x s))"
    using Cons by auto
  then show ?case using sup_run_trans by (simp add: sup_run_trans)
qed simp

lemma moves_release_lease: "sup_moves env b s (release_lease env now l s)"
  unfolding release_lease_def
  using moves_with_sup [of env "s\<lparr>sc_leases := AList.delete (le_request l) (sc_leases s)\<rparr>"
      "release (le_worker l) (le_request l) (le_tokens l) now" b now]
  by (auto intro: sup_step.release simp: op_keys)

lemma moves_reject:
  "sup_moves env b s (reject_popped env now a wid r e s)"
proof -
  have "sup_moves env b s (with_sup env now (release wid (rq_id r) (rq_estimated_tokens r) now) s)"
    by (rule moves_with_sup) (simp_all add: sup_step.release op_keys)
  then show ?thesis by (simp add: reject_popped_def Let_def)
qed

lemma moves_admit_popped:
  assumes "0 \<le> rq_estimated_tokens r"
  shows "sup_moves env b s (admit_popped env now w r s)"
proof -
  let ?a = "admit (wk_id w) (rq_id r) (rq_estimated_tokens r) now (sc_sup s)"
  have adm: "sup_run (se_settings env) b (sc_sup s) (fst ?a)"
    using assms by (intro sup_run_one sup_step.admit) (simp_all add: op_keys)
  show ?thesis
  proof (cases rule: admit_popped_cases [of w r now s env])
    case (refused sv e)
    have "sc_sup (s\<lparr>sc_sup := sv\<rparr>) = fst ?a" using refused(1) by simp
    then show ?thesis using sup_run_trans [OF moves_reject] adm refused(2) by simp
  next
    case (stale sv e)
    have "sc_sup (s\<lparr>sc_sup := sv, sc_db := db\<rparr>) = fst ?a" for db using stale(1) by simp
    then show ?thesis using sup_run_trans [OF moves_reject] adm stale(3) by simp
  next
    case (served sv)
    then show ?thesis using adm by simp
  next
    case (abandoned sv)
    have "sc_sup (release_quota env now (rq_reservation_id r) ''client_cancelled''
        (leased env now w r sv s)) = fst ?a" using abandoned(1) by simp
    then show ?thesis using sup_run_trans [OF moves_release_lease] adm abandoned(4) by simp
  qed
qed

lemma moves_log [simp]: "sup_moves env b s (log_event now k i ps s)" by simp

lemma moves_drains: "sup_moves env b s (drain_workers env now s)"
  unfolding drain_workers_def
  by (intro moves_fold moves_with_sup) (simp_all add: sup_step.drain op_keys)

lemma moves_expire: "sup_moves env b s (expire_inactive_streams env now s)"
proof -
  have "sup_moves env b s (log_event now k i ps (release_lease env now l
      (release_quota env now rid e s)))" for k i ps l rid e s
    using moves_release_lease [of env b "release_quota env now rid e s" now l] by simp
  then show ?thesis
    unfolding expire_inactive_streams_def by (auto split: option.splits intro!: moves_fold)
qed

lemma moves_release_settled: "sup_moves env b s (release_settled_leases env now s)"
  unfolding release_settled_leases_def by (intro moves_fold moves_release_lease)

lemma fold_watchdogs:
  "sup_run st b sv (fst (fold (\<lambda>wid (sv, acc).
      case watchdog_check st now wid sv of (sv', hit) \<Rightarrow> (sv', acc @ hit)) ids (sv, acc)))"
proof (induction ids arbitrary: sv acc)
  case (Cons i ids)
  have "sup_run st b sv (fst (watchdog_check st now i sv))"
    by (intro sup_run_one sup_step.watchdog) (simp add: op_keys)
  with Cons.IH [of "fst (watchdog_check st now i sv)"] show ?case
    by (auto simp: split_def intro: sup_run_trans)
qed simp

lemma drop_overdue_sel [simp]:
  "sc_sup (drop_overdue env now rid s) = sc_sup s"
  "sc_queues (drop_overdue env now rid s) = sc_queues s"
  "sc_validation (drop_overdue env now rid s) = sc_validation s"
  "sc_maintenance (drop_overdue env now rid s) = sc_maintenance s"
  "service_mode_of (sc_db (drop_overdue env now rid s)) = service_mode_of (sc_db s)"
  by (auto simp: drop_overdue_def split: option.splits)

lemma drop_all_sel [simp]:
  "sc_sup (fold (drop_overdue env now) rids s) = sc_sup s"
  "sc_queues (fold (drop_overdue env now) rids s) = sc_queues s"
  "sc_validation (fold (drop_overdue env now) rids s) = sc_validation s"
  "sc_maintenance (fold (drop_overdue env now) rids s) = sc_maintenance s"
  "service_mode_of (sc_db (fold (drop_overdue env now) rids s)) = service_mode_of (sc_db s)"
  by (simp_all add: fold_same [where f = sc_sup] fold_same [where f = sc_queues]
      fold_same [where f = sc_validation] fold_same [where f = sc_maintenance]
      fold_same [where f = "\<lambda>s. service_mode_of (sc_db s)"])

lemma watchdogs_sel [simp]:
  "sc_queues (enforce_watchdogs env now s) = sc_queues s"
  "sc_validation (enforce_watchdogs env now s) = sc_validation s"
  "sc_maintenance (enforce_watchdogs env now s) = sc_maintenance s"
  "service_mode_of (sc_db (enforce_watchdogs env now s)) = service_mode_of (sc_db s)"
  by (simp_all add: enforce_watchdogs_def Let_def split_def fold_same [where f = sc_queues]
      fold_same [where f = sc_validation] fold_same [where f = sc_maintenance]
      fold_same [where f = "\<lambda>s. service_mode_of (sc_db s)"])

lemma moves_watchdogs: "sup_moves env b s (enforce_watchdogs env now s)"
  using fold_watchdogs [of "se_settings env" b "sc_sup s" now]
  by (simp add: enforce_watchdogs_def Let_def split_def fold_same [where f = sc_sup])

lemma lease_upkeep_sel [simp]:
  "sc_queues (release_settled_leases env now s) = sc_queues s"
  "sc_validation (release_settled_leases env now s) = sc_validation s"
  "sc_maintenance (release_settled_leases env now s) = sc_maintenance s"
  "service_mode_of (sc_db (release_settled_leases env now s)) = service_mode_of (sc_db s)"
  "sc_queues (expire_inactive_streams env now s) = sc_queues s"
  "sc_validation (expire_inactive_streams env now s) = sc_validation s"
  "sc_maintenance (expire_inactive_streams env now s) = sc_maintenance s"
  "service_mode_of (sc_db (expire_inactive_streams env now s)) = service_mode_of (sc_db s)"
  by (simp_all add: release_settled_leases_def expire_inactive_streams_def fold_same [where f = sc_queues]
      fold_same [where f = sc_validation] fold_same [where f = sc_maintenance]
      fold_same [where f = "\<lambda>s. service_mode_of (sc_db s)"] split: option.splits)

lemma moves_acquire: "sup_moves env b s (snd (acquire_begin env now gpus s))"
proof -
  have "sup_moves env b s (with_sup env now (sleep_worker (se_settings env) i now) s)"
    "sup_moves env b s (with_sup env now (spawn (StopTask i False)) s)" for i s
    by (intro moves_with_sup; simp add: sup_step.sleep sup_step.stop_request op_keys)+
  then have f: "sup_moves env b s' (fold (\<lambda>w. with_sup env now (sleep_worker (se_settings env) (wk_id w) now)) ws s')"
    "sup_moves env b s' (fold (\<lambda>w. with_sup env now (spawn (StopTask (wk_id w) False))) ws s')" for ws s'
    by (intro moves_fold; simp)+
  have "sc_sup (s\<lparr>sc_validation := sc_validation s @ gpus\<rparr>) = sc_sup s" by simp
  with f [of "s\<lparr>sc_validation := sc_validation s @ gpus\<rparr>"] show ?thesis
    by (auto simp: acquire_begin_def Let_def simp del: with_sup_sel)
qed

lemma moves_begin_wake: "sup_moves env b s (begin_wake env now s)"
proof (cases "sc_waking s")
  case (Some wid)
  have off: "fst (wake_begin (se_settings env) wid (sc_sup s)) = sc_sup s"
    if "\<not> ram_weight_cache_enabled (se_settings env)" using that by (simp add: wake_begin_def)
  have "sup_run (se_settings env) b (sc_sup s) (fst (wake_begin (se_settings env) wid (sc_sup s)))"
    if "\<not> transition_locked (sc_sup s) wid"
    using that by (intro sup_run_one sup_step.wake) (simp_all add: op_keys)
  with off have "\<not> (ram_weight_cache_enabled (se_settings env) \<and> transition_locked (sc_sup s) wid) \<Longrightarrow>
      sup_run (se_settings env) b (sc_sup s) (fst (wake_begin (se_settings env) wid (sc_sup s)))"
    by fastforce
  then show ?thesis using Some
    by (auto simp: begin_wake_def split_def intro: sup_run.delivered)
qed (simp add: begin_wake_def)

end
