(* ===== verification/SchedulerSteps.thy ===== *)
theory SchedulerSteps
  imports SchedulerFrame
begin

text \<open>
  The scheduler as a system of steps: routing, the step relation over every operation of
  \<^verbatim>\<open>src/src/llm_rio/runtime.py\<close>, and the invariant of its reachable states.
\<close>

section \<open>Routing\<close>

text \<open>Who is ready, by model: routing changes no worker's state.\<close>

definition readiness :: "supervisor \<Rightarrow> (string \<times> string \<times> bool) list" where
  "readiness sv = map (\<lambda>(k, w). (k, wk_model_id w, is_routable w)) (sv_workers sv)"

lemma readiness_emitted [simp]: "readiness (sv\<lparr>sv_emitted := es\<rparr>) = readiness sv"
  by (simp add: readiness_def)

lemma readiness_set_worker:
  assumes "distinct (keys (sv_workers sv))" "get_worker sv i = Some w"
    "wk_model_id w' = wk_model_id w" "is_routable w' = is_routable w"
  shows "readiness (set_worker i w' sv) = readiness sv"
proof -
  obtain l r where "sv_workers sv = l @ (i, w) # r"
    "AList.update i w' (sv_workers sv) = l @ (i, w') # r"
    using update_split [OF assms(1), of i w w'] assms(2) by (auto simp: get_worker_def)
  then show ?thesis using assms(3,4) by (simp add: readiness_def set_worker_def)
qed

lemma readiness_admit:
  "distinct (keys (sv_workers sv)) \<Longrightarrow> readiness (fst (admit i rid n now sv)) = readiness sv"
  by (auto simp: admit_def is_routable_def intro!: readiness_set_worker split: option.splits)

lemma readiness_release:
  assumes "distinct (keys (sv_workers sv))"
  shows "readiness (release i rid n now sv) = readiness sv"
proof (cases "get_worker sv i")
  case (Some w)
  have cong: "readiness (emit i e sv') = readiness sv'" "readiness (spawn t sv') = readiness sv'" for e t sv'
    by (simp_all add: readiness_def)
  have "readiness (set_worker i (w\<lparr>wk_admitted := a, wk_last_demand_at := now, wk_outstanding := b\<rparr>) sv)
      = readiness sv" for a b
    by (rule readiness_set_worker [OF assms Some]) (simp_all add: is_routable_def)
  then show ?thesis using Some by (simp add: release_def Let_def cong)
qed (simp add: release_def)

lemma readiness_release_lease:
  "distinct (keys (sv_workers (sc_sup s))) \<Longrightarrow>
     readiness (sc_sup (release_lease env now l s)) = readiness (sc_sup s)"
  by (simp add: release_lease_def readiness_release)

lemma readiness_reject:
  "distinct (keys (sv_workers (sc_sup s))) \<Longrightarrow>
     readiness (sc_sup (reject_popped env now a wid r e s)) = readiness (sc_sup s)"
  by (simp add: reject_popped_def Let_def readiness_release)

lemma readiness_admit_popped:
  assumes "distinct (keys (sv_workers (sc_sup s)))"
  shows "readiness (sc_sup (admit_popped env now w r s)) = readiness (sc_sup s)"
proof -
  let ?a = "admit (wk_id w) (rq_id r) (rq_estimated_tokens r) now (sc_sup s)"
  note a = readiness_admit [OF assms, of "wk_id w" "rq_id r" "rq_estimated_tokens r" now]
  have d: "distinct (keys (sv_workers (fst ?a)))" using assms by (simp add: op_keys)
  show ?thesis
    by (cases rule: admit_popped_cases [of w r now s env])
      (use a d in \<open>auto simp: readiness_reject readiness_release_lease\<close>)
qed

lemma ready_workers_readiness:
  "ready_workers mid s = [] \<longleftrightarrow> (\<forall>(k, m, ready) \<in> set (readiness (sc_sup s)). m = mid \<longrightarrow> \<not> ready)"
  by (auto simp: ready_workers_def readiness_def filter_empty_conv)

lemma distinct_admit_popped:
  "0 \<le> rq_estimated_tokens r \<Longrightarrow> distinct (keys (sv_workers (sc_sup s))) \<Longrightarrow>
     distinct (keys (sv_workers (sc_sup (admit_popped env now w r s))))"
  using run_distinct [OF moves_admit_popped] by blast

text \<open>The future of a popped request is decided, and no decided future waits again.\<close>

lemma waiting_cong: "sc_futures s = sc_futures s' \<Longrightarrow> waiting h s = waiting h s'"
  by (simp add: waiting_def split: option.splits)

lemma waiting_set_future:
  "v \<noteq> Waiting \<Longrightarrow> waiting h (set_future h' v s) \<longleftrightarrow> waiting h s \<and> h \<noteq> h'"
  by (auto simp: waiting_def set_future_def map_of_update split: option.splits)

lemma waiting_reject:
  "waiting h (reject_popped env now a wid r e s) \<longleftrightarrow> waiting h s \<and> h \<noteq> rq_assignment r"
proof -
  have w: "waiting h (release_quota env now rid x s') = waiting h s'"
    "waiting h (with_sup env now f s') = waiting h s'" for h rid x f s'
    by (rule waiting_cong; simp)+
  show ?thesis by (auto simp: reject_popped_def Let_def waiting_set_future w)
qed

lemma waiting_admit_popped:
  "waiting h (admit_popped env now w r s) \<longleftrightarrow> waiting h s \<and> h \<noteq> rq_assignment r"
proof (cases rule: admit_popped_cases [of w r now s env])
  case (refused sv e)
  have "waiting h (s\<lparr>sc_sup := sv\<rparr>) = waiting h s" by (rule waiting_cong) simp
  then show ?thesis using refused(2) by (simp add: waiting_reject)
next
  case (stale sv e)
  have "waiting h (s\<lparr>sc_sup := sv, sc_db := db\<rparr>) = waiting h s" for db by (rule waiting_cong) simp
  then show ?thesis using stale(3) by (simp add: waiting_reject)
next
  case (served sv)
  have "waiting h (leased env now w r sv s) = waiting h s" by (rule waiting_cong) simp
  then show ?thesis using served(4) by (simp add: waiting_set_future)
next
  case (abandoned sv)
  have l: "waiting h (leased env now w r sv s) = waiting h s" for h by (rule waiting_cong) simp
  have "waiting h (admit_popped env now w r s) = waiting h s"
    unfolding abandoned(4) by (rule waiting_cong) simp
  then show ?thesis using abandoned(3) l by auto
qed

text \<open>What a round does: it stops, or serves one request of the model and changes no other queue.\<close>

definition blocked :: "string \<Rightarrow> scheduler \<Rightarrow> bool" where
  "blocked mid s \<longleftrightarrow> drr_len (queue_of (sc_queues s) mid) = 0 \<or> ready_workers mid s = []"

definition routed :: "sched_env \<Rightarrow> scheduler \<Rightarrow> scheduler \<Rightarrow> bool" where
  "routed env s s' \<longleftrightarrow>
     queues_ok (sc_queues s') \<and> distinct (keys (sv_workers (sc_sup s')))
     \<and> readiness (sc_sup s') = readiness (sc_sup s) \<and> same_frame s s' \<and> sup_moves env False s s'
     \<and> (\<forall>h. waiting h s' \<longrightarrow> waiting h s)
     \<and> (\<forall>m. drr_len (queue_of (sc_queues s') m) \<le> drr_len (queue_of (sc_queues s) m)
          \<and> (\<forall>r \<in> waiting_requests (queue_of (sc_queues s) m).
               r \<in> waiting_requests (queue_of (sc_queues s') m) \<or> \<not> waiting (rq_assignment r) s'))"

lemma routed_refl:
  "queues_ok (sc_queues s) \<Longrightarrow> distinct (keys (sv_workers (sc_sup s))) \<Longrightarrow> routed env s s"
  by (simp add: routed_def)

lemma routed_trans:
  assumes "routed env s s'" "routed env s' s''"
  shows "routed env s s''"
proof -
  have q: "drr_len (queue_of (sc_queues s'') m) \<le> drr_len (queue_of (sc_queues s) m)
      \<and> (\<forall>r \<in> waiting_requests (queue_of (sc_queues s) m).
           r \<in> waiting_requests (queue_of (sc_queues s'') m) \<or> \<not> waiting (rq_assignment r) s'')" for m
    using assms unfolding routed_def by (meson order_trans)
  have "\<forall>h. waiting h s'' \<longrightarrow> waiting h s" "same_frame s s''" "sup_moves env False s s''"
    using assms same_frame_trans sup_run_trans unfolding routed_def by blast+
  then show ?thesis using assms q by (simp add: routed_def)
qed

lemma blocked_routed:
  assumes "routed env s s'" "blocked m s"
  shows "blocked m s'"
proof -
  have "queues_ok (sc_queues s')" using assms(1) by (simp add: routed_def)
  then have "0 \<le> drr_len (queue_of (sc_queues s') m)" by (intro drr_len_nonneg queues_okD)
  moreover have "drr_len (queue_of (sc_queues s') m) \<le> drr_len (queue_of (sc_queues s) m)"
    "readiness (sc_sup s') = readiness (sc_sup s)"
    using assms(1) by (simp_all add: routed_def)
  ultimately show ?thesis using assms(2) by (auto simp: blocked_def ready_workers_readiness)
qed

lemma route_round_spec:
  assumes "queues_ok (sc_queues s)" "distinct (keys (sv_workers (sc_sup s)))"
  obtains (stops) s' where "route_round env now mid s = Some (Stop, s')" "routed env s s'" "blocked mid s'"
  | (serves) s' where "route_round env now mid s = Some (Again, s')" "routed env s s'"
      "drr_len (queue_of (sc_queues s') mid) = drr_len (queue_of (sc_queues s) mid) - 1"
      "0 < drr_len (queue_of (sc_queues s) mid)"
proof -
  obtain mq q where f: "for_model (sc_queues s) mid = (mq, q)" by fastforce
  then have mq: "mq = fst (for_model (sc_queues s) mid)" and q: "q = queue_of (sc_queues s) mid"
    using for_model_queue [of "sc_queues s" mid] by auto
  have mok: "queues_ok mq" using assms(1) mq by simp
  have qo: "queue_of mq m = queue_of (sc_queues s) m" for m using mq by simp
  have qok: "drr_ok q" using queues_okD [OF assms(1)] q by simp
  let ?s0 = "s\<lparr>sc_queues := mq\<rparr>"
  have w0: "waiting h ?s0 = waiting h s" for h by (rule waiting_cong) simp
  have r0: "routed env s ?s0"
    using assms(2) mok by (auto simp: routed_def same_frame_def qo w0)
  show thesis
  proof (cases "drr_len q = 0 \<or> ready_workers mid ?s0 = []")
    case True
    then have "route_round env now mid s = Some (Stop, ?s0)"
      using f by (auto simp: route_round_def Let_def)
    moreover have "blocked mid ?s0" using True q qo by (simp add: blocked_def)
    ultimately show thesis using r0 stops by blast
  next
    case False
    then obtain w where w: "min_on wk_outstanding (ready_workers mid ?s0) = Some w"
      by (cases "min_on wk_outstanding (ready_workers mid ?s0)") auto
    from False obtain q' r where p: "drr_pop q = Some (q', Inr (Some r))" "drr_ok q'"
      "drr_len q' = drr_len q - 1" "0 \<le> rq_estimated_tokens r"
      "waiting_requests q = insert r (waiting_requests q')"
      using pop_ok [OF qok] by blast
    let ?s1 = "s\<lparr>sc_queues := set_model mq mid q'\<rparr>"
    let ?s' = "admit_popped env now w r ?s1"
    have round: "route_round env now mid s = Some (Again, ?s')"
      using f False w p(1) by (simp add: route_round_def Let_def)
    have w1: "waiting h ?s1 = waiting h s" for h by (rule waiting_cong) simp
    have d: "distinct (keys (sv_workers (sc_sup ?s1)))" using assms(2) by simp
    have rd: "readiness (sc_sup ?s') = readiness (sc_sup s)"
      using readiness_admit_popped [OF d] by simp
    have mv: "sup_moves env False s ?s'"
      using moves_admit_popped [OF p(4), of env False ?s1 now w] by simp
    have "routed env s ?s'"
      using queues_ok_set_model [OF mok p(2)] distinct_admit_popped [OF p(4) d] rd mv p(3,5) q
      by (auto simp: routed_def same_frame_def qo w1 waiting_admit_popped)
    moreover have "drr_len (queue_of (sc_queues ?s') mid) = drr_len (queue_of (sc_queues s) mid) - 1"
      using p(3) q by simp
    moreover have "0 < drr_len (queue_of (sc_queues s) mid)"
      using False drr_len_nonneg [OF qok] q by auto
    ultimately show thesis using round serves by blast
  qed
qed

lemma route_model_spec:
  assumes "queues_ok (sc_queues s)" "distinct (keys (sv_workers (sc_sup s)))"
    "drr_len (queue_of (sc_queues s) mid) < int n"
  obtains s' where "route_model n env now mid s = Some (Stop, s')" "routed env s s'" "blocked mid s'"
proof (atomize_elim, use assms in \<open>induction n arbitrary: s\<close>)
  case 0
  then show ?case using drr_len_nonneg [OF queues_okD, of "sc_queues s" mid] by simp
next
  case (Suc n)
  show ?case
  proof (cases rule: route_round_spec [OF Suc.prems(1,2), of env now mid])
    case (1 s')
    then show ?thesis by auto
  next
    case serves: (2 s1)
    have "drr_len (queue_of (sc_queues s1) mid) < int n" using serves Suc.prems(3) by simp
    moreover have "queues_ok (sc_queues s1)" "distinct (keys (sv_workers (sc_sup s1)))"
      using serves(2) by (simp_all add: routed_def)
    ultimately obtain s' where "route_model n env now mid s1 = Some (Stop, s')" "routed env s1 s'"
      "blocked mid s'" using Suc.IH by blast
    with serves(1,2) show ?thesis using routed_trans by auto
  qed
qed

lemma route_models_spec:
  assumes "queues_ok (sc_queues s)" "distinct (keys (sv_workers (sc_sup s)))"
  obtains s' where "route_models env now mids s = Some (None, s')" "routed env s s'"
    "\<forall>m \<in> set mids. blocked m s'"
proof (atomize_elim, use assms in \<open>induction mids arbitrary: s\<close>)
  case Nil
  then show ?case using routed_refl by auto
next
  case (Cons mid mids)
  have "drr_len (queue_of (sc_queues s) mid) < int (Suc (queue_length mid s))"
    by (simp add: queue_length_def)
  from route_model_spec [OF Cons.prems this] obtain s1 where s1:
    "route_model (Suc (queue_length mid s)) env now mid s = Some (Stop, s1)"
    "routed env s s1" "blocked mid s1" by metis
  have ok1: "queues_ok (sc_queues s1)" "distinct (keys (sv_workers (sc_sup s1)))"
    using s1(2) by (simp_all add: routed_def)
  from Cons.IH [OF this] obtain s' where s': "route_models env now mids s1 = Some (None, s')"
    "routed env s1 s'" "\<forall>m \<in> set mids. blocked m s'" by blast
  have "blocked mid s'" using blocked_routed [OF s'(2) s1(3)] .
  with s1 s' routed_trans show ?case by (auto simp del: route_model.simps)
qed

lemma route_ready_work_spec:
  assumes "queues_ok (sc_queues s)" "distinct (keys (sv_workers (sc_sup s)))"
  obtains s' where "route_ready_work env now s = Some (None, s')" "routed env s s'" "\<forall>m. blocked m s'"
proof -
  from route_models_spec [OF assms, of env now "pending_models (sc_queues s)"] obtain s' where s':
    "route_ready_work env now s = Some (None, s')" "routed env s s'"
    "\<forall>m \<in> set (pending_models (sc_queues s)). blocked m s'"
    unfolding route_ready_work_def by metis
  have "blocked m s'" for m
  proof (cases "m \<in> set (pending_models (sc_queues s))")
    case False
    then have "blocked m s" using pending_iff [OF assms(1)] by (simp add: blocked_def)
    with blocked_routed [OF s'(2)] show ?thesis .
  qed (use s' in simp)
  with s' that show thesis by blast
qed

section \<open>The scheduler's steps\<close>

text \<open>
  \<open>database\<close> stands for the transactions of every other component: none of them changes the service
  mode. \<open>supervisor\<close> is a supervisor's step with the delivery of its events; only the scheduler
  launches workers, under an id not used before.
\<close>

inductive sched_step :: "sched_env \<Rightarrow> scheduler \<Rightarrow> scheduler \<Rightarrow> bool"
  for env :: sched_env where
  database: "service_mode_of db = service_mode_of (sc_db s) \<Longrightarrow> sched_step env s (s\<lparr>sc_db := db\<rparr>)"
| supervisor: "sup_step (se_settings env) (sc_sup s) sv \<Longrightarrow>
    keys (sv_workers sv) = keys (sv_workers (sc_sup s)) \<Longrightarrow>
    sched_step env s (deliver env now (s\<lparr>sc_sup := sv\<rparr>))"
| start: "sched_step env s (configure_preload now selectors s)"
| enqueue: "f \<notin> set (keys (sc_futures s)) \<Longrightarrow> 0 \<le> rq_estimated_tokens r \<Longrightarrow>
    sched_step env s (fst (enqueue now f r s))"
| cancel: "sched_step env s (cancel_enqueued env now r s)"
| warm: "sched_step env s (warm_model_once env now mid s)"
| release: "sched_step env s (release_lease env now l s)"
| touch: "sched_step env s (touch now l s)"
| acquire_begin: "sched_step env s (snd (acquire_begin env now gpus s))"
| acquire_finish: "sched_step env s (snd (acquire_finish env now gpus ids failures s))"
| release_validation: "sched_step env s (release_validation_gpus now gpus s)"
| maintenance: "sched_step env s (enter_maintenance env now s)"
| resume: "sched_step env s (fst (resume now s))"
| close: "sched_step env s (close env now s)"
| reconcile: "reconcile env now profiles s = Some s' \<Longrightarrow> sched_step env s s'"
| action: "wid \<notin> set (keys (sv_workers (sc_sup s))) \<Longrightarrow>
    sched_step env s (next_action env now (\<lambda>p gpus path name. launch (se_settings env) wid now p gpus
      path name parsers base kenv outcome) s)"
| wake: "sched_step env s (begin_wake env now s)"

text \<open>The scheduler as constructed: the service mode is what the database has stored.\<close>

definition sched_init :: "int option \<Rightarrow> int option \<Rightarrow> datetime \<Rightarrow> database \<Rightarrow> scheduler" where
  "sched_init cap tenant now db =
     \<lparr>sc_db = db, sc_sup = sup_init,
      sc_queues = \<lparr>mq_total_capacity = cap, mq_tenant_capacity = tenant, mq_models = []\<rparr>,
      sc_futures = [], sc_leases = [], sc_validation = [], sc_last_arrival = now,
      sc_maintenance = False, sc_preload = [], sc_warm_once = [], sc_reported = [], sc_todo = [],
      sc_waking = None, sc_closed = False\<rparr>"

inductive sched_reachable :: "sched_env \<Rightarrow> scheduler \<Rightarrow> bool"
  for env :: sched_env where
  init: "sched_reachable env (sched_init cap tenant now db)"
| step: "sched_reachable env s \<Longrightarrow> sched_step env s s' \<Longrightarrow> sched_reachable env s'"

section \<open>The invariant\<close>

definition sched_inv :: "scheduler \<Rightarrow> bool" where
  "sched_inv s \<longleftrightarrow>
     sup_inv (sc_sup s) \<and> distinct (keys (sv_workers (sc_sup s))) \<and> queues_ok (sc_queues s)
     \<and> (service_mode_of (sc_db s) \<noteq> ACTIVE \<longrightarrow> pending_models (sc_queues s) = [])
     \<and> (sc_maintenance s \<longrightarrow> service_mode_of (sc_db s) \<noteq> ACTIVE)
     \<and> (service_mode_of (sc_db s) = MAINTENANCE_READY \<longrightarrow> all_cold s \<and> sc_validation s = [])"

lemma sched_invD:
  assumes "sched_inv s"
  shows "sup_inv (sc_sup s)" "distinct (keys (sv_workers (sc_sup s)))" "queues_ok (sc_queues s)"
  using assms by (simp_all add: sched_inv_def)

text \<open>An operation that keeps the mode and the validation GPUs, and adds no worker and no request.\<close>

lemma inv_keep:
  assumes "sched_inv s" "sup_moves env False s s'" "same_frame s s'" "queues_ok (sc_queues s')"
    "pending_models (sc_queues s) = [] \<Longrightarrow> pending_models (sc_queues s') = []"
  shows "sched_inv s'"
  using assms run_inv [OF assms(2)] run_distinct [OF assms(2)] all_cold_run [OF assms(2)]
  by (auto simp: sched_inv_def same_frame_def)

lemma inv_stay:
  assumes "sched_inv s" "sup_moves env False s s'" "same_frame s s'" "sc_queues s' = sc_queues s"
  shows "sched_inv s'"
  using inv_keep [OF assms(1-3)] assms(1,4) by (simp add: sched_inv_def)

lemma configure_preload_sel [simp]:
  "sc_sup (configure_preload now sel s) = sc_sup s"
  "sc_queues (configure_preload now sel s) = sc_queues s"
  "sc_validation (configure_preload now sel s) = sc_validation s"
  "sc_maintenance (configure_preload now sel s) = sc_maintenance s"
  "service_mode_of (sc_db (configure_preload now sel s)) = service_mode_of (sc_db s)"
proof -
  have p: "sc_sup (preload_model now m s) = sc_sup s" "sc_queues (preload_model now m s) = sc_queues s"
    "sc_validation (preload_model now m s) = sc_validation s"
    "sc_maintenance (preload_model now m s) = sc_maintenance s"
    "service_mode_of (sc_db (preload_model now m s)) = service_mode_of (sc_db s)" for m s
    by (simp_all add: preload_model_def)
  show "sc_sup (configure_preload now sel s) = sc_sup s"
    "sc_queues (configure_preload now sel s) = sc_queues s"
    "sc_validation (configure_preload now sel s) = sc_validation s"
    "sc_maintenance (configure_preload now sel s) = sc_maintenance s"
    "service_mode_of (sc_db (configure_preload now sel s)) = service_mode_of (sc_db s)"
    by (simp_all add: configure_preload_def Let_def p fold_same [where f = sc_queues]
        fold_same [where f = sc_sup] fold_same [where f = sc_validation]
        fold_same [where f = sc_maintenance] fold_same [where f = "\<lambda>s. service_mode_of (sc_db s)"])
qed

lemma inv_enqueue:
  assumes "sched_inv s" "0 \<le> rq_estimated_tokens r"
  shows "sched_inv (fst (enqueue now f r s))"
proof -
  let ?r = "r\<lparr>rq_assignment := Some f\<rparr>" and ?mid = "rq_model_id r"
  obtain mq q where fm: "for_model (sc_queues s) ?mid = (mq, q)" by fastforce
  then have mq: "mq = fst (for_model (sc_queues s) ?mid)" and q: "q = queue_of (sc_queues s) ?mid"
    using for_model_queue [of "sc_queues s" ?mid] by auto
  obtain q' res where p: "drr_put q ?r = (q', res)" by fastforce
  have "drr_ok q'"
    using put_ok(1) [OF _ _ p] queues_okD [OF sched_invD(3) [OF assms(1)]] q assms(2) by simp
  then have mok: "queues_ok (set_model mq ?mid q')"
    using queues_ok_set_model mq sched_invD(3) [OF assms(1)] by simp
  show ?thesis
  proof (cases "service_mode_of (sc_db s) = ACTIVE")
    case False
    then have "fst (enqueue now f r s) = s\<lparr>sc_futures := AList.update f Waiting (sc_futures s)\<rparr>"
      by (simp add: enqueue_def)
    then show ?thesis using assms(1) by (simp add: sched_inv_def all_cold_def)
  next
    case True
    have "sc_queues (fst (enqueue now f r s)) = set_model mq ?mid q'"
      "sc_sup (fst (enqueue now f r s)) = sc_sup s" "same_frame s (fst (enqueue now f r s))"
      using True fm p by (cases res; simp add: enqueue_def same_frame_def)+
    then show ?thesis using assms(1) mok True by (simp add: sched_inv_def same_frame_def)
  qed
qed

lemma set_service_mode_sel [simp]: "service_mode_of (set_service_mode now m db) = m"
  by (simp add: set_service_mode_def record_runtime_event_def service_mode_of_def)

lemma inv_maintenance: "sched_inv s \<Longrightarrow> sched_inv (enter_maintenance env now s)"
proof -
  assume inv: "sched_inv s"
  obtain mq rejected where d: "mq_drain_all (sc_queues s) = (mq, rejected)" by fastforce
  have mq: "queues_ok mq" "pending_models mq = []"
    using mq_drain_all_ok [OF sched_invD(3) [OF inv]] d by auto
  let ?s0 = "s\<lparr>sc_maintenance := True, sc_queues := mq,
                sc_db := set_service_mode now MODE_DRAINING (sc_db s)\<rparr>"
  let ?s1 = "fold (reject_queued env now) rejected ?s0"
  have r: "sc_sup (reject_queued env now x t) = sc_sup t" "sc_queues (reject_queued env now x t) = sc_queues t"
    "sc_maintenance (reject_queued env now x t) = sc_maintenance t"
    "service_mode_of (sc_db (reject_queued env now x t)) = service_mode_of (sc_db t)" for x t
    by (simp_all add: reject_queued_def)
  have s1: "sc_sup ?s1 = sc_sup s" "sc_queues ?s1 = mq" "sc_maintenance ?s1"
    "service_mode_of (sc_db ?s1) = MODE_DRAINING"
    using r by (simp_all add: fold_same [where f = sc_sup] fold_same [where f = sc_queues]
        fold_same [where f = sc_maintenance] fold_same [where f = "\<lambda>s. service_mode_of (sc_db s)"]
)
  then have "sched_inv ?s1" using inv mq by (simp add: sched_inv_def)
  moreover have "same_frame ?s1 (drain_workers env now ?s1)"
    "sc_queues (drain_workers env now ?s1) = sc_queues ?s1"
    by (simp_all add: drain_workers_def same_frame_def fold_same [where f = sc_queues]
        fold_same [where f = sc_validation] fold_same [where f = sc_maintenance]
        fold_same [where f = "\<lambda>s. service_mode_of (sc_db s)"])
  ultimately have "sched_inv (drain_workers env now ?s1)"
    by (intro inv_stay [OF _ moves_drains])
  then show ?thesis by (simp add: enter_maintenance_def d)
qed

lemma pressures_sel:
  assumes "queues_ok (sc_queues s)"
  shows "sc_sup (fst (pressures s)) = sc_sup s" "same_frame s (fst (pressures s))"
    "queues_ok (sc_queues (fst (pressures s)))"
    "queue_of (sc_queues (fst (pressures s))) m = queue_of (sc_queues s) m"
proof -
  let ?f = "\<lambda>mid (s :: scheduler). s\<lparr>sc_queues := fst (for_model (sc_queues s) mid)\<rparr>"
  have "queues_ok (sc_queues t) \<Longrightarrow> queues_ok (sc_queues (fold ?f mids t))" for mids and t :: scheduler
    by (induction mids arbitrary: t) simp_all
  then show "queues_ok (sc_queues (fst (pressures s)))" using assms by (simp add: pressures_def)
  show "sc_sup (fst (pressures s)) = sc_sup s" "same_frame s (fst (pressures s))"
    "queue_of (sc_queues (fst (pressures s))) m = queue_of (sc_queues s) m"
    by (simp_all add: pressures_def same_frame_def fold_same [where f = sc_sup]
        fold_same [where f = sc_validation] fold_same [where f = sc_maintenance]
        fold_same [where f = "\<lambda>s. service_mode_of (sc_db s)"]
        fold_same [where f = "\<lambda>s. queue_of (sc_queues s) m"])
qed

lemma report_sel [simp]:
  "sc_sup (report_incompatible now pr m s) = sc_sup s"
  "sc_queues (report_incompatible now pr m s) = sc_queues s"
  "sc_validation (report_incompatible now pr m s) = sc_validation s"
  "sc_maintenance (report_incompatible now pr m s) = sc_maintenance s"
  "service_mode_of (sc_db (report_incompatible now pr m s)) = service_mode_of (sc_db s)"
  by (simp_all add: report_incompatible_def)

lemma plan_actions_spec:
  assumes "plan_actions env now profiles s = Some s'" "queues_ok (sc_queues s)"
  shows "sc_sup s' = sc_sup s" "same_frame s s'" "queues_ok (sc_queues s')"
    "queue_of (sc_queues s') m = queue_of (sc_queues s) m"
proof -
  obtain s1 ps where p: "pressures s = (s1, ps)" by fastforce
  have s1: "s1 = fst (pressures s)" using p by simp
  let ?s2 = "s1\<lparr>sc_warm_once := filter (\<lambda>m. m \<notin> warm_models s1) (sc_warm_once s1)\<rparr>"
  from assms(1) p obtain ms todo where
    "s' = (if se_kvcached env then fold (report_incompatible now profiles) ms ?s2 else ?s2)
            \<lparr>sc_todo := todo\<rparr>"
    by (auto simp: plan_actions_def Let_def)
  then have
    "sc_sup s' = sc_sup s1" "same_frame s1 s'" "sc_queues s' = sc_queues s1"
    by (simp_all add: Let_def same_frame_def fold_same [where f = sc_sup]
        fold_same [where f = sc_queues]
        fold_same [where f = sc_validation] fold_same [where f = sc_maintenance]
        fold_same [where f = "\<lambda>s. service_mode_of (sc_db s)"])
  then show "sc_sup s' = sc_sup s" "same_frame s s'" "queues_ok (sc_queues s')"
    "queue_of (sc_queues s') m = queue_of (sc_queues s) m"
    using pressures_sel [OF assms(2)] s1 same_frame_trans by auto
qed

definition lease_upkeep :: "sched_env \<Rightarrow> datetime \<Rightarrow> scheduler \<Rightarrow> scheduler" where
  "lease_upkeep env now s =
     enforce_watchdogs env now (release_settled_leases env now (expire_inactive_streams env now s))"

lemma lease_upkeep_keeps:
  "sup_moves env b s (lease_upkeep env now s)" "same_frame s (lease_upkeep env now s)"
  "sc_queues (lease_upkeep env now s) = sc_queues s"
proof -
  show "sup_moves env b s (lease_upkeep env now s)"
    unfolding lease_upkeep_def
    by (rule sup_run_trans [OF moves_watchdogs sup_run_trans [OF moves_release_settled moves_expire]])
  show "same_frame s (lease_upkeep env now s)" "sc_queues (lease_upkeep env now s) = sc_queues s"
    by (simp_all add: lease_upkeep_def same_frame_def)
qed

text \<open>The outcomes of a reconciliation: it always gets to its end.\<close>

lemma reconcile_cases:
  assumes "sched_inv s" "reconcile env now profiles s = Some s'"
  obtains (draining) "service_mode_of (sc_db s) = MODE_DRAINING"
      "s' = lease_upkeep env now s \<or>
       sc_validation s = [] \<and> all_cold (lease_upkeep env now s) \<and>
       s' = (lease_upkeep env now s)\<lparr>sc_db :=
         set_service_mode now MAINTENANCE_READY (sc_db (lease_upkeep env now s))\<rparr>"
  | (ready) "service_mode_of (sc_db s) = MAINTENANCE_READY" "s' = lease_upkeep env now s"
  | (active) s2 where "service_mode_of (sc_db s) = ACTIVE"
      "route_ready_work env now (lease_upkeep env now s) = Some (None, s2)"
      "routed env (lease_upkeep env now s) s2" "\<forall>m. blocked m s2"
      "plan_actions env now profiles s2 = Some s'"
proof -
  let ?s1 = "lease_upkeep env now s"
  have m: "service_mode_of (sc_db ?s1) = service_mode_of (sc_db s)"
    "sc_validation ?s1 = sc_validation s"
    using lease_upkeep_keeps(2) by (simp_all add: same_frame_def)
  show thesis
  proof (cases "service_mode_of (sc_db s)")
    case ACTIVE
    have "queues_ok (sc_queues ?s1)" "distinct (keys (sv_workers (sc_sup ?s1)))"
      using sched_invD [OF assms(1)] run_distinct [OF lease_upkeep_keeps(1)]
      by (simp_all add: lease_upkeep_keeps(3))
    then obtain s2 where s2: "route_ready_work env now ?s1 = Some (None, s2)"
      "routed env ?s1 s2" "\<forall>m. blocked m s2"
      by (rule route_ready_work_spec)
    moreover have "plan_actions env now profiles s2 = Some s'"
      using assms(2) s2(1) m ACTIVE
      by (simp add: reconcile_def lease_upkeep_def [symmetric] Let_def del: watchdogs_sel lease_upkeep_sel)
    ultimately show thesis by (rule active [OF ACTIVE])
  next
    case MODE_DRAINING
    then have "Some (if sc_validation ?s1 = [] \<and> all_cold ?s1
        then ?s1\<lparr>sc_db := set_service_mode now MAINTENANCE_READY (sc_db ?s1)\<rparr> else ?s1) = Some s'"
      using assms(2) m
      by (simp add: reconcile_def lease_upkeep_def [symmetric] Let_def del: watchdogs_sel lease_upkeep_sel)
    with m show thesis by (intro draining [OF MODE_DRAINING]) (auto split: if_splits)
  next
    case MAINTENANCE_READY
    then have "s' = ?s1"
      using assms(2) m
      by (simp add: reconcile_def lease_upkeep_def [symmetric] Let_def del: watchdogs_sel lease_upkeep_sel)
    then show thesis by (rule ready [OF MAINTENANCE_READY])
  qed
qed

lemma inv_reconcile:
  assumes "sched_inv s" "reconcile env now profiles s = Some s'"
  shows "sched_inv s'" "sup_moves env False s s'"
proof -
  let ?s1 = "lease_upkeep env now s"
  have i1: "sched_inv ?s1"
    by (rule inv_stay [OF assms(1) lease_upkeep_keeps])
  have "sched_inv s' \<and> sup_moves env False s s'"
  proof (cases rule: reconcile_cases [OF assms])
    case 1
    then show ?thesis using i1 lease_upkeep_keeps(1) [of env False s now]
      lease_upkeep_keeps(2) [of s env now]
      by (auto simp: sched_inv_def all_cold_def same_frame_def)
  next
    case 2
    then show ?thesis using i1 lease_upkeep_keeps(1) by simp
  next
    case (3 s2)
    have q: "queues_ok (sc_queues s2)" using 3(3) by (simp add: routed_def)
    note p = plan_actions_spec [OF 3(5) q]
    have "sup_moves env False ?s1 s'" "same_frame ?s1 s'"
      using 3(3) p same_frame_trans by (auto simp: routed_def)
    moreover have "service_mode_of (sc_db s') = ACTIVE"
      using calculation(2) lease_upkeep_keeps(2) [of s env now] 3(1) by (simp add: same_frame_def)
    moreover have "sup_inv (sc_sup s')" "distinct (keys (sv_workers (sc_sup s')))"
      using run_inv run_distinct calculation(1) i1 by (auto simp: sched_inv_def)
    ultimately show ?thesis using i1 p(3) sup_run_trans [OF _ lease_upkeep_keeps(1)]
      by (auto simp: sched_inv_def same_frame_def)
  qed
  then show "sched_inv s'" "sup_moves env False s s'" by simp_all
qed

text \<open>The one way a worker is added.\<close>

definition launches :: "sched_env \<Rightarrow> scheduler \<Rightarrow> scheduler \<Rightarrow> bool" where
  "launches env s s' \<longleftrightarrow>
     (\<exists>wid now p gpus m path parsers base kenv outcome.
        wid \<notin> set (keys (sv_workers (sc_sup s)))
        \<and> service_mode_of (sc_db s) = ACTIVE \<and> \<not> sc_maintenance s
        \<and> set gpus \<inter> set (sc_validation s) = {}
        \<and> model_by_id (pf_model_id p) (sc_db s) = Some m \<and> mc_artifact_path m = Some path \<and> path \<noteq> []
        \<and> sc_sup s' = (fst (launch (se_settings env) wid now p gpus path (mc_nickname m) parsers base
             kenv outcome (sc_sup s)))\<lparr>sv_emitted := []\<rparr>)"

lemma launches_run: "launches env s s' \<Longrightarrow> sup_moves env True s s'"
  by (auto simp: launches_def intro!: sup_run.delivered sup_run.step [OF sup_run.refl sup_step.launch])

lemma inv_action:
  assumes "sched_inv s" "wid \<notin> set (keys (sv_workers (sc_sup s)))"
    "launcher = (\<lambda>p gpus path name. launch (se_settings env) wid now p gpus path name parsers base
       kenv outcome)"
  shows "sched_inv (next_action env now launcher s)"
    "sup_moves env False s (next_action env now launcher s) \<or> launches env s (next_action env now launcher s)"
proof -
  let ?P = "\<lambda>s'. sched_inv s' \<and> (sup_moves env False s s' \<or> launches env s s')"
  have keep: "?P s'" if "sup_moves env False s s'" "same_frame s s'" "sc_queues s' = sc_queues s" for s'
    using inv_stay [OF assms(1) that] that(1) by simp
  have "?P (next_action env now launcher s)"
  proof (cases "sc_todo s = [] \<or> sc_waking s \<noteq> None")
    case True
    then show ?thesis using assms(1) by (auto simp: next_action_def split: list.splits)
  next
    case False
    then obtain a rest where todo: "sc_todo s = a # rest" by (cases "sc_todo s") auto
    let ?s0 = "s\<lparr>sc_todo := rest\<rparr>"
    have na: "next_action env now launcher s = run_action env now launcher a ?s0"
      using False todo by (simp add: next_action_def)
    show ?thesis
    proof (cases a)
      case (SleepPlacement w r)
      have "sup_moves env False ?s0 (with_sup env now (sleep_worker (se_settings env) w now) ?s0)"
        by (intro moves_with_sup) (simp_all add: sup_step.sleep op_keys)
      then have "sup_moves env False s (next_action env now launcher s)"
        using na SleepPlacement by (simp add: run_action_def)
      then show ?thesis using na SleepPlacement
        by (intro keep) (simp_all add: run_action_def same_frame_def)
    next
      case (DrainPlacement w r)
      have "sup_moves env False ?s0 (with_sup env now (drain w now) ?s0)"
        by (intro moves_with_sup) (simp_all add: sup_step.drain op_keys)
      then have "sup_moves env False s (next_action env now launcher s)"
        using na DrainPlacement by (simp add: run_action_def)
      then show ?thesis using na DrainPlacement
        by (intro keep) (simp_all add: run_action_def same_frame_def)
    next
      case (WakePlacement w r)
      then show ?thesis using keep na
        by (auto simp: run_action_def wake_if_active_def same_frame_def split: option.splits)
    next
      case (StartPlacement p gpus r)
      let ?s' = "launch_if_active env now launcher p gpus ?s0"
      have na': "next_action env now launcher s = ?s'"
        using na StartPlacement by (simp add: run_action_def)
      show ?thesis
      proof (cases "sc_sup ?s' = sc_sup s \<and> same_frame s ?s' \<and> sc_queues ?s' = sc_queues s")
        case True
        then show ?thesis using keep na' by simp
      next
        case False
        then obtain m path where lm: "model_by_id (pf_model_id p) (sc_db s) = Some m"
          "mc_artifact_path m = Some path" "path \<noteq> []"
          "\<not> (sc_maintenance s \<or> service_mode_of (sc_db s) \<noteq> ACTIVE
              \<or> set gpus \<inter> set (sc_validation s) \<noteq> {})"
          by (auto simp: launch_if_active_def Let_def same_frame_def split: option.splits if_splits)
        obtain sv res where l: "launcher p gpus path (mc_nickname m) (sc_sup s) = (sv, res)" by fastforce
        have s': "sc_sup ?s' = sv\<lparr>sv_emitted := []\<rparr>" "same_frame s ?s'" "sc_queues ?s' = sc_queues s"
          using lm l by (auto simp: launch_if_active_def same_frame_def)
        have "sv = fst (launch (se_settings env) wid now p gpus path (mc_nickname m) parsers base
            kenv outcome (sc_sup s))" using l assms(3) by (metis fst_conv)
        with s'(1) have la: "launches env s ?s'"
          unfolding launches_def using assms(2) lm by metis
        have "sup_inv (sc_sup ?s')" "distinct (keys (sv_workers (sc_sup ?s')))"
          using run_inv [OF launches_run [OF la]] run_distinct [OF launches_run [OF la]]
            sched_invD [OF assms(1)] by simp_all
        then show ?thesis
          using assms(1) s' lm(4) na' la by (auto simp: sched_inv_def same_frame_def)
      qed
    qed
  qed
  then show "sched_inv (next_action env now launcher s)"
    "sup_moves env False s (next_action env now launcher s) \<or> launches env s (next_action env now launcher s)"
    by simp_all
qed

lemma step_keeps: "sched_step env s s' \<Longrightarrow> sched_inv s \<Longrightarrow> sched_inv s' \<and> (sup_moves env False s s' \<or> launches env s s')"
proof -
  have keep: "sched_inv t' \<and> (sup_moves env False t t' \<or> launches env t t')"
    if "sched_inv t" "sup_moves env False t t'" "same_frame t t'" "sc_queues t' = sc_queues t" for t t'
    using inv_stay [OF that] that(2) by simp
  show "sched_step env s s' \<Longrightarrow> sched_inv s \<Longrightarrow> sched_inv s' \<and> (sup_moves env False s s' \<or> launches env s s')"
  proof (induction rule: sched_step.induct)
    case (database db s)
    then show ?case by (intro keep) (simp_all add: same_frame_def)
  next
    case (supervisor s sv now)
    then show ?case
      by (intro keep) (auto simp: same_frame_def intro!: sup_run.delivered sup_run_one)
  next
    case (start s now selectors)
    then show ?case by (intro keep) (simp_all add: same_frame_def)
  next
    case (enqueue f s r now)
    have "sc_sup (fst (enqueue now f r s)) = sc_sup s"
      by (auto simp: enqueue_def Let_def split: prod.splits sum.splits)
    with inv_enqueue enqueue show ?case by simp
  next
    case (cancel s now r)
    obtain mq x where rm: "mq_remove (sc_queues s) (rq_model_id r) (rq_id r) = (mq, x)" by fastforce
    then have "sc_sup (cancel_enqueued env now r s) = sc_sup s"
      "sc_queues (cancel_enqueued env now r s) = mq" "same_frame s (cancel_enqueued env now r s)"
      by (auto simp: cancel_enqueued_def Let_def same_frame_def)
    moreover have "sched_inv (cancel_enqueued env now r s)"
      by (rule inv_keep [OF cancel]) (use calculation mq_remove_ok [OF sched_invD(3) [OF cancel] rm] in auto)
    ultimately show ?case by simp
  next
    case (warm s now mid)
    then show ?case by (intro keep) (simp_all add: warm_model_once_def same_frame_def)
  next
    case (release s now l)
    then show ?case by (intro keep moves_release_lease) (simp_all add: same_frame_def)
  next
    case (touch s now l)
    then show ?case
      by (intro keep) (auto simp: touch_def same_frame_def split: option.splits)
  next
    case (acquire_begin s now gpus)
    let ?s' = "snd (acquire_begin env now gpus s)"
    have "?s' = s \<or> service_mode_of (sc_db s) = ACTIVE \<and> sc_queues ?s' = sc_queues s
        \<and> sc_maintenance ?s' = sc_maintenance s \<and> service_mode_of (sc_db ?s') = ACTIVE"
      by (auto simp: acquire_begin_def Let_def fold_same [where f = sc_queues]
          fold_same [where f = sc_maintenance] fold_same [where f = "\<lambda>s. service_mode_of (sc_db s)"])
    then show ?case
      using acquire_begin run_inv [OF moves_acquire] run_distinct [OF moves_acquire]
        moves_acquire [of env False s now gpus]
      by (auto simp: sched_inv_def)
  next
    case (acquire_finish s now gpus ids failures)
    have "sc_sup (snd (acquire_finish env now gpus ids failures s)) = sc_sup s"
      "sc_queues (snd (acquire_finish env now gpus ids failures s)) = sc_queues s"
      "sc_maintenance (snd (acquire_finish env now gpus ids failures s)) = sc_maintenance s"
      "service_mode_of (sc_db (snd (acquire_finish env now gpus ids failures s)))
         = service_mode_of (sc_db s)"
      "sc_validation s = [] \<Longrightarrow> sc_validation (snd (acquire_finish env now gpus ids failures s)) = []"
      by (simp_all add: acquire_finish_def Let_def)
    with acquire_finish show ?case by (simp add: sched_inv_def all_cold_def)
  next
    case (release_validation s now gpus)
    then show ?case by (simp add: release_validation_gpus_def sched_inv_def all_cold_def)
  next
    case (maintenance s now)
    have "sc_sup (reject_queued env now x t) = sc_sup t" for x t by (simp add: reject_queued_def)
    then have "sup_moves env False s (enter_maintenance env now s)"
      using moves_drains [of env False "fold (reject_queued env now) (snd (mq_drain_all (sc_queues s)))
        (s\<lparr>sc_maintenance := True, sc_queues := fst (mq_drain_all (sc_queues s)),
           sc_db := set_service_mode now MODE_DRAINING (sc_db s)\<rparr>)" now]
      by (simp add: enter_maintenance_def split_def fold_same [where f = sc_sup])
    with inv_maintenance maintenance show ?case by simp
  next
    case (resume s now)
    then show ?case by (auto simp: resume_def sched_inv_def)
  next
    case (close s now)
    let ?s1 = "fold (\<lambda>l. release_quota env now (le_reservation l) ''service_shutdown'')
      (vals (sc_leases s)) (s\<lparr>sc_closed := True\<rparr>)"
    have s1: "sc_sup ?s1 = sc_sup s" "sc_queues ?s1 = sc_queues s" "same_frame s ?s1"
      by (simp_all add: same_frame_def fold_same [where f = sc_sup] fold_same [where f = sc_queues]
          fold_same [where f = sc_validation] fold_same [where f = sc_maintenance]
          fold_same [where f = "\<lambda>s. service_mode_of (sc_db s)"])
    have "sup_moves env False ?s1 (with_sup env now (stop_all True now) ?s1)"
      by (intro moves_with_sup) (simp_all add: sup_step.stop_all stop_all_keys)
    with s1 close show ?case
      unfolding close_def by (intro keep) (simp_all add: same_frame_def)
  next
    case (reconcile now profiles s s')
    then show ?case using inv_reconcile by blast
  next
    case (action wid s now parsers base kenv outcome)
    then show ?case using inv_action [OF action(2,1) HOL.refl] by blast
  next
    case (wake s now)
    then show ?case
      by (intro keep moves_begin_wake)
        (auto simp: begin_wake_def same_frame_def split: option.splits prod.splits)
  qed
qed

lemma step_moves: "sched_step env s s' \<Longrightarrow> sched_inv s \<Longrightarrow> sup_moves env True s s'"
  using step_keeps launches_run sup_run_launches by blast

lemma reachable_sched_inv: "sched_reachable env s \<Longrightarrow> sched_inv s"
proof (induction rule: sched_reachable.induct)
  case (init cap tenant now db)
  have "sv_workers sup_init = []" by (simp add: sup_init_def)
  then show ?case
    by (simp add: sched_init_def sched_inv_def init_inv queues_ok_def pending_models_def all_cold_def)
next
  case (step s s')
  then show ?case using step_keeps by blast
qed

end
