(* ===== verification/SchedulerSpec.thy ===== *)
theory SchedulerSpec
  imports SchedulerSteps
begin

text \<open>
  What the scheduler of \<^verbatim>\<open>src/src/llm_rio/runtime.py\<close> guarantees: routing, failed workers, leases,
  maintenance, and that it only takes the supervisor's steps.
\<close>

section \<open>Leases and held reservations\<close>

text \<open>Leases are stored under their request's id, and delivered events do not pile up.\<close>

definition leases_ok :: "scheduler \<Rightarrow> bool" where
  "leases_ok s \<longleftrightarrow> distinct (keys (sc_leases s)) \<and> list_all (\<lambda>(k, l). le_request l = k) (sc_leases s)"

definition held_ids :: "database \<Rightarrow> string set" where
  "held_ids db = qr_id ` {r \<in> set (db_reservations db). qr_state r = RESERVED}"

lemma release_held:
  assumes "books_ok db"
  obtains db' where "release_reservation lid now rid e db = Inr db'" "books_ok db'"
    "held_ids db' = held_ids db - {rid}"
proof -
  have ok: "accounts_ok db" "reservations_ok db" using assms by (simp_all add: books_ok_def)
  have u: "unique_on qr_id (db_reservations db)" using ok by (simp add: reservations_ok_def)
  obtain db' where db': "release_reservation lid now rid e db = Inr db'" "books_ok db'"
    unfolding release_reservation_def by (rule settle_total [OF assms])
  from ok have "held_ids db' = held_ids db - {rid}"
  proof (cases rule: settle_cases [of db rid])
    case skip
    then show ?thesis using db' by (auto simp: release_reservation_def held_ids_def)
  next
    case (held r)
    have "db' = settled_db lid now r (charge_of 0 r) None None (Some e) db"
      using db'(1) held(4) by (simp add: release_reservation_def)
    then show ?thesis
      using held_ids_settled [OF u held(1,3)] held(2) by (simp add: held_ids_def)
  qed
  with db' that show thesis by blast
qed

lemma release_quota_held:
  assumes "books_ok (sc_db s)"
  shows "books_ok (sc_db (release_quota env now rid e s))"
    "held_ids (sc_db (release_quota env now rid e s)) = held_ids (sc_db s) - {rid}"
proof -
  obtain db' where "release_reservation (se_ledger_id env rid) now rid e (sc_db s) = Inr db'"
    "books_ok db'" "held_ids db' = held_ids (sc_db s) - {rid}" by (rule release_held [OF assms])
  then show "books_ok (sc_db (release_quota env now rid e s))"
    "held_ids (sc_db (release_quota env now rid e s)) = held_ids (sc_db s) - {rid}"
    by (simp_all add: release_quota_def)
qed

text \<open>The handler of a failed worker, over the list of its leases.\<close>

definition drop_leases ::
  "sched_env \<Rightarrow> datetime \<Rightarrow> lease list \<Rightarrow> scheduler \<Rightarrow> scheduler" where
  "drop_leases env now ls s =
     fold (\<lambda>l s. release_quota env now (le_reservation l) ''worker_failed''
              (s\<lparr>sc_leases := AList.delete (le_request l) (sc_leases s)\<rparr>)) ls s"

lemma drop_leases_spec:
  assumes "books_ok (sc_db s)"
  shows "books_ok (sc_db (drop_leases env now ls s))"
    "held_ids (sc_db (drop_leases env now ls s)) = held_ids (sc_db s) - le_reservation ` set ls"
    "sc_leases (drop_leases env now ls s)
       = filter (\<lambda>(k, l). k \<notin> le_request ` set ls) (sc_leases s)"
proof -
  have "books_ok (sc_db (drop_leases env now ls s))
      \<and> held_ids (sc_db (drop_leases env now ls s)) = held_ids (sc_db s) - le_reservation ` set ls
      \<and> sc_leases (drop_leases env now ls s)
       = filter (\<lambda>(k, l). k \<notin> le_request ` set ls) (sc_leases s)"
    using assms
  proof (induction ls arbitrary: s)
    case Nil
    then show ?case by (simp add: drop_leases_def)
  next
    case (Cons l ls)
    let ?s = "release_quota env now (le_reservation l) ''worker_failed''
              (s\<lparr>sc_leases := AList.delete (le_request l) (sc_leases s)\<rparr>)"
    have s: "books_ok (sc_db ?s)" "held_ids (sc_db ?s) = held_ids (sc_db s) - {le_reservation l}"
      using release_quota_held [of "s\<lparr>sc_leases := AList.delete (le_request l) (sc_leases s)\<rparr>"]
        Cons.prems by simp_all
    have "drop_leases env now (l # ls) s = drop_leases env now ls ?s" by (simp add: drop_leases_def)
    then show ?case using Cons.IH [OF s(1)] s(2)
      by (auto simp: delete_filter intro!: filter_cong)
  qed
  then show "books_ok (sc_db (drop_leases env now ls s))"
    "held_ids (sc_db (drop_leases env now ls s)) = held_ids (sc_db s) - le_reservation ` set ls"
    "sc_leases (drop_leases env now ls s)
       = filter (\<lambda>(k, l). k \<notin> le_request ` set ls) (sc_leases s)"
    by simp_all
qed

lemma worker_event_failed:
  "worker_event env now wid (''failed:'' @ reason) s
     = drop_leases env now (filter (\<lambda>l. le_worker l = wid) (vals (sc_leases s))) s"
  by (simp add: worker_event_def drop_leases_def startswith_def)

lemma worker_event_other:
  "\<not> startswith ''failed:'' event \<Longrightarrow> worker_event env now wid event s = s"
  by (simp add: worker_event_def)

lemma worker_event_cases:
  obtains "worker_event env now wid event s = s"
  | "worker_event env now wid event s
       = drop_leases env now (filter (\<lambda>l. le_worker l = wid) (vals (sc_leases s))) s"
  by (cases "startswith ''failed:'' event") (simp_all add: worker_event_def drop_leases_def)

text \<open>Events only give back: no new lease, no new hold.\<close>

definition gives_back :: "scheduler \<Rightarrow> scheduler \<Rightarrow> bool" where
  "gives_back s s' \<longleftrightarrow> (books_ok (sc_db s) \<longrightarrow> books_ok (sc_db s') \<and> held_ids (sc_db s') \<subseteq> held_ids (sc_db s)
       \<and> set (sc_leases s') \<subseteq> set (sc_leases s) \<and> (leases_ok s \<longrightarrow> leases_ok s'))"

lemma gives_back_refl [simp]: "gives_back s s"
  by (simp add: gives_back_def)

lemma gives_back_trans: "gives_back s s' \<Longrightarrow> gives_back s' s'' \<Longrightarrow> gives_back s s''"
  by (auto simp: gives_back_def)

lemma leases_ok_filter: "leases_ok s \<Longrightarrow> sc_leases s' = filter P (sc_leases s) \<Longrightarrow> leases_ok s'"
  by (auto simp: leases_ok_def list_all_iff distinct_map_filter)

lemma gives_back_event: "gives_back s (worker_event env now wid event s)"
proof (cases rule: worker_event_cases [of env now wid event s])
  case 2
  then show ?thesis
    using drop_leases_spec leases_ok_filter by (auto simp: gives_back_def)
qed simp

lemma gives_back_deliver: "gives_back s (deliver env now s)"
proof -
  have "gives_back t (fold (\<lambda>(wid, event). worker_event env now wid event) es t)" for es t
  proof (induction es arbitrary: t)
    case (Cons e es)
    have "gives_back t (worker_event env now (fst e) (snd e) t)" by (rule gives_back_event)
    with Cons.IH [of "worker_event env now (fst e) (snd e) t"] show ?case
      using gives_back_trans by (auto simp: split_def)
  qed simp
  from this [of "s\<lparr>sc_sup := (sc_sup s)\<lparr>sv_emitted := []\<rparr>\<rparr>"] show ?thesis
    by (simp add: deliver_def gives_back_def leases_ok_def)
qed

section \<open>A popped request\<close>

definition on_worker :: "supervisor \<Rightarrow> string \<Rightarrow> string \<Rightarrow> bool" where
  "on_worker sv wid rid \<longleftrightarrow>
     (case get_worker sv wid of None \<Rightarrow> False | Some w \<Rightarrow> rid \<in> wk_admitted w)"

lemma ready_get:
  assumes "sched_inv s" "w \<in> set (ready_workers mid s)"
  shows "get_worker (sc_sup s) (wk_id w) = Some w" "wk_state w = READY"
proof -
  from assms(2) obtain k where k: "(k, w) \<in> set (sv_workers (sc_sup s))" "wk_state w = READY"
    by (auto simp: ready_workers_def is_routable_def)
  then have "get_worker (sc_sup s) k = Some w"
    using sched_invD(2) [OF assms(1)] by (simp add: get_worker_def)
  moreover have "wk_id w = k"
    using sup_invD [OF sched_invD(1) [OF assms(1)]] calculation by (auto simp: worker_ok_def)
  ultimately show "get_worker (sc_sup s) (wk_id w) = Some w" "wk_state w = READY" using k by auto
qed

lemma not_on_released: "\<not> on_worker (release wid rid n now sv) wid rid"
  by (auto simp: on_worker_def release_def Let_def split: option.splits)

lemma on_worker_emitted [simp]: "on_worker (sv\<lparr>sv_emitted := es\<rparr>) wid rid = on_worker sv wid rid"
  by (simp add: on_worker_def)

lemma gives_back_with_sup:
  assumes "books_ok (sc_db s)"
  shows "books_ok (sc_db (with_sup env now f s))"
    "held_ids (sc_db (with_sup env now f s)) \<subseteq> held_ids (sc_db s)"
    "set (sc_leases (with_sup env now f s)) \<subseteq> set (sc_leases s)"
  using gives_back_deliver [of "s\<lparr>sc_sup := f (sc_sup s)\<rparr>" env now] assms
  by (simp_all add: gives_back_def with_sup_def)

lemma reject_popped_spec:
  assumes "books_ok (sc_db s)" "map_of (sc_leases s) (rq_id r) = None"
    "a \<or> \<not> on_worker (sc_sup s) wid (rq_id r)"
  shows "map_of (sc_leases (reject_popped env now a wid r e s)) (rq_id r) = None"
    "\<not> on_worker (sc_sup (reject_popped env now a wid r e s)) wid (rq_id r)"
    "rq_reservation_id r \<notin> held_ids (sc_db (reject_popped env now a wid r e s))"
proof -
  let ?s1 = "if a then with_sup env now (release wid (rq_id r) (rq_estimated_tokens r) now) s else s"
  have s1: "books_ok (sc_db ?s1)" "set (sc_leases ?s1) \<subseteq> set (sc_leases s)"
    "\<not> on_worker (sc_sup ?s1) wid (rq_id r)"
    using gives_back_with_sup [OF assms(1)] assms not_on_released by auto
  note rh = release_quota_held [OF s1(1), of env now "rq_reservation_id r" "''admission_failed''"]
  have "rq_id r \<notin> fst ` set (sc_leases ?s1)"
    using s1(2) assms(2) by (auto simp: map_of_eq_None_iff)
  then have "map_of (sc_leases ?s1) (rq_id r) = None" by (simp add: map_of_eq_None_iff)
  then show "map_of (sc_leases (reject_popped env now a wid r e s)) (rq_id r) = None"
    "\<not> on_worker (sc_sup (reject_popped env now a wid r e s)) wid (rq_id r)"
    "rq_reservation_id r \<notin> held_ids (sc_db (reject_popped env now a wid r e s))"
    using s1(3) rh by (simp_all add: reject_popped_def Let_def)
qed

lemma admitted_marked:
  assumes "fst (mark_request_admitted now rid wid db)"
  shows "rid \<in> admitted_request_ids (snd (mark_request_admitted now rid wid db))"
proof -
  from assms have "rowcount (admissible rid) (db_requests db) \<noteq> 0"
    by (simp add: mark_request_admitted_def)
  then obtain r where "r \<in> set (db_requests db)" "admissible rid r"
    by (auto simp: rowcount_def filter_empty_conv)
  then have "\<exists>x \<in> set (db_requests (snd (mark_request_admitted now rid wid db))).
      ir_id x = rid \<and> ir_state x = RQ_ADMITTED"
    by (intro bexI [of _ "r\<lparr>ir_state := RQ_ADMITTED, ir_worker := Some wid,
        ir_admitted_at := Some now, ir_accepted := ir_accepted r + 1\<rparr>"])
      (auto simp: mark_request_admitted_def set_update_rows admissible_def)
  then show ?thesis by (auto simp: admitted_request_ids_def)
qed

text \<open>A lease whose client is gone is given back at once.\<close>

lemma abandoned_spec:
  fixes env now w r
  defines "lease \<equiv> make_lease env now w r"
  assumes "books_ok (sc_db s)" "map_of (sc_leases s) (rq_id r) = Some lease"
  defines "s' \<equiv> release_lease env now lease
    (release_quota env now (rq_reservation_id r) ''client_cancelled'' s)"
  shows "map_of (sc_leases s') (rq_id r) = None" "\<not> on_worker (sc_sup s') (wk_id w) (rq_id r)"
    "rq_reservation_id r \<notin> held_ids (sc_db s')"
proof -
  let ?s1 = "release_quota env now (rq_reservation_id r) ''client_cancelled'' s"
  let ?s2 = "?s1\<lparr>sc_leases := AList.delete (rq_id r) (sc_leases ?s1)\<rparr>"
  have "le_request lease = rq_id r" "le_worker lease = wk_id w" "le_tokens lease = rq_estimated_tokens r"
    by (simp_all add: lease_def make_lease_def)
  then have s': "s' = with_sup env now (release (wk_id w) (rq_id r) (rq_estimated_tokens r) now) ?s2"
    unfolding s'_def release_lease_def by (simp add: assms(3))
  note rh = release_quota_held [OF assms(2), of env now "rq_reservation_id r" "''client_cancelled''"]
  have b2: "books_ok (sc_db ?s2)" "held_ids (sc_db ?s2) = held_ids (sc_db s) - {rq_reservation_id r}"
    using rh by simp_all
  note gb = gives_back_with_sup [of ?s2 env now "release (wk_id w) (rq_id r) (rq_estimated_tokens r) now"]
  have "rq_id r \<notin> fst ` set (sc_leases s')"
    using gb(3) [OF b2(1)] s' by (auto simp: delete_filter)
  then show "map_of (sc_leases s') (rq_id r) = None" by (simp add: map_of_eq_None_iff)
  show "rq_reservation_id r \<notin> held_ids (sc_db s')" using gb(2) [OF b2(1)] b2(2) s' by auto
  show "\<not> on_worker (sc_sup s') (wk_id w) (rq_id r)" using not_on_released s' by simp
qed


section \<open>Leases are stored under their request, and no event waits\<close>

definition tidy :: "scheduler \<Rightarrow> bool" where
  "tidy s \<longleftrightarrow> leases_ok s \<and> sv_emitted (sc_sup s) = []"

lemma leases_ok_cong: "sc_leases s' = sc_leases s \<Longrightarrow> leases_ok s' = leases_ok s"
  by (simp add: leases_ok_def)

lemma drop_leases_sel: "sc_leases (drop_leases env now ls s)
    = filter (\<lambda>(k, l). k \<notin> le_request ` set ls) (sc_leases s)"
  by (induction ls arbitrary: s)
    (auto simp: drop_leases_def delete_filter intro!: filter_cong)

lemma leases_ok_event: "leases_ok s \<Longrightarrow> leases_ok (worker_event env now wid event s)"
  by (cases rule: worker_event_cases [of env now wid event s])
    (auto intro: leases_ok_filter [OF _ drop_leases_sel])

lemma leases_ok_fold:
  assumes "\<And>x s. leases_ok s \<Longrightarrow> leases_ok (f x s)" "leases_ok s"
  shows "leases_ok (fold f xs s)"
  using assms(2) by (induction xs arbitrary: s) (simp_all add: assms(1))

lemma leases_ok_deliver: "leases_ok s \<Longrightarrow> leases_ok (deliver env now s)"
proof -
  assume "leases_ok s"
  then have "leases_ok (s\<lparr>sc_sup := (sc_sup s)\<lparr>sv_emitted := []\<rparr>\<rparr>)" by (simp add: leases_ok_def)
  then show ?thesis
    unfolding deliver_def split_def by (rule leases_ok_fold [rotated]) (rule leases_ok_event)
qed

lemma tidy_deliver: "leases_ok s \<Longrightarrow> tidy (deliver env now s)"
  by (simp add: tidy_def leases_ok_deliver)

lemma tidy_with_sup: "leases_ok s \<Longrightarrow> tidy (with_sup env now f s)"
  using tidy_deliver [of "s\<lparr>sc_sup := f (sc_sup s)\<rparr>"] by (simp add: with_sup_def leases_ok_def)

lemma tidy_same: "tidy s \<Longrightarrow> sc_leases s' = sc_leases s \<Longrightarrow> sc_sup s' = sc_sup s \<Longrightarrow> tidy s'"
  by (simp add: tidy_def leases_ok_def)

lemma tidy_fold: "(\<And>x s. tidy s \<Longrightarrow> tidy (f x s)) \<Longrightarrow> tidy s \<Longrightarrow> tidy (fold f xs s)"
  by (induction xs arbitrary: s) simp_all

lemma tidy_release_lease: "tidy s \<Longrightarrow> tidy (release_lease env now l s)"
proof -
  assume "tidy s"
  then have "leases_ok (s\<lparr>sc_leases := AList.delete (le_request l) (sc_leases s)\<rparr>)"
    by (simp add: tidy_def leases_ok_def distinct_delete list_all_delete)
  from tidy_with_sup [OF this] \<open>tidy s\<close> show ?thesis by (simp add: release_lease_def)
qed

lemma admit_emitted: "sv_emitted (fst (admit wid rid n now sv)) = sv_emitted sv"
  by (simp add: admit_def set_worker_def split: option.splits)

lemma tidy_reject: "tidy s \<Longrightarrow> tidy (reject_popped env now a wid r e s)"
proof -
  assume t: "tidy s"
  let ?s1 = "if a then with_sup env now (release wid (rq_id r) (rq_estimated_tokens r) now) s else s"
  have "tidy ?s1" using t tidy_with_sup by (simp add: tidy_def)
  then show ?thesis by (rule tidy_same) (simp_all add: reject_popped_def Let_def)
qed

lemma tidy_admit_popped:
  assumes "tidy s"
  shows "tidy (admit_popped env now w r s)"
proof -
  let ?a = "admit (wk_id w) (rq_id r) (rq_estimated_tokens r) now (sc_sup s)"
  have a: "sv_emitted (fst ?a) = []" using assms by (simp add: admit_emitted tidy_def)
  have t: "tidy (s\<lparr>sc_sup := fst ?a, sc_db := db\<rparr>)" "tidy (s\<lparr>sc_sup := fst ?a\<rparr>)"
    "tidy (leased env now w r (fst ?a) s)" for db
    using assms a
    by (simp_all add: tidy_def leases_ok_def leased_def distinct_update list_all_update make_lease_def)
  show ?thesis
  proof (cases rule: admit_popped_cases [of w r now s env])
    case (refused sv e)
    then show ?thesis using tidy_reject [OF t(2)] by simp
  next
    case (stale sv e)
    then show ?thesis using tidy_reject [OF t(1)] by simp
  next
    case (served sv)
    then show ?thesis using tidy_same [OF t(3)] by simp
  next
    case (abandoned sv)
    have "tidy (release_quota env now (rq_reservation_id r) ''client_cancelled''
        (leased env now w r sv s))"
      by (rule tidy_same [OF t(3)]) (simp_all add: abandoned(1))
    then show ?thesis using abandoned(4) tidy_release_lease by simp
  qed
qed

lemma tidy_route_model:
  "route_model n env now mid s = Some (x, s') \<Longrightarrow> tidy s \<Longrightarrow> tidy s'"
proof (induction n arbitrary: s)
  case (Suc n)
  have q: "tidy (s\<lparr>sc_queues := mq\<rparr>)" for mq by (rule tidy_same [OF Suc.prems(2)]) simp_all
  have r: "tidy t" if "route_round env now mid s = Some (y, t)" for y t
    using that Suc.prems(2)
    by (auto simp: route_round_def Let_def split: prod.splits option.splits if_splits sum.splits
        intro: q tidy_admit_popped)
  from Suc.prems(1) show ?case
    using r Suc.IH by (auto split: option.splits prod.splits round.splits)
qed simp

lemma tidy_route:
  "route_ready_work env now s = Some (x, s') \<Longrightarrow> tidy s \<Longrightarrow> tidy s'"
proof -
  have "route_models env now mids s = Some (x, s') \<Longrightarrow> tidy s \<Longrightarrow> tidy s'" for mids s
  proof (induction mids arbitrary: s)
    case (Cons mid mids)
    then show ?case
      by (auto simp del: route_model.simps split: option.splits prod.splits round.splits
          dest: tidy_route_model)
  qed simp
  then show "route_ready_work env now s = Some (x, s') \<Longrightarrow> tidy s \<Longrightarrow> tidy s'"
    by (simp add: route_ready_work_def)
qed

lemma watchdogs_emitted:
  "sv_emitted (fst (fold (\<lambda>wid (sv, acc).
      case watchdog_check st now wid sv of (sv', hit) \<Rightarrow> (sv', acc @ hit)) ids (sv, acc)))
   = sv_emitted sv"
proof (induction ids arbitrary: sv acc)
  case (Cons i ids)
  have "sv_emitted (fst (watchdog_check st now i sv)) = sv_emitted sv"
    by (simp add: watchdog_check_def spawn_def split: option.splits)
  with Cons.IH [of "fst (watchdog_check st now i sv)"] show ?case by (simp add: split_def)
qed simp

lemma tidy_upkeep: "tidy s \<Longrightarrow> tidy (lease_upkeep env now s)"
proof -
  assume t: "tidy s"
  have e: "tidy (log_event now k i ps (release_lease env now l (release_quota env now rid x s)))"
    if "tidy s" for k i ps l rid x s
    by (rule tidy_same [OF tidy_release_lease [OF tidy_same [OF that]]]) simp_all
  have t1: "tidy (expire_inactive_streams env now s)"
    using t by (auto simp: expire_inactive_streams_def intro!: tidy_fold e split: option.splits)
  have t2: "tidy (release_settled_leases env now (expire_inactive_streams env now s))"
    unfolding release_settled_leases_def by (intro tidy_fold tidy_release_lease t1)
  have d: "tidy (drop_overdue env now rid s)" if "tidy s" for rid s
    using that by (auto simp: drop_overdue_def tidy_def leases_ok_def distinct_delete list_all_delete
        split: option.splits)
  have w: "tidy (enforce_watchdogs env now u)" if "tidy u" for u
  proof -
    obtain sv overdue where f: "fold (\<lambda>wid (sv, acc).
        case watchdog_check (se_settings env) now wid sv of (sv', hit) \<Rightarrow> (sv', acc @ hit))
        (keys (sv_workers (sc_sup u))) (sc_sup u, []) = (sv, overdue)" by fastforce
    have "sv_emitted sv = []"
      using watchdogs_emitted [of "se_settings env" now "keys (sv_workers (sc_sup u))" "sc_sup u" "[]"]
        f that by (simp add: tidy_def)
    then have "tidy (u\<lparr>sc_sup := sv\<rparr>)" using that by (simp add: tidy_def leases_ok_def)
    then show ?thesis
      unfolding enforce_watchdogs_def Let_def f prod.case by (intro tidy_fold) (auto intro: tidy_fold d)
  qed
  show ?thesis unfolding lease_upkeep_def by (rule w [OF t2])
qed

lemma tidy_plan:
  assumes "plan_actions env now profiles s = Some s'" "tidy s"
  shows "tidy s'"
proof -
  have p: "sc_leases (fst (pressures s)) = sc_leases s" "sc_sup (fst (pressures s)) = sc_sup s"
    by (simp_all add: pressures_def fold_same [where f = sc_leases] fold_same [where f = sc_sup])
  obtain s1 ps where s1: "pressures s = (s1, ps)" by fastforce
  let ?s2 = "s1\<lparr>sc_warm_once := filter (\<lambda>m. m \<notin> warm_models s1) (sc_warm_once s1)\<rparr>"
  have r: "sc_leases (report_incompatible now profiles m t) = sc_leases t" for m t
    by (simp add: report_incompatible_def)
  from assms(1) s1 obtain ms todo where
    "s' = (if se_kvcached env then fold (report_incompatible now profiles) ms ?s2 else ?s2)
            \<lparr>sc_todo := todo\<rparr>"
    by (auto simp: plan_actions_def Let_def)
  then have "sc_leases s' = sc_leases s1" "sc_sup s' = sc_sup s1"
    by (simp_all add: r fold_same [where f = sc_leases] fold_same [where f = sc_sup])
  with p s1 show ?thesis by (intro tidy_same [OF assms(2)]) auto
qed

lemma tidy_reconcile:
  assumes "sched_inv s" "tidy s" "reconcile env now profiles s = Some s'"
  shows "tidy s'"
proof (cases rule: reconcile_cases [OF assms(1,3)])
  case 1
  then show ?thesis using tidy_upkeep [OF assms(2), of env now] tidy_same by auto
next
  case 2
  then show ?thesis using tidy_upkeep [OF assms(2)] by simp
next
  case (3 s2)
  then show ?thesis using tidy_upkeep [OF assms(2)] tidy_route tidy_plan by blast
qed

lemma tidy_action: "tidy s \<Longrightarrow> tidy (next_action env now launcher s)"
proof (cases "sc_todo s = [] \<or> sc_waking s \<noteq> None")
  case True
  assume "tidy s"
  then show ?thesis using True by (auto simp: next_action_def split: list.splits)
next
  case False
  assume t: "tidy s"
  from False obtain a rest where todo: "sc_todo s = a # rest" by (cases "sc_todo s") auto
  have t0: "tidy (s\<lparr>sc_todo := rest\<rparr>)" by (rule tidy_same [OF t]) simp_all
  then have l0: "leases_ok (s\<lparr>sc_todo := rest\<rparr>)" by (simp add: tidy_def)
  have "tidy (run_action env now launcher a (s\<lparr>sc_todo := rest\<rparr>))"
  proof (cases a)
    case (StartPlacement p gpus r)
    have "tidy (deliver env now (s\<lparr>sc_sup := sv, sc_todo := x\<rparr>))" for x sv
      using l0 by (intro tidy_deliver) (simp add: leases_ok_def)
    then show ?thesis
      using t0 StartPlacement tidy_same [OF t0]
      by (auto simp: run_action_def launch_if_active_def Let_def split: option.splits prod.splits)
  next
    case (WakePlacement w r)
    then show ?thesis using t0 tidy_same [OF t0]
      by (auto simp: run_action_def wake_if_active_def split: option.splits)
  qed (simp_all add: run_action_def tidy_with_sup l0)
  then show ?thesis using False todo by (simp add: next_action_def)
qed

lemma tidy_step:
  assumes "sched_step env s s'" "sched_inv s" "tidy s"
  shows "tidy s'"
  using assms
proof (induction rule: sched_step.induct)
  case (database db s)
  then show ?case using tidy_same by auto
next
  case (supervisor s sv now)
  then show ?case by (intro tidy_deliver) (simp add: tidy_def leases_ok_def)
next
  case (start s now selectors)
  have "sc_leases (preload_model now m t) = sc_leases t" for m t by (simp add: preload_model_def)
  then have "sc_leases (configure_preload now selectors s) = sc_leases s"
    by (simp add: configure_preload_def Let_def fold_same [where f = sc_leases])
  then show ?case using tidy_same [OF start(2)] by simp
next
  case (enqueue f s r now)
  show ?case by (rule tidy_same [OF enqueue(4)])
    (auto simp: enqueue_def Let_def split: prod.splits sum.splits)
next
  case (cancel s now r)
  show ?case by (rule tidy_same [OF cancel(2)])
    (auto simp: cancel_enqueued_def Let_def split: prod.splits)
next
  case (warm s now mid)
  show ?case by (rule tidy_same [OF warm(2)]) (simp_all add: warm_model_once_def)
next
  case (release s now l)
  then show ?case by (simp add: tidy_release_lease)
next
  case (touch s now l)
  have "le_request cur = le_request l" if "map_of (sc_leases s) (le_request l) = Some cur" for cur
    using touch(2) that list_all_map_ofD [of "\<lambda>(k, l). le_request l = k"]
    by (fastforce simp: tidy_def leases_ok_def)
  with touch(2) show ?case
    by (auto simp: touch_def tidy_def leases_ok_def distinct_update list_all_update
        split: option.splits)
next
  case (acquire_begin s now gpus)
  have "tidy (s\<lparr>sc_validation := v\<rparr>)" for v by (rule tidy_same [OF acquire_begin(2)]) simp_all
  then have "tidy (fold (\<lambda>w. with_sup env now (g w)) ws (s\<lparr>sc_validation := v\<rparr>))"
    for ws v and g :: "worker \<Rightarrow> supervisor \<Rightarrow> supervisor"
    by (intro tidy_fold tidy_with_sup) (simp_all add: tidy_def)
  then show ?case using acquire_begin(2) by (simp add: acquire_begin_def Let_def)
next
  case (acquire_finish s now gpus ids failures)
  show ?case by (rule tidy_same [OF acquire_finish(2)]) (simp_all add: acquire_finish_def Let_def)
next
  case (release_validation s now gpus)
  show ?case by (rule tidy_same [OF release_validation(2)]) (simp_all add: release_validation_gpus_def)
next
  case (maintenance s now)
  have r: "sc_leases (reject_queued env now x t) = sc_leases t"
    "sc_sup (reject_queued env now x t) = sc_sup t" for x t by (simp_all add: reject_queued_def)
  have "tidy (fold (reject_queued env now) xs (s\<lparr>sc_maintenance := True, sc_queues := mq, sc_db := db\<rparr>))"
    for xs mq db
    by (rule tidy_same [OF maintenance(2)])
      (simp_all add: r fold_same [where f = sc_leases] fold_same [where f = sc_sup])
  moreover have "tidy (drain_workers env now t)" if "tidy t" for t
    unfolding drain_workers_def using that by (intro tidy_fold tidy_with_sup) (simp_all add: tidy_def)
  ultimately show ?case by (simp add: enter_maintenance_def split_def)
next
  case (resume s now)
  show ?case by (rule tidy_same [OF resume(2)]) (simp_all add: resume_def)
next
  case (close s now)
  have "tidy (fold (\<lambda>l. release_quota env now (le_reservation l) ''service_shutdown'') ls
      (s\<lparr>sc_closed := True\<rparr>))" for ls
    by (rule tidy_same [OF close(2)])
      (simp_all add: fold_same [where f = sc_leases] fold_same [where f = sc_sup])
  from this [of "vals (sc_leases s)"] show ?case
    unfolding close_def by (intro tidy_with_sup) (simp add: tidy_def)
next
  case (reconcile now profiles s s')
  then show ?case using tidy_reconcile by blast
next
  case (action wid s now parsers base kenv outcome)
  then show ?case by (simp add: tidy_action)
next
  case (wake s now)
  have "tidy (deliver env now (s\<lparr>sc_sup := sv, sc_waking := None, sc_todo := x\<rparr>))" for sv x
    using wake(2) by (intro tidy_deliver) (simp add: tidy_def leases_ok_def)
  then show ?case using wake(2)
    by (auto simp: begin_wake_def split: option.splits prod.splits)
qed

lemma reachable_tidy: "sched_reachable env s \<Longrightarrow> tidy s"
proof (induction rule: sched_reachable.induct)
  case (init cap tenant now db)
  show ?case by (simp add: tidy_def leases_ok_def sched_init_def sup_init_def)
next
  case (step s s')
  then show ?case using tidy_step reachable_sched_inv by blast
qed

section \<open>A run\<close>

lemma drr_pop_loop_code [code]:
  "drr_pop_loop q =
     (case snd (pop_body q) of
        Some res \<Rightarrow> Some (fst (pop_body q), res)
      | None \<Rightarrow> drr_pop_loop (fst (pop_body q)))"
  by (subst drr_pop_loop.simps) (auto split: prod.splits option.splits)

declare fill_placements.simps [code]

text \<open>A scheduler with one GPU: a request arrives, its model is launched and becomes ready.\<close>

definition demo_env :: sched_env where
  "demo_env =
     \<lparr>se_settings = demo_settings, se_planner = demo_cfg, se_gpus = [''g0''],
      se_stream_timeout = None, se_validation_idle = 60, se_kvcached = True,
      se_ledger_id = (\<lambda>rid. ''refund-'' @ rid)\<rparr>"

definition demo_profiles :: "string \<Rightarrow> placement_profile list" where
  "demo_profiles m = (if m = ''m'' then [demo_sup_profile] else [])"

definition demo_start :: scheduler where
  "demo_start = sched_init None None 0
     (demo_reserved\<lparr>db_models := [demo_model\<lparr>mc_artifact_path := Some ''/m''\<rparr>]\<rparr>)"

definition demo_queued_request :: request where
  "demo_queued_request =
     \<lparr>rq_id = ''q1'', rq_model_id = ''m'', rq_tenant_id = ''k'', rq_estimated_tokens = 40,
      rq_payload = [], rq_reservation_id = ''r1'', rq_is_stream = False, rq_enqueued_at = 5,
      rq_assignment = None\<rparr>"

definition demo_queued :: scheduler where
  "demo_queued = fst (enqueue 5 0 demo_queued_request demo_start)"

definition demo_planned :: scheduler where
  "demo_planned = (case reconcile demo_env 6 demo_profiles demo_queued of None \<Rightarrow> demo_queued | Some s \<Rightarrow> s)"

definition demo_loading :: scheduler where
  "demo_loading = next_action demo_env 7 (\<lambda>p gpus path name. launch demo_settings ''w'' 7 p gpus path name
     (None, None) [] [] (Spawned 7)) demo_planned"

definition demo_ready :: scheduler where
  "demo_ready = deliver demo_env 8 (demo_loading\<lparr>sc_sup :=
     await_ready ''w'' ProbeHealthy 8 (take_task (AwaitReady ''w'') (sc_sup demo_loading))\<rparr>)"

lemma demo_start_reachable: "sched_reachable demo_env demo_start"
  unfolding demo_start_def by (rule sched_reachable.init)

lemma demo_queued_reachable: "sched_reachable demo_env demo_queued"
  unfolding demo_queued_def
  by (rule sched_reachable.step [OF demo_start_reachable sched_step.enqueue])
    (simp_all add: demo_start_def sched_init_def demo_queued_request_def)

lemma demo_planned_reachable: "sched_reachable demo_env demo_planned"
  using demo_queued_reachable
  by (auto simp: demo_planned_def split: option.splits
      intro: sched_reachable.step [OF demo_queued_reachable sched_step.reconcile])

lemma demo_loading_facts:
  "let s = demo_loading in AwaitReady ''w'' \<in> set (sv_pending (sc_sup s))
     \<and> get_worker (sc_sup s) ''w'' \<noteq> None"
  by code_simp

lemma demo_planned_empty: "keys (sv_workers (sc_sup demo_planned)) = []"
  by code_simp

lemma demo_loading_reachable: "sched_reachable demo_env demo_loading"
  using sched_step.action [of "''w''" demo_planned demo_env 7] demo_planned_empty
  unfolding demo_loading_def
  by (intro sched_reachable.step [OF demo_planned_reachable]) (simp add: demo_env_def)

lemma demo_ready_reachable: "sched_reachable demo_env demo_ready"
  unfolding demo_ready_def
  by (intro sched_reachable.step [OF demo_loading_reachable] sched_step.supervisor
      sup_step.await_ready) (use demo_loading_facts in \<open>simp_all add: op_keys Let_def\<close>)

text \<open>What the witnesses below need of the ready state, evaluated once.\<close>

lemma demo_ready_facts:
  "let s = demo_ready in
     drr_len (queue_of (sc_queues s) ''m'') = 1 \<and> books_ok (sc_db s)
     \<and> map_of (sc_leases s) ''q1'' = None \<and> waiting (Some 0) s
     \<and> (case ready_workers ''m'' s of [] \<Rightarrow> False | w # _ \<Rightarrow>
          ''q1'' \<notin> wk_admitted w \<and> fst (mark_request_admitted 9 ''q1'' (wk_id w) (sc_db s)))
     \<and> (case route_ready_work demo_env 9 s of None \<Rightarrow> False
          | Some (_, s') \<Rightarrow> ready_workers ''m'' s' \<noteq> [])"
  by code_simp


section \<open>Properties\<close>



definition demo_popped :: request where
  "demo_popped = demo_queued_request\<lparr>rq_assignment := Some 0\<rparr>"


text \<open>
  C11: a worker that fails returns every lease. It ends cold and holds no request; exactly its leases
  are gone, exactly their reservations stop being held, and the books stay in order.
\<close>

theorem failed_worker_returns_its_leases:
  assumes "sched_reachable env s" "books_ok (sc_db s)"
    "get_worker (sc_sup s) wid = Some w" "wk_state w \<noteq> COLD"
  shows "let s' = with_sup env now (fail_worker wid reason) s;
             mine = filter (\<lambda>l. le_worker l = wid) (vals (sc_leases s)) in
    cold (sc_sup s') wid \<and> (\<forall>rid. \<not> on_worker (sc_sup s') wid rid)
    \<and> vals (sc_leases s') = filter (\<lambda>l. le_worker l \<noteq> wid) (vals (sc_leases s))
    \<and> held_ids (sc_db s') = held_ids (sc_db s) - le_reservation ` set mine \<and> books_ok (sc_db s')"
proof -
  have t: "leases_ok s" "sv_emitted (sc_sup s) = []"
    using reachable_tidy [OF assms(1)] by (simp_all add: tidy_def)
  let ?sv = "fail_worker wid reason (sc_sup s)"
  let ?s1 = "s\<lparr>sc_sup := ?sv\<lparr>sv_emitted := []\<rparr>\<rparr>"
  let ?mine = "filter (\<lambda>l. le_worker l = wid) (vals (sc_leases s))"
  let ?s' = "with_sup env now (fail_worker wid reason) s"
  have em: "sv_emitted ?sv = [(wid, ''failed:'' @ reason)]"
    using assms(3,4) t(2)
    by (simp add: fail_worker_def emit_def cleanup_def record_event_def persist_def set_worker_def)
  have s': "?s' = drop_leases env now ?mine ?s1"
    using worker_event_failed [of env now wid reason ?s1] em
    by (simp add: with_sup_def deliver_def)
  note d = drop_leases_spec [of ?s1 env now ?mine]
  have own: "k \<in> le_request ` set ?mine \<longleftrightarrow> le_worker l = wid" if "(k, l) \<in> set (sc_leases s)" for k l
  proof
    assume "k \<in> le_request ` set ?mine"
    then obtain k' l' where l': "(k', l') \<in> set (sc_leases s)" "le_worker l' = wid" "k = le_request l'"
      by auto
    then have "k' = k" using t(1) by (auto simp: leases_ok_def list_all_iff)
    with l' that have "l' = l" using t(1) by (auto simp: leases_ok_def dest: eq_key_imp_eq_value)
    with l' show "le_worker l = wid" by simp
  next
    assume "le_worker l = wid"
    moreover have "le_request l = k" using that t(1) by (auto simp: leases_ok_def list_all_iff)
    ultimately show "k \<in> le_request ` set ?mine" using that by force
  qed
  have "vals (filter (\<lambda>(k, l). k \<notin> le_request ` set ?mine) (sc_leases s))
      = vals (filter (\<lambda>(k, l). le_worker l \<noteq> wid) (sc_leases s))"
    using own by (intro arg_cong [where f = vals] filter_cong) auto
  also have "\<dots> = filter (\<lambda>l. le_worker l \<noteq> wid) (vals (sc_leases s))"
    by (simp add: filter_map comp_def split_def)
  finally have "vals (sc_leases ?s') = filter (\<lambda>l. le_worker l \<noteq> wid) (vals (sc_leases s))"
    using s' d(3) assms(2) by simp
  moreover have "get_worker (sc_sup ?s') wid = Some (w\<lparr>wk_admitted := {}, wk_outstanding := 0,
      wk_state := COLD, wk_pid := None\<rparr>)"
    using assms(3,4) by (simp add: fail_worker_get)
  ultimately show ?thesis
    using s' d(1,2) assms(2) by (simp add: Let_def cold_def on_worker_def)
qed

definition demo_serving :: scheduler where
  "demo_serving =
     (case reconcile demo_env 9 demo_profiles demo_ready of None \<Rightarrow> demo_ready | Some s \<Rightarrow> s)"

lemma demo_serving_reachable: "sched_reachable demo_env demo_serving"
  using demo_ready_reachable
  by (auto simp: demo_serving_def split: option.splits
      intro: sched_reachable.step [OF demo_ready_reachable sched_step.reconcile])

lemma demo_serving_facts:
  "let s = demo_serving in
     map (\<lambda>l. (le_worker l, le_request l, le_reservation l)) (vals (sc_leases s)) = [(''w'', ''q1'', ''r1'')]
     \<and> books_ok (sc_db s) \<and> ''r1'' \<in> held_ids (sc_db s)
     \<and> (case get_worker (sc_sup s) ''w'' of None \<Rightarrow> False | Some w \<Rightarrow> wk_state w \<noteq> COLD)"
  by code_simp

lemma failed_worker_returns_its_leases_witness:
  "map le_request (vals (sc_leases demo_serving)) = [''q1''] \<and> ''r1'' \<in> held_ids (sc_db demo_serving)
   \<and> vals (sc_leases (with_sup demo_env 10 (fail_worker ''w'' ''oom'') demo_serving)) = []
   \<and> ''r1'' \<notin> held_ids (sc_db (with_sup demo_env 10 (fail_worker ''w'' ''oom'') demo_serving))"
proof -
  have l: "map (\<lambda>l. (le_worker l, le_request l, le_reservation l)) (vals (sc_leases demo_serving))
      = [(''w'', ''q1'', ''r1'')]"
    and b: "books_ok (sc_db demo_serving)" "''r1'' \<in> held_ids (sc_db demo_serving)"
    and up: "case get_worker (sc_sup demo_serving) ''w'' of None \<Rightarrow> False | Some w \<Rightarrow> wk_state w \<noteq> COLD"
    using demo_serving_facts unfolding Let_def by blast+
  from l obtain l where ls: "vals (sc_leases demo_serving) = [l]" "le_worker l = ''w''"
    "le_request l = ''q1''" "le_reservation l = ''r1''"
    by (auto simp: map_eq_Cons_conv)
  from up obtain w where "get_worker (sc_sup demo_serving) ''w'' = Some w" "wk_state w \<noteq> COLD"
    by (auto split: option.splits)
  from failed_worker_returns_its_leases [OF demo_serving_reachable b(1) this, of 10 "''oom''"]
  show ?thesis using ls b(2) by (simp add: Let_def)
qed

text \<open>
  C12: out of the active mode nothing waits and nothing enters: the queues are empty and \<open>enqueue\<close>
  refuses every request. In MAINTENANCE_READY every worker is cold and holds no request, no GPU is
  lent to a validation, and \<open>resume\<close> succeeds.
\<close>

theorem maintenance_ready_is_quiet:
  assumes "sched_reachable env s" "service_mode_of (sc_db s) \<noteq> ACTIVE"
  shows "pending_models (sc_queues s) = [] \<and> snd (enqueue now f r s) = Inl (Rio MaintenanceError) \<and>
    (service_mode_of (sc_db s) = MAINTENANCE_READY \<longrightarrow>
      (\<forall>wid w. get_worker (sc_sup s) wid = Some w \<longrightarrow> wk_state w = COLD \<and> wk_admitted w = {})
      \<and> sc_validation s = [] \<and> snd (resume now s) = Inr ())"
proof -
  note inv = reachable_sched_inv [OF assms(1)]
  have c: "wk_state w = COLD \<and> wk_admitted w = {}"
    if "all_cold s" "get_worker (sc_sup s) wid = Some w" for wid w
  proof -
    have "(wid, w) \<in> set (sv_workers (sc_sup s))"
      using that(2) by (auto simp: get_worker_def dest: map_of_SomeD)
    then have "wk_state w = COLD" using that(1) by (force simp: all_cold_def)
    then show ?thesis
      using sup_invD [OF sched_invD(1) [OF inv] that(2)] by (auto simp: worker_ok_def)
  qed
  show ?thesis
    using inv assms(2) c by (auto simp: sched_inv_def enqueue_def resume_def Let_def)
qed

definition demo_maintenance :: scheduler where
  "demo_maintenance = sched_init None None 0 (set_service_mode 0 MAINTENANCE_READY demo_reserved)"

lemma maintenance_ready_is_quiet_witness:
  "snd (enqueue 5 0 demo_queued_request demo_maintenance) = Inl (Rio MaintenanceError)
   \<and> snd (resume 5 demo_maintenance) = Inr ()"
proof -
  have m: "service_mode_of (sc_db demo_maintenance) = MAINTENANCE_READY"
    by (simp add: demo_maintenance_def sched_init_def)
  have "sched_reachable demo_env demo_maintenance"
    unfolding demo_maintenance_def by (rule sched_reachable.init)
  from maintenance_ready_is_quiet [OF this, of 5 0 demo_queued_request] m show ?thesis by simp
qed



text \<open>
  C13: workers start only in the active mode: a step that adds a worker is taken when the service is
  active and no maintenance was requested, on GPUs that are not lent to a validation, for a model of
  the catalog with its weights on disk, and passes the supervisor's checks.
\<close>

theorem workers_start_only_when_active:
  assumes "sched_reachable env s" "sched_step env s s'"
    "get_worker (sc_sup s) wid = None" "get_worker (sc_sup s') wid = Some w"
  shows "service_mode_of (sc_db s) = ACTIVE \<and> \<not> sc_maintenance s
    \<and> set (wk_gpu_uuids w) \<inter> set (sc_validation s) = {}
    \<and> (\<exists>m path. model_by_id (wk_model_id w) (sc_db s) = Some m \<and> mc_artifact_path m = Some path
         \<and> path \<noteq> [])
    \<and> launch_checks (se_settings env) (sc_sup s) (wk_profile w) (wk_gpu_uuids w) = None"
proof -
  have keys: "wid \<in> set (keys (sv_workers (sc_sup s'))) - set (keys (sv_workers (sc_sup s)))"
    using assms(3,4) map_of_eq_None_iff [of "sv_workers (sc_sup s)" wid]
    by (force simp: get_worker_def dest: map_of_SomeD)
  then have "\<not> sup_moves env False s s'" using run_keys by fastforce
  then have "launches env s s'"
    using step_keeps [OF assms(2) reachable_sched_inv [OF assms(1)]] by simp
  then obtain i now p gpus m path parsers base kenv outcome where l:
    "i \<notin> set (keys (sv_workers (sc_sup s)))" "service_mode_of (sc_db s) = ACTIVE"
    "\<not> sc_maintenance s" "set gpus \<inter> set (sc_validation s) = {}"
    "model_by_id (pf_model_id p) (sc_db s) = Some m" "mc_artifact_path m = Some path" "path \<noteq> []"
    "sc_sup s' = (fst (launch (se_settings env) i now p gpus path (mc_nickname m) parsers base
             kenv outcome (sc_sup s)))\<lparr>sv_emitted := []\<rparr>"
    unfolding launches_def by blast
  show ?thesis
  proof (cases rule: launch_cases [OF l(1), of "se_settings env" now p gpus path "mc_nickname m"
        parsers base kenv outcome])
    case (1 err)
    then show ?thesis using l(8) assms(3,4) by simp
  next
    case (2 w' port pid)
    then have "w = w'" using l(8) assms(3,4) by (simp split: if_splits)
    with 2 l show ?thesis by (simp add: new_worker_def)
  qed
qed

lemma workers_start_only_when_active_witness:
  "service_mode_of (sc_db demo_planned) = ACTIVE
   \<and> (case get_worker (sc_sup demo_loading) ''w'' of None \<Rightarrow> False
        | Some w \<Rightarrow> launch_checks demo_settings (sc_sup demo_planned) (wk_profile w) (wk_gpu_uuids w) = None)"
proof -
  have "get_worker (sc_sup demo_planned) ''w'' = None"
    using demo_planned_empty by (simp add: get_worker_def)
  moreover obtain w where "get_worker (sc_sup demo_loading) ''w'' = Some w"
    using demo_loading_facts by (auto simp: Let_def)
  moreover have "sched_step demo_env demo_planned demo_loading"
    using sched_step.action [of "''w''" demo_planned demo_env 7] demo_planned_empty
    unfolding demo_loading_def by (simp add: demo_env_def)
  ultimately show ?thesis
    using workers_start_only_when_active [OF demo_planned_reachable, of demo_loading "''w''" w]
    by (simp add: demo_env_def)
qed

section \<open>Well-formed states\<close>

text \<open>
  C36: every reachable state is well formed: the dictionaries have unique keys, and a lease, a worker
  and a queued request are stored under their own id, id and tenant. Every queue holds its requests
  in non-empty lists, one for each tenant with a deficit, and counts them; every worker's counter of
  outstanding tokens is not negative, a sleeping one is cached, a draining one knows since when; and
  no event waits to be delivered.
\<close>

theorem reachable_state_is_well_formed:
  assumes "sched_reachable env s"
  shows "distinct (keys (sc_leases s)) \<and> (\<forall>(k, l) \<in> set (sc_leases s). le_request l = k)
    \<and> distinct (keys (sv_workers (sc_sup s))) \<and> sv_emitted (sc_sup s) = []
    \<and> (\<forall>wid w. get_worker (sc_sup s) wid = Some w \<longrightarrow> wk_id w = wid \<and> 0 \<le> wk_outstanding w
         \<and> (wk_state w = SLEEPING \<longrightarrow> wk_host_cached w) \<and> (wk_state w = DRAINING \<longrightarrow> wk_drain_started_at w \<noteq> None))
    \<and> (\<forall>mid. let q = queue_of (sc_queues s) mid in
         distinct (keys (dq_queues q)) \<and> set (keys (dq_deficits q)) = set (keys (dq_queues q))
         \<and> (\<forall>(t, rs) \<in> set (dq_queues q). rs \<noteq> [] \<and> (\<forall>r \<in> set rs. rq_tenant_id r = t \<and> 0 \<le> rq_estimated_tokens r))
         \<and> drr_len q = int (length (concat (vals (dq_queues q)))))"
proof -
  note inv = sched_invD [OF reachable_sched_inv [OF assms]]
  have leases: "distinct (keys (sc_leases s))" "\<forall>(k, l) \<in> set (sc_leases s). le_request l = k"
    "sv_emitted (sc_sup s) = []"
    using reachable_tidy [OF assms] by (auto simp: tidy_def leases_ok_def list_all_iff)
  have workers: "\<forall>wid w. get_worker (sc_sup s) wid = Some w \<longrightarrow> wk_id w = wid \<and> 0 \<le> wk_outstanding w
      \<and> (wk_state w = SLEEPING \<longrightarrow> wk_host_cached w) \<and> (wk_state w = DRAINING \<longrightarrow> wk_drain_started_at w \<noteq> None)"
    using sup_invD [OF inv(1)] by (simp add: worker_ok_def)
  have queue: "distinct (keys (dq_queues q)) \<and> set (keys (dq_deficits q)) = set (keys (dq_queues q))
      \<and> (\<forall>(t, rs) \<in> set (dq_queues q). rs \<noteq> [] \<and> (\<forall>r \<in> set rs. rq_tenant_id r = t \<and> 0 \<le> rq_estimated_tokens r))
      \<and> drr_len q = int (length (concat (vals (dq_queues q))))" if "drr_ok q" for q
  proof -
    have wf: "drr_wf q" and n: "\<forall>r \<in> waiting_requests q. 0 \<le> rq_estimated_tokens r" using that by (simp_all add: drr_ok_def)
    have "rs \<noteq> [] \<and> (\<forall>r \<in> set rs. rq_tenant_id r = t \<and> 0 \<le> rq_estimated_tokens r)" if "(t, rs) \<in> set (dq_queues q)" for t rs
    proof -
      have "queue_entry_ok (t, rs)" using wf that by (auto simp: drr_wf_def list_all_iff)
      moreover have "set rs \<subseteq> waiting_requests q" using that by (force simp: waiting_requests_def)
      ultimately show ?thesis using n by (auto simp: queue_entry_ok_def)
    qed
    moreover have "(\<Sum>rs\<leftarrow>xs. int (length rs)) = int (length (concat xs))" for xs :: "request list list"
      by (induction xs) simp_all
    from this [of "vals (dq_queues q)"] have "drr_len q = int (length (concat (vals (dq_queues q))))"
      using wf unfolding drr_wf_def drr_len_def by argo
    ultimately show ?thesis using wf by (auto simp: drr_wf_def)
  qed
  show ?thesis using leases workers queue [OF queues_okD [OF inv(3)]] inv(2) by (simp add: Let_def)
qed

lemma reachable_state_is_well_formed_witness:
  "distinct (keys (sc_leases demo_serving)) \<and> vals (sc_leases demo_serving) \<noteq> []
   \<and> list_all (\<lambda>(k, l). le_request l = k) (sc_leases demo_serving)"
proof -
  have "map (\<lambda>l. (le_worker l, le_request l, le_reservation l)) (vals (sc_leases demo_serving)) \<noteq> []"
    using demo_serving_facts unfolding Let_def by auto
  then show ?thesis using reachable_state_is_well_formed [OF demo_serving_reachable] by (simp add: list_all_iff)
qed

end
