(* ===== verification/MaintenanceRun.thy ===== *)
theory MaintenanceRun
  imports SchedulerSpec
begin

text \<open>
  A run of the scheduler that does not get out of maintenance. A worker with an admitted request is
  told to sleep and drains to host RAM; then maintenance begins. Its \<open>drain\<close>
  (\<^verbatim>\<open>src/src/llm_rio/workers.py\<close>) skips a worker that is DRAINING already, so the worker still
  offloads after its last request and ends SLEEPING, which \<open>_reconcile\<close> and \<open>resume\<close>
  (\<^verbatim>\<open>src/src/llm_rio/runtime.py\<close>) take for a worker that is still stopping, with nothing pending
  that would stop it.
\<close>

definition stuck_sleep :: "scheduler \<Rightarrow> scheduler" where
  "stuck_sleep s = with_sup demo_env 10 (sleep_worker demo_settings ''w'' 10) s"

definition stuck_release :: "scheduler \<Rightarrow> scheduler" where
  "stuck_release s =
     (case vals (sc_leases s) of [] \<Rightarrow> s | l # _ \<Rightarrow> release_lease demo_env 12 l s)"

definition stuck_offload :: "scheduler \<Rightarrow> scheduler" where
  "stuck_offload s = deliver demo_env 13 (s\<lparr>sc_sup :=
     offload_begin ''w'' 13 (take_task (Offload ''w'') (sc_sup s))\<rparr>)"

definition stuck_offloaded :: "scheduler \<Rightarrow> scheduler" where
  "stuck_offloaded s = deliver demo_env 14 (s\<lparr>sc_sup :=
     offload_finish ''w'' None 1 14 (take_task (OffloadFinish ''w'') (sc_sup s))\<rparr>)"

definition stuck_released :: scheduler where
  "stuck_released = stuck_release (enter_maintenance demo_env 11 (stuck_sleep demo_serving))"

lemma stuck_facts:
  "let s = stuck_released; s1 = stuck_offload s; s2 = stuck_offloaded s1 in
     Offload ''w'' \<in> set (sv_pending (sc_sup s)) \<and> \<not> transition_locked (sc_sup s) ''w''
     \<and> OffloadFinish ''w'' \<in> set (sv_pending (sc_sup s1))
     \<and> service_mode_of (sc_db s2) = MODE_DRAINING \<and> \<not> all_cold s2 \<and> sv_pending (sc_sup s2) = []
     \<and> sc_leases s2 = [] \<and> sc_todo s2 = []
     \<and> (case snd (resume 20 s2) of Inl e \<Rightarrow> exn_code e = ''maintenance_not_ready'' | Inr _ \<Rightarrow> False)
     \<and> (case reconcile demo_env 20 demo_profiles s2 of None \<Rightarrow> False
        | Some s3 \<Rightarrow> service_mode_of (sc_db s3) = MODE_DRAINING \<and> sv_pending (sc_sup s3) = []
            \<and> sv_workers (sc_sup s3) = sv_workers (sc_sup s2))"
  by code_simp

lemma stuck_released_reachable: "sched_reachable demo_env stuck_released"
proof -
  have "sched_step demo_env s (stuck_sleep s)" for s
    unfolding stuck_sleep_def with_sup_def
    by (rule sched_step.supervisor) (simp_all add: sup_step.sleep op_keys demo_env_def)
  moreover have "stuck_release s = s \<or> sched_step demo_env s (stuck_release s)" for s
    by (auto simp: stuck_release_def split: list.splits intro: sched_step.release)
  ultimately show ?thesis
    unfolding stuck_released_def
    by (metis demo_serving_reachable sched_reachable.step sched_step.maintenance)
qed

lemma maintenance_can_stick:
  "\<exists>s. sched_reachable demo_env s \<and> service_mode_of (sc_db s) = MODE_DRAINING
     \<and> sv_pending (sc_sup s) = [] \<and> sc_leases s = [] \<and> sc_todo s = []
     \<and> (case snd (resume 20 s) of Inl e \<Rightarrow> exn_code e = ''maintenance_not_ready'' | Inr _ \<Rightarrow> False)
     \<and> (case reconcile demo_env 20 demo_profiles s of None \<Rightarrow> False
        | Some s' \<Rightarrow> service_mode_of (sc_db s') = MODE_DRAINING \<and> sv_pending (sc_sup s') = []
            \<and> sv_workers (sc_sup s') = sv_workers (sc_sup s))"
proof -
  let ?s1 = "stuck_offload stuck_released" and ?s2 = "stuck_offloaded (stuck_offload stuck_released)"
  have "sched_step demo_env stuck_released ?s1"
    unfolding stuck_offload_def
    by (intro sched_step.supervisor sup_step.offload)
      (use stuck_facts in \<open>auto simp: Let_def offload_begin_def split: option.splits\<close>)
  moreover have "sched_step demo_env ?s1 ?s2"
    unfolding stuck_offloaded_def
    by (intro sched_step.supervisor sup_step.offload_finish)
      (use stuck_facts in \<open>auto simp: Let_def offload_finish_def split: option.splits\<close>)
  ultimately have "sched_reachable demo_env ?s2"
    using stuck_released_reachable sched_reachable.step by blast
  then show ?thesis using stuck_facts unfolding Let_def by blast
qed

end
