(* ===== verification/PyValues.thy ===== *)
theory PyValues
  imports Workers StorageTables
begin

text \<open>
  The conversions of the Python standard library that the profile repository and the inference API
  apply to JSON values: \<open>int\<close>, \<open>float\<close>, truth, \<open>json.dumps\<close> and the sizes of its result. A string is
  a list of characters below 256, so code points above are outside the model. How a float is printed
  and how a string is read as a float are arguments.
\<close>

section \<open>int and float\<close>

definition is_space :: "char \<Rightarrow> bool" where
  "is_space c \<longleftrightarrow> (let n = of_char c :: nat in 9 \<le> n \<and> n \<le> 13 \<or> 28 \<le> n \<and> n \<le> 32 \<or> n = 133 \<or> n = 160)"

definition strip :: "string \<Rightarrow> string" where
  "strip s = rev (dropWhile is_space (rev (dropWhile is_space s)))"

definition is_digit :: "char \<Rightarrow> bool" where
  "is_digit c \<longleftrightarrow> (let n = of_char c :: nat in 48 \<le> n \<and> n \<le> 57)"

text \<open>Decimal digits with single underscores between them.\<close>

fun digits :: "int \<Rightarrow> bool \<Rightarrow> string \<Rightarrow> int option" where
  "digits acc after_digit [] = (if after_digit then Some acc else None)"
| "digits acc after_digit (c # cs) =
     (if is_digit c then digits (10 * acc + (of_char c - 48)) True cs
      else if c = CHR ''_'' \<and> after_digit then digits acc False cs
      else None)"

definition int_literal :: "string \<Rightarrow> int option" where
  "int_literal s =
     (case strip s of
        [] \<Rightarrow> None
      | c # cs \<Rightarrow>
          if c = CHR ''-'' then map_option uminus (digits 0 False cs)
          else if c = CHR ''+'' then digits 0 False cs
          else digits 0 False (c # cs))"

definition truncate :: "rat \<Rightarrow> int" where
  "truncate q = (if q < 0 then - \<lfloor>- q\<rfloor> else \<lfloor>q\<rfloor>)"

fun json_int :: "json \<Rightarrow> exn + int" where
  "json_int (JInt n) = Inr n"
| "json_int (JBool b) = Inr (if b then 1 else 0)"
| "json_int (JFloat q) = Inr (truncate q)"
| "json_int (JStr s) = (case int_literal s of None \<Rightarrow> Inl ValueError | Some n \<Rightarrow> Inr n)"
| "json_int _ = Inl (TypeError ''int'')"

fun json_float :: "(string \<Rightarrow> rat option) \<Rightarrow> json \<Rightarrow> exn + rat" where
  "json_float lit (JInt n) = Inr (of_int n)"
| "json_float lit (JBool b) = Inr (if b then 1 else 0)"
| "json_float lit (JFloat q) = Inr q"
| "json_float lit (JStr s) = (case lit s of None \<Rightarrow> Inl ValueError | Some q \<Rightarrow> Inr q)"
| "json_float lit _ = Inl (TypeError ''float'')"

section \<open>json.dumps\<close>

function (sequential) nat_decimal :: "nat \<Rightarrow> string" where
  "nat_decimal n =
     (if n < 10 then [char_of (48 + n)] else nat_decimal (n div 10) @ [char_of (48 + n mod 10)])"
  by pat_completeness auto
termination by (relation "measure id") auto

declare nat_decimal.simps [simp del]

definition decimal :: "int \<Rightarrow> string" where
  "decimal n = (if n < 0 then CHR ''-'' # nat_decimal (nat (- n)) else nat_decimal (nat n))"

definition hex_digit :: "nat \<Rightarrow> char" where
  "hex_digit n = (if n < 10 then char_of (48 + n) else char_of (87 + n))"

text \<open>The escapes with \<open>ensure_ascii=False\<close>.\<close>

definition escape :: "char \<Rightarrow> string" where
  "escape c =
     (let n = of_char c :: nat in
      if n = 34 then [CHR 0x5C, CHR 0x22]
      else if n = 92 then [CHR 0x5C, CHR 0x5C]
      else if n = 10 then [CHR 0x5C, CHR ''n'']
      else if n = 13 then [CHR 0x5C, CHR ''r'']
      else if n = 9 then [CHR 0x5C, CHR ''t'']
      else if n = 12 then [CHR 0x5C, CHR ''f'']
      else if n = 8 then [CHR 0x5C, CHR ''b'']
      else if n < 32 then [CHR 0x5C, CHR ''u'', CHR ''0'', CHR ''0'', hex_digit (n div 16), hex_digit (n mod 16)]
      else [c])"

definition quote :: "string \<Rightarrow> string" where
  "quote s = CHR 0x22 # concat (map escape s) @ [CHR 0x22]"

text \<open>\<open>json.dumps(value, separators=(",", ":"), ensure_ascii=False)\<close>\<close>

fun dumps :: "(rat \<Rightarrow> string) \<Rightarrow> json \<Rightarrow> string" where
  "dumps fr JNull = ''null''"
| "dumps fr (JBool b) = (if b then ''true'' else ''false'')"
| "dumps fr (JInt n) = decimal n"
| "dumps fr (JFloat q) = fr q"
| "dumps fr (JStr s) = quote s"
| "dumps fr (JList xs) = ''['' @ join_with '','' (map (dumps fr) xs) @ '']''"
| "dumps fr (JDict kvs) =
     ''{'' @ join_with '','' (map (\<lambda>(k, v). quote k @ '':'' @ dumps fr v) kvs) @ ''}''"

definition utf8_length :: "string \<Rightarrow> nat" where
  "utf8_length s = sum_list (map (\<lambda>c. if of_char c < (128 :: nat) then 1 else 2) s)"

lemma utf8_length_ge: "length s \<le> utf8_length s"
  by (induction s) (auto simp: utf8_length_def)

section \<open>Fallible lists\<close>

fun traverse :: "('a \<Rightarrow> 'e + 'b) \<Rightarrow> 'a list \<Rightarrow> 'e + 'b list" where
  "traverse f [] = Inr []"
| "traverse f (x # xs) = and_then (f x) (\<lambda>y. and_then (traverse f xs) (\<lambda>ys. Inr (y # ys)))"

lemma traverse_Inr: "(\<And>x. x \<in> set xs \<Longrightarrow> f x = Inr (g x)) \<Longrightarrow> traverse f xs = Inr (map g xs)"
  by (induction xs) auto

lemma traverse_map: "traverse f (map g xs) = traverse (\<lambda>x. f (g x)) xs"
  by (induction xs) auto

text \<open>\<open>raw[key]\<close>\<close>

definition field :: "string \<Rightarrow> (string, json) dict \<Rightarrow> exn + json" where
  "field k raw = (case map_of raw k of None \<Rightarrow> Inl (KeyError k) | Some v \<Rightarrow> Inr v)"

text \<open>
  A value the code stores without a conversion: the model's record fields are typed, so a JSON value
  of another type, which the data class would carry along, is a \<open>TypeError\<close> here.
\<close>

fun as_string :: "json \<Rightarrow> exn + string" where
  "as_string (JStr s) = Inr s"
| "as_string _ = Inl (TypeError ''str'')"

fun as_int :: "json \<Rightarrow> exn + int" where
  "as_int (JInt n) = Inr n"
| "as_int _ = Inl (TypeError ''int'')"

fun as_list :: "json \<Rightarrow> exn + json list" where
  "as_list (JList xs) = Inr xs"
| "as_list _ = Inl (TypeError ''list'')"

fun as_dict :: "json \<Rightarrow> exn + (string, json) dict" where
  "as_dict (JDict d) = Inr d"
| "as_dict _ = Inl (TypeError ''dict'')"

fun optional :: "(json \<Rightarrow> exn + 'a) \<Rightarrow> json \<Rightarrow> exn + 'a option" where
  "optional f JNull = Inr None"
| "optional f v = and_then (f v) (\<lambda>x. Inr (Some x))"

end
