(* ===== verification/Profiles.thy ===== *)
theory Profiles
  imports PyValues StorageModels
begin

text \<open>
  \<^verbatim>\<open>src/src/llm_rio/profiles.py\<close>: placement profiles as JSON objects, their key, and the repository
  of one machine's profiles: listing, saving, updating, activating and cloning. SHA-256, the file of
  a model's configuration and the reading of floats are arguments.
\<close>

section \<open>Profiles as JSON\<close>

definition engine_value :: "engine \<Rightarrow> string" where
  "engine_value e = (case e of VLLM \<Rightarrow> ''vllm'' | LLAMA_CPP \<Rightarrow> ''llama.cpp'')"

definition engine_of :: "json \<Rightarrow> exn + engine" where
  "engine_of v =
     (if v = JStr ''vllm'' then Inr VLLM
      else if v = JStr ''llama.cpp'' then Inr LLAMA_CPP
      else Inl ValueError)"

definition json_opt :: "('a \<Rightarrow> json) \<Rightarrow> 'a option \<Rightarrow> json" where
  "json_opt f v = (case v of None \<Rightarrow> JNull | Some x \<Rightarrow> f x)"

definition json_ints :: "int list \<Rightarrow> json" where
  "json_ints xs = JList (map JInt xs)"

definition profile_to_dict :: "placement_profile \<Rightarrow> (string, json) dict" where
  "profile_to_dict p =
     [(''id'', JStr (pf_id p)), (''model_id'', JStr (pf_model_id p)),
      (''model_revision'', JStr (pf_model_revision p)),
      (''engine'', JStr (engine_value (pf_engine p))),
      (''engine_version'', JStr (pf_engine_version p)),
      (''machine_fingerprint'', JStr (pf_machine_fingerprint p)),
      (''gpu_count'', JInt (pf_gpu_count p)),
      (''tensor_parallel_size'', JInt (pf_tensor_parallel_size p)),
      (''pipeline_parallel_size'', JInt (pf_pipeline_parallel_size p)),
      (''eligible_gpu_sets'', JList (map (\<lambda>g. JList (map JStr g)) (pf_eligible_gpu_sets p))),
      (''dtype'', JStr (pf_dtype p)), (''quantization'', json_opt JStr (pf_quantization p)),
      (''max_model_len'', JInt (pf_max_model_len p)),
      (''max_num_seqs'', json_opt JInt (pf_max_num_seqs p)),
      (''max_num_batched_tokens'', json_opt JInt (pf_max_num_batched_tokens p)),
      (''predicted_tokens_per_second'', JFloat (pf_predicted_tokens_per_second p)),
      (''load_and_warmup_seconds'', JFloat (pf_load_and_warmup_seconds p)),
      (''idle_vram_mib_per_gpu'', json_ints (pf_idle_vram p)),
      (''peak_vram_mib_per_gpu'', json_ints (pf_peak_vram p)),
      (''gpu_headroom_mib_per_gpu'', json_ints (pf_headroom p)),
      (''capabilities'', JList (map JStr (sorted_list_of_set (pf_capabilities p)))),
      (''launch_args'', JDict (pf_launch_args p)),
      (''gpu_memory_utilization'', JFloat (pf_gpu_memory_utilization p)),
      (''kv_cache_capacity_tokens'', json_opt JInt (pf_kv_cache_capacity_tokens p)),
      (''max_full_length_concurrency'', json_opt JFloat (pf_max_full_length_concurrency p)),
      (''memory_backend'', JStr (pf_memory_backend p)),
      (''sleep_vram_mib_per_gpu'', json_opt json_ints (pf_sleep_vram p)),
      (''weight_cache_offload_seconds'', json_opt JFloat (pf_offload_seconds p)),
      (''weight_cache_activation_seconds'', json_opt JFloat (pf_activation_seconds p))]"

definition string_field :: "string \<Rightarrow> (string, json) dict \<Rightarrow> exn + string" where
  "string_field k raw = and_then (field k raw) as_string"

definition int_field :: "string \<Rightarrow> (string, json) dict \<Rightarrow> exn + int" where
  "int_field k raw = and_then (field k raw) json_int"

definition float_field :: "(string \<Rightarrow> rat option) \<Rightarrow> string \<Rightarrow> (string, json) dict \<Rightarrow> exn + rat" where
  "float_field lit k raw = and_then (field k raw) (json_float lit)"

definition ints_field :: "string \<Rightarrow> (string, json) dict \<Rightarrow> exn + int list" where
  "ints_field k raw = and_then (field k raw) (\<lambda>v. and_then (as_list v) (traverse as_int))"

definition strings :: "json \<Rightarrow> exn + string list" where
  "strings v = and_then (as_list v) (traverse as_string)"

text \<open>\<open>raw.get(key)\<close>\<close>

definition get_or :: "json \<Rightarrow> string \<Rightarrow> (string, json) dict \<Rightarrow> json" where
  "get_or d k raw = (case map_of raw k of None \<Rightarrow> d | Some v \<Rightarrow> v)"

definition profile_from_dict ::
  "(string \<Rightarrow> rat option) \<Rightarrow> (string, json) dict \<Rightarrow> exn + placement_profile" where
  "profile_from_dict lit raw =
     and_then (string_field ''id'' raw) (\<lambda>pid.
     and_then (string_field ''model_id'' raw) (\<lambda>mid.
     and_then (string_field ''model_revision'' raw) (\<lambda>rev.
     and_then (and_then (field ''engine'' raw) engine_of) (\<lambda>eng.
     and_then (string_field ''engine_version'' raw) (\<lambda>ver.
     and_then (string_field ''machine_fingerprint'' raw) (\<lambda>fp.
     and_then (int_field ''gpu_count'' raw) (\<lambda>gpus.
     and_then (int_field ''tensor_parallel_size'' raw) (\<lambda>tp.
     and_then (int_field ''pipeline_parallel_size'' raw) (\<lambda>pp.
     and_then (and_then (field ''eligible_gpu_sets'' raw)
                 (\<lambda>v. and_then (as_list v) (traverse strings))) (\<lambda>sets.
     and_then (string_field ''dtype'' raw) (\<lambda>dtype.
     and_then (and_then (field ''quantization'' raw) (optional as_string)) (\<lambda>quant.
     and_then (int_field ''max_model_len'' raw) (\<lambda>mlen.
     and_then (and_then (field ''max_num_seqs'' raw) (optional json_int)) (\<lambda>seqs.
     and_then (and_then (field ''max_num_batched_tokens'' raw) (optional json_int)) (\<lambda>batched.
     and_then (float_field lit ''predicted_tokens_per_second'' raw) (\<lambda>tps.
     and_then (float_field lit ''load_and_warmup_seconds'' raw) (\<lambda>warm.
     and_then (ints_field ''idle_vram_mib_per_gpu'' raw) (\<lambda>idle.
     and_then (ints_field ''peak_vram_mib_per_gpu'' raw) (\<lambda>peak.
     and_then (ints_field ''gpu_headroom_mib_per_gpu'' raw) (\<lambda>head.
     and_then (and_then (field ''capabilities'' raw) strings) (\<lambda>caps.
     and_then (and_then (field ''launch_args'' raw) as_dict) (\<lambda>args.
     and_then (float_field lit ''gpu_memory_utilization'' raw) (\<lambda>util.
     and_then (and_then (field ''kv_cache_capacity_tokens'' raw) (optional json_int)) (\<lambda>kv.
     and_then (and_then (field ''max_full_length_concurrency'' raw) (optional (json_float lit))) (\<lambda>conc.
     and_then (as_string (get_or (JStr ''native'') ''memory_backend'' raw)) (\<lambda>backend.
     and_then (optional (\<lambda>v. and_then (as_list v) (traverse json_int))
                 (get_or JNull ''sleep_vram_mib_per_gpu'' raw)) (\<lambda>sleep.
     and_then (optional (json_float lit) (get_or JNull ''weight_cache_offload_seconds'' raw)) (\<lambda>off.
     and_then (optional (json_float lit) (get_or JNull ''weight_cache_activation_seconds'' raw)) (\<lambda>act.
       Inr \<lparr>pf_id = pid, pf_model_id = mid, pf_model_revision = rev, pf_engine = eng,
        pf_engine_version = ver, pf_machine_fingerprint = fp, pf_gpu_count = gpus,
        pf_tensor_parallel_size = tp, pf_pipeline_parallel_size = pp,
        pf_eligible_gpu_sets = sets, pf_dtype = dtype, pf_quantization = quant,
        pf_max_model_len = mlen, pf_max_num_seqs = seqs, pf_max_num_batched_tokens = batched,
        pf_predicted_tokens_per_second = tps, pf_load_and_warmup_seconds = warm,
        pf_idle_vram = idle, pf_peak_vram = peak, pf_headroom = head, pf_capabilities = set caps,
        pf_launch_args = args, pf_gpu_memory_utilization = util, pf_kv_cache_capacity_tokens = kv,
        pf_max_full_length_concurrency = conc, pf_memory_backend = backend, pf_sleep_vram = sleep,
        pf_offload_seconds = off, pf_activation_seconds = act\<rparr>)))))))))))))))))))))))))))))"

text \<open>The digest \<open>hash\<close> of the sorted JSON of the fields that identify a profile.\<close>

definition identifying_keys :: "string list" where
  "identifying_keys =
     [''model_revision'', ''model_id'', ''artifact_hashes'', ''engine'', ''engine_version'',
      ''machine_fingerprint'', ''gpu_models'', ''topology_class'', ''gpu_count'',
      ''tensor_parallel_size'', ''pipeline_parallel_size'', ''dtype'', ''quantization'',
      ''max_model_len'', ''max_num_seqs'', ''max_num_batched_tokens'', ''gpu_memory_utilization'',
      ''multimodal_limits'', ''tool_parser'', ''eligible_gpu_sets'', ''chat_template_hash'',
      ''launch_args'', ''memory_backend'']"

definition profile_key :: "(json \<Rightarrow> string) \<Rightarrow> (string, json) dict \<Rightarrow> string" where
  "profile_key hash raw =
     hash (JDict (sort_key fst (map (\<lambda>k. (k, get_or JNull k raw)) identifying_keys)))"

section \<open>Reading back what was written\<close>

lemma fields_written:
  "field ''id'' (profile_to_dict p) = Inr (JStr (pf_id p))"
  "field ''model_id'' (profile_to_dict p) = Inr (JStr (pf_model_id p))"
  "field ''model_revision'' (profile_to_dict p) = Inr (JStr (pf_model_revision p))"
  "field ''engine'' (profile_to_dict p) = Inr (JStr (engine_value (pf_engine p)))"
  "field ''engine_version'' (profile_to_dict p) = Inr (JStr (pf_engine_version p))"
  "field ''machine_fingerprint'' (profile_to_dict p) = Inr (JStr (pf_machine_fingerprint p))"
  "field ''gpu_count'' (profile_to_dict p) = Inr (JInt (pf_gpu_count p))"
  "field ''tensor_parallel_size'' (profile_to_dict p) = Inr (JInt (pf_tensor_parallel_size p))"
  "field ''pipeline_parallel_size'' (profile_to_dict p) = Inr (JInt (pf_pipeline_parallel_size p))"
  "field ''eligible_gpu_sets'' (profile_to_dict p)
     = Inr (JList (map (\<lambda>g. JList (map JStr g)) (pf_eligible_gpu_sets p)))"
  "field ''dtype'' (profile_to_dict p) = Inr (JStr (pf_dtype p))"
  "field ''quantization'' (profile_to_dict p) = Inr (json_opt JStr (pf_quantization p))"
  "field ''max_model_len'' (profile_to_dict p) = Inr (JInt (pf_max_model_len p))"
  "field ''max_num_seqs'' (profile_to_dict p) = Inr (json_opt JInt (pf_max_num_seqs p))"
  "field ''max_num_batched_tokens'' (profile_to_dict p)
     = Inr (json_opt JInt (pf_max_num_batched_tokens p))"
  "field ''predicted_tokens_per_second'' (profile_to_dict p)
     = Inr (JFloat (pf_predicted_tokens_per_second p))"
  "field ''load_and_warmup_seconds'' (profile_to_dict p)
     = Inr (JFloat (pf_load_and_warmup_seconds p))"
  "field ''idle_vram_mib_per_gpu'' (profile_to_dict p) = Inr (json_ints (pf_idle_vram p))"
  "field ''peak_vram_mib_per_gpu'' (profile_to_dict p) = Inr (json_ints (pf_peak_vram p))"
  "field ''gpu_headroom_mib_per_gpu'' (profile_to_dict p) = Inr (json_ints (pf_headroom p))"
  "field ''capabilities'' (profile_to_dict p)
     = Inr (JList (map JStr (sorted_list_of_set (pf_capabilities p))))"
  "field ''launch_args'' (profile_to_dict p) = Inr (JDict (pf_launch_args p))"
  "field ''gpu_memory_utilization'' (profile_to_dict p) = Inr (JFloat (pf_gpu_memory_utilization p))"
  "field ''kv_cache_capacity_tokens'' (profile_to_dict p)
     = Inr (json_opt JInt (pf_kv_cache_capacity_tokens p))"
  "field ''max_full_length_concurrency'' (profile_to_dict p)
     = Inr (json_opt JFloat (pf_max_full_length_concurrency p))"
  "get_or d ''memory_backend'' (profile_to_dict p) = JStr (pf_memory_backend p)"
  "get_or d ''sleep_vram_mib_per_gpu'' (profile_to_dict p) = json_opt json_ints (pf_sleep_vram p)"
  "get_or d ''weight_cache_offload_seconds'' (profile_to_dict p)
     = json_opt JFloat (pf_offload_seconds p)"
  "get_or d ''weight_cache_activation_seconds'' (profile_to_dict p)
     = json_opt JFloat (pf_activation_seconds p)"
  by (simp_all add: profile_to_dict_def field_def get_or_def)

lemma keys_written:
  "keys (profile_to_dict p) =
     [''id'', ''model_id'', ''model_revision'', ''engine'', ''engine_version'', ''machine_fingerprint'',
      ''gpu_count'', ''tensor_parallel_size'', ''pipeline_parallel_size'', ''eligible_gpu_sets'', ''dtype'',
      ''quantization'', ''max_model_len'', ''max_num_seqs'', ''max_num_batched_tokens'',
      ''predicted_tokens_per_second'', ''load_and_warmup_seconds'', ''idle_vram_mib_per_gpu'',
      ''peak_vram_mib_per_gpu'', ''gpu_headroom_mib_per_gpu'', ''capabilities'', ''launch_args'',
      ''gpu_memory_utilization'', ''kv_cache_capacity_tokens'', ''max_full_length_concurrency'',
      ''memory_backend'', ''sleep_vram_mib_per_gpu'', ''weight_cache_offload_seconds'',
      ''weight_cache_activation_seconds'']"
  by (simp add: profile_to_dict_def)

lemma conversions_written:
  "as_string (JStr s) = Inr s" "json_int (JInt n) = Inr n" "json_float lit (JFloat q) = Inr q"
  "optional as_string (json_opt JStr so) = Inr so" "optional json_int (json_opt JInt no) = Inr no"
  "optional (json_float lit) (json_opt JFloat qo) = Inr qo"
  "engine_of (JStr (engine_value e)) = Inr e"
  "strings (JList (map JStr ss)) = Inr ss"
  "and_then (as_list (json_ints ns)) (traverse as_int) = Inr ns"
  "optional (\<lambda>v. and_then (as_list v) (traverse json_int)) (json_opt json_ints nso) = Inr nso"
  by (cases so; cases no; cases qo; cases e; cases nso;
      simp add: json_opt_def engine_of_def engine_value_def strings_def traverse_map json_ints_def
        traverse_Inr [where g = id])+

lemma gpu_sets_written:
  "traverse strings (map (\<lambda>g. JList (map JStr g)) gs) = Inr gs"
  by (simp add: traverse_map conversions_written traverse_Inr [where g = id])

lemma read_written:
  assumes "finite (pf_capabilities p)"
    "\<forall>k \<in> set (keys (profile_to_dict p)). map_of raw k = map_of (profile_to_dict p) k"
  shows "profile_from_dict lit raw = Inr p"
proof -
  have f: "\<forall>k \<in> set (keys (profile_to_dict p)). field k raw = field k (profile_to_dict p)"
    and g: "\<forall>k \<in> set (keys (profile_to_dict p)). \<forall>d. get_or d k raw = get_or d k (profile_to_dict p)"
    using assms(2) by (simp_all add: field_def get_or_def)
  note read = f [unfolded keys_written, simplified, unfolded fields_written]
    g [unfolded keys_written, simplified, unfolded fields_written]
  have "set (sorted_list_of_set (pf_capabilities p)) = pf_capabilities p" using assms(1) by simp
  then show ?thesis
    unfolding profile_from_dict_def string_field_def int_field_def float_field_def ints_field_def
    by (simp add: read conversions_written gpu_sets_written)
qed

text \<open>
  C18: a profile that is stored and read back is the same profile: \<open>profile_from_dict\<close> recovers it from
  every object that has the members \<open>profile_to_dict\<close> writes, whatever else was added.
\<close>

theorem profile_round_trip:
  assumes "finite (pf_capabilities p)"
    "\<forall>k \<in> set (keys (profile_to_dict p)). map_of raw k = map_of (profile_to_dict p) k"
  shows "profile_from_dict lit raw = Inr p"
  using assms by (rule read_written)

text \<open>With a member that an administrator's edit adds.\<close>

lemma profile_round_trip_witness:
  "profile_from_dict (\<lambda>_. None)
     (profile_to_dict demo_sup_profile @ [(''administrator_override'', JBool True)])
   = Inr demo_sup_profile"
proof (rule profile_round_trip)
  show "finite (pf_capabilities demo_sup_profile)" by (simp add: demo_sup_profile_def)
  show "\<forall>k \<in> set (keys (profile_to_dict demo_sup_profile)).
      map_of (profile_to_dict demo_sup_profile @ [(''administrator_override'', JBool True)]) k
      = map_of (profile_to_dict demo_sup_profile) k"
    by (simp add: profile_to_dict_def)
qed

end
