(* ===== verification/ProfileStore.thy ===== *)
theory ProfileStore
  imports Profiles Billing
begin

text \<open>
  \<open>ProfileRepository\<close> of \<^verbatim>\<open>src/src/llm_rio/profiles.py\<close>: the profiles of one machine in the
  database, listed, saved, overridden by an administrator, activated and cloned into a new model.
  Generated ids, the clock, the digest of a profile and the configuration file of a model are
  arguments.
\<close>

section \<open>Listing\<close>

text \<open>
  What \<open>json_extract\<close> gives for a number, as a rank: NULL sorts below the numbers, and a boolean is
  0 or 1. Profiles hold numbers in the two columns; text is not ordered further.
\<close>

definition sql_rank :: "string \<Rightarrow> profile_row \<Rightarrow> nat \<times> rat" where
  "sql_rank k r =
     (case get_or JNull k (mp_profile r) of
        JNull \<Rightarrow> (0, 0)
      | JInt n \<Rightarrow> (1, of_int n)
      | JBool b \<Rightarrow> (1, if b then 1 else 0)
      | JFloat q \<Rightarrow> (1, q)
      | _ \<Rightarrow> (2, 0))"

definition sort_desc :: "('a \<Rightarrow> 'k::linorder) \<Rightarrow> 'a list \<Rightarrow> 'a list" where
  "sort_desc f xs = rev (sort_key f (rev xs))"

definition ordered_profiles :: "profile_row list \<Rightarrow> profile_row list" where
  "ordered_profiles rows =
     sort_key (sql_rank ''gpu_count'') (sort_desc (sql_rank ''predicted_tokens_per_second'') rows)"

text \<open>The row's id and the repository's fingerprint replace the stored ones.\<close>

definition read_profile ::
  "(string \<Rightarrow> rat option) \<Rightarrow> string \<Rightarrow> profile_row \<Rightarrow> exn + placement_profile" where
  "read_profile lit fp r =
     profile_from_dict lit
       (AList.update ''machine_fingerprint'' (JStr fp)
         (AList.update ''id'' (JStr (mp_id r)) (mp_profile r)))"

definition machine_rows :: "string \<Rightarrow> string \<Rightarrow> database \<Rightarrow> profile_row list" where
  "machine_rows fp mid db = filter (\<lambda>r. mp_model r = mid \<and> mp_fingerprint r = fp) (db_profiles db)"

definition active_rows :: "string \<Rightarrow> string \<Rightarrow> database \<Rightarrow> profile_row list" where
  "active_rows fp mid db = filter mp_active (machine_rows fp mid db)"

definition profiles_for_model ::
  "(string \<Rightarrow> rat option) \<Rightarrow> string \<Rightarrow> string \<Rightarrow> database \<Rightarrow> exn + placement_profile list" where
  "profiles_for_model lit fp mid db = traverse (read_profile lit fp) (ordered_profiles (active_rows fp mid db))"

record stored_profile =
  sp_profile :: placement_profile
  sp_active :: bool

definition records_for_model ::
  "(string \<Rightarrow> rat option) \<Rightarrow> string \<Rightarrow> string \<Rightarrow> database \<Rightarrow> exn + stored_profile list" where
  "records_for_model lit fp mid db =
     traverse (\<lambda>r. and_then (read_profile lit fp r) (\<lambda>p. Inr \<lparr>sp_profile = p, sp_active = mp_active r\<rparr>))
       (sort_key (\<lambda>r. \<not> mp_active r) (ordered_profiles (machine_rows fp mid db)))"

section \<open>Saving\<close>

definition insert_profile :: "profile_row \<Rightarrow> database \<Rightarrow> exn + database" where
  "insert_profile r db =
     (if has_row mp_key (mp_key r) (db_profiles db) \<or> has_row mp_id (mp_id r) (db_profiles db)
      then Inl (IntegrityError ''UNIQUE'')
      else if \<not> has_row mc_id (mp_model r) (db_models db) then Inl (IntegrityError ''FOREIGN KEY'')
      else Inr (db\<lparr>db_profiles := db_profiles db @ [r]\<rparr>))"

text \<open>The conflict on \<open>profile_key\<close> is resolved before the others are looked at.\<close>

definition save_profile ::
  "datetime \<Rightarrow> placement_profile \<Rightarrow> string \<Rightarrow> database \<Rightarrow> exn + database" where
  "save_profile now p key db =
     (if has_row mp_key key (db_profiles db)
      then Inr (db\<lparr>db_profiles := update_rows (\<lambda>r. mp_key r = key)
             (\<lambda>r. r\<lparr>mp_profile := AList.update ''id'' (JStr (mp_id r)) (profile_to_dict p),
                    mp_verified_at := now, mp_active := True\<rparr>) (db_profiles db)\<rparr>)
      else insert_profile
             \<lparr>mp_id = pf_id p, mp_model = pf_model_id p, mp_fingerprint = pf_machine_fingerprint p,
              mp_key = key, mp_profile = profile_to_dict p, mp_verified_at = now, mp_active = True\<rparr> db)"

section \<open>Overriding and activating\<close>

text \<open>The limit that requests are checked against: the smallest context of the active profiles.\<close>

definition context_limit :: "profile_row list \<Rightarrow> exn + int" where
  "context_limit rows =
     and_then (traverse (\<lambda>r. json_int (get_or JNull ''max_model_len'' (mp_profile r))) rows)
       (\<lambda>ns. case ns of [] \<Rightarrow> Inl ValueError | n # ms \<Rightarrow> Inr (fold min ms n))"

definition set_limit :: "datetime \<Rightarrow> int \<Rightarrow> model_row \<Rightarrow> model_row" where
  "set_limit now n m =
     m\<lparr>mc_request_limits := AList.update ''max_context_tokens'' (JInt n) (mc_request_limits m),
       mc_updated_at := now\<rparr>"

definition sync_context_limit :: "datetime \<Rightarrow> string \<Rightarrow> string \<Rightarrow> database \<Rightarrow> exn + database" where
  "sync_context_limit now fp mid db =
     (if has_row mc_id mid (db_models db) \<and> active_rows fp mid db \<noteq> []
      then and_then (context_limit (active_rows fp mid db)) (\<lambda>n.
             Inr (db\<lparr>db_models := update_rows (\<lambda>m. mc_id m = mid) (set_limit now n) (db_models db)\<rparr>))
      else Inr db)"

definition override_dict ::
  "(datetime \<Rightarrow> string) \<Rightarrow> datetime \<Rightarrow> placement_profile \<Rightarrow> (string, json) dict" where
  "override_dict stamp now p =
     profile_to_dict p @
       [(''administrator_override'', JBool True), (''administrator_override_at'', JStr (stamp now))]"

definition update_profile ::
  "(json \<Rightarrow> string) \<Rightarrow> (datetime \<Rightarrow> string) \<Rightarrow> datetime \<Rightarrow> string \<Rightarrow> placement_profile \<Rightarrow> bool
     \<Rightarrow> database \<Rightarrow> exn + (bool \<times> database)" where
  "update_profile hash stamp now fp p make_default db =
     (let raw = override_dict stamp now p;
          key = profile_key hash raw;
          mine = (\<lambda>r. mp_model r = pf_model_id p \<and> mp_fingerprint r = fp)
      in case find (\<lambda>r. mp_id r = pf_id p \<and> mine r) (db_profiles db) of
           None \<Rightarrow> Inr (False, db)
         | Some existing \<Rightarrow>
             let rows = (if make_default
                         then update_rows mine (\<lambda>r. r\<lparr>mp_active := False\<rparr>) (db_profiles db)
                         else db_profiles db);
                 active = make_default \<or> mp_active existing
             in if has_row mp_key key (filter (\<lambda>r. mp_id r \<noteq> pf_id p) rows)
                then Inl (IntegrityError ''UNIQUE'')
                else and_then
                  (sync_context_limit now fp (pf_model_id p)
                    (db\<lparr>db_profiles := update_rows (\<lambda>r. mp_id r = pf_id p)
                         (\<lambda>r. r\<lparr>mp_key := key, mp_profile := raw, mp_active := active\<rparr>) rows\<rparr>))
                  (\<lambda>db'. Inr (True, db')))"

definition set_profile_active ::
  "datetime \<Rightarrow> string \<Rightarrow> string \<Rightarrow> string \<Rightarrow> bool \<Rightarrow> database \<Rightarrow> exn + (bool \<times> database)" where
  "set_profile_active now fp mid pid active db =
     (let target = (\<lambda>r. mp_id r = pid \<and> mp_model r = mid \<and> mp_fingerprint r = fp)
      in if rowcount target (db_profiles db) = 0 then Inr (False, db)
         else and_then
           (sync_context_limit now fp mid
             (db\<lparr>db_profiles := update_rows target (\<lambda>r. r\<lparr>mp_active := active\<rparr>) (db_profiles db)\<rparr>))
           (\<lambda>db'. Inr (True, db')))"

section \<open>Cloning a model\<close>

text \<open>\<open>config\<close> is the object in the model's \<open>config.json\<close>, \<open>None\<close> when it cannot be read or parsed.\<close>

definition model_rope_configuration ::
  "(string, json) dict option \<Rightarrow> exn + (bool \<times> int \<times> (string, json) dict)" where
  "model_rope_configuration config =
     (case config of
        None \<Rightarrow> Inl (rio ''model_config_unavailable''
                  ''The source model config is required to create a YaRN extension'' 409 [])
      | Some c \<Rightarrow>
          let (nested, owner) =
                (case get_or JNull ''text_config'' c of JDict t \<Rightarrow> (True, t) | _ \<Rightarrow> (False, c));
              maximum =
                (case get_or JNull ''max_position_embeddings'' owner of
                   JInt n \<Rightarrow> n | JBool b \<Rightarrow> (if b then 1 else 0) | _ \<Rightarrow> 0);
              rope =
                (case get_or JNull ''rope_parameters'' owner of
                   JDict d \<Rightarrow> JDict d | _ \<Rightarrow> get_or JNull ''rope_scaling'' owner)
          in if maximum \<le> 0
             then Inl (rio ''model_context_unknown''
                    ''The source model does not declare max_position_embeddings'' 409 [])
             else and_then (if json_truthy rope then as_dict rope else Inr [])
                    (\<lambda>d. Inr (nested, maximum, d)))"

definition invalid_hf_overrides :: "string \<Rightarrow> exn" where
  "invalid_hf_overrides msg = rio ''invalid_hf_overrides'' msg 409 []"

definition hf_overrides_of ::
  "(string \<Rightarrow> json option) \<Rightarrow> (string, json) dict \<Rightarrow> exn + (string, json) dict" where
  "hf_overrides_of parse_json args =
     and_then
       (case get_or (JDict []) ''hf_overrides'' args of
          JStr s \<Rightarrow> (case parse_json s of
             None \<Rightarrow> Inl (invalid_hf_overrides ''The source profile has invalid JSON in hf_overrides'')
           | Some v \<Rightarrow> Inr v)
        | v \<Rightarrow> Inr v)
       (\<lambda>v. case v of
          JDict d \<Rightarrow> Inr d
        | _ \<Rightarrow> Inl (invalid_hf_overrides ''The source profile hf_overrides must be a JSON object''))"

definition yarn_rope ::
  "(string, json) dict \<Rightarrow> (string, json) dict \<Rightarrow> rat \<Rightarrow> int \<Rightarrow> (string, json) dict" where
  "yarn_rope base owner factor original =
     (let existing =
            (case get_or JNull ''rope_parameters'' owner of
               JDict d \<Rightarrow> JDict d | _ \<Rightarrow> get_or JNull ''rope_scaling'' owner)
      in dict_update (case existing of JDict d \<Rightarrow> dict_update base d | _ \<Rightarrow> base)
           [(''rope_type'', JStr ''yarn''), (''factor'', JFloat factor),
            (''original_max_position_embeddings'', JInt original)])"

definition with_yarn_launch_args ::
  "(string \<Rightarrow> json option) \<Rightarrow> (string, json) dict \<Rightarrow> bool \<Rightarrow> int \<Rightarrow> int \<Rightarrow> rat
     \<Rightarrow> (string, json) dict \<Rightarrow> exn + (string, json) dict" where
  "with_yarn_launch_args parse_json args nested original max_len factor base =
     and_then (hf_overrides_of parse_json args) (\<lambda>hf.
     and_then
       (if nested
        then (case get_or (JDict []) ''text_config'' hf of
                JDict d \<Rightarrow> Inr d
              | _ \<Rightarrow> Inl (invalid_hf_overrides
                       ''The source profile text_config override must be a JSON object''))
        else Inr hf) (\<lambda>owner.
       let rope = yarn_rope base owner factor original;
           owner' = AList.update ''rope_parameters'' (JDict rope)
                      (AList.delete ''rope_scaling''
                        (AList.update ''max_position_embeddings'' (JInt max_len) owner));
           hf' = (if nested then AList.update ''text_config'' (JDict owner') hf else owner')
       in Inr (AList.update ''hf_overrides'' (JDict hf') args)))"

text \<open>\<open>round\<close>: to the nearest integer, a half to the even one.\<close>

definition py_round :: "rat \<Rightarrow> int" where
  "py_round q =
     (let n = \<lfloor>q\<rfloor>; d = q - of_int n
      in if d < 1 / 2 \<or> d = 1 / 2 \<and> even n then n else n + 1)"

record clone_request =
  cl_nickname :: string
  cl_creator :: string
  cl_defaults :: "(string, json) dict"
  cl_max_len :: "int option"
  cl_yarn :: "rat option"
  cl_yarn_original :: "int option"
  cl_inherit :: bool

text \<open>\<open>x or y\<close> for an optional integer.\<close>

definition int_or :: "int option \<Rightarrow> int \<Rightarrow> int" where
  "int_or v d = (case v of None \<Rightarrow> d | Some n \<Rightarrow> if n = 0 then d else n)"

text \<open>The rope configuration, the original context and the context of the clones, if set.\<close>

definition yarn_context ::
  "clone_request \<Rightarrow> (string, json) dict option \<Rightarrow> stored_profile list
     \<Rightarrow> exn + (bool \<times> int \<times> (string, json) dict \<times> int option)" where
  "yarn_context c config records =
     (case cl_yarn c of
        None \<Rightarrow> Inr (False, int_or (cl_yarn_original c) 0, [], cl_max_len c)
      | Some factor \<Rightarrow>
          if \<exists>r \<in> set records. pf_engine (sp_profile r) \<noteq> VLLM
          then Inl (rio ''yarn_requires_vllm''
                 ''YaRN extension is supported only for vLLM placement profiles'' 422 [])
          else and_then (model_rope_configuration config) (\<lambda>(nested, native, base).
            let original = int_or (cl_yarn_original c) native;
                inferred = py_round (of_int original * factor)
            in case cl_max_len c of
                 None \<Rightarrow> Inr (nested, original, base, Some inferred)
               | Some n \<Rightarrow>
                   if \<bar>of_int n - of_int original * factor\<bar> \<le> 1
                   then Inr (nested, original, base, Some n)
                   else Inl (rio ''invalid_yarn_context''
                          ''max_model_len must equal yarn_original_max_model_len multiplied by yarn_factor''
                          422 [(''expected_max_model_len'', JInt inferred)])))"

definition clone_profile ::
  "(string \<Rightarrow> json option) \<Rightarrow> clone_request \<Rightarrow> bool \<times> int \<times> (string, json) dict \<times> int option
     \<Rightarrow> string \<Rightarrow> string \<Rightarrow> placement_profile \<Rightarrow> exn + placement_profile" where
  "clone_profile parse_json c yarn model_id pid p =
     (case yarn of (nested, original, base, max_len) \<Rightarrow>
        let target = int_or max_len (pf_max_model_len p) in
        and_then
          (case cl_yarn c of
             None \<Rightarrow> Inr (pf_launch_args p)
           | Some factor \<Rightarrow>
               with_yarn_launch_args parse_json (pf_launch_args p) nested original target factor base)
          (\<lambda>args. Inr (p\<lparr>pf_id := pid, pf_model_id := model_id, pf_max_model_len := target,
                         pf_launch_args := args\<rparr>)))"

fun clone_profiles ::
  "(string \<Rightarrow> json option) \<Rightarrow> clone_request \<Rightarrow> bool \<times> int \<times> (string, json) dict \<times> int option
     \<Rightarrow> string \<Rightarrow> (nat \<Rightarrow> string) \<Rightarrow> nat \<Rightarrow> stored_profile list
     \<Rightarrow> exn + (placement_profile \<times> string) list" where
  "clone_profiles parse_json c yarn model_id fresh i [] = Inr []"
| "clone_profiles parse_json c yarn model_id fresh i (r # rs) =
     and_then (clone_profile parse_json c yarn model_id (fresh i) (sp_profile r)) (\<lambda>p.
     and_then (clone_profiles parse_json c yarn model_id fresh (Suc i) rs) (\<lambda>ps.
       Inr ((p, pf_id (sp_profile r)) # ps)))"

definition clone_row ::
  "(json \<Rightarrow> string) \<Rightarrow> (datetime \<Rightarrow> string) \<Rightarrow> datetime \<Rightarrow> placement_profile \<times> string \<Rightarrow> profile_row" where
  "clone_row hash stamp now e =
     (let raw = override_dict stamp now (fst e) @ [(''cloned_from_profile_id'', JStr (snd e))]
      in \<lparr>mp_id = pf_id (fst e), mp_model = pf_model_id (fst e),
          mp_fingerprint = pf_machine_fingerprint (fst e), mp_key = profile_key hash raw,
          mp_profile = raw, mp_verified_at = now, mp_active = True\<rparr>)"

text \<open>One statement for each of a list of rows.\<close>

fun insert_each :: "('a \<Rightarrow> database \<Rightarrow> exn + database) \<Rightarrow> 'a list \<Rightarrow> database \<Rightarrow> exn + database" where
  "insert_each f [] db = Inr db"
| "insert_each f (x # xs) db = and_then (f x db) (insert_each f xs)"

definition cloned_model ::
  "clone_request \<Rightarrow> datetime \<Rightarrow> string \<Rightarrow> model_row \<Rightarrow> placement_profile list \<Rightarrow> model_row" where
  "cloned_model c now model_id source ps =
     \<lparr>mc_id = model_id, mc_nickname = cl_nickname c, mc_repo = mc_repo source,
      mc_requested_revision = mc_requested_revision source,
      mc_resolved_revision = mc_resolved_revision source, mc_state = AVAILABLE,
      mc_artifact_path = mc_artifact_path source, mc_artifact_hashes = mc_artifact_hashes source,
      mc_capabilities = mc_capabilities source,
      mc_request_limits = AList.update ''max_context_tokens''
        (JInt (fold min (map pf_max_model_len (tl ps)) (pf_max_model_len (hd ps))))
        (mc_request_limits source),
      mc_request_defaults = dict_update (mc_request_defaults source) (cl_defaults c),
      mc_source_model = Some (mc_id source), mc_created_by = cl_creator c,
      mc_created_at = now, mc_updated_at = now\<rparr>"

definition clone_model ::
  "(string \<Rightarrow> rat option) \<Rightarrow> (string \<Rightarrow> json option) \<Rightarrow> (json \<Rightarrow> string) \<Rightarrow> (datetime \<Rightarrow> string)
     \<Rightarrow> datetime \<Rightarrow> string \<Rightarrow> string \<Rightarrow> (nat \<Rightarrow> string) \<Rightarrow> (string, json) dict option \<Rightarrow> model_row
     \<Rightarrow> clone_request \<Rightarrow> database \<Rightarrow> exn + ((model_row \<times> placement_profile list) \<times> database)" where
  "clone_model lit parse_json hash stamp now fp model_id fresh config source c db =
     (if mc_state source \<noteq> AVAILABLE
      then Inl (rio ''source_model_unavailable'' ''Only an available model can be cloned'' 409 [])
      else if mc_artifact_path source \<in> {None, Some []}
      then Inl (rio ''model_artifact_missing''
             ''The source model artifact is not available on this machine'' 409 [])
      else and_then (records_for_model lit fp (mc_id source) db) (\<lambda>stored.
        let records = filter sp_active stored in
        if records = []
        then Inl (rio ''model_verification_required''
               ''The source model has no active placement profiles on this machine'' 409 [])
        else and_then (yarn_context c config records) (\<lambda>yarn.
          and_then (clone_profiles parse_json c yarn model_id fresh 0 records) (\<lambda>cloned.
          let ps = map fst cloned; m = cloned_model c now model_id source ps in
          and_then (insert_model m db) (\<lambda>db1.
          and_then (insert_each insert_profile (map (clone_row hash stamp now) cloned) db1) (\<lambda>db2.
          and_then
            (if cl_inherit c
             then insert_each (\<lambda>k. insert_grants now k [model_id])
                    (map mg_key (filter (\<lambda>g. mg_model g = mc_id source) (db_grants db2))) db2
             else Inr db2) (\<lambda>db3.
          case model_by_id model_id db3 of
            None \<Rightarrow> Inl (RuntimeError ''cloned model was not persisted'')
          | Some row \<Rightarrow> Inr ((row, ps), db3))))))))"

section \<open>What is stored is what is read\<close>

lemma read_override:
  assumes "finite (pf_capabilities p)" "mp_id r = pf_id p" "mp_profile r = override_dict stamp now p @ extra"
  shows "read_profile lit fp r = Inr (p\<lparr>pf_machine_fingerprint := fp\<rparr>)"
  unfolding read_profile_def
proof (rule read_written)
  let ?p = "p\<lparr>pf_machine_fingerprint := fp\<rparr>"
  show "finite (pf_capabilities ?p)" using assms(1) by simp
  show "\<forall>k \<in> set (keys (profile_to_dict ?p)).
      map_of (AList.update ''machine_fingerprint'' (JStr fp)
        (AList.update ''id'' (JStr (mp_id r)) (mp_profile r))) k = map_of (profile_to_dict ?p) k"
    using assms(2,3) by (simp add: update_conv' override_dict_def profile_to_dict_def)
qed

lemma distinct_filter_eq: "distinct xs \<Longrightarrow> x \<in> set xs \<Longrightarrow> filter (\<lambda>y. y = x) xs = [x]"
proof (induction xs)
  case (Cons y ys)
  then show ?case by (cases "y = x") (auto simp: filter_empty_conv)
qed simp

lemma single_filter:
  assumes "unique_on key rows" "r \<in> set rows" "P r" "\<And>x. x \<in> set rows \<Longrightarrow> P x \<Longrightarrow> key x = key r"
  shows "filter P rows = [r]"
proof -
  have "filter P rows = filter (\<lambda>x. x = r) rows"
    using unique_onD [OF assms(1)] assms(2-4) by (intro filter_cong [OF refl]) metis
  moreover have "distinct rows" using assms(1) by (auto simp: distinct_map)
  ultimately show ?thesis using assms(2) by (simp add: distinct_filter_eq)
qed

lemma for_model_single: "active_rows fp mid db = [r] \<Longrightarrow> read_profile lit fp r = Inr p \<Longrightarrow>
    profiles_for_model lit fp mid db = Inr [p]"
  by (simp add: profiles_for_model_def ordered_profiles_def sort_desc_def)

lemma sync_profiles: "sync_context_limit now fp mid db = Inr db' \<Longrightarrow> db_profiles db' = db_profiles db"
  by (auto simp: sync_context_limit_def and_then_Inr split: if_splits)

lemma active_rows_cong: "db_profiles db' = db_profiles db \<Longrightarrow> active_rows fp mid db' = active_rows fp mid db"
  by (simp add: active_rows_def machine_rows_def)

lemma map_of_limit_update: "map_of (AList.update k v d) k = Some v"
  by (simp add: update_conv')

lemma sync_sets_limit:
  assumes "sync_context_limit now fp mid db = Inr db'" "active_rows fp mid db \<noteq> []"
    "m \<in> set (db_models db')" "mc_id m = mid"
  shows "\<exists>n. context_limit (active_rows fp mid db) = Inr n \<and>
    map_of (mc_request_limits m) ''max_context_tokens'' = Some (JInt n)"
proof (cases "has_row mc_id mid (db_models db)")
  case True
  then obtain n where n: "context_limit (active_rows fp mid db) = Inr n"
    "db' = db\<lparr>db_models := update_rows (\<lambda>m. mc_id m = mid) (set_limit now n) (db_models db)\<rparr>"
    using assms(1,2) by (auto simp: sync_context_limit_def and_then_Inr split: if_splits)
  from assms(3,4) obtain m0 where "m = set_limit now n m0"
    unfolding n(2) by (auto simp: set_update_rows set_limit_def split: if_splits)
  with n(1) show ?thesis by (simp add: set_limit_def map_of_limit_update)
next
  case False
  then show ?thesis using assms by (auto simp: sync_context_limit_def)
qed

section \<open>An administrator's override\<close>

lemma update_profile_True:
  assumes "update_profile hash stamp now fp p make_default db = Inr (True, db')"
  obtains existing where "existing \<in> set (db_profiles db)" "mp_id existing = pf_id p"
    "mp_model existing = pf_model_id p" "mp_fingerprint existing = fp"
    "sync_context_limit now fp (pf_model_id p)
       (db\<lparr>db_profiles := update_rows (\<lambda>r. mp_id r = pf_id p)
          (\<lambda>r. r\<lparr>mp_key := profile_key hash (override_dict stamp now p),
                 mp_profile := override_dict stamp now p,
                 mp_active := make_default \<or> mp_active existing\<rparr>)
          (if make_default
           then update_rows (\<lambda>r. mp_model r = pf_model_id p \<and> mp_fingerprint r = fp)
                  (\<lambda>r. r\<lparr>mp_active := False\<rparr>) (db_profiles db)
           else db_profiles db)\<rparr>) = Inr db'"
proof -
  let ?P = "\<lambda>r. mp_id r = pf_id p \<and> mp_model r = pf_model_id p \<and> mp_fingerprint r = fp"
  from assms obtain e where e: "find ?P (db_profiles db) = Some e"
    unfolding update_profile_def Let_def by (cases "find ?P (db_profiles db)") auto
  then have "e \<in> set (db_profiles db)" "?P e" by (auto simp: find_Some_iff)
  with assms e that [of e] show ?thesis
    unfolding update_profile_def Let_def by (auto simp: and_then_Inr split: if_splits)
qed

lemma updated_none: "(\<And>x. \<not> P (g x)) \<Longrightarrow> filter P (filter Q (update_rows Q g xs)) = []"
  by (induction xs) simp_all

text \<open>The rows of a default profile: it alone is active among the model's profiles on the machine.\<close>

lemma default_rows:
  assumes "unique_on mp_id rows" "e \<in> set rows" "mp_id e = k" "mp_model e = mid" "mp_fingerprint e = fp"
  shows "filter mp_active (filter (\<lambda>r. mp_model r = mid \<and> mp_fingerprint r = fp)
      (update_rows (\<lambda>r. mp_id r = k) (\<lambda>r. r\<lparr>mp_key := key, mp_profile := raw, mp_active := True\<rparr>)
        (update_rows (\<lambda>r. mp_model r = mid \<and> mp_fingerprint r = fp) (\<lambda>r. r\<lparr>mp_active := False\<rparr>) rows)))
    = [e\<lparr>mp_key := key, mp_profile := raw, mp_active := True\<rparr>]"
  using assms
proof (induction rows)
  case (Cons x xs)
  show ?case
  proof (cases "x = e")
    case True
    have none: "\<forall>y \<in> set xs. mp_id y \<noteq> k" using Cons.prems(1,3) True by (auto simp: image_iff)
    then have "update_rows (\<lambda>r. mp_id r = k) (\<lambda>r. r\<lparr>mp_key := key, mp_profile := raw, mp_active := True\<rparr>)
        (update_rows (\<lambda>r. mp_model r = mid \<and> mp_fingerprint r = fp) (\<lambda>r. r\<lparr>mp_active := False\<rparr>) xs)
      = update_rows (\<lambda>r. mp_model r = mid \<and> mp_fingerprint r = fp) (\<lambda>r. r\<lparr>mp_active := False\<rparr>) xs"
      by (intro update_rows_none) (auto simp: set_update_rows)
    moreover have "filter mp_active (filter (\<lambda>r. mp_model r = mid \<and> mp_fingerprint r = fp)
        (update_rows (\<lambda>r. mp_model r = mid \<and> mp_fingerprint r = fp) (\<lambda>r. r\<lparr>mp_active := False\<rparr>) xs)) = []"
      by (rule updated_none) simp
    ultimately show ?thesis using True Cons.prems(3-5) by simp
  next
    case False
    then have e: "e \<in> set xs" using Cons.prems(2) by simp
    then have "mp_id e \<in> mp_id ` set xs" by simp
    then have "mp_id x \<noteq> k" using Cons.prems(1,3) by (metis distinct.simps(2) list.simps(9) list.set_map)
    then show ?thesis using Cons.IH [OF _ e Cons.prems(3-5)] Cons.prems(1) by simp
  qed
qed simp

lemma others_kept:
  assumes "\<And>x. x \<in> set rows \<Longrightarrow> P x \<Longrightarrow> Q x" "\<And>x. Q x \<Longrightarrow> Q (f x)" "\<And>x. Q x \<Longrightarrow> Q (g x)"
  shows "filter (\<lambda>r. \<not> Q r) (update_rows P f (update_rows Q g rows)) = filter (\<lambda>r. \<not> Q r) rows"
  using assms
proof (induction rows)
  case (Cons x xs)
  have "filter (\<lambda>r. \<not> Q r) (update_rows P f (update_rows Q g xs)) = filter (\<lambda>r. \<not> Q r) xs"
    by (rule Cons.IH) (use Cons.prems in auto)
  moreover have "\<not> Q x \<Longrightarrow> \<not> P x" using Cons.prems(1) by auto
  ultimately show ?case using Cons.prems(2,3) by (cases "Q x") auto
qed simp

lemma limit_of_override: "context_limit [r] = Inr (pf_max_model_len p)"
  if "mp_profile r = override_dict stamp now p"
  using that by (simp add: context_limit_def override_dict_def get_or_def profile_to_dict_def)

lemma default_override_read:
  assumes "unique_on mp_id (db_profiles db)" "finite (pf_capabilities p)"
    "update_profile hash stamp now fp p True db = Inr (True, db')"
  shows "profiles_for_model lit fp (pf_model_id p) db' = Inr [p\<lparr>pf_machine_fingerprint := fp\<rparr>]
    \<and> (\<forall>m \<in> set (db_models db'). mc_id m = pf_model_id p \<longrightarrow>
         map_of (mc_request_limits m) ''max_context_tokens'' = Some (JInt (pf_max_model_len p)))
    \<and> filter (\<lambda>r. mp_model r \<noteq> pf_model_id p \<or> mp_fingerprint r \<noteq> fp) (db_profiles db')
        = filter (\<lambda>r. mp_model r \<noteq> pf_model_id p \<or> mp_fingerprint r \<noteq> fp) (db_profiles db)"
proof -
  let ?raw = "override_dict stamp now p" and ?mid = "pf_model_id p"
  let ?mine = "\<lambda>r. mp_model r = ?mid \<and> mp_fingerprint r = fp"
  let ?set = "\<lambda>r. r\<lparr>mp_key := profile_key hash ?raw, mp_profile := ?raw, mp_active := True\<rparr>"
  from assms(3) obtain e where e: "e \<in> set (db_profiles db)" "mp_id e = pf_id p" "mp_model e = ?mid"
    "mp_fingerprint e = fp"
    and s: "sync_context_limit now fp ?mid (db\<lparr>db_profiles := update_rows (\<lambda>r. mp_id r = pf_id p) ?set
      (update_rows ?mine (\<lambda>r. r\<lparr>mp_active := False\<rparr>) (db_profiles db))\<rparr>) = Inr db'" (is "sync_context_limit _ _ _ ?db1 = _")
    by (rule update_profile_True) simp
  have one: "active_rows fp ?mid ?db1 = [?set e]"
    using default_rows [OF assms(1) e] by (simp add: active_rows_def machine_rows_def)
  have one': "active_rows fp ?mid db' = [?set e]"
    using active_rows_cong [OF sync_profiles [OF s]] one by simp
  have read: "read_profile lit fp (?set e) = Inr (p\<lparr>pf_machine_fingerprint := fp\<rparr>)"
    by (rule read_override [where extra = "[]", OF assms(2)]) (use e(2) in simp_all)
  have limit: "map_of (mc_request_limits m) ''max_context_tokens'' = Some (JInt (pf_max_model_len p))"
    if "m \<in> set (db_models db')" "mc_id m = ?mid" for m
    using sync_sets_limit [OF s _ that] limit_of_override [of "?set e" stamp now p] one by simp
  have rows: "db_profiles db' = update_rows (\<lambda>r. mp_id r = pf_id p) ?set
      (update_rows ?mine (\<lambda>r. r\<lparr>mp_active := False\<rparr>) (db_profiles db))"
    using sync_profiles [OF s] by simp
  have mine: "?mine x" if "x \<in> set (db_profiles db)" "mp_id x = pf_id p" for x
    using unique_onD [OF assms(1) that(1) e(1)] that(2) e(2-4) by simp
  have "filter (\<lambda>r. \<not> ?mine r) (db_profiles db') = filter (\<lambda>r. \<not> ?mine r) (db_profiles db)"
    unfolding rows by (rule others_kept) (erule (1) mine, simp_all)
  then show ?thesis using for_model_single [OF one' read] limit by simp
qed

text \<open>
  C17: an override that an administrator makes the default is what the scheduler reads next: the
  model's only active profile on the machine, with every field as given (and the machine's
  fingerprint), its context the limit of the model's requests. The profiles of other models and
  machines are untouched.
\<close>

theorem default_profile_is_read_back:
  assumes "unique_on mp_id (db_profiles db)" "finite (pf_capabilities p)"
    "update_profile hash stamp now fp p True db = Inr (True, db')"
  shows "profiles_for_model lit fp (pf_model_id p) db' = Inr [p\<lparr>pf_machine_fingerprint := fp\<rparr>]
    \<and> (\<forall>m \<in> set (db_models db'). mc_id m = pf_model_id p \<longrightarrow>
         map_of (mc_request_limits m) ''max_context_tokens'' = Some (JInt (pf_max_model_len p)))
    \<and> filter (\<lambda>r. mp_model r \<noteq> pf_model_id p \<or> mp_fingerprint r \<noteq> fp) (db_profiles db')
        = filter (\<lambda>r. mp_model r \<noteq> pf_model_id p \<or> mp_fingerprint r \<noteq> fp) (db_profiles db)"
  by (rule default_override_read [OF assms])

text \<open>The default of two profiles changes its context and becomes the only active one.\<close>

definition demo_store :: database where
  "demo_store = demo_db\<lparr>db_profiles :=
     [\<lparr>mp_id = ''p'', mp_model = ''m'', mp_fingerprint = ''f'', mp_key = ''k1'',
       mp_profile = profile_to_dict demo_sup_profile, mp_verified_at = 0, mp_active = False\<rparr>,
      \<lparr>mp_id = ''p2'', mp_model = ''m'', mp_fingerprint = ''f'', mp_key = ''k2'',
       mp_profile = profile_to_dict (demo_sup_profile\<lparr>pf_id := ''p2''\<rparr>), mp_verified_at = 0,
       mp_active = True\<rparr>]\<rparr>"

definition demo_override :: placement_profile where
  "demo_override = demo_sup_profile\<lparr>pf_max_model_len := 2048\<rparr>"

definition demo_overridden :: database where
  "demo_overridden = (case update_profile (\<lambda>_. ''h'') (\<lambda>_. ''now'') 5 ''f'' demo_override True demo_store of
     Inr (_, db) \<Rightarrow> db | Inl _ \<Rightarrow> demo_store)"

lemma demo_overridden_run:
  "case update_profile (\<lambda>_. ''h'') (\<lambda>_. ''now'') 5 ''f'' demo_override True demo_store of
     Inr (b, db) \<Rightarrow> b \<and> map mc_id (db_models db) = [''m''] | Inl _ \<Rightarrow> False"
  by code_simp

lemma default_profile_is_read_back_witness:
  "profiles_for_model (\<lambda>_. None) ''f'' ''m'' demo_overridden = Inr [demo_override]
   \<and> map (\<lambda>m. map_of (mc_request_limits m) ''max_context_tokens'') (db_models demo_overridden)
       = [Some (JInt 2048)]"
proof -
  have unique: "unique_on mp_id (db_profiles demo_store)" by code_simp
  have caps: "finite (pf_capabilities demo_override)"
    by (simp add: demo_override_def demo_sup_profile_def)
  have run: "update_profile (\<lambda>_. ''h'') (\<lambda>_. ''now'') 5 ''f'' demo_override True demo_store
      = Inr (True, demo_overridden)" and one: "map mc_id (db_models demo_overridden) = [''m'']"
    using demo_overridden_run by (auto simp: demo_overridden_def split: sum.splits)
  from one obtain m where m: "db_models demo_overridden = [m]" "mc_id m = ''m''"
    by (cases "db_models demo_overridden") auto
  have "pf_model_id demo_override = ''m''" "pf_max_model_len demo_override = 2048"
    "demo_override\<lparr>pf_machine_fingerprint := ''f''\<rparr> = demo_override"
    by (simp_all add: demo_override_def demo_sup_profile_def)
  with default_profile_is_read_back [OF unique caps run, of "\<lambda>_. None"] m show ?thesis by simp
qed

section \<open>Clones\<close>

lemma insort_key_map: "insort_key f (g x) (map g xs) = map g (insort_key (\<lambda>y. f (g y)) x xs)"
  by (induction xs) auto

lemma sort_key_map: "sort_key f (map g xs) = map g (sort_key (\<lambda>y. f (g y)) xs)"
  by (induction xs) (simp_all add: insort_key_map)

lemma ordered_map: "\<exists>ys. ordered_profiles (map g xs) = map g ys \<and> mset ys = mset xs"
proof
  let ?ys = "sort_key (\<lambda>y. sql_rank ''gpu_count'' (g y))
    (rev (sort_key (\<lambda>y. sql_rank ''predicted_tokens_per_second'' (g y)) (rev xs)))"
  show "ordered_profiles (map g xs) = map g ?ys \<and> mset ?ys = mset xs"
    by (simp add: ordered_profiles_def sort_desc_def rev_map sort_key_map)
qed

lemma insert_each_profiles:
  "insert_each insert_profile rows db = Inr db' \<Longrightarrow>
     db_profiles db' = db_profiles db @ rows \<and> db_models db' = db_models db \<and> db_grants db' = db_grants db"
  by (induction rows arbitrary: db) (auto simp: and_then_Inr insert_profile_def split: if_splits)

lemma insert_grant:
  assumes "insert_grants now k [mid] db = Inr db'"
  shows "db_profiles db' = db_profiles db \<and> db_models db' = db_models db \<and>
     (\<forall>k' m. has_model_grant k' m db' \<longleftrightarrow> has_model_grant k' m db \<or> m = mid \<and> k' = k)"
proof -
  have "db' = db\<lparr>db_grants := db_grants db @ [\<lparr>mg_key = k, mg_model = mid, mg_created_at = now\<rparr>]\<rparr>"
    using assms by (simp split: if_splits)
  then show ?thesis by (auto simp: has_model_grant_def)
qed

lemma insert_each_grants:
  "insert_each (\<lambda>k. insert_grants now k [mid]) ks db = Inr db' \<Longrightarrow>
     db_profiles db' = db_profiles db \<and> db_models db' = db_models db \<and>
     (\<forall>k m. has_model_grant k m db' \<longleftrightarrow> has_model_grant k m db \<or> m = mid \<and> k \<in> set ks)"
proof (induction ks arbitrary: db)
  case (Cons k ks)
  then obtain db1 where 1: "insert_grants now k [mid] db = Inr db1"
    "insert_each (\<lambda>k. insert_grants now k [mid]) ks db1 = Inr db'" unfolding insert_each.simps and_then_Inr by blast
  show ?case using insert_grant [OF 1(1)] Cons.IH [OF 1(2)] by auto
qed simp

definition holds :: "('a \<Rightarrow> bool) \<Rightarrow> 'e + 'a \<Rightarrow> bool" where
  "holds P v \<longleftrightarrow> (\<forall>x. v = Inr x \<longrightarrow> P x)"

lemma holds_and_then: "(\<And>a. v = Inr a \<Longrightarrow> holds P (f a)) \<Longrightarrow> holds P (and_then v f)"
  by (cases v) (auto simp: holds_def)

lemma holds_Inr: "P x \<Longrightarrow> holds P (Inr x)"
  by (simp add: holds_def)

lemma holdsD: "holds P v \<Longrightarrow> v = Inr x \<Longrightarrow> P x"
  by (simp add: holds_def)

lemma profile_from_dict_read:
  "holds (\<lambda>p. finite (pf_capabilities p) \<and>
      string_field ''machine_fingerprint'' raw = Inr (pf_machine_fingerprint p)) (profile_from_dict lit raw)"
  unfolding profile_from_dict_def
  by (intro holds_and_then holds_Inr) (simp only: placement_profile.simps List.finite_set simp_thms)

lemma traverse_all: "traverse f xs = Inr ys \<Longrightarrow> (\<And>x y. f x = Inr y \<Longrightarrow> P y) \<Longrightarrow> \<forall>y \<in> set ys. P y"
  by (induction xs arbitrary: ys) (auto simp: and_then_Inr)

lemma read_profile_on_machine:
  "read_profile lit fp r = Inr p \<Longrightarrow> finite (pf_capabilities p) \<and> pf_machine_fingerprint p = fp"
  unfolding read_profile_def by (drule holdsD [OF profile_from_dict_read])
    (simp add: string_field_def field_def update_conv')

lemma records_on_machine:
  assumes "records_for_model lit fp mid db = Inr records" "r \<in> set records"
  shows "finite (pf_capabilities (sp_profile r)) \<and> pf_machine_fingerprint (sp_profile r) = fp"
proof -
  have read: "finite (pf_capabilities (sp_profile s)) \<and> pf_machine_fingerprint (sp_profile s) = fp"
    if "and_then (read_profile lit fp row) (\<lambda>p. Inr \<lparr>sp_profile = p, sp_active = mp_active row\<rparr>) = Inr s"
    for row s
    using that by (cases "read_profile lit fp row") (auto dest: read_profile_on_machine)
  show ?thesis
    by (rule bspec [OF traverse_all [OF assms(1) [unfolded records_for_model_def]] assms(2)]) (rule read)
qed

lemma clone_profiles_copy:
  "clone_profiles parse_json c yarn model_id fresh i records = Inr cloned \<Longrightarrow> e \<in> set cloned \<Longrightarrow>
     pf_model_id (fst e) = model_id \<and>
     (\<exists>r \<in> set records. pf_capabilities (fst e) = pf_capabilities (sp_profile r) \<and>
        pf_machine_fingerprint (fst e) = pf_machine_fingerprint (sp_profile r) \<and>
        pf_id (sp_profile r) = snd e)"
proof (induction records arbitrary: i cloned)
  case (Cons r rs)
  from Cons.prems(1) obtain p ps where p: "clone_profile parse_json c yarn model_id (fresh i) (sp_profile r) = Inr p"
    "clone_profiles parse_json c yarn model_id fresh (Suc i) rs = Inr ps" "cloned = (p, pf_id (sp_profile r)) # ps"
    by (auto simp: and_then_Inr)
  from p(1) have "pf_model_id p = model_id" "pf_capabilities p = pf_capabilities (sp_profile r)"
    "pf_machine_fingerprint p = pf_machine_fingerprint (sp_profile r)"
    by (auto simp: clone_profile_def and_then_Inr Let_def split: prod.splits)
  then show ?case using Cons.IH [OF p(2)] Cons.prems(2) p(3) by auto
qed simp

lemma clone_profiles_nonempty:
  "clone_profiles parse_json c yarn model_id fresh i records = Inr cloned \<Longrightarrow> records \<noteq> [] \<Longrightarrow> cloned \<noteq> []"
  by (cases records) (auto simp: and_then_Inr)

lemma read_clone:
  assumes "finite (pf_capabilities (fst e))" "pf_machine_fingerprint (fst e) = fp"
  shows "read_profile lit fp (clone_row hash stamp now e) = Inr (fst e)"
proof -
  have "read_profile lit fp (clone_row hash stamp now e) = Inr ((fst e)\<lparr>pf_machine_fingerprint := fp\<rparr>)"
    by (rule read_override [where extra = "[(''cloned_from_profile_id'', JStr (snd e))]", OF assms(1)])
      (simp_all add: clone_row_def Let_def)
  then show ?thesis using assms(2) by simp
qed

lemma fold_min_least: "fold min ns n = Min (insert n (set ns))" for n :: int
  by (metis Min.set_eq_fold list.simps(15))

lemma find_snoc: "k \<notin> key ` set rows \<Longrightarrow> key r = k \<Longrightarrow> find_row key k (rows @ [r]) = Some r"
  by (induction rows) auto

lemma clone_model_Inr:
  assumes "clone_model lit parse_json hash stamp now fp model_id fresh config source c db = Inr ((row, ps), db')"
  obtains records yarn cloned where
    "records_for_model lit fp (mc_id source) db = Inr records" "filter sp_active records \<noteq> []"
    "clone_profiles parse_json c yarn model_id fresh 0 (filter sp_active records) = Inr cloned"
    "ps = map fst cloned"
    "db_models db' = db_models db @ [cloned_model c now model_id source ps]"
    "db_profiles db' = db_profiles db @ map (clone_row hash stamp now) cloned"
    "\<forall>k m. has_model_grant k m db' \<longleftrightarrow> has_model_grant k m db \<or>
       cl_inherit c \<and> m = model_id \<and> has_model_grant k (mc_id source) db"
    "model_by_id model_id db' = Some row" "\<not> has_row mc_id model_id (db_models db)"
    "\<not> has_row mc_nickname (cl_nickname c) (db_models db)"
proof -
  let ?m = "cloned_model c now model_id source"
  have ok: "(mc_state source \<noteq> AVAILABLE) = False" "(mc_artifact_path source \<in> {None, Some []}) = False"
    using assms unfolding clone_model_def by (auto split: if_splits)
  note steps = assms [unfolded clone_model_def Let_def ok if_False]
  from steps obtain records where r: "records_for_model lit fp (mc_id source) db = Inr records"
    unfolding and_then_Inr by blast
  have some: "(filter sp_active records = []) = False"
    using steps unfolding r and_then.simps by (auto split: if_splits)
  from steps obtain yarn cloned db1 db2 db3 where
    c: "clone_profiles parse_json c yarn model_id fresh 0 (filter sp_active records) = Inr cloned"
    and 1: "insert_model (?m (map fst cloned)) db = Inr db1"
    and 2: "insert_each insert_profile (map (clone_row hash stamp now) cloned) db1 = Inr db2"
    and 3: "(if cl_inherit c then insert_each (\<lambda>k. insert_grants now k [model_id])
              (map mg_key (filter (\<lambda>g. mg_model g = mc_id source) (db_grants db2))) db2 else Inr db2) = Inr db3"
    and 4: "(case model_by_id model_id db3 of None \<Rightarrow> Inl (RuntimeError ''cloned model was not persisted'')
              | Some row' \<Rightarrow> Inr ((row', map fst cloned), db3)) = Inr ((row, ps), db')"
    unfolding r and_then.simps some if_False and_then_Inr by blast
  from 1 have m: "db1 = db\<lparr>db_models := db_models db @ [?m (map fst cloned)]\<rparr>"
    "\<not> has_row mc_id model_id (db_models db)" "\<not> has_row mc_nickname (cl_nickname c) (db_models db)"
    unfolding insert_model_def by (auto simp: cloned_model_def split: if_splits)
  from 4 have row: "model_by_id model_id db3 = Some row" "ps = map fst cloned" "db3 = db'"
    by (auto split: option.splits)
  have p: "db_profiles db2 = db_profiles db @ map (clone_row hash stamp now) cloned"
    "db_models db2 = db_models db @ [?m (map fst cloned)]" "db_grants db2 = db_grants db"
    using insert_each_profiles [OF 2] m(1) by simp_all
  have g: "db_profiles db3 = db_profiles db2 \<and> db_models db3 = db_models db2 \<and>
    (\<forall>k m. has_model_grant k m db3 \<longleftrightarrow> has_model_grant k m db2 \<or>
       cl_inherit c \<and> m = model_id \<and> has_model_grant k (mc_id source) db)"
  proof (cases "cl_inherit c")
    case True
    with 3 have "insert_each (\<lambda>k. insert_grants now k [model_id])
        (map mg_key (filter (\<lambda>g. mg_model g = mc_id source) (db_grants db2))) db2 = Inr db3" by simp
    from insert_each_grants [OF this] show ?thesis using True p(3) by (auto simp: has_model_grant_def)
  next
    case False
    with 3 show ?thesis by simp
  qed
  have hg: "has_model_grant k m db2 = has_model_grant k m db" for k m
    by (simp add: has_model_grant_def p(3))
  show ?thesis
    by (rule that [OF r some [THEN iffD1 [OF eq_False]] c row(2) _ _ _ _ m(2,3)]) (use g p row hg in auto)
qed

text \<open>
  C19: a clone is a model of its own that the scheduler serves at once: available, with the source's
  files, its context limit the smallest of its profiles' contexts, and exactly the returned profiles
  active for it on this machine. No other model or profile row changes, and the only grants added
  are those of the source's holders, when they are inherited.
\<close>

theorem clone_is_served_like_its_source:
  assumes "clone_model lit parse_json hash stamp now fp model_id fresh config source c db = Inr ((row, ps), db')"
    "\<forall>r \<in> set (db_profiles db). has_row mc_id (mp_model r) (db_models db)"
  shows "(\<exists>qs. profiles_for_model lit fp model_id db' = Inr qs \<and> mset qs = mset ps) \<and> ps \<noteq> []
    \<and> model_by_nickname (cl_nickname c) db' = Some row \<and> mc_id row = model_id
    \<and> mc_state row = AVAILABLE \<and> mc_artifact_path row = mc_artifact_path source
    \<and> map_of (mc_request_limits row) ''max_context_tokens'' = Some (JInt (Min (pf_max_model_len ` set ps)))
    \<and> db_models db' = db_models db @ [row] \<and> take (length (db_profiles db)) (db_profiles db') = db_profiles db
    \<and> (\<forall>k m. has_model_grant k m db' \<longleftrightarrow> has_model_grant k m db \<or>
         cl_inherit c \<and> m = model_id \<and> has_model_grant k (mc_id source) db)"
proof -
  from assms(1) obtain records yarn cloned where
    r: "records_for_model lit fp (mc_id source) db = Inr records" "filter sp_active records \<noteq> []"
    and c: "clone_profiles parse_json c yarn model_id fresh 0 (filter sp_active records) = Inr cloned"
    and d: "ps = map fst cloned"
    "db_models db' = db_models db @ [cloned_model c now model_id source ps]"
    "db_profiles db' = db_profiles db @ map (clone_row hash stamp now) cloned"
    "\<forall>k m. has_model_grant k m db' \<longleftrightarrow> has_model_grant k m db \<or>
       cl_inherit c \<and> m = model_id \<and> has_model_grant k (mc_id source) db"
    and fresh: "model_by_id model_id db' = Some row" "\<not> has_row mc_id model_id (db_models db)"
    "\<not> has_row mc_nickname (cl_nickname c) (db_models db)"
    by (rule clone_model_Inr)
  have row: "row = cloned_model c now model_id source ps" "model_by_nickname (cl_nickname c) db' = Some row"
    using fresh d(2) find_snoc [of model_id mc_id "db_models db" "cloned_model c now model_id source ps"]
      find_snoc [of "cl_nickname c" mc_nickname "db_models db" "cloned_model c now model_id source ps"]
    by (simp_all add: model_by_id_def model_by_nickname_def cloned_model_def)
  have copy: "pf_model_id (fst e) = model_id \<and> finite (pf_capabilities (fst e)) \<and> pf_machine_fingerprint (fst e) = fp"
    if "e \<in> set cloned" for e
    using clone_profiles_copy [OF c that] records_on_machine [OF r(1)] by auto
  have "active_rows fp model_id db' = map (clone_row hash stamp now) cloned"
    using fresh(2) assms(2) copy by (auto simp: active_rows_def machine_rows_def d(3) filter_empty_conv
      filter_id_conv clone_row_def Let_def)
  moreover obtain ys where ys: "ordered_profiles (map (clone_row hash stamp now) cloned)
      = map (clone_row hash stamp now) ys" "mset ys = mset cloned"
    using ordered_map by blast
  moreover have "traverse (read_profile lit fp) (map (clone_row hash stamp now) ys) = Inr (map fst ys)"
    unfolding traverse_map
    by (rule traverse_Inr, rule read_clone) (use copy mset_eq_setD [OF ys(2)] in auto)
  ultimately have "profiles_for_model lit fp model_id db' = Inr (map fst ys)" by (simp add: profiles_for_model_def)
  moreover have "mset (map fst ys) = mset ps" using ys(2) d(1) by simp
  moreover have "ps \<noteq> []" using clone_profiles_nonempty [OF c r(2)] d(1) by simp
  then obtain p qs where "ps = p # qs" by (cases ps) auto
  then have "map_of (mc_request_limits row) ''max_context_tokens'' = Some (JInt (Min (pf_max_model_len ` set ps)))"
    by (simp add: row(1) cloned_model_def map_of_limit_update fold_min_least)
  ultimately show ?thesis
    using row d(2-4) \<open>ps \<noteq> []\<close> by (auto simp: cloned_model_def)
qed

text \<open>A clone with a context extended four times, for the holders of the source.\<close>

definition demo_clone_request :: clone_request where
  "demo_clone_request =
     \<lparr>cl_nickname = ''tiny-long'', cl_creator = ''k'', cl_defaults = [(''top_k'', JInt 5)], cl_max_len = None,
      cl_yarn = Some 4, cl_yarn_original = None, cl_inherit = True\<rparr>"

definition demo_clone :: "exn + ((model_row \<times> placement_profile list) \<times> database)" where
  "demo_clone = clone_model (\<lambda>_. None) (\<lambda>_. None) (\<lambda>_. ''h'') (\<lambda>_. ''now'') 5 ''f'' ''m2'' (\<lambda>_. ''p3'')
     (Some [(''max_position_embeddings'', JInt 4096)]) (demo_model\<lparr>mc_artifact_path := Some ''/m''\<rparr>)
     demo_clone_request demo_store"

lemma demo_clone_run:
  "case demo_clone of
     Inr ((row, ps), db) \<Rightarrow> map pf_max_model_len ps = [16384] \<and> mc_nickname row = ''tiny-long''
   | Inl _ \<Rightarrow> False"
  by code_simp

lemma clone_is_served_like_its_source_witness:
  "\<exists>row ps db qs. demo_clone = Inr ((row, ps), db) \<and> profiles_for_model (\<lambda>_. None) ''f'' ''m2'' db = Inr qs
     \<and> mset qs = mset ps \<and> map pf_max_model_len ps = [16384]
     \<and> map_of (mc_request_limits row) ''max_context_tokens'' = Some (JInt (Min (pf_max_model_len ` set ps)))"
proof -
  obtain row ps db where run: "demo_clone = Inr ((row, ps), db)" and len: "map pf_max_model_len ps = [16384]"
    using demo_clone_run by (auto split: sum.splits)
  have "\<forall>r \<in> set (db_profiles demo_store). has_row mc_id (mp_model r) (db_models demo_store)" by code_simp
  note clone = clone_is_served_like_its_source [OF run [unfolded demo_clone_def] this]
  from conjunct1 [OF clone] obtain qs where "profiles_for_model (\<lambda>_. None) ''f'' ''m2'' db = Inr qs" "mset qs = mset ps"
    by (elim exE conjE)
  moreover have "map_of (mc_request_limits row) ''max_context_tokens'' = Some (JInt (Min (pf_max_model_len ` set ps)))"
    using clone by (elim conjE)
  ultimately show ?thesis using run len by (intro exI conjI)
qed

end
