(* ===== verification/Inference.thy ===== *)
theory Inference
  imports ProfileStore
begin

text \<open>
  \<^verbatim>\<open>src/src/llm_rio/api/routes_inference.py\<close>, what a request is checked against before it is queued:
  the models a key may call, the defaults of a model, the token estimates, and the limits; and the
  listing of the models. \<open>fr\<close> prints a float as \<open>json.dumps\<close> does.
\<close>

section \<open>Token estimates\<close>

definition image_content_types :: "string list" where
  "image_content_types = [''image'', ''image_url'', ''input_image'']"

text \<open>\<open>value in _IMAGE_CONTENT_TYPES\<close>: a list or an object has no hash.\<close>

fun is_image_type :: "json \<Rightarrow> exn + bool" where
  "is_image_type (JStr s) = Inr (s \<in> set image_content_types)"
| "is_image_type (JList _) = Inl (TypeError ''unhashable'')"
| "is_image_type (JDict _) = Inl (TypeError ''unhashable'')"
| "is_image_type _ = Inr False"

definition image_detail :: "(string, json) dict \<Rightarrow> json" where
  "image_detail part =
     (case get_or JNull ''detail'' part of
        JNull \<Rightarrow> (case get_or JNull ''image_url'' part of
                    JDict url \<Rightarrow> get_or JNull ''detail'' url | _ \<Rightarrow> JNull)
      | d \<Rightarrow> d)"

definition image_part :: "(string, json) dict \<Rightarrow> json" where
  "image_part part =
     JDict ([(''type'', get_or JNull ''type'' part), (''image'', JStr ''<image>'')]
            @ (if image_detail part = JNull then [] else [(''detail'', image_detail part)]))"

fun accounting_part :: "json \<Rightarrow> exn + json" where
  "accounting_part (JDict part) =
     and_then (is_image_type (get_or JNull ''type'' part))
       (\<lambda>image. Inr (if image then image_part part else JDict part))"
| "accounting_part v = Inr v"

definition accounting_message :: "(string, json) dict \<Rightarrow> exn + (string, json) dict" where
  "accounting_message message =
     (case get_or JNull ''content'' message of
        JList parts \<Rightarrow> and_then (traverse accounting_part parts)
                       (\<lambda>ps. Inr (AList.update ''content'' (JList ps) message))
      | _ \<Rightarrow> Inr message)"

definition messages_for_accounting ::
  "(string, json) dict list \<Rightarrow> exn + (string, json) dict list" where
  "messages_for_accounting messages = traverse accounting_message messages"

definition rough_tokens :: "(rat \<Rightarrow> string) \<Rightarrow> json \<Rightarrow> int" where
  "rough_tokens fr v =
     (let encoded = dumps fr v
      in if encoded = [] \<or> encoded = quote [] then 0 else max 1 ((int (length encoded) + 3) div 4))"

definition conservative_prompt_tokens :: "(rat \<Rightarrow> string) \<Rightarrow> json \<Rightarrow> int" where
  "conservative_prompt_tokens fr v = max 1 (int (utf8_length (dumps fr v)))"

section \<open>The models of a key\<close>

record inference_env =
  ie_lit :: "string \<Rightarrow> rat option"
  ie_fr :: "rat \<Rightarrow> string"
  ie_fingerprint :: string
  ie_kvcached :: bool
  ie_max_prompt :: "int option"
  ie_max_output :: "int option"
  ie_max_n :: "int option"
  ie_charge_maximum :: bool

definition available_models :: "principal \<Rightarrow> database \<Rightarrow> model_row list" where
  "available_models p db =
     (if pr_role p = USER then list_models (Some (pr_key_id p)) db
      else filter (\<lambda>m. mc_state m = AVAILABLE) (list_models None db))"

definition routable_profiles :: "inference_env \<Rightarrow> placement_profile list \<Rightarrow> placement_profile list" where
  "routable_profiles env ps =
     (if \<not> ie_kvcached env then ps
      else filter (\<lambda>p. pf_engine p = VLLM \<and> pf_memory_backend p = ''kvcached'') ps)"

fun catalog_state_value :: "catalog_state \<Rightarrow> string" where
  "catalog_state_value REQUESTED = ''REQUESTED''"
| "catalog_state_value DOWNLOADING = ''DOWNLOADING''"
| "catalog_state_value VALIDATION_PENDING = ''VALIDATION_PENDING''"
| "catalog_state_value VALIDATING = ''VALIDATING''"
| "catalog_state_value AVAILABLE = ''AVAILABLE''"
| "catalog_state_value NEEDS_ADMIN_REVIEW = ''NEEDS_ADMIN_REVIEW''"
| "catalog_state_value DISABLED = ''DISABLED''"

definition quoted :: "string \<Rightarrow> string" where
  "quoted s = [CHR 0x27] @ s @ [CHR 0x27]"

definition resolve_model ::
  "inference_env \<Rightarrow> principal \<Rightarrow> string \<Rightarrow> database \<Rightarrow> exn + model_row" where
  "resolve_model env p nickname db =
     (let available = (''available_models'', JList (map (\<lambda>m. JStr (mc_nickname m)) (available_models p db)))
      in case model_by_nickname nickname db of
           None \<Rightarrow> Inl (rio ''model_not_found''
                     (''Model '' @ quoted nickname @ '' is not in this machine'' @ [CHR 0x27] @ ''s catalog'') 404 [available])
         | Some m \<Rightarrow>
             if pr_role p = USER \<and> \<not> has_model_grant (pr_key_id p) (mc_id m) db
             then Inl (rio ''model_not_allowed''
                    (''This key is not granted access to model '' @ quoted nickname) 403 [available])
             else if mc_state m \<noteq> AVAILABLE
             then Inl (rio ''model_unavailable'' (''Model '' @ quoted nickname @ '' is not available'') 409
                    [(''catalog_state'', JStr (catalog_state_value (mc_state m))), available])
             else and_then (profiles_for_model (ie_lit env) (ie_fingerprint env) (mc_id m) db) (\<lambda>ps.
               if ps = []
               then Inl (rio ''model_verification_required''
                      ''This model needs verification on the current machine fingerprint'' 503 [])
               else if routable_profiles env ps = []
               then Inl (rio ''prism_profile_revalidation_required''
                      ''This model needs a vLLM placement profile validated with kvcached'' 503
                      [(''required_memory_backend'', JStr ''kvcached'')])
               else Inr m))"

definition model_entry :: "inference_env \<Rightarrow> model_row \<Rightarrow> placement_profile list \<Rightarrow> json" where
  "model_entry env m ps =
     (let routable = routable_profiles env ps
      in JDict
        [(''id'', JStr (mc_nickname m)), (''object'', JStr ''model''), (''owned_by'', JStr ''llm-rio''),
         (''state'', JStr (if routable \<noteq> [] then ''available''
                           else if ps \<noteq> [] then ''prism_profile_revalidation_required''
                           else ''verification_required'')),
         (''callable'', JBool (routable \<noteq> [])),
         (''revision'', json_opt JStr (mc_resolved_revision m)),
         (''profile_ids'', JList (map (\<lambda>p. JStr (pf_id p)) ps)),
         (''placement_profiles'', JList (map (\<lambda>p. JDict
            [(''id'', JStr (pf_id p)), (''engine'', JStr (engine_value (pf_engine p))),
             (''memory_backend'', JStr (pf_memory_backend p)), (''gpu_count'', JInt (pf_gpu_count p)),
             (''tensor_parallel_size'', JInt (pf_tensor_parallel_size p)),
             (''eligible_gpu_sets'', JList (map (\<lambda>g. JList (map JStr g)) (pf_eligible_gpu_sets p)))]) ps)),
         (''capabilities'', JList (map JStr (mc_capabilities m))),
         (''request_defaults'', JDict (mc_request_defaults m)),
         (''source_model_id'', json_opt JStr (mc_source_model m))])"

definition list_callable_models :: "inference_env \<Rightarrow> principal \<Rightarrow> database \<Rightarrow> exn + json" where
  "list_callable_models env p db =
     and_then
       (traverse (\<lambda>m. and_then (profiles_for_model (ie_lit env) (ie_fingerprint env) (mc_id m) db)
                        (\<lambda>ps. Inr (model_entry env m ps))) (available_models p db))
       (\<lambda>data. Inr (JDict [(''object'', JStr ''list''), (''data'', JList data)]))"

section \<open>A request and its limits\<close>

text \<open>
  The fields of \<open>ChatCompletionRequest\<close> the handler reads; the rest of the body, which is only
  forwarded, is in \<open>cr_rest\<close>. A field that a model default can fill holds any JSON value, since
  \<open>model_copy\<close> does not validate.
\<close>

record chat_request =
  cr_model :: string
  cr_messages :: "(string, json) dict list"
  cr_max_tokens :: "int option"
  cr_max_completion_tokens :: "int option"
  cr_n :: int
  cr_stream :: bool
  cr_stream_options :: "(string, json) dict option"
  cr_temperature :: "json option"
  cr_top_p :: "json option"
  cr_top_k :: "json option"
  cr_min_p :: "json option"
  cr_presence_penalty :: "json option"
  cr_repetition_penalty :: "json option"
  cr_reasoning_effort :: "json option"
  cr_response_format :: "(string, json) dict option"
  cr_rest :: "(string, json) dict"

definition output_limit :: "chat_request \<Rightarrow> int option" where
  "output_limit b =
     (case cr_max_completion_tokens b of None \<Rightarrow> cr_max_tokens b | Some n \<Rightarrow> Some n)"

text \<open>\<open>defaults[field]\<close> where the body has none; a null default leaves the field unset.\<close>

definition or_default :: "(string, json) dict \<Rightarrow> string \<Rightarrow> json option \<Rightarrow> json option" where
  "or_default d k v =
     (case v of Some x \<Rightarrow> Some x
      | None \<Rightarrow> (case map_of d k of None \<Rightarrow> None | Some JNull \<Rightarrow> None | Some x \<Rightarrow> Some x))"

definition apply_model_defaults :: "chat_request \<Rightarrow> model_row \<Rightarrow> chat_request" where
  "apply_model_defaults b m =
     (let d = mc_request_defaults m
      in b\<lparr>cr_temperature := or_default d ''temperature'' (cr_temperature b),
           cr_top_p := or_default d ''top_p'' (cr_top_p b),
           cr_top_k := or_default d ''top_k'' (cr_top_k b),
           cr_min_p := or_default d ''min_p'' (cr_min_p b),
           cr_presence_penalty := or_default d ''presence_penalty'' (cr_presence_penalty b),
           cr_repetition_penalty := or_default d ''repetition_penalty'' (cr_repetition_penalty b),
           cr_reasoning_effort := or_default d ''reasoning_effort'' (cr_reasoning_effort b)\<rparr>)"

definition prompt_limit :: "inference_env \<Rightarrow> (string, json) dict \<Rightarrow> int \<Rightarrow> exn + int" where
  "prompt_limit env limits max_context =
     (case get_or JNull ''max_prompt_tokens'' limits of
        JNull \<Rightarrow> Inr (case ie_max_prompt env of None \<Rightarrow> max_context | Some n \<Rightarrow> min n max_context)
      | raw \<Rightarrow> and_then (json_int raw) (\<lambda>cap.
                 Inr (case ie_max_prompt env of None \<Rightarrow> cap | Some n \<Rightarrow> min cap n)))"

text \<open>The output limit of the service, within the context.\<close>

definition service_output_limit :: "inference_env \<Rightarrow> int \<Rightarrow> int option" where
  "service_output_limit env max_context = map_option (\<lambda>n. min n max_context) (ie_max_output env)"

text \<open>The limit added to a request without one, and the output that is reserved for each choice.\<close>

definition enforced_limit :: "inference_env \<Rightarrow> chat_request \<Rightarrow> int \<Rightarrow> int \<Rightarrow> int option" where
  "enforced_limit env b max_context prompt =
     (case output_limit b of
        Some _ \<Rightarrow> None
      | None \<Rightarrow> map_option (\<lambda>n. min n (max 0 (max_context - prompt))) (service_output_limit env max_context))"

definition reserved_output :: "inference_env \<Rightarrow> chat_request \<Rightarrow> int \<Rightarrow> int \<Rightarrow> int" where
  "reserved_output env b max_context prompt =
     (case output_limit b of
        Some n \<Rightarrow> n
      | None \<Rightarrow> (case enforced_limit env b max_context prompt of
                  Some n \<Rightarrow> n | None \<Rightarrow> max 0 (max_context - prompt)))"

definition limit_error ::
  "inference_env \<Rightarrow> chat_request \<Rightarrow> model_row \<Rightarrow> int \<Rightarrow> int \<Rightarrow> int \<Rightarrow> exn option" where
  "limit_error env b m max_context max_prompt prompt =
     (let over = (\<lambda>limit x. case limit of None \<Rightarrow> False | Some n \<Rightarrow> n < x);
          exceeds = (\<lambda>limit. case output_limit b of None \<Rightarrow> False | Some n \<Rightarrow> limit < n)
      in if max_prompt < prompt
         then Some (rio ''context_length_exceeded'' ''The prompt exceeds the configured limit'' 400 [])
         else if exceeds (max_context - prompt)
         then Some (rio ''context_length_exceeded'' ''Prompt plus output exceeds the model context'' 400 [])
         else if (case service_output_limit env max_context of None \<Rightarrow> False | Some x \<Rightarrow> exceeds x)
         then Some (rio ''max_tokens_exceeded'' ''The requested output limit is too high'' 400 [])
         else if over (ie_max_n env) (cr_n b)
         then Some (rio ''n_exceeded'' ''The requested number of choices is too high'' 400 [])
         else if cr_response_format b \<notin> {None, Some []}
              \<and> ''structured_output'' \<notin> set (mc_capabilities m)
         then Some (rio ''structured_output_not_supported''
                ''Structured output was not validated for this model profile'' 400 [])
         else None)"

text \<open>The estimate of the prompt, the tokens to reserve, and the output limit the service adds.\<close>

definition validate_request ::
  "inference_env \<Rightarrow> chat_request \<Rightarrow> model_row \<Rightarrow> exn + (int \<times> int \<times> int option)" where
  "validate_request env b m =
     and_then (int_field ''max_context_tokens'' (mc_request_limits m)) (\<lambda>max_context.
     and_then (prompt_limit env (mc_request_limits m) max_context) (\<lambda>max_prompt.
     and_then (messages_for_accounting (cr_messages b)) (\<lambda>messages.
     let v = JList (map JDict messages);
         prompt = rough_tokens (ie_fr env) v
     in case limit_error env b m max_context max_prompt prompt of
          Some e \<Rightarrow> Inl e
        | None \<Rightarrow> Inr (prompt,
            conservative_prompt_tokens (ie_fr env) v + reserved_output env b max_context prompt * cr_n b,
            enforced_limit env b max_context prompt))))"

section \<open>What a reservation covers\<close>

lemma rough_le_conservative: "rough_tokens fr v \<le> conservative_prompt_tokens fr v"
proof -
  have "int (length (dumps fr v)) \<le> int (utf8_length (dumps fr v))" using utf8_length_ge by simp
  then have "max 1 ((int (length (dumps fr v)) + 3) div 4) \<le> max 1 (int (utf8_length (dumps fr v)))"
    by linarith
  then show ?thesis
    unfolding rough_tokens_def conservative_prompt_tokens_def Let_def by (cases "dumps fr v = [] \<or> dumps fr v = quote []") auto
qed

lemma rough_tokens_nonneg: "0 \<le> rough_tokens fr v"
proof -
  have "0 \<le> max 1 x" for x :: int by linarith
  then show ?thesis unfolding rough_tokens_def Let_def by (cases "dumps fr v = [] \<or> dumps fr v = quote []") auto
qed

lemma validate_request_Inr:
  assumes "validate_request env b m = Inr (prompt, reserved, enforced)"
    "int_field ''max_context_tokens'' (mc_request_limits m) = Inr ctx"
  obtains v max_prompt where "prompt = rough_tokens (ie_fr env) v"
    "reserved = conservative_prompt_tokens (ie_fr env) v + reserved_output env b ctx prompt * cr_n b"
    "enforced = enforced_limit env b ctx prompt" "limit_error env b m ctx max_prompt prompt = None"
  using assms by (auto simp: validate_request_def and_then_Inr Let_def split: option.splits)


text \<open>A short prompt for a model of 4096 tokens, two choices, and a service limit of 1000.\<close>

definition demo_inference_env :: inference_env where
  "demo_inference_env =
     \<lparr>ie_lit = (\<lambda>_. None), ie_fr = (\<lambda>_. ''0.5''), ie_fingerprint = ''f'', ie_kvcached = True, ie_max_prompt = None,
      ie_max_output = Some 1000, ie_max_n = Some 4, ie_charge_maximum = False\<rparr>"

definition demo_chat :: chat_request where
  "demo_chat =
     \<lparr>cr_model = ''tiny'', cr_messages = [[(''role'', JStr ''user''), (''content'', JStr ''Hello'')]],
      cr_max_tokens = None, cr_max_completion_tokens = None, cr_n = 2, cr_stream = True,
      cr_stream_options = None, cr_temperature = None, cr_top_p = None, cr_top_k = None, cr_min_p = None,
      cr_presence_penalty = None, cr_repetition_penalty = None, cr_reasoning_effort = None,
      cr_response_format = None, cr_rest = []\<rparr>"

definition demo_chat_model :: model_row where
  "demo_chat_model = demo_model\<lparr>mc_request_limits := [(''max_context_tokens'', JInt 4096)]\<rparr>"

lemma demo_chat_valid: "validate_request demo_inference_env demo_chat demo_chat_model = Inr (9, 2035, Some 1000)"
  by code_simp


end
