(* ===== verification/StreamAccounting.thy ===== *)
theory StreamAccounting
  imports Inference
begin

text \<open>
  How \<^verbatim>\<open>src/src/llm_rio/api/routes_inference.py\<close> reads a worker's answer: the event stream of
  \<open>_stream_backend\<close>, chunk by chunk, with the usage it accounts for and the ways it can end, and the
  one answer of \<open>_nonstream_backend\<close>. Bytes are numbers below 256 and decoded text is a list of code
  points; \<open>parse\<close> is \<open>json.loads\<close> on such a text, \<open>None\<close> for a \<open>JSONDecodeError\<close>.
\<close>

section \<open>Decoding\<close>

type_synonym text_points = "nat list"

definition cont :: "nat \<Rightarrow> bool" where
  "cont b \<longleftrightarrow> 128 \<le> b \<and> b < 192"

text \<open>
  \<open>bytes.decode("utf-8", errors="ignore")\<close>: what does not begin a well-formed sequence is dropped.
  Dropping one byte at a time is the same as dropping an ill-formed prefix at once: its other bytes
  are continuation bytes, which begin nothing.
\<close>

fun second_ok :: "nat \<Rightarrow> nat \<Rightarrow> bool" where
  "second_ok b c = (cont c \<and> (b = 224 \<longrightarrow> 160 \<le> c) \<and> (b = 237 \<longrightarrow> c < 160)
                    \<and> (b = 240 \<longrightarrow> 144 \<le> c) \<and> (b = 244 \<longrightarrow> c < 144))"

definition sequence_length :: "nat \<Rightarrow> nat" where
  "sequence_length b =
     (if b < 128 then 1 else if 194 \<le> b \<and> b < 224 then 2 else if 224 \<le> b \<and> b < 240 then 3
      else if 240 \<le> b \<and> b < 245 then 4 else 0)"

text \<open>The code point of a well-formed sequence at the front, with its length.\<close>

fun decode_one :: "nat list \<Rightarrow> (nat \<times> nat) option" where
  "decode_one [] = None"
| "decode_one (b # rest) =
     (if sequence_length b = 1 then Some (b, 1)
      else if sequence_length b = 2
      then (case rest of
              c # _ \<Rightarrow> if cont c then Some ((b - 192) * 64 + (c - 128), 2) else None
            | [] \<Rightarrow> None)
      else if sequence_length b = 3
      then (case rest of
              c # d # _ \<Rightarrow> if second_ok b c \<and> cont d
                           then Some ((b - 224) * 4096 + (c - 128) * 64 + (d - 128), 3) else None
            | _ \<Rightarrow> None)
      else if sequence_length b = 4
      then (case rest of
              c # d # e # _ \<Rightarrow> if second_ok b c \<and> cont d \<and> cont e
                               then Some ((b - 240) * 262144 + (c - 128) * 4096 + (d - 128) * 64 + (e - 128), 4)
                               else None
            | _ \<Rightarrow> None)
      else None)"

function utf8_ignore :: "nat list \<Rightarrow> text_points" where
  "utf8_ignore [] = []"
| "utf8_ignore (b # rest) =
     (case decode_one (b # rest) of
        None \<Rightarrow> utf8_ignore rest
      | Some (c, n) \<Rightarrow> c # utf8_ignore (drop (n - 1) rest))"
  by pat_completeness auto
termination by (relation "measure length") auto

declare utf8_ignore.simps(2) [simp del]

definition points :: "string \<Rightarrow> text_points" where
  "points s = map of_char s"

section \<open>Lines\<close>

text \<open>\<open>text.split(sep)\<close> for one character.\<close>

fun split_at :: "nat \<Rightarrow> text_points \<Rightarrow> text_points list" where
  "split_at sep [] = [[]]"
| "split_at sep (c # cs) =
     (if c = sep then [] # split_at sep cs
      else case split_at sep cs of [] \<Rightarrow> [[c]] | l # ls \<Rightarrow> (c # l) # ls)"

definition rstrip_char :: "nat \<Rightarrow> text_points \<Rightarrow> text_points" where
  "rstrip_char c s = rev (dropWhile (\<lambda>x. x = c) (rev s))"

text \<open>The text after \<open>data: \<close>, of a line that begins so.\<close>

definition data_of :: "text_points \<Rightarrow> text_points option" where
  "data_of line =
     (if take 6 line = points ''data: '' then Some (drop 6 line) else None)"

section \<open>The accounting of a stream\<close>

record stream_acc =
  ac_prompt :: int
  ac_completion :: int
  ac_observed :: int
  ac_error :: "string option"
  ac_done :: bool

definition stream_init :: stream_acc where
  "stream_init =
     \<lparr>ac_prompt = 0, ac_completion = 0, ac_observed = 0, ac_error = None, ac_done = False\<rparr>"

text \<open>\<open>value.get(key, default)\<close> on any JSON value: only objects have \<open>get\<close>.\<close>

fun dict_get :: "json \<Rightarrow> string \<Rightarrow> json \<Rightarrow> exn + json" where
  "dict_get (JDict d) k v = Inr (get_or v k d)"
| "dict_get _ k v = Inl (AttributeError ''get'')"

text \<open>The items of \<open>value or []\<close>: iterating an object gives its keys, a string its characters.\<close>

fun iterate :: "json \<Rightarrow> exn + json list" where
  "iterate (JList xs) = Inr xs"
| "iterate (JDict d) = Inr (map (\<lambda>(k, _). JStr k) d)"
| "iterate (JStr s) = Inr (map (\<lambda>c. JStr [c]) s)"
| "iterate v = (if json_truthy v then Inl (TypeError ''not iterable'') else Inr [])"

definition choice_tokens :: "(rat \<Rightarrow> string) \<Rightarrow> string \<Rightarrow> json \<Rightarrow> exn + int" where
  "choice_tokens fr part choice =
     and_then (dict_get choice part (JDict [])) (\<lambda>d.
     and_then (dict_get d ''content'' (JStr [])) (\<lambda>v. Inr (rough_tokens fr v)))"

text \<open>
  Steps that change the accounting until one raises: the changes before it stay, since the handler's
  \<open>finally\<close> reads the variables.
\<close>

type_synonym stream_step = "stream_acc \<Rightarrow> stream_acc \<times> exn option"

definition then_step :: "stream_step \<Rightarrow> stream_step \<Rightarrow> stream_step" where
  "then_step f g a = (case f a of (a', Some e) \<Rightarrow> (a', Some e) | (a', None) \<Rightarrow> g a')"

definition assign :: "exn + 'v \<Rightarrow> ('v \<Rightarrow> stream_acc \<Rightarrow> stream_acc) \<Rightarrow> stream_step" where
  "assign v f a = (case v of Inl e \<Rightarrow> (a, Some e) | Inr x \<Rightarrow> (f x a, None))"

definition usage_field :: "string \<Rightarrow> json \<Rightarrow> exn + int" where
  "usage_field k v = and_then (dict_get v k (JInt 0)) json_int"

definition read_usage :: "json \<Rightarrow> stream_step" where
  "read_usage u =
     then_step (assign (usage_field ''prompt_tokens'' u) (\<lambda>n. ac_prompt_update (\<lambda>_. n)))
       (assign (usage_field ''completion_tokens'' u) (\<lambda>n. ac_completion_update (\<lambda>_. n)))"

fun add_choices :: "(rat \<Rightarrow> string) \<Rightarrow> json list \<Rightarrow> stream_step" where
  "add_choices fr [] a = (a, None)"
| "add_choices fr (c # cs) a =
     then_step (assign (choice_tokens fr ''delta'' c) (\<lambda>n. ac_observed_update ((+) n)))
       (add_choices fr cs) a"

definition stream_event :: "(rat \<Rightarrow> string) \<Rightarrow> json \<Rightarrow> stream_step" where
  "stream_event fr event =
     then_step
       (assign (dict_get event ''error'' JNull)
          (\<lambda>v. if json_truthy v then ac_error_update (\<lambda>_. Some ''worker_stream_error'') else id))
       (then_step
         (\<lambda>a. case dict_get event ''usage'' JNull of
                Inl e \<Rightarrow> (a, Some e)
              | Inr u \<Rightarrow> if json_truthy u then read_usage u a else (a, None))
         (\<lambda>a. case and_then (dict_get event ''choices'' JNull) iterate of
                Inl e \<Rightarrow> (a, Some e)
              | Inr choices \<Rightarrow> add_choices fr choices a))"

definition stream_line :: "(rat \<Rightarrow> string) \<Rightarrow> (text_points \<Rightarrow> json option) \<Rightarrow> text_points \<Rightarrow> stream_step" where
  "stream_line fr parse line a =
     (case data_of (rstrip_char 13 line) of
        None \<Rightarrow> (a, None)
      | Some payload \<Rightarrow>
          if payload = points ''[DONE]'' then (a\<lparr>ac_done := True\<rparr>, None)
          else case parse payload of
                 None \<Rightarrow> (a, None)
               | Some event \<Rightarrow> stream_event fr event a)"

fun stream_lines ::
  "(rat \<Rightarrow> string) \<Rightarrow> (text_points \<Rightarrow> json option) \<Rightarrow> text_points list \<Rightarrow> stream_step" where
  "stream_lines fr parse [] a = (a, None)"
| "stream_lines fr parse (l # ls) a = then_step (stream_line fr parse l) (stream_lines fr parse ls) a"

text \<open>
  One chunk, with the text kept from the chunks before: the accounting, the kept text, and an
  exception. An exception leaves the loop before the chunk is passed on.
\<close>

definition stream_chunk ::
  "(rat \<Rightarrow> string) \<Rightarrow> (text_points \<Rightarrow> json option) \<Rightarrow> nat list \<Rightarrow> text_points \<times> stream_acc
     \<Rightarrow> (text_points \<times> stream_acc) \<times> exn option" where
  "stream_chunk fr parse chunk st =
     (case st of (pending, a) \<Rightarrow>
        let ls = split_at 10 (pending @ utf8_ignore chunk)
        in case stream_lines fr parse (butlast ls) a of (a', e) \<Rightarrow> ((last ls, a'), e))"

text \<open>The chunks passed on to the client, and the state at the end.\<close>

fun stream_chunks ::
  "(rat \<Rightarrow> string) \<Rightarrow> (text_points \<Rightarrow> json option) \<Rightarrow> nat list list \<Rightarrow> text_points \<times> stream_acc
     \<Rightarrow> nat list list \<times> stream_acc \<times> exn option" where
  "stream_chunks fr parse [] st = ([], snd st, None)"
| "stream_chunks fr parse (c # cs) st =
     (case stream_chunk fr parse c st of
        (st', Some e) \<Rightarrow> ([], snd st', Some e)
      | (st', None) \<Rightarrow>
          (case stream_chunks fr parse cs st' of (out, a, e) \<Rightarrow> (c # out, a, e)))"

section \<open>How a stream ends\<close>

text \<open>Why the loop over the chunks was left, when it was not by an exception of its own.\<close>

datatype stream_end = Ended | StreamCancelled | StreamIdle | StreamBroken

definition error_event :: "string \<Rightarrow> string \<Rightarrow> json" where
  "error_event message code =
     JDict [(''error'', JDict [(''message'', JStr message), (''type'', JStr ''worker_stream_error''),
                               (''code'', JStr code)])]"

text \<open>The error code after the loop, and the event that is sent to the client.\<close>

definition end_of_stream :: "stream_end \<Rightarrow> stream_acc \<Rightarrow> string option \<times> json option" where
  "end_of_stream e a =
     (case e of
        Ended \<Rightarrow>
          if ac_done a then (ac_error a, None)
          else (Some ''worker_stream_incomplete'',
                Some (error_event ''The inference stream ended before its terminal event''
                        ''worker_stream_incomplete''))
      | StreamCancelled \<Rightarrow> (Some ''client_disconnected'', None)
      | StreamIdle \<Rightarrow> (Some ''worker_stream_idle_timeout'',
          Some (error_event ''The inference worker stream was idle for too long'' ''worker_stream_idle_timeout''))
      | StreamBroken \<Rightarrow> (Some ''worker_transport_error'',
          Some (error_event ''The inference worker stream became unavailable'' ''worker_transport_error'')))"

text \<open>\<open>actual\<close>, \<open>settled_prompt\<close> and \<open>settled_completion\<close> of the handler's \<open>finally\<close>.\<close>

definition int_or_else :: "int \<Rightarrow> int \<Rightarrow> int" where
  "int_or_else n d = (if n = 0 then d else n)"

definition stream_settlement ::
  "inference_env \<Rightarrow> int \<Rightarrow> int \<Rightarrow> string option \<Rightarrow> stream_acc \<Rightarrow> int \<times> int \<times> int" where
  "stream_settlement env estimate lease_tokens error a =
     ((if ie_charge_maximum env \<and> error = None then lease_tokens
       else if ac_prompt a \<noteq> 0 \<or> ac_completion a \<noteq> 0
       then ac_prompt a + ac_completion a
       else estimate + ac_observed a),
      int_or_else (ac_prompt a) estimate,
      int_or_else (ac_completion a) (ac_observed a))"

section \<open>An answer that is not a stream\<close>

text \<open>
  What the worker's answer to a POST can be: a response with its status and its body (\<open>None\<close> when it
  is not JSON), or the exceptions the handler knows.
\<close>

datatype post_outcome = Posted int "json option" | PostCancelled | PostTimeout | PostBroken

record post_result =
  po_error :: "string option"
  po_raised :: "exn option"
  po_actual :: int
  po_prompt :: int
  po_completion :: int
  po_body :: json

text \<open>
  The accounting of a body: the exception that leaves it, and the variables so far. \<open>total_tokens\<close>
  decides; a total of zero is replaced by the estimate.
\<close>

fun sum_choices :: "(rat \<Rightarrow> string) \<Rightarrow> json list \<Rightarrow> exn + int" where
  "sum_choices fr [] = Inr 0"
| "sum_choices fr (c # cs) =
     and_then (choice_tokens fr ''message'' c) (\<lambda>n. and_then (sum_choices fr cs) (\<lambda>m. Inr (n + m)))"

definition account_body ::
  "(rat \<Rightarrow> string) \<Rightarrow> int \<Rightarrow> json \<Rightarrow> exn option \<times> int \<times> int \<times> int" where
  "account_body fr estimate body =
     (case and_then (dict_get body ''usage'' JNull) (\<lambda>v. Inr (if json_truthy v then v else JDict [])) of
        Inl e \<Rightarrow> (Some e, 0, 0, 0)
      | Inr u \<Rightarrow>
          (case usage_field ''prompt_tokens'' u of
             Inl e \<Rightarrow> (Some e, 0, 0, 0)
           | Inr prompt \<Rightarrow>
               (case usage_field ''completion_tokens'' u of
                  Inl e \<Rightarrow> (Some e, prompt, 0, 0)
                | Inr completion \<Rightarrow>
                    (case and_then (dict_get u ''total_tokens'' (JInt (prompt + completion))) json_int of
                       Inl e \<Rightarrow> (Some e, prompt, completion, 0)
                     | Inr total_tokens \<Rightarrow>
                         if total_tokens \<noteq> 0 then (None, prompt, completion, total_tokens)
                         else (case and_then (and_then (dict_get body ''choices'' JNull) iterate)
                                      (sum_choices fr) of
                                 Inl e \<Rightarrow> (Some e, estimate, completion, 0)
                               | Inr n \<Rightarrow> (None, estimate, n, estimate + n))))))"

definition worker_error :: "string \<Rightarrow> string \<Rightarrow> int \<Rightarrow> exn" where
  "worker_error code message status = rio code message status []"

definition post_failed :: "string \<Rightarrow> exn \<Rightarrow> post_result" where
  "post_failed code e =
     \<lparr>po_error = Some code, po_raised = Some e, po_actual = 0, po_prompt = 0, po_completion = 0, po_body = JNull\<rparr>"

definition nonstream_result ::
  "inference_env \<Rightarrow> string \<Rightarrow> int \<Rightarrow> int \<Rightarrow> post_outcome \<Rightarrow> post_result" where
  "nonstream_result env name estimate lease_tokens outcome =
     (case outcome of
        PostCancelled \<Rightarrow> post_failed ''client_disconnected'' (RuntimeError ''cancelled'')
      | PostTimeout \<Rightarrow> post_failed ''worker_request_timeout''
          (worker_error ''worker_request_timeout''
             ''The selected inference worker did not respond before the request timeout'' 504)
      | PostBroken \<Rightarrow> post_failed ''worker_transport_error''
          (worker_error ''worker_unavailable'' ''The selected inference worker became unavailable'' 503)
      | Posted status body \<Rightarrow>
          if \<not> (200 \<le> status \<and> status < 300)
          then post_failed ''worker_rejected''
                 (worker_error ''worker_rejected'' ''The inference worker rejected the request'' 502)
          else (case body of
             None \<Rightarrow> post_failed ''worker_protocol_error''
               (worker_error ''worker_protocol_error'' ''The inference worker returned an invalid response'' 502)
           | Some v \<Rightarrow>
               (case v of
                  JDict d \<Rightarrow>
                    let body' = JDict (AList.update ''model'' (JStr name) d)
                    in (case account_body (ie_fr env) estimate body' of (raised, prompt, completion, actual) \<Rightarrow>
                          \<lparr>po_error = None, po_raised = raised,
                           po_actual = (if ie_charge_maximum env then lease_tokens else actual),
                           po_prompt = prompt, po_completion = completion, po_body = body'\<rparr>)
                | _ \<Rightarrow> \<lparr>po_error = None, po_raised = Some (TypeError ''item assignment''),
                        po_actual = (if ie_charge_maximum env then lease_tokens else 0),
                        po_prompt = 0, po_completion = 0, po_body = v\<rparr>)))"

section \<open>Chunks do not matter\<close>

definition boundary :: "nat list \<Rightarrow> bool" where
  "boundary bytes \<longleftrightarrow> bytes = [] \<or> \<not> cont (hd bytes)"

lemma boundary_concat: "\<forall>c \<in> set cs. boundary c \<Longrightarrow> boundary (concat cs)"
proof (induction cs)
  case (Cons c cs)
  then show ?case by (cases c) (auto simp: boundary_def)
qed (simp add: boundary_def)

lemma decode_one_append: "boundary ys \<Longrightarrow> decode_one (b # rest @ ys) = decode_one (b # rest)"
proof -
  assume ys: "boundary ys"
  show ?thesis
  proof (cases rest)
    case Nil
    with ys show ?thesis by (cases ys) (auto simp: boundary_def split: list.splits)
  next
    case (Cons c rest1)
    note c = this
    show ?thesis
    proof (cases rest1)
      case Nil
      with c ys show ?thesis by (cases ys) (auto simp: boundary_def split: list.splits)
    next
      case (Cons d rest2)
      with c ys show ?thesis by (cases rest2; cases ys) (auto simp: boundary_def)
    qed
  qed
qed

lemma decode_one_length: "decode_one (b # rest) = Some (c, n) \<Longrightarrow> n - 1 \<le> length rest"
  by (auto split: if_splits list.splits)

lemma utf8_ignore_append: "boundary ys \<Longrightarrow> utf8_ignore (xs @ ys) = utf8_ignore xs @ utf8_ignore ys"
proof (induction xs rule: utf8_ignore.induct)
  case (2 b rest)
  show ?case
  proof (cases "decode_one (b # rest)")
    case None
    with 2 show ?thesis by (simp add: utf8_ignore.simps(2) decode_one_append del: decode_one.simps)
  next
    case (Some cn)
    then obtain c n where cn: "decode_one (b # rest) = Some (c, n)" by (cases cn) auto
    with decode_one_length [OF cn] 2 show ?thesis
      by (simp add: utf8_ignore.simps(2) decode_one_append del: decode_one.simps)
  qed
qed simp

lemma split_at_nonempty [simp]: "split_at sep s \<noteq> []"
  by (induction s) (auto split: list.splits)

lemma split_at_append:
  "split_at sep (xs @ ys) = butlast (split_at sep xs) @ split_at sep (last (split_at sep xs) @ ys)"
proof (induction xs)
  case (Cons x xs)
  show ?case
  proof (cases "x = sep")
    case False
    obtain l ls where l: "split_at sep xs = l # ls" by (cases "split_at sep xs") auto
    show ?thesis
    proof (cases ls)
      case Nil
      with False l Cons show ?thesis by simp
    next
      case (Cons m ms)
      with False l Cons.IH show ?thesis by simp
    qed
  qed (use Cons in simp)
qed simp

lemma split_at_pieces: "l \<in> set (split_at sep s) \<Longrightarrow> sep \<notin> set l"
  by (induction s arbitrary: l) (auto split: list.splits if_splits)

lemma split_at_single: "sep \<notin> set s \<Longrightarrow> split_at sep s = [s]"
  by (induction s) auto

lemma stream_lines_append:
  "stream_lines fr parse (ls @ ms) a = then_step (stream_lines fr parse ls) (stream_lines fr parse ms) a"
  by (induction ls arbitrary: a) (auto simp: then_step_def split: prod.splits option.splits)

lemma stream_chunks_whole:
  assumes "\<forall>c \<in> set cs. boundary c" "10 \<notin> set pending"
  shows "snd (stream_chunks fr parse cs (pending, a)) =
    stream_lines fr parse (butlast (split_at 10 (pending @ utf8_ignore (concat cs)))) a"
  using assms
proof (induction cs arbitrary: pending a)
  case Nil
  then show ?case by (simp add: split_at_single)
next
  case (Cons c cs)
  let ?ls = "split_at 10 (pending @ utf8_ignore c)"
  have "split_at 10 (pending @ utf8_ignore (concat (c # cs)))
      = butlast ?ls @ split_at 10 (last ?ls @ utf8_ignore (concat cs))"
    using boundary_concat [of cs] Cons.prems
    by (simp add: utf8_ignore_append split_at_append [of 10 "pending @ utf8_ignore c", simplified])
  then have whole: "butlast (split_at 10 (pending @ utf8_ignore (concat (c # cs))))
      = butlast ?ls @ butlast (split_at 10 (last ?ls @ utf8_ignore (concat cs)))"
    by (simp add: butlast_append)
  obtain a' e where first: "stream_lines fr parse (butlast ?ls) a = (a', e)" by fastforce
  then have chunk: "stream_chunk fr parse c (pending, a) = ((last ?ls, a'), e)"
    by (simp add: stream_chunk_def Let_def)
  show ?case
  proof (cases e)
    case None
    obtain passed a2 e2 where rest: "stream_chunks fr parse cs (last ?ls, a') = (passed, a2, e2)"
      by (cases "stream_chunks fr parse cs (last ?ls, a')") auto
    have "10 \<notin> set (last ?ls)" by (rule split_at_pieces [OF last_in_set]) simp
    with Cons.IH [of "last ?ls" a'] Cons.prems(1) rest
    have "stream_lines fr parse (butlast (split_at 10 (last ?ls @ utf8_ignore (concat cs)))) a' = (a2, e2)"
      by simp
    with chunk first rest None show ?thesis
      unfolding whole by (simp add: stream_lines_append then_step_def)
  next
    case (Some x)
    with chunk first show ?thesis unfolding whole by (simp add: stream_lines_append then_step_def)
  qed
qed

lemma stream_chunks_passed:
  "stream_chunks fr parse cs st = (passed, a, e) \<Longrightarrow> (e = None \<longrightarrow> passed = cs) \<and> (\<exists>rest. cs = passed @ rest)"
  by (induction cs arbitrary: st passed a e) (fastforce split: prod.splits option.splits)+

text \<open>
  C10: how the worker's answer is cut into chunks does not matter, as long as no cut is inside a
  character: the accounting is that of the lines of the whole answer, decoded at once, in order up
  to the first event that raises. The client gets the chunks unchanged and in order, all of them
  when no event raises.
\<close>

theorem stream_chunking_is_irrelevant:
  assumes "\<forall>c \<in> set cs. boundary c"
    "stream_chunks fr parse cs ([], a) = (passed, a', e)"
  shows "(a', e) = stream_lines fr parse (butlast (split_at 10 (utf8_ignore (concat cs)))) a
    \<and> (\<exists>rest. cs = passed @ rest) \<and> (e = None \<longrightarrow> passed = cs)"
  using stream_chunks_whole [OF assms(1), of "[]" fr parse a] stream_chunks_passed [OF assms(2)] assms(2)
  by simp

text \<open>An answer in three chunks; the last one ends it with its usage.\<close>

definition demo_event :: "text_points \<Rightarrow> json option" where
  "demo_event t = (if t = points ''{}'' then Some (JDict [(''usage'', JDict [(''prompt_tokens'', JInt 7),
      (''completion_tokens'', JInt 30)])]) else None)"

definition demo_chunks :: "nat list list" where
  "demo_chunks = [points ''data: '', points ''{}'' @ [13, 10], points ''data: [DONE]'' @ [10, 10]]"

lemma stream_chunking_is_irrelevant_witness:
  "stream_chunks (\<lambda>_. []) demo_event demo_chunks ([], stream_init)
     = (demo_chunks, \<lparr>ac_prompt = 7, ac_completion = 30, ac_observed = 0, ac_error = None, ac_done = True\<rparr>, None)"
proof -
  have cut: "\<forall>c \<in> set demo_chunks. boundary c" by code_simp
  have lines: "stream_lines (\<lambda>_. []) demo_event (butlast (split_at 10 (utf8_ignore (concat demo_chunks)))) stream_init
      = (\<lparr>ac_prompt = 7, ac_completion = 30, ac_observed = 0, ac_error = None, ac_done = True\<rparr>, None)"
    by code_simp
  obtain passed a e where run: "stream_chunks (\<lambda>_. []) demo_event demo_chunks ([], stream_init) = (passed, a, e)"
    by (cases "stream_chunks (\<lambda>_. []) demo_event demo_chunks ([], stream_init)") auto
  from stream_chunking_is_irrelevant [OF cut run] lines run show ?thesis by simp
qed

text \<open>A cut inside a character loses it: each chunk is decoded by itself.\<close>

lemma a_split_character_is_lost:
  "fst (fst (stream_chunk fr parse [195, 169] ([], a))) = [233]"
  "fst (fst (stream_chunk fr parse [169] (fst (stream_chunk fr parse [195] ([], a))))) = []"
  by (simp_all add: stream_chunk_def Let_def utf8_ignore.simps(2) sequence_length_def cont_def)

text \<open>A usage that is not made of numbers: an exception, and still no error code to settle with.\<close>

lemma malformed_usage_is_completed:
  "let r = nonstream_result env name estimate held
      (Posted 200 (Some (JDict [(''usage'', JDict [(''prompt_tokens'', JNull)])])))
   in po_raised r = Some (TypeError ''int'') \<and> po_error r = None
      \<and> (\<not> ie_charge_maximum env \<longrightarrow> po_actual r = 0)"
  by (simp add: nonstream_result_def account_body_def usage_field_def get_or_def)

end
