(* ===== verification/ChatFlow.thy ===== *)
theory ChatFlow
  imports SchedulerSpec StreamAccounting
begin

text \<open>
  The chat handler of \<^verbatim>\<open>src/src/llm_rio/api/routes_inference.py\<close> over the scheduler: from a request
  to its place in the queue, and from a lease to its settlement, with every way a worker can answer.
  The handler is cut at the \<open>await\<close>s that wait for others: the enqueued request, and the worker.
  Digests, generated ids and pydantic's \<open>model_dump\<close> are arguments.
\<close>

section \<open>Up to the queue\<close>

record chat_env =
  ch_sched :: sched_env
  ch_inference :: inference_env
  ch_hash :: "string \<Rightarrow> string"
  ch_dump :: "chat_request \<Rightarrow> (string, json) dict"

record chat_headers =
  hd_request_id :: "string option"
  hd_test_run :: "string option"
  hd_client_worker :: "string option"
  hd_idempotency_key :: "string option"

record fresh_ids =
  fi_request :: string
  fi_reservation :: string
  fi_ledger :: string
  fi_future :: nat

record prepared =
  pc_model :: model_row
  pc_body :: chat_request
  pc_prompt :: int
  pc_reserved :: int
  pc_payload :: "(string, json) dict"

definition prepare_chat :: "chat_env \<Rightarrow> principal \<Rightarrow> chat_request \<Rightarrow> database \<Rightarrow> exn + prepared" where
  "prepare_chat env p b db =
     (if service_mode_of db \<noteq> ACTIVE then Inl (Rio MaintenanceError)
      else and_then (resolve_model (ch_inference env) p (cr_model b) db) (\<lambda>m.
        let b' = apply_model_defaults b m in
        and_then (validate_request (ch_inference env) b' m) (\<lambda>(prompt, reserved, enforced).
          Inr \<lparr>pc_model = m, pc_body = b', pc_prompt = prompt, pc_reserved = reserved,
               pc_payload = (case enforced of
                  None \<Rightarrow> ch_dump env b'
                | Some n \<Rightarrow> AList.update ''max_tokens'' (JInt n) (ch_dump env b'))\<rparr>)))"

text \<open>\<open>x or y\<close> for an optional header.\<close>

definition header_or :: "string option \<Rightarrow> string \<Rightarrow> string" where
  "header_or h d = (case h of None \<Rightarrow> d | Some v \<Rightarrow> if v = [] then d else v)"

definition header_error :: "chat_headers \<Rightarrow> exn option" where
  "header_error h =
     (let long = (\<lambda>v. case v of None \<Rightarrow> False | Some s \<Rightarrow> 128 < length s)
      in if long (hd_test_run h)
         then Some (rio ''invalid_test_run_id'' ''X-Test-Run-ID is too long'' 400 [])
         else if long (hd_client_worker h)
         then Some (rio ''invalid_client_worker'' ''X-Client-Worker is too long'' 400 [])
         else None)"

definition queued_request :: "datetime \<Rightarrow> principal \<Rightarrow> prepared \<Rightarrow> string \<Rightarrow> string \<Rightarrow> request" where
  "queued_request now p c request_id rid =
     \<lparr>rq_id = request_id, rq_model_id = mc_id (pc_model c), rq_tenant_id = pr_account p,
      rq_estimated_tokens = pc_reserved c, rq_payload = pc_payload c, rq_reservation_id = rid,
      rq_is_stream = cr_stream (pc_body c), rq_enqueued_at = now, rq_assignment = None\<rparr>"

text \<open>The handler of an exception of \<open>enqueue\<close>: the reservation is released, then it is raised again.\<close>

definition reject_chat ::
  "chat_env \<Rightarrow> datetime \<Rightarrow> string \<Rightarrow> exn \<Rightarrow> scheduler \<Rightarrow> scheduler \<times> exn" where
  "reject_chat env now rid e s =
     (case release_reservation (se_ledger_id (ch_sched env) rid) now rid ''queue_rejected'' (sc_db s) of
        Inl e' \<Rightarrow> (s, e')
      | Inr db \<Rightarrow> (s\<lparr>sc_db := db\<rparr>, e))"

definition chat_begin ::
  "chat_env \<Rightarrow> datetime \<Rightarrow> fresh_ids \<Rightarrow> chat_headers \<Rightarrow> principal \<Rightarrow> chat_request \<Rightarrow> scheduler
     \<Rightarrow> scheduler \<times> (exn + prepared \<times> request)" where
  "chat_begin env now ids h p b s =
     (case prepare_chat env p b (sc_db s) of
        Inl e \<Rightarrow> (s, Inl e)
      | Inr c \<Rightarrow>
          let request_id = header_or (hd_request_id h) (fi_request ids);
              mid = mc_id (pc_model c)
          in case header_error h of
               Some e \<Rightarrow> (s, Inl e)
             | None \<Rightarrow>
                 (case reserve_quota (fi_reservation ids) (fi_ledger ids) now request_id
                         (ch_hash env (header_or (hd_idempotency_key h) request_id)) p mid
                         (pc_reserved c) (sc_db s) of
                    Inl e \<Rightarrow> (s, Inl e)
                  | Inr (rid, db1) \<Rightarrow>
                      (case create_inference_request now request_id p mid rid (pc_reserved c)
                              (hd_test_run h) (hd_client_worker h) db1 of
                         Inl e \<Rightarrow> (s\<lparr>sc_db := db1\<rparr>, Inl e)
                       | Inr db2 \<Rightarrow>
                           let q = queued_request now p c request_id rid
                           in case enqueue now (fi_future ids) q (s\<lparr>sc_db := db2\<rparr>) of
                                (s1, Inl e) \<Rightarrow>
                                  (case reject_chat env now rid e s1 of (s2, e') \<Rightarrow> (s2, Inl e'))
                              | (s1, Inr _) \<Rightarrow>
                                  (s1, Inr (c, q\<lparr>rq_assignment := Some (fi_future ids)\<rparr>)))))"

text \<open>
  The handler's wait is over: with a lease, with the exception the scheduler put there, or because
  the client went away and the handler is cancelled.
\<close>

definition chat_resume ::
  "chat_env \<Rightarrow> datetime \<Rightarrow> request \<Rightarrow> scheduler \<Rightarrow> (scheduler \<times> (exn + lease)) option" where
  "chat_resume env now q s =
     (case Option.bind (rq_assignment q) (map_of (sc_futures s)) of
        Some (Result l) \<Rightarrow> Some (s, Inr l)
      | Some (Failure e) \<Rightarrow>
          Some (case reject_chat env now (rq_reservation_id q) e s of (s', e') \<Rightarrow> (s', Inl e'))
      | _ \<Rightarrow> None)"

definition chat_cancelled :: "chat_env \<Rightarrow> datetime \<Rightarrow> request \<Rightarrow> scheduler \<Rightarrow> scheduler" where
  "chat_cancelled env now q s =
     fst (reject_chat env now (rq_reservation_id q) (RuntimeError ''cancelled'')
            (cancel_enqueued (ch_sched env) now q s))"

text \<open>What is sent to the worker.\<close>

definition worker_payload :: "prepared \<Rightarrow> request \<Rightarrow> (string, json) dict" where
  "worker_payload c q =
     (let payload = AList.update ''model'' (JStr (mc_nickname (pc_model c))) (rq_payload q)
      in if cr_stream (pc_body c)
         then AList.update ''stream_options''
                (JDict (AList.update ''include_usage'' (JBool True)
                   (case cr_stream_options (pc_body c) of None \<Rightarrow> [] | Some d \<Rightarrow> d))) payload
         else payload)"

section \<open>From the lease to the settlement\<close>

record settlement =
  st_actual :: int
  st_prompt :: int
  st_completion :: int
  st_error :: "string option"

text \<open>
  \<open>_finish_lease\<close>: an exception of the settlement is logged, and the worker's admission is released
  in any case.
\<close>

definition finish_lease ::
  "sched_env \<Rightarrow> datetime \<Rightarrow> lease \<Rightarrow> string \<Rightarrow> settlement \<Rightarrow> scheduler \<Rightarrow> scheduler" where
  "finish_lease env now l rid x s =
     release_lease env now l
       (case settle_quota (se_ledger_id env rid) now rid (st_actual x) (Some (st_prompt x))
               (Some (st_completion x)) (st_error x) (sc_db s) of
          Inl _ \<Rightarrow> s
        | Inr db \<Rightarrow> s\<lparr>sc_db := db\<rparr>)"

text \<open>\<open>_StreamLeaseFinalizer\<close>: its flag is set by the first call; the others do nothing.\<close>

definition finalize ::
  "sched_env \<Rightarrow> datetime \<Rightarrow> lease \<Rightarrow> string \<Rightarrow> settlement \<Rightarrow> bool \<times> scheduler \<Rightarrow> bool \<times> scheduler" where
  "finalize env now l rid x st =
     (case st of (finished, s) \<Rightarrow> if finished then st else (True, finish_lease env now l rid x s))"

definition nothing_used :: "string \<Rightarrow> settlement" where
  "nothing_used code = \<lparr>st_actual = 0, st_prompt = 0, st_completion = 0, st_error = Some code\<rparr>"

definition abandon ::
  "sched_env \<Rightarrow> datetime \<Rightarrow> lease \<Rightarrow> string \<Rightarrow> bool \<times> scheduler \<Rightarrow> bool \<times> scheduler" where
  "abandon env now l rid = finalize env now l rid (nothing_used ''client_disconnected'')"

definition nonstream_backend ::
  "chat_env \<Rightarrow> datetime \<Rightarrow> string \<Rightarrow> int \<Rightarrow> lease \<Rightarrow> string \<Rightarrow> post_outcome \<Rightarrow> scheduler
     \<Rightarrow> scheduler \<times> (exn + json)" where
  "nonstream_backend env now name estimate l rid outcome s =
     (let r = nonstream_result (ch_inference env) name estimate (le_tokens l) outcome
      in (finish_lease (ch_sched env) now l rid
            \<lparr>st_actual = po_actual r, st_prompt = po_prompt r, st_completion = po_completion r,
             st_error = po_error r\<rparr> s,
          case po_raised r of Some e \<Rightarrow> Inl e | None \<Rightarrow> Inr (po_body r)))"

datatype open_outcome = Opened int | OpenCancelled | OpenTimeout | OpenBroken

text \<open>\<open>None\<close>: the stream is open.\<close>

definition open_worker_stream ::
  "sched_env \<Rightarrow> datetime \<Rightarrow> lease \<Rightarrow> string \<Rightarrow> open_outcome \<Rightarrow> scheduler \<Rightarrow> scheduler \<times> exn option" where
  "open_worker_stream env now l rid outcome s =
     (let failed = (\<lambda>code e. (finish_lease env now l rid (nothing_used code) s, Some e));
          unavailable = worker_error ''worker_unavailable''
                          ''The selected inference worker could not start the request''
      in case outcome of
           Opened status \<Rightarrow>
             if 200 \<le> status \<and> status < 300 then (s, None)
             else failed ''worker_rejected'' (unavailable 502)
         | OpenCancelled \<Rightarrow> failed ''client_disconnected'' (RuntimeError ''cancelled'')
         | OpenTimeout \<Rightarrow> failed ''worker_request_timeout''
             (worker_error ''worker_request_timeout''
                ''The selected inference worker did not respond before the request timeout'' 504)
         | OpenBroken \<Rightarrow> failed ''worker_transport_error'' (unavailable 503))"

text \<open>
  \<open>_stream_backend\<close> on the chunks the worker sends before its stream ends: every chunk read renews
  the lease's activity. The result is what the client gets: the chunks, and an event for an error.
\<close>

definition stream_backend ::
  "chat_env \<Rightarrow> (text_points \<Rightarrow> json option) \<Rightarrow> datetime \<Rightarrow> int \<Rightarrow> lease \<Rightarrow> string \<Rightarrow> nat list list
     \<Rightarrow> stream_end \<Rightarrow> bool \<times> scheduler \<Rightarrow> (bool \<times> scheduler) \<times> nat list list \<times> json option" where
  "stream_backend env parse now estimate l rid cs e st =
     (case stream_chunks (ie_fr (ch_inference env)) parse cs ([], stream_init) of (passed, a, raised) \<Rightarrow>
        let n = length passed + (if raised = None then 0 else 1);
            s1 = fold (\<lambda>_. touch now l) [0..<n] (snd st);
            (code, event) = (if raised = None then end_of_stream e a else (ac_error a, None));
            (actual, prompt, completion) =
              stream_settlement (ch_inference env) estimate (le_tokens l) code a
        in (finalize (ch_sched env) now l rid
              \<lparr>st_actual = actual, st_prompt = prompt, st_completion = completion, st_error = code\<rparr>
              (fst st, s1), passed, event))"

section \<open>Every answer is settled\<close>

lemma settle_held_ids:
  assumes "books_ok db"
  obtains db' where "settle_quota lid now rid actual p k e db = Inr db'" "books_ok db'"
    "held_ids db' = held_ids db - {rid}"
proof -
  have ok: "accounts_ok db" "reservations_ok db" using assms by (simp_all add: books_ok_def)
  have u: "unique_on qr_id (db_reservations db)" using ok by (simp add: reservations_ok_def)
  obtain db' where db': "settle_quota lid now rid actual p k e db = Inr db'" "books_ok db'"
    by (rule settle_total [OF assms])
  from ok have "held_ids db' = held_ids db - {rid}"
  proof (cases rule: settle_cases [of db rid])
    case skip
    then show ?thesis using db' by (auto simp: held_ids_def)
  next
    case (held r)
    have "db' = settled_db lid now r (charge_of actual r) p k e db"
      using db'(1) held(4) by simp
    then show ?thesis
      using held_ids_settled [OF u held(1,3)] held(2) by (simp add: held_ids_def)
  qed
  with db' that show thesis by blast
qed

definition released :: "lease \<Rightarrow> scheduler \<Rightarrow> bool" where
  "released l s \<longleftrightarrow> map_of (sc_leases s) (le_request l) = None
     \<and> \<not> on_worker (sc_sup s) (le_worker l) (le_request l) \<and> le_reservation l \<notin> held_ids (sc_db s)"

lemma finish_lease_releases:
  assumes "books_ok (sc_db s)" "map_of (sc_leases s) (le_request l) \<noteq> None"
  shows "released l (finish_lease env now l (le_reservation l) x s)"
proof -
  obtain db where db: "settle_quota (se_ledger_id env (le_reservation l)) now (le_reservation l) (st_actual x)
      (Some (st_prompt x)) (Some (st_completion x)) (st_error x) (sc_db s) = Inr db" "books_ok db"
    "held_ids db = held_ids (sc_db s) - {le_reservation l}"
    by (rule settle_held_ids [OF assms(1)])
  let ?s = "s\<lparr>sc_db := db, sc_leases := AList.delete (le_request l) (sc_leases s)\<rparr>"
  have fin: "finish_lease env now l (le_reservation l) x s
      = with_sup env now (release (le_worker l) (le_request l) (le_tokens l) now) ?s"
    using db(1) assms(2) by (cases "map_of (sc_leases s) (le_request l)") (simp_all add: finish_lease_def release_lease_def)
  note gb = gives_back_with_sup [where s = "?s" and env = env and now = now and f = "release (le_worker l) (le_request l) (le_tokens l) now"]
  have "map_of (sc_leases (finish_lease env now l (le_reservation l) x s)) (le_request l) = None"
    using gb(3) db(2) unfolding fin by (auto simp: map_of_eq_None_iff delete_filter)
  moreover have "le_reservation l \<notin> held_ids (sc_db (finish_lease env now l (le_reservation l) x s))"
    using gb(2) db(2,3) unfolding fin by auto
  moreover have "\<not> on_worker (sc_sup (finish_lease env now l (le_reservation l) x s)) (le_worker l) (le_request l)"
    unfolding fin using not_on_released by simp
  ultimately show ?thesis by (simp add: released_def)
qed

lemma touch_keeps:
  "sc_db (fold (\<lambda>_. touch now l) ns s) = sc_db s"
  "map_of (sc_leases s) (le_request l) \<noteq> None \<Longrightarrow>
     map_of (sc_leases (fold (\<lambda>_. touch now l) ns s)) (le_request l) \<noteq> None"
proof -
  have "sc_db (touch now l t) = sc_db t" for t by (simp add: touch_def split: option.splits)
  then show "sc_db (fold (\<lambda>_. touch now l) ns s) = sc_db s" by (induction ns arbitrary: s) simp_all
next
  have "map_of (sc_leases (touch now l t)) (le_request l) \<noteq> None" if "map_of (sc_leases t) (le_request l) \<noteq> None" for t
    using that by (auto simp: touch_def update_conv')
  then show "map_of (sc_leases s) (le_request l) \<noteq> None \<Longrightarrow>
     map_of (sc_leases (fold (\<lambda>_. touch now l) ns s)) (le_request l) \<noteq> None"
    by (induction ns arbitrary: s) auto
qed

lemma stream_backend_state:
  obtains x and ns :: "nat list" where "fst (stream_backend env parse now estimate l rid cs e (False, s))
    = (True, finish_lease (ch_sched env) now l rid x (fold (\<lambda>_. touch now l) ns s))"
proof -
  obtain passed a raised where c: "stream_chunks (ie_fr (ch_inference env)) parse cs ([], stream_init) = (passed, a, raised)"
    by (cases "stream_chunks (ie_fr (ch_inference env)) parse cs ([], stream_init)") auto
  obtain code event where e: "(if raised = None then end_of_stream e a else (ac_error a, None)) = (code, event)"
    by fastforce
  obtain actual prompt completion where
    "stream_settlement (ch_inference env) estimate (le_tokens l) code a = (actual, prompt, completion)"
    by (cases "stream_settlement (ch_inference env) estimate (le_tokens l) code a") auto
  then have "fst (stream_backend env parse now estimate l rid cs e (False, s))
    = (True, finish_lease (ch_sched env) now l rid
         \<lparr>st_actual = actual, st_prompt = prompt, st_completion = completion, st_error = code\<rparr>
         (fold (\<lambda>_. touch now l) [0..<length passed + (if raised = None then 0 else 1)] s))"
    by (simp add: stream_backend_def Let_def finalize_def c e)
  then show thesis by (rule that)
qed

text \<open>
  C6: however the worker answers, the request is over when its handler is. A refused, failed or
  malformed answer, a stream that ends early, times out or raises, and a client that goes away all
  leave the request without a lease, off its worker, and with its reservation settled; a later
  finalizer of the stream changes nothing.
\<close>

theorem every_answer_is_settled:
  assumes "books_ok (sc_db s)" "map_of (sc_leases s) (le_request l) \<noteq> None"
  shows "released l (fst (nonstream_backend env now name estimate l (le_reservation l) outcome s))
    \<and> (snd (open_worker_stream (ch_sched env) now l (le_reservation l) opened s) = None
       \<or> released l (fst (open_worker_stream (ch_sched env) now l (le_reservation l) opened s)))
    \<and> (let st = fst (stream_backend env parse now estimate l (le_reservation l) cs e (False, s))
       in released l (snd st) \<and> abandon (ch_sched env) later l (le_reservation l) st = st)
    \<and> released l (snd (abandon (ch_sched env) now l (le_reservation l) (False, s)))"
proof -
  note fin = finish_lease_releases [OF assms, of "ch_sched env" now]
  have post: "released l (fst (nonstream_backend env now name estimate l (le_reservation l) outcome s))"
    using fin by (simp add: nonstream_backend_def Let_def)
  have opens: "snd (open_worker_stream (ch_sched env) now l (le_reservation l) opened s) = None
      \<or> released l (fst (open_worker_stream (ch_sched env) now l (le_reservation l) opened s))"
    using fin by (cases opened) (auto simp: open_worker_stream_def Let_def)
  have stream: "let st = fst (stream_backend env parse now estimate l (le_reservation l) cs e (False, s))
      in released l (snd st) \<and> abandon (ch_sched env) later l (le_reservation l) st = st"
  proof -
    obtain x and ns :: "nat list" where st: "fst (stream_backend env parse now estimate l (le_reservation l) cs e (False, s))
        = (True, finish_lease (ch_sched env) now l (le_reservation l) x (fold (\<lambda>_. touch now l) ns s))"
      by (rule stream_backend_state)
    have "released l (finish_lease (ch_sched env) now l (le_reservation l) x (fold (\<lambda>_. touch now l) ns s))"
      by (rule finish_lease_releases [OF _ touch_keeps(2) [OF assms(2)]]) (simp only: touch_keeps(1) assms(1))
    then show ?thesis unfolding st Let_def by (simp add: abandon_def finalize_def)
  qed
  show ?thesis using post opens stream fin by (simp add: abandon_def finalize_def)
qed

section \<open>A refused request leaves nothing behind\<close>

lemma reserve_created:
  assumes "reserve_quota rid lid now rq h p m n db = Inr (x, db1)"
  shows "db1 = db \<or> (\<exists>db2. create_inference_request now' rq p m x n t c db1 = Inr db2)"
proof (cases rule: reserve_cases [OF assms])
  case (2 a)
  have none: "find_row (\<lambda>x. (qr_key x, qr_hash x)) (pr_key_id p, h) (db_reservations db) = None"
    using 2(8) by (simp only: find_row_None not_False_eq_True)
  have "has_row qa_id (pr_account p) (db_accounts db)"
    using find_row_key [OF 2(2)] by (metis imageI)
  moreover have "has_row ak_id (pr_key_id p) (db_keys db)"
    using assms unfolding reserve_quota_def none
    by (auto simp: insert_reservation_def and_then_Inr split: option.splits if_splits)
  ultimately show ?thesis using 2 by (simp add: create_inference_request_def)
qed simp

lemma reserve_holds:
  assumes "reserve_quota rid lid now rq h p m n db = Inr (x, db1)" "books_ok db"
  shows "held_ids db1 - {x} \<subseteq> held_ids db \<and> (x, rq) \<in> (\<lambda>r. (qr_id r, qr_request r)) ` set (db_reservations db1)"
proof (cases rule: reserve_cases [OF assms(1)])
  case (2 a)
  then have "held_ids db1 \<subseteq> insert rid (held_ids db)" by (auto simp: held_ids_def)
  then show ?thesis using 2 by (auto intro: image_eqI [of _ _ "held_row rid now rq h p m n"])
qed (force simp: image_iff)

lemma create_held: "create_inference_request now rq p m rid n t c db = Inr db' \<Longrightarrow> held_ids db' = held_ids db"
  by (auto simp: create_inference_request_def held_ids_def split: if_splits)

lemma enqueue_refused:
  assumes "enqueue now f r s = (s', Inl e)" "queues_ok (sc_queues s)"
  shows "sc_db s' = sc_db s \<and> sc_leases s' = sc_leases s \<and> sc_sup s' = sc_sup s
    \<and> queue_of (sc_queues s') mid = queue_of (sc_queues s) mid"
proof -
  let ?r = "r\<lparr>rq_assignment := Some f\<rparr>" and ?q = "queue_of (sc_queues s) (rq_model_id r)"
  obtain mq q where fm: "for_model (sc_queues s) (rq_model_id r) = (mq, q)" by fastforce
  then have mq: "mq = fst (for_model (sc_queues s) (rq_model_id r))" and q: "q = ?q"
    using for_model_queue [of "sc_queues s" "rq_model_id r"] by auto
  have wf: "drr_wf ?q" using queues_okD [OF assms(2)] by (simp add: drr_ok_def)
  have same: "q' = ?q" if "drr_put ?q ?r = (q', Inl e)" for q' e
    using drr_put_full [OF wf] drr_put_ok [of ?q ?r] that by fastforce
  show ?thesis
  proof (cases "service_mode_of (sc_db s) = ACTIVE")
    case False
    with assms(1) show ?thesis by (simp add: enqueue_def Let_def) (elim conjE; hypsubst; simp)
  next
    case True
    obtain q' res where p: "drr_put ?q ?r = (q', res)" by fastforce
    then have "s' = s\<lparr>sc_futures := AList.update f Waiting (sc_futures s),
        sc_queues := set_model mq (rq_model_id r) q'\<rparr>" "res = Inl e"
      using assms(1) True by (simp_all add: enqueue_def Let_def fm q split: sum.splits)
    with same p show ?thesis by (simp add: mq)
  qed
qed

text \<open>
  C15: a request that is refused, at whatever point, costs nothing. No reservation is held that was
  not held before, the books stay in order, no lease, worker or queue has changed.
\<close>

theorem refused_request_leaves_no_hold:
  assumes "sched_inv s" "books_ok (sc_db s)" "chat_begin env now ids h p b s = (s', Inl e)"
  shows "books_ok (sc_db s') \<and> held_ids (sc_db s') \<subseteq> held_ids (sc_db s)
    \<and> sc_leases s' = sc_leases s \<and> sc_sup s' = sc_sup s
    \<and> (\<forall>mid. queue_of (sc_queues s') mid = queue_of (sc_queues s) mid)"
proof (cases "s' = s")
  case False
  let ?rq = "header_or (hd_request_id h) (fi_request ids)"
  from assms(3) False obtain c rid db1 where
    reserve: "reserve_quota (fi_reservation ids) (fi_ledger ids) now ?rq
       (ch_hash env (header_or (hd_idempotency_key h) ?rq)) p (mc_id (pc_model c)) (pc_reserved c) (sc_db s) = Inr (rid, db1)"
    and rest: "(case create_inference_request now ?rq p (mc_id (pc_model c)) rid (pc_reserved c)
         (hd_test_run h) (hd_client_worker h) db1 of
       Inl e \<Rightarrow> (s\<lparr>sc_db := db1\<rparr>, Inl e)
     | Inr db2 \<Rightarrow> let q = queued_request now p c ?rq rid
         in case enqueue now (fi_future ids) q (s\<lparr>sc_db := db2\<rparr>) of
              (s1, Inl e) \<Rightarrow> (case reject_chat env now rid e s1 of (s2, e') \<Rightarrow> (s2, Inl e'))
            | (s1, Inr _) \<Rightarrow> (s1, Inr (c, q\<lparr>rq_assignment := Some (fi_future ids)\<rparr>))) = (s', Inl e)"
    unfolding chat_begin_def Let_def by (auto split: sum.splits option.splits prod.splits)
  have books: "books_ok db1" by (rule books_reserve [OF assms(2) reserve])
  note held = reserve_holds [OF reserve assms(2)]
  show ?thesis
  proof (cases "create_inference_request now ?rq p (mc_id (pc_model c)) rid (pc_reserved c)
         (hd_test_run h) (hd_client_worker h) db1")
    case (Inl e1)
    with reserve_created [OF reserve, of now "hd_test_run h" "hd_client_worker h"] have "db1 = sc_db s" by simp
    with rest Inl show ?thesis using assms(2) by simp
  next
    case (Inr db2)
    have books2: "books_ok db2" by (rule books_create [OF books _ Inr]) (use held in blast)
    let ?q = "queued_request now p c ?rq rid"
    obtain s1 res where enq: "enqueue now (fi_future ids) ?q (s\<lparr>sc_db := db2\<rparr>) = (s1, res)" by fastforce
    then obtain e1 where e1: "res = Inl e1" "reject_chat env now rid e1 s1 = (s', e)"
      using rest by (cases res) (simp_all add: Inr Let_def split: prod.splits)
    have "sc_db s1 = db2 \<and> sc_leases s1 = sc_leases s \<and> sc_sup s1 = sc_sup s
        \<and> queue_of (sc_queues s1) mid = queue_of (sc_queues s) mid" for mid
      using enqueue_refused [OF enq [unfolded e1(1)]] sched_invD(3) [OF assms(1)] by simp
    moreover obtain db3 where "release_reservation (se_ledger_id (ch_sched env) rid) now rid ''queue_rejected'' db2 = Inr db3"
      "books_ok db3" "held_ids db3 = held_ids db2 - {rid}" by (rule release_held [OF books2])
    ultimately have "s' = s1\<lparr>sc_db := db3\<rparr>" "books_ok db3" "held_ids db3 \<subseteq> held_ids (sc_db s)"
      using e1(2) held create_held [OF Inr] by (auto simp: reject_chat_def)
    with \<open>\<And>mid. sc_db s1 = db2 \<and> _ mid\<close> show ?thesis by simp
  qed
qed (use assms in simp)

definition demo_chat_env :: chat_env where
  "demo_chat_env =
     \<lparr>ch_sched = demo_env, ch_inference = demo_inference_env, ch_hash = (\<lambda>s. s),
      ch_dump = (\<lambda>b. [(''model'', JStr (cr_model b))])\<rparr>"

text \<open>A scheduler whose queues have no room.\<close>

definition demo_full :: scheduler where
  "demo_full = sched_init (Some 0) None 0 (demo_store\<lparr>
     db_accounts := [demo_account\<lparr>qa_balance := 5000, qa_limit := 5000\<rparr>], db_models := [demo_chat_model],
     db_grants := [\<lparr>mg_key = ''k'', mg_model = ''m'', mg_created_at = 0\<rparr>]\<rparr>)"

definition demo_headers :: chat_headers where
  "demo_headers =
     \<lparr>hd_request_id = Some ''q9'', hd_test_run = None, hd_client_worker = None, hd_idempotency_key = None\<rparr>"

definition demo_ids :: fresh_ids where
  "demo_ids = \<lparr>fi_request = ''u'', fi_reservation = ''r9'', fi_ledger = ''l9'', fi_future = 9\<rparr>"

lemma demo_full_run:
  "let (s, res) = chat_begin demo_chat_env 5 demo_ids demo_headers demo_principal demo_chat demo_full
   in (case res of Inl e \<Rightarrow> exn_code e = ''queue_full'' | Inr _ \<Rightarrow> False)
      \<and> map qr_id (db_reservations (sc_db s)) = [''r9''] \<and> books_ok (sc_db demo_full)
      \<and> held_ids (sc_db demo_full) = {}"
  by code_simp

lemma refused_request_leaves_no_hold_witness:
  "map qr_id (db_reservations (sc_db (fst (chat_begin demo_chat_env 5 demo_ids demo_headers demo_principal
      demo_chat demo_full)))) = [''r9'']
   \<and> held_ids (sc_db (fst (chat_begin demo_chat_env 5 demo_ids demo_headers demo_principal demo_chat demo_full))) = {}"
proof -
  obtain s res where run: "chat_begin demo_chat_env 5 demo_ids demo_headers demo_principal demo_chat demo_full
      = (s, res)" by fastforce
  have facts: "case res of Inl e \<Rightarrow> exn_code e = ''queue_full'' | Inr _ \<Rightarrow> False"
    "map qr_id (db_reservations (sc_db s)) = [''r9'']" "books_ok (sc_db demo_full)" "held_ids (sc_db demo_full) = {}"
    using demo_full_run unfolding run Let_def prod.case by blast+
  then obtain e where e: "res = Inl e" by (cases res) auto
  have inv: "sched_inv demo_full"
    unfolding demo_full_def by (rule reachable_sched_inv [OF sched_reachable.init])
  from refused_request_leaves_no_hold [OF inv facts(3) run [unfolded e]] facts show ?thesis
    unfolding run by simp
qed

text \<open>A request that is being served, and its lease.\<close>

lemma every_answer_is_settled_witness:
  "\<exists>l. vals (sc_leases demo_serving) = [l] \<and> ''r1'' \<in> held_ids (sc_db demo_serving)
     \<and> released l (fst (nonstream_backend demo_chat_env 10 ''tiny'' 9 l ''r1'' PostTimeout demo_serving))
     \<and> le_reservation l = ''r1''"
proof -
  have l: "map (\<lambda>l. (le_worker l, le_request l, le_reservation l)) (vals (sc_leases demo_serving))
      = [(''w'', ''q1'', ''r1'')]"
    and b: "books_ok (sc_db demo_serving)" "''r1'' \<in> held_ids (sc_db demo_serving)"
    using demo_serving_facts unfolding Let_def by blast+
  from l obtain l where ls: "vals (sc_leases demo_serving) = [l]" "le_reservation l = ''r1''"
    by (auto simp: map_eq_Cons_conv)
  then obtain k where k: "sc_leases demo_serving = [(k, l)]" by (cases "sc_leases demo_serving") auto
  have "leases_ok demo_serving" using reachable_tidy [OF demo_serving_reachable] by (simp add: tidy_def)
  with k have "map_of (sc_leases demo_serving) (le_request l) \<noteq> None" by (simp add: leases_ok_def)
  from conjunct1 [OF every_answer_is_settled [OF b(1) this]] ls b(2) show ?thesis by metis
qed

section \<open>A duplicate of a running request\<close>

text \<open>
  A client that repeats a request with its id while it is served gets the same reservation, and the
  duplicate is queued. When it is taken from the queue its admission fails, and the handler of that
  releases the reservation: the request that is still running holds nothing any more and will be
  charged nothing.
\<close>

definition demo_duplicate :: "string \<times> bool" where
  "demo_duplicate =
     (case reserve_quota ''r2'' ''l2'' 10 ''q1'' ''h1'' demo_principal ''m'' 40 (sc_db demo_serving) of
        Inl _ \<Rightarrow> ([], False)
      | Inr (rid, db) \<Rightarrow>
          (case route_ready_work demo_env 11 (fst (enqueue 10 1 (demo_queued_request\<lparr>rq_reservation_id := rid\<rparr>)
                  (demo_serving\<lparr>sc_db := db\<rparr>))) of
             None \<Rightarrow> ([], False)
           | Some (_, s) \<Rightarrow>
               (rid, map le_request (vals (sc_leases s)) = [''q1''] \<and> ''r1'' \<notin> held_ids (sc_db s)
                  \<and> ''r1'' \<in> held_ids (sc_db demo_serving))))"

lemma duplicate_request_frees_the_first: "demo_duplicate = (''r1'', True)"
  by code_simp

end
