(* ===== verification/Inventory.thy ===== *)
theory Inventory
  imports ProfileStore "HOL-Library.Sublist"
begin

text \<open>
  \<^verbatim>\<open>src/src/llm_rio/inventory.py\<close>: which GPUs of the machine the service manages, the link matrix it
  reads from \<open>nvidia-smi topo -m\<close>, the sets of GPUs a placement may be validated on, and the live
  health samples. What NVML, \<open>nvidia-smi\<close> and the environment answer, and the digests, are arguments.
\<close>

section \<open>Discovering the GPUs\<close>

datatype inventory_error =
    InitFailed string
  | NvmlFailed string
  | UnknownIndex string
  | MigUnsupported
  | NotOneUuid string
  | ManagedMissing "string list"
  | ManagedOutside "string list"
  | NoManagedGpus

text \<open>
  What NVML answers for the machine and for each device; \<open>Inl\<close> is the message of an exception.
  Capability and bus id may be missing, the other answers not.
\<close>

record nvml_device =
  nd_uuid :: string
  nd_name :: string
  nd_total_bytes :: int
  nd_capability :: "(int \<times> int) option"
  nd_pci_bus_id :: "string option"

record nvml_machine =
  nm_driver :: string
  nm_cuda :: "int option"
  nm_devices :: "(string + nvml_device) list"

definition cuda_version_from_driver :: "int \<Rightarrow> string" where
  "cuda_version_from_driver raw =
     decimal (raw div 1000) @ ''.'' @ decimal (raw mod 1000 div 10)"

definition gpu_of :: "int \<Rightarrow> nvml_device \<Rightarrow> gpu_device" where
  "gpu_of i d =
     \<lparr>gd_uuid = nd_uuid d, gd_index = i, gd_name = nd_name d,
      gd_total_vram_mib = nd_total_bytes d div (1024 * 1024),
      gd_compute_capability =
        map_option (\<lambda>(a, b). decimal a @ ''.'' @ decimal b) (nd_capability d),
      gd_pci_bus_id = nd_pci_bus_id d, gd_numa_node = None\<rparr>"

definition discovered_devices :: "(string + nvml_device) list \<Rightarrow> inventory_error + gpu_device list" where
  "discovered_devices ds =
     traverse (\<lambda>(i, r). case r of Inl e \<Rightarrow> Inl (NvmlFailed e) | Inr d \<Rightarrow> Inr (gpu_of (int i) d))
       (enumerate 0 ds)"

text \<open>An entry of \<open>CUDA_VISIBLE_DEVICES\<close>: an index, or the start of one device's UUID.\<close>

definition resolve_token :: "gpu_device list \<Rightarrow> string \<Rightarrow> inventory_error + string" where
  "resolve_token devices tok =
     (if tok \<noteq> [] \<and> list_all is_digit tok
      then (case find (\<lambda>d. digits 0 False tok = Some (gd_index d)) devices of
              None \<Rightarrow> Inl (UnknownIndex tok)
            | Some d \<Rightarrow> Inr (gd_uuid d))
      else if startswith ''MIG-'' tok then Inl MigUnsupported
      else (case [u \<leftarrow> remdups (map gd_uuid devices). u = tok \<or> startswith tok u] of
              [u] \<Rightarrow> Inr u
            | _ \<Rightarrow> Inl (NotOneUuid tok)))"

definition visible_tokens :: "string \<Rightarrow> string list" where
  "visible_tokens value =
     (if strip value \<in> {'''', ''-1'', ''NoDevFiles'', ''none'', ''void''} then []
      else [t \<leftarrow> map strip (split_on (CHR '','') value). t \<noteq> []])"

definition scheduler_visible ::
  "gpu_device list \<Rightarrow> string option \<Rightarrow> inventory_error + string list" where
  "scheduler_visible devices visible =
     (case visible of
        None \<Rightarrow> Inr (map gd_uuid devices)
      | Some value \<Rightarrow> traverse (resolve_token devices) (visible_tokens value))"

text \<open>\<open>sorted\<close> of a set difference.\<close>

definition sorted_minus :: "string list \<Rightarrow> string list \<Rightarrow> string list" where
  "sorted_minus xs ys = sort (remdups [x \<leftarrow> xs. x \<notin> set ys])"

definition managed_devices ::
  "gpu_device list \<Rightarrow> string option \<Rightarrow> string list \<Rightarrow> inventory_error + gpu_device list" where
  "managed_devices devices visible configured =
     and_then (scheduler_visible devices visible) (\<lambda>allowed.
       let missing = sorted_minus configured (map gd_uuid devices);
           outside = sorted_minus configured allowed
       in if missing \<noteq> [] then Inl (ManagedMissing missing)
          else if visible \<noteq> None \<and> outside \<noteq> [] then Inl (ManagedOutside outside)
          else Inr [d \<leftarrow> devices. gd_uuid d \<in> set (if configured \<noteq> [] then configured else allowed)])"

section \<open>The link matrix\<close>

definition is_line_break :: "char \<Rightarrow> bool" where
  "is_line_break c \<longleftrightarrow> (let n = of_char c :: nat in 10 \<le> n \<and> n \<le> 13 \<or> 28 \<le> n \<and> n \<le> 30 \<or> n = 133)"

fun drop_newline :: "string \<Rightarrow> string" where
  "drop_newline (c # cs) = (if of_char c = (10 :: nat) then cs else c # cs)"
| "drop_newline [] = []"

lemma length_drop_newline [termination_simp]: "length (drop_newline cs) < Suc (length cs)"
  by (cases cs) auto

text \<open>\<open>str.splitlines\<close>: a carriage return takes a newline after it along.\<close>

fun splitlines :: "string \<Rightarrow> string \<Rightarrow> string list" where
  "splitlines line [] = (if line = [] then [] else [line])"
| "splitlines line (c # cs) =
     (if is_line_break c
      then line # splitlines [] (if of_char c = (13 :: nat) then drop_newline cs else cs)
      else splitlines (line @ [c]) cs)"

text \<open>\<open>str.split()\<close>\<close>

fun split_words :: "string \<Rightarrow> string \<Rightarrow> string list" where
  "split_words word [] = (if word = [] then [] else [word])"
| "split_words word (c # cs) =
     (if is_space c then (if word = [] then [] else [word]) @ split_words [] cs
      else split_words (word @ [c]) cs)"

definition topology_row ::
  "string list \<Rightarrow> string \<Rightarrow> (string, (string, string) dict) dict \<Rightarrow> (string, (string, string) dict) dict" where
  "topology_row gpu_headers line topology =
     (case split_words [] line of
        [] \<Rightarrow> topology
      | cell # cells \<Rightarrow>
          if startswith ''GPU'' cell
          then AList.update cell (dict_update [] (zip gpu_headers cells)) topology
          else topology)"

text \<open>\<open>stdout\<close> is \<open>None\<close> when the command fails; \<open>digest\<close> is the SHA-256 of the text.\<close>

definition read_topology ::
  "(string \<Rightarrow> string) \<Rightarrow> string option \<Rightarrow> (string, (string, string) dict) dict \<times> string" where
  "read_topology digest stdout =
     (case stdout of
        None \<Rightarrow> ([], ''unavailable'')
      | Some text \<Rightarrow>
          (case [line \<leftarrow> splitlines [] text. strip line \<noteq> []] of
             [] \<Rightarrow> ([], ''unavailable'')
           | header # lines \<Rightarrow>
               let gpu_headers = filter (startswith ''GPU'') (split_words [] header)
               in (fold (topology_row gpu_headers) lines [], digest text)))"

section \<open>The inventory\<close>

definition gpu_json :: "gpu_device \<Rightarrow> json" where
  "gpu_json d = JDict
     [(''uuid'', JStr (gd_uuid d)), (''index'', JInt (gd_index d)), (''name'', JStr (gd_name d)),
      (''total_vram_mib'', JInt (gd_total_vram_mib d)),
      (''compute_capability'', json_opt JStr (gd_compute_capability d)),
      (''pci_bus_id'', json_opt JStr (gd_pci_bus_id d)),
      (''numa_node'', json_opt JInt (gd_numa_node d))]"

definition fingerprint_payload ::
  "string \<Rightarrow> string option \<Rightarrow> string \<Rightarrow> string \<Rightarrow> gpu_device list \<Rightarrow> string \<Rightarrow> json" where
  "fingerprint_payload driver cuda platform cpu devices topology_hash = JDict
     [(''driver'', JStr driver), (''cuda'', json_opt JStr cuda), (''platform'', JStr platform),
      (''cpu'', JStr cpu), (''gpus'', JList (map gpu_json devices)),
      (''topology_hash'', JStr topology_hash)]"

text \<open>\<open>hash\<close> is the SHA-256 of the payload's sorted JSON.\<close>

definition discover_inventory ::
  "(json \<Rightarrow> string) \<Rightarrow> (string \<Rightarrow> string) \<Rightarrow> string \<Rightarrow> string \<Rightarrow> string option \<Rightarrow> string option
     \<Rightarrow> string + nvml_machine \<Rightarrow> string \<Rightarrow> string list \<Rightarrow> inventory_error + machine_inventory" where
  "discover_inventory hash digest platform cpu topo_stdout visible nvml machine_id managed =
     (case nvml of
        Inl e \<Rightarrow> Inl (InitFailed e)
      | Inr nm \<Rightarrow>
          and_then (discovered_devices (nm_devices nm)) (\<lambda>found.
          and_then (managed_devices found visible managed) (\<lambda>devices.
          if devices = [] then Inl NoManagedGpus
          else
            let cuda = map_option cuda_version_from_driver (nm_cuda nm);
                (topology, topology_hash) = read_topology digest topo_stdout
            in Inr \<lparr>mi_machine_id = machine_id, mi_driver_version = nm_driver nm,
                    mi_cuda_driver_version = cuda, mi_gpus = devices,
                    mi_topology_hash = topology_hash,
                    mi_fingerprint = hash (fingerprint_payload (nm_driver nm) cuda platform cpu
                      devices topology_hash),
                    mi_topology = topology\<rparr>)))"

section \<open>Candidate GPU sets\<close>

text \<open>\<open>groups.setdefault(key, []).append(x)\<close>\<close>

definition append_group :: "'k \<Rightarrow> 'v \<Rightarrow> ('k, 'v list) dict \<Rightarrow> ('k, 'v list) dict" where
  "append_group k x d =
     (case map_of d k of None \<Rightarrow> d @ [(k, [x])] | Some xs \<Rightarrow> AList.update k (xs @ [x]) d)"

definition group_by :: "('v \<Rightarrow> 'k) \<Rightarrow> 'v list \<Rightarrow> ('k, 'v list) dict" where
  "group_by key xs = fold (\<lambda>x. append_group (key x) x) xs []"

definition gpu_class :: "gpu_device \<Rightarrow> string \<times> int" where
  "gpu_class d = (gd_name d, gd_total_vram_mib d)"

definition link_cost :: "(string, int) dict" where
  "link_cost =
     [(''X'', 0), (''NV18'', 1), (''NV12'', 2), (''NV8'', 3), (''NV4'', 4), (''NV2'', 5),
      (''NV1'', 6), (''PIX'', 10), (''PXB'', 20), (''PHB'', 30), (''NODE'', 40), (''SYS'', 50)]"

text \<open>The name of a device in the link matrix; every UUID of a candidate is a device's.\<close>

definition gpu_label :: "machine_inventory \<Rightarrow> string \<Rightarrow> string" where
  "gpu_label mach u =
     ''GPU'' @ (case find (\<lambda>d. gd_uuid d = u) (rev (mi_gpus mach)) of
                  None \<Rightarrow> '''' | Some d \<Rightarrow> decimal (gd_index d))"

definition pair_cost :: "machine_inventory \<Rightarrow> string list \<Rightarrow> int" where
  "pair_cost mach pair =
     (let row = (case map_of (mi_topology mach) (gpu_label mach (hd pair)) of None \<Rightarrow> [] | Some r \<Rightarrow> r);
          link = (case map_of row (gpu_label mach (last pair)) of None \<Rightarrow> ''SYS'' | Some l \<Rightarrow> l);
          link' = (if startswith ''NV'' link \<and> map_of link_cost link = None then ''NV1'' else link)
      in case map_of link_cost link' of None \<Rightarrow> 50 | Some c \<Rightarrow> c)"

definition topology_cost :: "machine_inventory \<Rightarrow> string list \<Rightarrow> int \<times> string list" where
  "topology_cost mach grp = (sum_list (map (pair_cost mach) (combinations grp 2)), grp)"

definition candidate_gpu_sets :: "machine_inventory \<Rightarrow> nat \<Rightarrow> string list list" where
  "candidate_gpu_sets mach gpu_count =
     sort_key (topology_cost mach)
       (concat (map (\<lambda>devices. map (map gd_uuid) (combinations devices gpu_count))
         (vals (group_by gpu_class (mi_gpus mach)))))"

section \<open>Health samples\<close>

text \<open>What NVML answers about a device that can be queried; the optional readings may be missing.\<close>

record nvml_live =
  nl_gpu_percent :: int
  nl_memory_percent :: int
  nl_used :: int
  nl_free :: int
  nl_total :: int
  nl_temperature :: "int option"
  nl_power_draw :: "int option"
  nl_power_limit :: "int option"
  nl_fan :: "int option"
  nl_graphics_clock :: "int option"
  nl_memory_clock :: "int option"
  nl_processes :: "nat option"

definition unavailable_gpu :: "gpu_device \<Rightarrow> string \<Rightarrow> (string, json) dict" where
  "unavailable_gpu d err =
     [(''index'', JInt (gd_index d)), (''uuid'', JStr (gd_uuid d)), (''name'', JStr (gd_name d)),
      (''total_vram_mib'', JInt (gd_total_vram_mib d)), (''available'', JBool False),
      (''error'', JStr err)]"

text \<open>\<open>round(milliwatts / 1000.0, 1)\<close>\<close>

definition watts :: "int \<Rightarrow> json" where
  "watts mw = JFloat (of_int (py_round (of_int mw / 100)) / 10)"

definition live_gpu :: "gpu_device \<Rightarrow> nvml_live \<Rightarrow> (string, json) dict" where
  "live_gpu d l =
     [(''index'', JInt (gd_index d)), (''uuid'', JStr (gd_uuid d)), (''name'', JStr (gd_name d)),
      (''available'', JBool True), (''gpu_utilization_percent'', JInt (nl_gpu_percent l)),
      (''memory_utilization_percent'', JInt (nl_memory_percent l)),
      (''used_vram_mib'', JInt (nl_used l div (1024 * 1024))),
      (''free_vram_mib'', JInt (nl_free l div (1024 * 1024))),
      (''total_vram_mib'', JInt (nl_total l div (1024 * 1024))),
      (''temperature_c'', json_opt JInt (nl_temperature l)),
      (''power_draw_w'', json_opt watts (nl_power_draw l)),
      (''power_limit_w'', json_opt watts (nl_power_limit l)),
      (''fan_speed_percent'', json_opt JInt (nl_fan l)),
      (''graphics_clock_mhz'', json_opt JInt (nl_graphics_clock l)),
      (''memory_clock_mhz'', json_opt JInt (nl_memory_clock l)),
      (''compute_process_count'', json_opt (\<lambda>n. JInt (int n)) (nl_processes l))]"

definition read_live_gpu_status ::
  "string + (string \<Rightarrow> string + nvml_live) \<Rightarrow> machine_inventory \<Rightarrow> (string, json) dict list" where
  "read_live_gpu_status nvml mach =
     (case nvml of
        Inl e \<Rightarrow> map (\<lambda>d. unavailable_gpu d e) (mi_gpus mach)
      | Inr query \<Rightarrow>
          map (\<lambda>d. case query (gd_uuid d) of
                 Inl e \<Rightarrow> unavailable_gpu d e | Inr l \<Rightarrow> live_gpu d l) (mi_gpus mach))"

section \<open>The candidates are the homogeneous choices\<close>

lemma map_of_append_group:
  "map_of (append_group k x d) k' =
     (if k' = k then Some (case map_of d k of None \<Rightarrow> [x] | Some xs \<Rightarrow> xs @ [x]) else map_of d k')"
  by (auto simp: append_group_def map_of_update map_add_def split: option.splits)

lemma keys_append_group:
  "distinct (keys d) \<Longrightarrow> distinct (keys (append_group k x d))"
  "fst ` set (append_group k x d) = insert k (fst ` set d)"
  using map_of_eq_None_iff [of d k]
  by (auto simp: append_group_def distinct_update keys_update_set [simplified] split: option.splits
      dest: map_of_SomeD intro: rev_image_eqI)

lemma group_by_fold:
  assumes "distinct (keys d)"
  shows "distinct (keys (fold (\<lambda>x. append_group (key x) x) xs d)) \<and>
    map_of (fold (\<lambda>x. append_group (key x) x) xs d) k =
       (case map_of d k of
          None \<Rightarrow> if k \<in> key ` set xs then Some [x \<leftarrow> xs. key x = k] else None
        | Some ys \<Rightarrow> Some (ys @ [x \<leftarrow> xs. key x = k]))"
  using assms
proof (induction xs arbitrary: d)
  case (Cons x xs)
  show ?case
    using Cons.IH [OF keys_append_group(1) [OF Cons.prems, of "key x" x]]
    by (auto simp: map_of_append_group split: option.splits)
qed (simp split: option.split)

lemma distinct_group_by: "distinct (keys (group_by key xs))"
  and map_of_group_by: "map_of (group_by key xs) k =
    (if k \<in> key ` set xs then Some [x \<leftarrow> xs. key x = k] else None)"
  using group_by_fold [of "[]" key xs k] by (simp_all add: group_by_def)

lemma group_by_mem:
  "(k, ys) \<in> set (group_by key xs) \<longleftrightarrow> k \<in> key ` set xs \<and> ys = [x \<leftarrow> xs. key x = k]"
  using map_of_group_by [of key xs k] map_of_eq_Some_iff [OF distinct_group_by [of key xs], of k ys]
  by (auto split: if_splits)

lemma set_vals_group_by:
  "set (vals (group_by key xs)) = {[x \<leftarrow> xs. key x = k] | k. k \<in> key ` set xs}"
proof -
  have "ys \<in> set (vals (group_by key xs)) \<longleftrightarrow> (\<exists>k. (k, ys) \<in> set (group_by key xs))" for ys
    by force
  then show ?thesis by (auto simp: group_by_mem)
qed

lemma combinations_all_distinct: "distinct xs \<Longrightarrow> distinct (combinations xs k)"
proof (induction xs k rule: combinations.induct)
  case (3 x xs k)
  then show ?case by (auto simp: distinct_map dest!: combinations_subset)
qed auto

lemma combinations_of_subseq: "ys \<in> set (combinations xs k) \<longleftrightarrow> subseq ys xs \<and> length ys = k"
  by (auto simp: combinations_subseqs set_subseqs_eq)

text \<open>A non-empty set of devices of one class, in the machine's order.\<close>

definition homogeneous :: "gpu_device list \<Rightarrow> bool" where
  "homogeneous ds \<longleftrightarrow> list_all (\<lambda>d. gpu_class d = gpu_class (hd ds)) ds"

lemma subseq_subset: "subseq xs ys \<Longrightarrow> set xs \<subseteq> set ys"
  by (induction rule: list_emb.induct) auto

lemma subseq_filter_iff: "subseq ys (filter P xs) \<longleftrightarrow> subseq ys xs \<and> list_all P ys"
proof
  assume l: "subseq ys (filter P xs)"
  then have "set ys \<subseteq> set (filter P xs)" by (rule subseq_subset)
  then show "subseq ys xs \<and> list_all P ys"
    using subseq_order.trans [OF l subseq_filter_left] by (auto simp: list_all_iff)
next
  assume r: "subseq ys xs \<and> list_all P ys"
  then have "subseq (filter P ys) (filter P xs)" by (simp add: subseq_filter)
  with r show "subseq ys (filter P xs)" by (simp add: list_all_iff filter_id_conv [THEN iffD2])
qed

lemma set_candidates:
  assumes "0 < n"
  shows "set (candidate_gpu_sets mach n) =
    {map gd_uuid ds | ds. subseq ds (mi_gpus mach) \<and> length ds = n \<and> homogeneous ds}"
proof -
  have "(\<exists>k \<in> gpu_class ` set (mi_gpus mach). ds \<in> set (combinations [d \<leftarrow> mi_gpus mach. gpu_class d = k] n))
      \<longleftrightarrow> subseq ds (mi_gpus mach) \<and> length ds = n \<and> homogeneous ds" (is "?l \<longleftrightarrow> ?r") for ds
  proof
    assume ?l
    then obtain c where "subseq ds (mi_gpus mach)" "list_all (\<lambda>d. gpu_class d = c) ds" "length ds = n"
      unfolding combinations_of_subseq subseq_filter_iff by blast
    with assms show ?r by (cases ds) (simp_all add: homogeneous_def)
  next
    assume ?r
    with assms have "ds \<noteq> []" by auto
    then have "hd ds \<in> set (mi_gpus mach)"
      using \<open>?r\<close> subseq_subset [of ds "mi_gpus mach"] hd_in_set [of ds] by blast
    moreover have "ds \<in> set (combinations [d \<leftarrow> mi_gpus mach. gpu_class d = gpu_class (hd ds)] n)"
      using \<open>?r\<close> by (simp add: combinations_of_subseq subseq_filter_iff homogeneous_def)
    ultimately show ?l by blast
  qed
  note choice = this
  have "set (candidate_gpu_sets mach n) =
      (\<Union>ys \<in> set (vals (group_by gpu_class (mi_gpus mach))). map gd_uuid ` set (combinations ys n))"
    by (simp add: candidate_gpu_sets_def)
  also have "\<dots> = map gd_uuid ` {ds. \<exists>k \<in> gpu_class ` set (mi_gpus mach).
      ds \<in> set (combinations [d \<leftarrow> mi_gpus mach. gpu_class d = k] n)}"
    unfolding set_vals_group_by by blast
  finally show ?thesis unfolding choice by blast
qed

lemma distinct_candidates:
  assumes "distinct (map gd_uuid (mi_gpus mach))" "0 < n"
  shows "distinct (candidate_gpu_sets mach n)"
proof -
  let ?f = "\<lambda>devices. map (map gd_uuid) (combinations devices n)"
  have inj: "inj_on gd_uuid (set (mi_gpus mach))" and d: "distinct (mi_gpus mach)"
    using assms(1) by (simp_all add: distinct_map)
  have groups: "ys = [x \<leftarrow> mi_gpus mach. gpu_class x = k]"
    if "(k, ys) \<in> set (group_by gpu_class (mi_gpus mach))" for k ys
    using that by (simp add: group_by_mem)
  have one: "distinct (?f ys)" if "ys \<in> set (vals (group_by gpu_class (mi_gpus mach)))" for ys
  proof -
    have ys: "distinct ys" "set ys \<subseteq> set (mi_gpus mach)"
      using that d unfolding set_vals_group_by by auto
    have "inj_on (map gd_uuid) (set (combinations ys n))"
    proof (rule inj_onI)
      fix as bs assume ab: "as \<in> set (combinations ys n)" "bs \<in> set (combinations ys n)"
        "map gd_uuid as = map gd_uuid bs"
      then have "set as \<union> set bs \<subseteq> set (mi_gpus mach)"
        using combinations_subset [OF ab(1)] combinations_subset [OF ab(2)] ys(2) by blast
      from map_inj_on [OF ab(3) inj_on_subset [OF inj this]] show "as = bs" .
    qed
    with ys show ?thesis by (simp add: distinct_map combinations_all_distinct)
  qed
  have two: "set (?f ys) \<inter> set (?f zs) = {}"
    if "(k, ys) \<in> set (group_by gpu_class (mi_gpus mach))"
      "(l, zs) \<in> set (group_by gpu_class (mi_gpus mach))" "k \<noteq> l" for k l ys zs
  proof (rule ccontr)
    assume "set (?f ys) \<inter> set (?f zs) \<noteq> {}"
    then obtain as bs where ab: "as \<in> set (combinations ys n)" "bs \<in> set (combinations zs n)"
      "map gd_uuid as = map gd_uuid bs" by auto
    then have sub: "set as \<subseteq> set ys" "set bs \<subseteq> set zs" by (auto dest: combinations_subset)
    then have "as = bs"
      using groups [OF that(1)] groups [OF that(2)]
      by (intro map_inj_on [OF ab(3)] inj_on_subset [OF inj]) auto
    moreover have "as \<noteq> []" using ab(1) assms(2) by (auto dest: combinations_length)
    ultimately have "hd as \<in> set ys \<inter> set zs" using sub hd_in_set by blast
    with groups [OF that(1)] groups [OF that(2)] that(3) show False by auto
  qed
  have "distinct (concat (map ?f (vals g)))"
    if "distinct (keys g)" "set g \<subseteq> set (group_by gpu_class (mi_gpus mach))" for g
    using that
  proof (induction g)
    case (Cons e g)
    obtain k ys where e: "e = (k, ys)" by (cases e)
    have "set (?f ys) \<inter> set (concat (map ?f (vals g))) = {}"
    proof -
      have "set (?f ys) \<inter> set (?f zs) = {}" if "zs \<in> set (vals g)" for zs
      proof -
        from that obtain l where "(l, zs) \<in> set g" by auto
        with Cons.prems e show ?thesis by (intro two) force+
      qed
      then show ?thesis by auto
    qed
    moreover have "distinct (?f ys)"
      using Cons.prems e by (intro one) (auto intro: rev_image_eqI)
    ultimately show ?case using Cons e by simp
  qed simp
  from this [OF distinct_group_by subset_refl] show ?thesis
    by (simp add: candidate_gpu_sets_def)
qed

text \<open>
  C38: for the machine's devices, whose UUIDs are distinct, and a positive count, the candidate sets
  are the ordered choices of that many devices of one name and one memory size: each exactly once, and
  the cheaper interconnect first.
\<close>

theorem candidates_are_the_homogeneous_choices:
  assumes "distinct (map gd_uuid (mi_gpus mach))" "0 < n"
  shows "set (candidate_gpu_sets mach n) =
      {map gd_uuid ds | ds. subseq ds (mi_gpus mach) \<and> length ds = n \<and> homogeneous ds}
    \<and> distinct (candidate_gpu_sets mach n)
    \<and> sorted (map (topology_cost mach) (candidate_gpu_sets mach n))"
  using set_candidates [OF assms(2)] distinct_candidates [OF assms] by (simp add: candidate_gpu_sets_def)

text \<open>Three equal GPUs and a smaller one, of which the last two equal ones are linked.\<close>

definition demo_topology :: string where
  "demo_topology =
     ''        GPU0 GPU1 GPU2 CPU'' @ [CHR 0x0A] @ ''GPU0 X SYS PHB 0-7'' @ [CHR 0x0A]
     @ ''GPU1 SYS X NV6 0-7'' @ [CHR 0x0A] @ ''GPU2 PHB NV6 X 0-7'' @ [CHR 0x0A] @ ''NIC0 SYS''"

definition demo_nvml :: nvml_machine where
  "demo_nvml =
     (let dev = (\<lambda>u n. Inr \<lparr>nd_uuid = u, nd_name = n, nd_total_bytes = 85899345920,
                   nd_capability = Some (9, 0), nd_pci_bus_id = None\<rparr>)
      in \<lparr>nm_driver = ''570'', nm_cuda = Some 12080,
          nm_devices = [dev ''GPU-a1'' ''H100'', dev ''GPU-b2'' ''H100'', dev ''GPU-c3'' ''H100'',
                        dev ''GPU-d4'' ''L4'']\<rparr>)"

definition demo_discovery :: "string option \<Rightarrow> string list \<Rightarrow> inventory_error + machine_inventory" where
  "demo_discovery visible managed =
     discover_inventory (\<lambda>_. ''fp'') (\<lambda>_. ''topo'') ''Linux'' ''x86'' (Some demo_topology) visible
       (Inr demo_nvml) ''local'' managed"

definition demo_inventory :: machine_inventory where
  "demo_inventory = (case demo_discovery None [] of Inr m \<Rightarrow> m)"

lemma demo_discovered:
  "map gd_uuid (mi_gpus demo_inventory) = [''GPU-a1'', ''GPU-b2'', ''GPU-c3'', ''GPU-d4'']
   \<and> map_of (mi_topology demo_inventory) ''GPU1'' = Some [(''GPU0'', ''SYS''), (''GPU1'', ''X''), (''GPU2'', ''NV6'')]
   \<and> candidate_gpu_sets demo_inventory 2
     = [[''GPU-b2'', ''GPU-c3''], [''GPU-a1'', ''GPU-c3''], [''GPU-a1'', ''GPU-b2'']]
   \<and> mi_cuda_driver_version demo_inventory = Some ''12.8''"
  by code_simp

lemma candidates_are_the_homogeneous_choices_witness:
  "set [[''GPU-b2'', ''GPU-c3''], [''GPU-a1'', ''GPU-c3''], [''GPU-a1'', ''GPU-b2'']] =
     {map gd_uuid ds | ds. subseq ds (mi_gpus demo_inventory) \<and> length ds = 2 \<and> homogeneous ds}"
proof -
  have "distinct (map gd_uuid (mi_gpus demo_inventory))" using demo_discovered by simp
  from candidates_are_the_homogeneous_choices [OF this, of 2] show ?thesis
    using demo_discovered by simp
qed

section \<open>The managed GPUs\<close>

lemma set_sorted_minus: "sorted_minus xs ys = [] \<longleftrightarrow> set xs \<subseteq> set ys"
proof -
  have "sorted_minus xs ys = [] \<longleftrightarrow> set (sorted_minus xs ys) = {}" by simp
  also have "\<dots> \<longleftrightarrow> set xs \<subseteq> set ys" by (auto simp: sorted_minus_def)
  finally show ?thesis .
qed

lemma resolve_token_known:
  assumes "resolve_token devices tok = Inr u"
  shows "u \<in> gd_uuid ` set devices"
proof (cases "tok \<noteq> [] \<and> list_all is_digit tok")
  case True
  with assms show ?thesis
    by (auto simp: resolve_token_def dest: find_SomeD split: option.splits)
next
  case False
  with assms have "[v \<leftarrow> remdups (map gd_uuid devices). v = tok \<or> startswith tok v] = [u]"
    by (auto simp: resolve_token_def split: if_splits list.splits)
  then have "u \<in> set [v \<leftarrow> remdups (map gd_uuid devices). v = tok \<or> startswith tok v]" by simp
  then show ?thesis by auto
qed

lemma traverse_mem: "traverse f xs = Inr ys \<Longrightarrow> y \<in> set ys \<Longrightarrow> \<exists>x \<in> set xs. f x = Inr y"
  by (induction xs arbitrary: ys) (auto simp: and_then_Inr)

text \<open>
  What a successful discovery manages. There is at least one managed GPU, every one of them
  is a device of the machine in the machine's order; a configured list is managed as a whole and
  lies within \<open>CUDA_VISIBLE_DEVICES\<close>, and without one the visible devices are managed.
\<close>

theorem managed_gpus_are_the_allocation:
  assumes "discover_inventory hash digest platform cpu topo visible (Inr nm) mid managed = Inr mach"
  shows "\<exists>found allowed.
    discovered_devices (nm_devices nm) = Inr found \<and> scheduler_visible found visible = Inr allowed
    \<and> subseq (mi_gpus mach) found \<and> mi_gpus mach \<noteq> []
    \<and> set (map gd_uuid (mi_gpus mach)) = set (if managed = [] then allowed else managed)
    \<and> set (map gd_uuid (mi_gpus mach)) \<subseteq> set allowed"
proof -
  from assms obtain found devices where f: "discovered_devices (nm_devices nm) = Inr found"
    and d: "managed_devices found visible managed = Inr devices" "devices \<noteq> []" "mi_gpus mach = devices"
    by (auto simp: discover_inventory_def and_then_Inr Let_def split: if_splits prod.splits)
  from d(1) obtain allowed where a: "scheduler_visible found visible = Inr allowed"
    and m: "set managed \<subseteq> gd_uuid ` set found" "visible \<noteq> None \<Longrightarrow> set managed \<subseteq> set allowed"
    and ds: "devices = [d \<leftarrow> found. gd_uuid d \<in> set (if managed \<noteq> [] then managed else allowed)]"
    by (auto simp: managed_devices_def and_then_Inr Let_def set_sorted_minus split: if_splits)
  have known: "set allowed \<subseteq> gd_uuid ` set found"
    using a traverse_mem resolve_token_known
    by (fastforce simp: scheduler_visible_def split: option.splits)
  have within: "set managed \<subseteq> set allowed"
    using m a by (cases visible) (auto simp: scheduler_visible_def)
  have "set (map gd_uuid devices) = set (if managed = [] then allowed else managed)"
    using m known by (auto simp: ds)
  moreover have "subseq devices found" by (simp add: ds subseq_filter_left)
  ultimately show ?thesis using f a d within by (auto split: if_splits)
qed

text \<open>
  An index and the start of a UUID, of which one is configured. An ambiguous start is refused, and
  so is a configured GPU outside the allocation.
\<close>

lemma demo_discoveries:
  "map_sum id (\<lambda>m. map gd_uuid (mi_gpus m)) (demo_discovery (Some ''1, GPU-a'') []) = Inr [''GPU-a1'', ''GPU-b2'']
   \<and> demo_discovery (Some ''GPU-'') [] = Inl (NotOneUuid ''GPU-'')
   \<and> demo_discovery (Some ''7'') [] = Inl (UnknownIndex ''7'')
   \<and> demo_discovery (Some ''-1'') [] = Inl NoManagedGpus
   \<and> demo_discovery (Some ''0,1'') [''GPU-d4''] = Inl (ManagedOutside [''GPU-d4''])
   \<and> demo_discovery None [''GPU-x'', ''GPU-e''] = Inl (ManagedMissing [''GPU-e'', ''GPU-x''])"
  by code_simp

lemma managed_gpus_are_the_allocation_witness:
  "\<exists>found allowed.
    discovered_devices (nm_devices demo_nvml) = Inr found \<and> scheduler_visible found None = Inr allowed
    \<and> subseq (mi_gpus demo_inventory) found \<and> mi_gpus demo_inventory \<noteq> []
    \<and> set (map gd_uuid (mi_gpus demo_inventory)) = set (if [] = ([] :: string list) then allowed else [])
    \<and> set (map gd_uuid (mi_gpus demo_inventory)) \<subseteq> set allowed"
proof (rule managed_gpus_are_the_allocation)
  show "discover_inventory (\<lambda>_. ''fp'') (\<lambda>_. ''topo'') ''Linux'' ''x86'' (Some demo_topology) None
      (Inr demo_nvml) ''local'' [] = Inr demo_inventory"
    by code_simp
qed

end
