(* ===== verification/ModelFiles.thy ===== *)
theory ModelFiles
  imports Inventory
begin

text \<open>
  What the service reads from a model's files: the parsers vLLM is started with
  (\<^verbatim>\<open>src/src/llm_rio/tool_support.py\<close>), the inspection of a downloaded snapshot
  (\<^verbatim>\<open>src/src/llm_rio/registration.py\<close>), the launch arguments and the shapes a placement is validated
  with (\<^verbatim>\<open>src/src/llm_rio/validation.py\<close>). The files' contents are arguments.
\<close>

text \<open>A JSON file: missing, not to be read or parsed, or its value.\<close>

datatype json_file = Absent | Unreadable | Holds json

text \<open>\<open>value.get(key)\<close> and \<open>value.get(key, default)\<close>\<close>

fun member :: "json \<Rightarrow> string \<Rightarrow> json \<Rightarrow> exn + json" where
  "member d k (JDict kvs) = Inr (get_or d k kvs)"
| "member d k _ = Inl (AttributeError ''get'')"

text \<open>\<open>str.lower\<close> on the characters below 256.\<close>

definition lower_char :: "char \<Rightarrow> char" where
  "lower_char c =
     (let n = of_char c :: nat
      in if 65 \<le> n \<and> n \<le> 90 \<or> 192 \<le> n \<and> n \<le> 222 \<and> n \<noteq> 215 then char_of (n + 32) else c)"

fun contains :: "string \<Rightarrow> string \<Rightarrow> bool" where
  "contains p [] = (p = [])"
| "contains p (c # cs) = (startswith p (c # cs) \<or> contains p cs)"

definition endswith :: "string \<Rightarrow> string \<Rightarrow> bool" where
  "endswith ending s = startswith (rev ending) (rev s)"

section \<open>Parsers of tool calls and reasoning\<close>

text \<open>\<open>dump\<close> is \<open>json.dumps\<close> with its defaults.\<close>

definition chat_template ::
  "(json \<Rightarrow> string) \<Rightarrow> string option \<Rightarrow> json_file \<Rightarrow> exn + string" where
  "chat_template dump jinja tokenizer =
     (case jinja of
        Some text \<Rightarrow> Inr text
      | None \<Rightarrow>
          (case tokenizer of
             Absent \<Rightarrow> Inr ''''
           | Unreadable \<Rightarrow> Inr ''''
           | Holds raw \<Rightarrow> and_then (member JNull ''chat_template'' raw) (\<lambda>t.
               Inr (case t of JStr s \<Rightarrow> s | JNull \<Rightarrow> '''' | v \<Rightarrow> dump v))))"

definition model_type :: "json_file \<Rightarrow> exn + string" where
  "model_type config =
     (case config of
        Absent \<Rightarrow> Inr ''''
      | Unreadable \<Rightarrow> Inr ''''
      | Holds raw \<Rightarrow> and_then (member JNull ''model_type'' raw) (\<lambda>t.
          Inr (case t of JStr s \<Rightarrow> map lower_char s | _ \<Rightarrow> '''')))"

definition tool_parser :: "string \<Rightarrow> string option" where
  "tool_parser template =
     (if \<not> contains ''tools'' template then None
      else if contains ''<|tool_call>'' template \<and> contains ''call:'' template then Some ''gemma4''
      else if contains ''<tool_call>'' template \<and> contains ''<function='' template
      then Some ''qwen3_xml''
      else if list_all (\<lambda>m. contains m template) [''<tool_call>'', ''<arg_key>'', ''<arg_value>'']
      then Some ''poolside_v1''
      else None)"

definition reasoning_parser :: "string \<Rightarrow> string \<Rightarrow> string option" where
  "reasoning_parser template mtype =
     (let qwen_tags = (contains ''<think>'' template \<and> contains ''</think>'' template)
      in if startswith ''qwen3'' mtype \<and> qwen_tags then Some ''qwen3''
         else if mtype = ''gemma4'' \<and> contains ''<|think|>'' template then Some ''gemma4''
         else if mtype = ''laguna'' \<and> qwen_tags then Some ''poolside_v1''
         else None)"

definition detect_vllm_parser_configuration ::
  "(json \<Rightarrow> string) \<Rightarrow> string option \<Rightarrow> json_file \<Rightarrow> json_file
     \<Rightarrow> exn + (string option \<times> string option)" where
  "detect_vllm_parser_configuration dump jinja tokenizer config =
     and_then (chat_template dump jinja tokenizer) (\<lambda>template.
     and_then (model_type config) (\<lambda>mtype.
       Inr (tool_parser template, reasoning_parser template mtype)))"

section \<open>Arguments a model prescribes\<close>

text \<open>
  The set comprehension iterates over \<open>architectures\<close> before it asks whether it is a list: a
  \<open>None\<close> raises, and so does a number or a boolean. A string or an object is iterated and
  contributes nothing.
\<close>

fun architecture_names :: "(json \<Rightarrow> string) \<Rightarrow> json \<Rightarrow> exn + string list" where
  "architecture_names py_str (JList xs) = Inr (map py_str xs)"
| "architecture_names py_str (JStr s) = Inr []"
| "architecture_names py_str (JDict d) = Inr []"
| "architecture_names py_str _ = Inl (TypeError ''not iterable'')"

definition model_launch_args :: "(json \<Rightarrow> string) \<Rightarrow> json_file \<Rightarrow> exn + (string, json) dict" where
  "model_launch_args py_str config =
     (case config of
        Absent \<Rightarrow> Inr []
      | Unreadable \<Rightarrow> Inl ValueError
      | Holds raw \<Rightarrow>
          and_then (member JNull ''architectures'' raw) (\<lambda>archs.
          and_then (architecture_names py_str archs) (\<lambda>names.
          and_then (member JNull ''model_type'' raw) (\<lambda>mtype.
            Inr (if mtype = JStr ''deepseek_v4'' \<or> ''DeepseekV4ForCausalLM'' \<in> set names
                 then [(''kv_cache_dtype'', JStr ''fp8'')] else [])))))"

section \<open>Resolving and inspecting a snapshot\<close>

text \<open>A validation step's error, its preemption by production work, and any other exception.\<close>

record validation_error =
  ve_stage :: string
  ve_message :: string
  ve_details :: "(string, json) dict"

datatype failure = Invalid validation_error | Preempted | Crash exn

definition invalid :: "string \<Rightarrow> string \<Rightarrow> (string, json) dict \<Rightarrow> failure" where
  "invalid stage message details =
     Invalid \<lparr>ve_stage = stage, ve_message = message, ve_details = details\<rparr>"

lemma invalid_not_preempted [simp]: "invalid s m d \<noteq> Preempted"
  by (simp add: invalid_def)

fun lift_exn :: "exn + 'a \<Rightarrow> failure + 'a" where
  "lift_exn (Inl e) = Inl (Crash e)"
| "lift_exn (Inr x) = Inr x"

text \<open>A file of the model as the hub describes it, and as the catalog keeps it.\<close>

record hub_file =
  hf_name :: string
  hf_size :: "int option"
  hf_blob :: "string option"
  hf_lfs :: "string option option"

record artifact =
  ar_path :: string
  ar_bytes :: int
  ar_digest :: "string option"

record resolved =
  rs_revision :: string
  rs_bytes :: int
  rs_artifacts :: "artifact list"

definition artifact_of :: "hub_file \<Rightarrow> artifact" where
  "artifact_of h =
     \<lparr>ar_path = hf_name h, ar_bytes = int_or (hf_size h) 0,
      ar_digest = (case hf_lfs h of Some d \<Rightarrow> d | None \<Rightarrow> hf_blob h)\<rparr>"

definition resolve_snapshot :: "string \<Rightarrow> hub_file list option \<Rightarrow> resolved" where
  "resolve_snapshot sha siblings =
     (let files = map artifact_of (case siblings of None \<Rightarrow> [] | Some fs \<Rightarrow> fs)
      in \<lparr>rs_revision = sha, rs_bytes = sum_list (map ar_bytes files), rs_artifacts = files\<rparr>)"

definition artifact_json :: "artifact \<Rightarrow> json" where
  "artifact_json a =
     JDict [(''path'', JStr (ar_path a)), (''bytes'', JInt (ar_bytes a)),
            (''digest'', json_opt JStr (ar_digest a))]"

definition check_disk :: "int \<Rightarrow> int \<Rightarrow> failure + unit" where
  "check_disk free download_bytes =
     (let required = PyValues.truncate (of_int download_bytes * (11 / 10))
      in if free < required
         then Inl (invalid ''disk_capacity'' ''insufficient free space for pinned model snapshot''
                [(''free_bytes'', JInt free), (''required_bytes'', JInt required)])
         else Inr ())"

record inspection =
  in_architectures :: json
  in_weight_bytes :: int
  in_weight_files :: "string list"
  in_max_model_len :: int
  in_dtype :: string
  in_quantization :: "string option"
  in_capabilities :: "string list"
  in_template_hash :: string
  in_multimodal :: bool

definition inspection_json :: "inspection \<Rightarrow> (string, json) dict" where
  "inspection_json i =
     [(''architectures'', in_architectures i), (''weight_bytes'', JInt (in_weight_bytes i)),
      (''weight_files'', JList (map JStr (in_weight_files i))),
      (''max_model_len'', JInt (in_max_model_len i)), (''dtype'', JStr (in_dtype i)),
      (''quantization'', json_opt JStr (in_quantization i)),
      (''capabilities'', JList (map JStr (in_capabilities i))),
      (''chat_template_hash'', JStr (in_template_hash i)),
      (''multimodal'', JBool (in_multimodal i))]"

text \<open>\<open>a or b or \<dots>\<close>: the first true value, the last if none is.\<close>

fun first_true :: "json list \<Rightarrow> json" where
  "first_true [] = JNull"
| "first_true [v] = v"
| "first_true (v # vs) = (if json_truthy v then v else first_true vs)"

text \<open>A boolean is an integer to \<open>isinstance\<close>.\<close>

definition tokenizer_max_len :: "json \<Rightarrow> json" where
  "tokenizer_max_len v =
     (case v of
        JInt n \<Rightarrow> if n \<ge> 10000000 then JNull else v
      | JBool b \<Rightarrow> v
      | _ \<Rightarrow> JNull)"

definition dtype_names :: "(string, string) dict" where
  "dtype_names =
     [(''float16'', ''half''), (''fp16'', ''half''), (''bfloat16'', ''bfloat16''),
      (''bf16'', ''bfloat16''), (''float32'', ''float''), (''fp32'', ''float'')]"

text \<open>No value but a string is written like one of the names.\<close>

definition inspected_dtype :: "json \<Rightarrow> string" where
  "inspected_dtype v =
     (case v of
        JStr s \<Rightarrow>
          (let name = map lower_char (if s = [] then ''auto'' else s);
               dtype = (case map_of dtype_names name of None \<Rightarrow> name | Some d \<Rightarrow> d)
           in if dtype \<in> {''auto'', ''half'', ''bfloat16'', ''float''} then dtype else ''auto'')
      | _ \<Rightarrow> ''auto'')"

definition weight_file :: "string \<Rightarrow> bool" where
  "weight_file path \<longleftrightarrow>
     list_ex (\<lambda>ending. endswith ending path) [''.safetensors'', ''.bin'', ''.gguf'']"

text \<open>\<open>sha_of\<close> is the SHA-256 of the text \<open>str\<close> makes of a value.\<close>

definition inspect ::
  "(json \<Rightarrow> string) \<Rightarrow> json_file \<Rightarrow> json_file \<Rightarrow> resolved \<Rightarrow> failure + inspection" where
  "inspect sha_of config_file tokenizer_file r =
     (case config_file of
        Absent \<Rightarrow> Inl (invalid ''inspection'' ''config.json is missing'' [])
      | Unreadable \<Rightarrow> Inl (Crash ValueError)
      | Holds config \<Rightarrow>
     and_then (case tokenizer_file of
                 Absent \<Rightarrow> Inr (JDict []) | Unreadable \<Rightarrow> Inl (Crash ValueError) | Holds t \<Rightarrow> Inr t)
       (\<lambda>tokenizer.
     let weights = [a \<leftarrow> rs_artifacts r. weight_file (ar_path a)] in
     if weights = []
     then Inl (invalid ''inspection'' ''no supported weight artifact was found'' [])
     else and_then (lift_exn (as_dict config)) (\<lambda>c.
     and_then (lift_exn (member JNull ''model_max_length'' tokenizer)) (\<lambda>tok_len.
     let text_cfg = (case get_or JNull ''text_config'' c of JDict d \<Rightarrow> d | _ \<Rightarrow> []);
         len = first_true
           [get_or JNull ''max_position_embeddings'' c,
            get_or JNull ''max_position_embeddings'' text_cfg,
            get_or JNull ''model_max_length'' c, get_or JNull ''model_max_length'' text_cfg,
            tokenizer_max_len tok_len, JInt 4096]
     in and_then (lift_exn (json_int len)) (\<lambda>max_len.
     and_then (lift_exn (member JNull ''quant_method''
                 (get_or (JDict []) ''quantization_config'' c))) (\<lambda>quant.
     and_then (lift_exn (optional as_string quant)) (\<lambda>quantization.
     and_then (lift_exn (member (JStr '''') ''chat_template'' tokenizer)) (\<lambda>template.
       Inr \<lparr>in_architectures =
              (let a = get_or JNull ''architectures'' c in if json_truthy a then a else JList []),
            in_weight_bytes = sum_list (map ar_bytes weights),
            in_weight_files = map ar_path weights,
            in_max_model_len = max 1 max_len,
            in_dtype = inspected_dtype (get_or JNull ''torch_dtype'' c),
            in_quantization = quantization,
            in_capabilities =
              (if json_truthy template then [''chat'', ''streaming''] else [''completions'']),
            in_template_hash = sha_of template,
            in_multimodal =
              list_ex (\<lambda>k. k \<in> set (keys c)) [''vision_config'', ''audio_config'']\<rparr>))))))))"

text \<open>
  A model whose configuration names no architectures passes the inspection, and every probe of it
  raises a \<open>TypeError\<close>, which is not a \<open>ValidationError\<close>.
\<close>

lemma inspected_model_cannot_be_probed:
  fixes cfg :: json
  defines "cfg \<equiv> JDict [(''max_position_embeddings'', JInt 8192)]"
  shows "(case inspect (\<lambda>_. ''h'') (Holds cfg) Absent
            (resolve_snapshot ''abc'' (Some [\<lparr>hf_name = ''model.safetensors'', hf_size = Some 5,
               hf_blob = None, hf_lfs = None\<rparr>])) of
          Inr i \<Rightarrow> in_max_model_len i = 8192 | Inl _ \<Rightarrow> False)
    \<and> model_launch_args (\<lambda>_. '''') (Holds cfg) = Inl (TypeError ''not iterable'')"
  unfolding cfg_def by code_simp

section \<open>Shapes\<close>

record candidate_shape =
  cs_gpu_count :: nat
  cs_max_model_len :: int
  cs_max_num_seqs :: "int option"
  cs_max_num_batched_tokens :: "int option"
  cs_utilization :: rat
  cs_dtype :: string
  cs_quantization :: "string option"
  cs_gpu_sets :: "string list list"

text \<open>The settings of the engines and of the machine that shape a placement.\<close>

record shape_settings =
  ss_reserved :: int
  ss_utilization :: "rat option"
  ss_max_model_len :: "int option"
  ss_max_num_seqs :: "int option"
  ss_max_num_batched_tokens :: "int option"

definition required_mib :: "int \<Rightarrow> int" where
  "required_mib weight_bytes = max 1 (PyValues.truncate (of_int weight_bytes / (1024 * 1024) * (115 / 100)))"

definition usable_vram :: "machine_inventory \<Rightarrow> int \<Rightarrow> string list \<Rightarrow> int" where
  "usable_vram mach reserved gpus =
     sum_list (map (\<lambda>d. max 0 (gd_total_vram_mib d - reserved))
       [d \<leftarrow> mi_gpus mach. gd_uuid d \<in> set gpus])"

definition viable_sets :: "machine_inventory \<Rightarrow> int \<Rightarrow> int \<Rightarrow> nat \<Rightarrow> string list list" where
  "viable_sets mach reserved required n =
     [gpus \<leftarrow> candidate_gpu_sets mach n. usable_vram mach reserved gpus \<ge> required]"

definition smallest_vram :: "machine_inventory \<Rightarrow> string list list \<Rightarrow> int" where
  "smallest_vram mach sets =
     (let sizes = map gd_total_vram_mib [d \<leftarrow> mi_gpus mach. list_ex (\<lambda>gpus. gd_uuid d \<in> set gpus) sets]
      in fold min (tl sizes) (hd sizes))"

definition automatic_utilization :: "int \<Rightarrow> int \<Rightarrow> rat" where
  "automatic_utilization smallest reserved =
     max (1 / 100) (min 1 (of_int (smallest - reserved) / of_int smallest))"

definition shape_of ::
  "shape_settings \<Rightarrow> machine_inventory \<Rightarrow> int \<Rightarrow> string \<Rightarrow> string option \<Rightarrow> nat \<Rightarrow> string list list
     \<Rightarrow> candidate_shape" where
  "shape_of st mach max_len dtype quantization n sets =
     \<lparr>cs_gpu_count = n,
      cs_max_model_len = (case ss_max_model_len st of None \<Rightarrow> max_len | Some l \<Rightarrow> min max_len l),
      cs_max_num_seqs = ss_max_num_seqs st,
      cs_max_num_batched_tokens = ss_max_num_batched_tokens st,
      cs_utilization =
        (case ss_utilization st of
           Some u \<Rightarrow> u
         | None \<Rightarrow> automatic_utilization (smallest_vram mach sets) (ss_reserved st)),
      cs_dtype = dtype, cs_quantization = quantization, cs_gpu_sets = sets\<rparr>"

definition build_candidate_shapes ::
  "shape_settings \<Rightarrow> machine_inventory \<Rightarrow> int \<Rightarrow> int \<Rightarrow> string \<Rightarrow> string option
     \<Rightarrow> candidate_shape list" where
  "build_candidate_shapes st mach weight_bytes max_len dtype quantization =
     concat (map (\<lambda>n.
       let sets = viable_sets mach (ss_reserved st) (required_mib weight_bytes) n
       in if sets = [] then [] else [shape_of st mach max_len dtype quantization n sets])
       [1..<Suc (length (mi_gpus mach))])"

section \<open>What the shapes are\<close>

lemma filter_of_subseq:
  assumes "subseq ds xs" "distinct (map f xs)"
  shows "[x \<leftarrow> xs. f x \<in> f ` set ds] = ds"
  using assms
proof (induction rule: list_emb.induct)
  case (list_emb_Cons ds xs x)
  then have "f x \<notin> f ` set ds" using subseq_subset [of ds xs] by auto
  with list_emb_Cons show ?case by simp
next
  case (list_emb_Cons2 x y ds xs)
  then have "[z \<leftarrow> xs. f z = f y \<or> f z \<in> f ` set ds] = [z \<leftarrow> xs. f z \<in> f ` set ds]"
    by (intro filter_cong refl) (auto simp: image_iff)
  with list_emb_Cons2 show ?case by simp
qed simp

definition usable_total :: "int \<Rightarrow> gpu_device list \<Rightarrow> int" where
  "usable_total reserved ds = sum_list (map (\<lambda>d. max 0 (gd_total_vram_mib d - reserved)) ds)"

lemma usable_of_choice:
  assumes "subseq ds (mi_gpus mach)" "distinct (map gd_uuid (mi_gpus mach))"
  shows "usable_vram mach reserved (map gd_uuid ds) = usable_total reserved ds"
  using filter_of_subseq [OF assms] by (simp add: usable_vram_def usable_total_def)

lemma viable_iff:
  assumes "distinct (map gd_uuid (mi_gpus mach))" "0 < n"
  shows "gpus \<in> set (viable_sets mach reserved required n) \<longleftrightarrow>
    (\<exists>ds. gpus = map gd_uuid ds \<and> subseq ds (mi_gpus mach) \<and> length ds = n \<and> homogeneous ds
       \<and> required \<le> usable_total reserved ds)"
  using assms by (auto simp: viable_sets_def set_candidates usable_of_choice)

lemma shape_iff:
  "c \<in> set (build_candidate_shapes st mach weight len dtype quant) \<longleftrightarrow>
     (\<exists>n. 0 < n \<and> n \<le> length (mi_gpus mach)
        \<and> viable_sets mach (ss_reserved st) (required_mib weight) n \<noteq> []
        \<and> c = shape_of st mach len dtype quant n (viable_sets mach (ss_reserved st) (required_mib weight) n))"
proof -
  have "set [1..<Suc (length (mi_gpus mach))] = {n. 0 < n \<and> n \<le> length (mi_gpus mach)}" by auto
  then show ?thesis by (simp add: build_candidate_shapes_def Let_def del: upt_Suc) blast
qed

lemma fold_min_le: "x \<in> set (y # ys) \<Longrightarrow> fold min ys (y :: int) \<le> x"
proof (induction ys arbitrary: x y)
  case (Cons z zs)
  have "fold min zs (min z y) \<le> min z y" by (rule Cons.IH) simp
  with Cons.prems Cons.IH [of x "min z y"] show ?case by auto
qed simp

lemma fold_min_in: "fold min ys (y :: int) \<in> set (y # ys)"
proof (induction ys arbitrary: y)
  case (Cons z zs)
  from Cons.IH [of "min z y"] show ?case by (auto simp: min_def split: if_splits)
qed simp

lemma smallest_vram_least:
  assumes "gpus \<in> set sets" "d \<in> set (mi_gpus mach)" "gd_uuid d \<in> set gpus"
  shows "smallest_vram mach sets \<le> gd_total_vram_mib d"
    and "\<exists>e \<in> set (mi_gpus mach). \<exists>g \<in> set sets. gd_uuid e \<in> set g
           \<and> smallest_vram mach sets = gd_total_vram_mib e"
proof -
  let ?ds = "[d \<leftarrow> mi_gpus mach. list_ex (\<lambda>gpus. gd_uuid d \<in> set gpus) sets]"
  have d: "d \<in> set ?ds" using assms by (auto simp: list_ex_iff)
  then have ne: "map gd_total_vram_mib ?ds = hd (map gd_total_vram_mib ?ds) # tl (map gd_total_vram_mib ?ds)"
    by (cases ?ds) auto
  have "gd_total_vram_mib d \<in> set (map gd_total_vram_mib ?ds)" using d by auto
  then show "smallest_vram mach sets \<le> gd_total_vram_mib d"
    unfolding smallest_vram_def Let_def using fold_min_le ne by metis
  have "smallest_vram mach sets \<in> set (map gd_total_vram_mib ?ds)"
    unfolding smallest_vram_def Let_def using fold_min_in ne by metis
  then show "\<exists>e \<in> set (mi_gpus mach). \<exists>g \<in> set sets. gd_uuid e \<in> set g
      \<and> smallest_vram mach sets = gd_total_vram_mib e"
    by (auto simp: list_ex_iff)
qed

text \<open>A device of a viable choice has more memory than the reserve.\<close>

lemma homogeneous_class: "homogeneous ds \<Longrightarrow> d \<in> set ds \<Longrightarrow> e \<in> set ds \<Longrightarrow> gd_total_vram_mib d = gd_total_vram_mib e"
  by (auto simp: homogeneous_def list_all_iff gpu_class_def)

lemma viable_device:
  assumes "homogeneous ds" "0 < usable_total reserved ds" "d \<in> set ds"
  shows "reserved < gd_total_vram_mib d"
proof (rule ccontr)
  assume "\<not> reserved < gd_total_vram_mib d"
  then have "\<forall>e \<in> set ds. max 0 (gd_total_vram_mib e - reserved) = 0"
    using homogeneous_class [OF assms(1,3)] by auto
  then have "usable_total reserved ds = 0"
    unfolding usable_total_def by (induction ds) auto
  with assms(2) show False by simp
qed

lemma required_positive: "0 < required_mib w"
  by (simp add: required_mib_def)

text \<open>The automatic utilization leaves the reserve of every larger device free, above its floor.\<close>

lemma automatic_utilization_reserve:
  assumes "0 \<le> r" "r < s" "s \<le> v"
  shows "automatic_utilization s r * of_int v \<le> of_int (v - r) \<or> automatic_utilization s r = 1 / 100"
    and "0 < automatic_utilization s r" "automatic_utilization s r \<le> 1"
proof -
  let ?q = "of_int (s - r) / of_int s :: rat"
  have s: "0 < s" using assms by simp
  have q: "?q \<le> 1" using assms s by (simp add: divide_le_eq)
  then show "0 < automatic_utilization s r" "automatic_utilization s r \<le> 1"
    by (auto simp: automatic_utilization_def)
  have "?q * of_int v \<le> of_int (v - r)"
  proof -
    have "(s - r) * v \<le> (v - r) * s"
      using mult_left_mono [OF assms(3,1)] by (simp add: algebra_simps)
    then have "(of_int ((s - r) * v) :: rat) \<le> of_int ((v - r) * s)" by (simp only: of_int_le_iff)
    then show ?thesis using s by (simp add: pos_divide_le_eq)
  qed
  then show "automatic_utilization s r * of_int v \<le> of_int (v - r) \<or> automatic_utilization s r = 1 / 100"
    using q by (auto simp: automatic_utilization_def max_def min_def split: if_splits)
qed

lemma shape_facts:
  assumes "distinct (map gd_uuid (mi_gpus mach))" "0 \<le> ss_reserved st"
  shows "(\<exists>c \<in> set (build_candidate_shapes st mach weight len dtype quant).
            gpus \<in> set (cs_gpu_sets c) \<and> cs_gpu_count c = length gpus) \<longleftrightarrow>
         (\<exists>ds. gpus = map gd_uuid ds \<and> subseq ds (mi_gpus mach) \<and> ds \<noteq> [] \<and> homogeneous ds
            \<and> required_mib weight \<le> usable_total (ss_reserved st) ds)"
    and "c \<in> set (build_candidate_shapes st mach weight len dtype quant) \<Longrightarrow>
         gpus \<in> set (cs_gpu_sets c) \<Longrightarrow> d \<in> set (mi_gpus mach) \<Longrightarrow> gd_uuid d \<in> set gpus \<Longrightarrow>
         length gpus = cs_gpu_count c
         \<and> (ss_utilization st = None \<longrightarrow> 0 < cs_utilization c \<and> cs_utilization c \<le> 1
              \<and> (cs_utilization c * of_int (gd_total_vram_mib d)
                   \<le> of_int (gd_total_vram_mib d - ss_reserved st) \<or> cs_utilization c = 1 / 100))"
proof -
  let ?req = "required_mib weight"
  let ?v = "viable_sets mach (ss_reserved st) ?req"
  have len: "length ds \<le> length (mi_gpus mach)" if "subseq ds (mi_gpus mach)" for ds
    using that by (rule list_emb_length)
  show "(\<exists>c \<in> set (build_candidate_shapes st mach weight len dtype quant).
            gpus \<in> set (cs_gpu_sets c) \<and> cs_gpu_count c = length gpus) \<longleftrightarrow>
         (\<exists>ds. gpus = map gd_uuid ds \<and> subseq ds (mi_gpus mach) \<and> ds \<noteq> [] \<and> homogeneous ds
            \<and> ?req \<le> usable_total (ss_reserved st) ds)" (is "?l \<longleftrightarrow> ?r")
  proof
    assume ?l
    then obtain n where "0 < n" "gpus \<in> set (?v n)" "n = length gpus"
      by (auto simp: shape_iff shape_of_def)
    then show ?r unfolding viable_iff [OF assms(1) \<open>0 < n\<close>] by auto
  next
    assume ?r
    then obtain ds where ds: "gpus = map gd_uuid ds" "subseq ds (mi_gpus mach)" "ds \<noteq> []"
      "homogeneous ds" "?req \<le> usable_total (ss_reserved st) ds" by blast
    then have "gpus \<in> set (?v (length ds))"
      by (subst viable_iff [OF assms(1)]) auto
    with ds len [OF ds(2)] have
      "shape_of st mach len dtype quant (length ds) (?v (length ds))
         \<in> set (build_candidate_shapes st mach weight len dtype quant)"
      unfolding shape_iff by (intro exI [of _ "length ds"]) auto
    with ds \<open>gpus \<in> set (?v (length ds))\<close> show ?l
      by (intro bexI) (auto simp: shape_of_def)
  qed
  assume c: "c \<in> set (build_candidate_shapes st mach weight len dtype quant)"
    "gpus \<in> set (cs_gpu_sets c)" "d \<in> set (mi_gpus mach)" "gd_uuid d \<in> set gpus"
  then obtain n where n: "0 < n" and sh: "c = shape_of st mach len dtype quant n (?v n)"
    by (auto simp: shape_iff)
  have g: "gpus \<in> set (?v n)" using c(2) by (simp add: sh shape_of_def)
  then have l: "length gpus = n" by (auto simp: viable_iff [OF assms(1) n])
  obtain e g' where e: "e \<in> set (mi_gpus mach)" "g' \<in> set (?v n)" "gd_uuid e \<in> set g'"
    "smallest_vram mach (?v n) = gd_total_vram_mib e"
    using smallest_vram_least(2) [OF g c(3,4)] by blast
  from e(2) obtain ds where ds: "g' = map gd_uuid ds" "subseq ds (mi_gpus mach)" "homogeneous ds"
    "?req \<le> usable_total (ss_reserved st) ds" by (auto simp: viable_iff [OF assms(1) n])
  have "e \<in> set ds"
    using e(1,3) ds(1) subseq_subset [OF ds(2)] assms(1) by (auto simp: distinct_map inj_on_def)
  then have "ss_reserved st < gd_total_vram_mib e"
    using viable_device [OF ds(3)] ds(4) required_positive [of weight] by force
  note u = automatic_utilization_reserve [OF assms(2) this [folded e(4)]
      smallest_vram_least(1) [OF g c(3,4)]]
  show "length gpus = cs_gpu_count c
      \<and> (ss_utilization st = None \<longrightarrow> 0 < cs_utilization c \<and> cs_utilization c \<le> 1
          \<and> (cs_utilization c * of_int (gd_total_vram_mib d)
               \<le> of_int (gd_total_vram_mib d - ss_reserved st) \<or> cs_utilization c = 1 / 100))"
    using u l by (simp add: sh shape_of_def)
qed


text \<open>A model of 100 GiB of weights on three GPUs of 80 GiB and a smaller-named one: pairs and the triple.\<close>

definition demo_shapes :: shape_settings where
  "demo_shapes = \<lparr>ss_reserved = 2048, ss_utilization = None, ss_max_model_len = Some 32768,
     ss_max_num_seqs = Some 64, ss_max_num_batched_tokens = None\<rparr>"

lemma demo_candidate_shapes:
  "map (\<lambda>c. (cs_gpu_count c, cs_gpu_sets c, cs_max_model_len c, cs_utilization c))
     (build_candidate_shapes demo_shapes demo_inventory 107374182400 131072 ''bfloat16'' None)
   = [(2, [[''GPU-b2'', ''GPU-c3''], [''GPU-a1'', ''GPU-c3''], [''GPU-a1'', ''GPU-b2'']], 32768, 39 / 40),
      (3, [[''GPU-a1'', ''GPU-b2'', ''GPU-c3'']], 32768, 39 / 40)]"
  by code_simp


end
