(* ===== verification/Prism.thy ===== *)
theory Prism
  imports ModelFiles
begin

text \<open>
  \<^verbatim>\<open>src/src/llm_rio/prism.py\<close>: whether kvcached may be used with the installed packages, and the
  environment its engines get. What \<open>importlib.metadata\<close> finds, and the parsing of a distribution's
  \<open>direct_url.json\<close>, are arguments.
\<close>

datatype kvcached_mode = KV_DISABLED | KV_AUTO | KV_REQUIRED

record kvcached_runtime =
  kr_enabled :: bool
  kr_package :: "string option"
  kr_vllm :: "string option"
  kr_tested :: bool
  kr_reason :: string
  kr_revision :: "string option"

definition compat_revision :: string where
  "compat_revision = ''60cad949389af6bbf1d65c4eddf325113df5a9eb''"

definition memory_backend :: "kvcached_runtime \<Rightarrow> string" where
  "memory_backend r = (if kr_enabled r then ''kvcached'' else ''native'')"

text \<open>The numbers of \<open>re.findall("[0-9]+", version)[:3]\<close>; \<open>acc\<close> is the number being read.\<close>

fun numbers :: "int option \<Rightarrow> string \<Rightarrow> int list" where
  "numbers acc [] = (case acc of None \<Rightarrow> [] | Some n \<Rightarrow> [n])"
| "numbers acc (c # cs) =
     (if is_digit c
      then numbers (Some ((case acc of None \<Rightarrow> 0 | Some n \<Rightarrow> n) * 10 + (of_char c - 48))) cs
      else (case acc of None \<Rightarrow> [] | Some n \<Rightarrow> [n]) @ numbers None cs)"

definition release_tuple :: "string \<Rightarrow> int list" where
  "release_tuple version = take 3 (numbers None version)"

text \<open>\<open>raw\<close> is the text of \<open>direct_url.json\<close>; \<open>parse\<close> is \<open>None\<close> for text that is no JSON.\<close>

definition source_revision ::
  "(string \<Rightarrow> json option) \<Rightarrow> (json \<Rightarrow> string) \<Rightarrow> string option \<Rightarrow> exn + string option" where
  "source_revision parse py_str raw =
     (if raw \<in> {None, Some []} then Inr None
      else (case parse (case raw of None \<Rightarrow> [] | Some text \<Rightarrow> text) of
              None \<Rightarrow> Inr None
            | Some direct_url \<Rightarrow>
                and_then (member JNull ''vcs_info'' direct_url) (\<lambda>vcs.
                  Inr (case vcs of
                         JDict d \<Rightarrow>
                           (let commit = get_or JNull ''commit_id'' d
                            in if json_truthy commit then Some (py_str commit) else None)
                       | _ \<Rightarrow> None))))"

definition disabled_runtime ::
  "string option \<Rightarrow> string option \<Rightarrow> string \<Rightarrow> string option \<Rightarrow> kvcached_runtime" where
  "disabled_runtime package vllm reason revision =
     \<lparr>kr_enabled = False, kr_package = package, kr_vllm = vllm, kr_tested = False,
      kr_reason = reason, kr_revision = revision\<rparr>"

definition officially_tested :: "int list \<Rightarrow> bool" where
  "officially_tested release \<longleftrightarrow> [0, 8, 4] \<le> release \<and> release \<le> [0, 24, 0]"

definition experimental_vllm :: "int list \<Rightarrow> bool" where
  "experimental_vllm release \<longleftrightarrow> [0, 26, 0] \<le> release \<and> release < [0, 27, 0]"

definition compatibility_error :: "string \<Rightarrow> exn" where
  "compatibility_error message = RuntimeError message"

text \<open>
  \<open>installed\<close> is kvcached's version and \<open>direct_url.json\<close>, \<open>vllm\<close> the version of vLLM; \<open>None\<close> when the
  package is not installed.
\<close>

definition detect_kvcached ::
  "(string \<Rightarrow> json option) \<Rightarrow> (json \<Rightarrow> string) \<Rightarrow> kvcached_mode
     \<Rightarrow> (string \<times> string option) option \<Rightarrow> string option \<Rightarrow> exn + kvcached_runtime" where
  "detect_kvcached parse py_str mode installed vllm =
     (if mode = KV_DISABLED then Inr (disabled_runtime None None ''disabled_by_configuration'' None)
      else case installed of
        None \<Rightarrow>
          if mode = KV_REQUIRED
          then Inl (compatibility_error
            ''kvcached mode requires kvcached; install the legacy-named 'prism' extra'')
          else Inr (disabled_runtime None None ''kvcached_not_installed'' None)
      | Some (package, direct_url) \<Rightarrow>
          (case vllm of
             None \<Rightarrow>
               if mode = KV_REQUIRED
               then Inl (compatibility_error
                 ''kvcached mode requires vLLM in the same environment as kvcached'')
               else Inr (disabled_runtime (Some package) None ''vllm_not_installed'' None)
           | Some version \<Rightarrow>
               and_then (source_revision parse py_str direct_url) (\<lambda>revision.
               let release = release_tuple version; tested = officially_tested release
               in if \<not> tested \<and> (\<not> experimental_vllm release \<or> revision \<noteq> Some compat_revision)
                  then if mode = KV_REQUIRED
                       then Inl (compatibility_error
                         (''vLLM '' @ version @ '' is outside the tested Prism compatibility set; ''
                          @ ''the experimental path requires vLLM 0.26.x and kvcached revision ''
                          @ compat_revision))
                       else Inr (disabled_runtime (Some package) (Some version)
                         ''incompatible_kvcached_source'' revision)
                  else Inr \<lparr>kr_enabled = True, kr_package = Some package, kr_vllm = Some version,
                         kr_tested = tested,
                         kr_reason = (if tested then ''compatible_package_set''
                                      else ''experimental_compatibility_revision''),
                         kr_revision = revision\<rparr>)))"

text \<open>\<open>bootstrap\<close> is the directory of the shim; \<open>inherited\<close> the \<open>PYTHONPATH\<close> it is put before.\<close>

definition kvcached_environment ::
  "string \<Rightarrow> string option \<Rightarrow> string option \<Rightarrow> kvcached_runtime \<Rightarrow> (string, string) dict" where
  "kvcached_environment bootstrap pythonpath os_pythonpath r =
     (if \<not> kr_enabled r then []
      else
        [(''ENABLE_KVCACHED'', ''true''), (''KVCACHED_AUTOPATCH'', ''1''),
         (''KVCACHED_CONTIGUOUS_LAYOUT'', ''false''), (''KVCACHED_PAGE_SIZE_MB'', ''4''),
         (''KVCACHED_MAX_CACHED_TOKENS'', ''0''), (''KVCACHED_MIN_RESERVED_PAGES'', ''0''),
         (''KVCACHED_MAX_RESERVED_PAGES'', ''0''), (''KVCACHED_PAGE_PREALLOC_ENABLED'', ''false''),
         (''NCCL_NET_PLUGIN'', ''none''), (''NCCL_NET'', ''Socket'')]
        @ (case kr_vllm r of
             Some v \<Rightarrow> if [0, 26, 0] \<le> release_tuple v
                       then [(''VLLM_USE_V2_MODEL_RUNNER'', ''0'')] else [(''VLLM_USE_V1'', ''1'')]
           | None \<Rightarrow> [(''VLLM_USE_V1'', ''1'')])
        @ (if kr_tested r then []
           else let inherited = (case pythonpath of None \<Rightarrow> os_pythonpath | Some p \<Rightarrow> Some p)
                in [(''LLM_RIO_KVCACHED_VLLM026_SHIM'', ''1''),
                    (''PYTHONPATH'',
                     if inherited \<in> {None, Some []} then bootstrap
                     else bootstrap @ '':'' @ (case inherited of None \<Rightarrow> [] | Some p \<Rightarrow> p))]))"

text \<open>
  C39: kvcached runs only where it was tried. A runtime that comes out enabled was asked for, has both
  packages, and vLLM is in the tested range or is a 0.26 release with the pinned revision of kvcached;
  only the latter gets the shim. When kvcached is required, nothing else is returned than an enabled
  runtime.
\<close>

theorem kvcached_runs_where_it_was_tried:
  assumes "detect_kvcached parse py_str mode installed vllm = Inr r"
  shows "(kr_enabled r \<longrightarrow> mode \<noteq> KV_DISABLED \<and> (\<exists>package url version.
            installed = Some (package, url) \<and> vllm = Some version
            \<and> (officially_tested (release_tuple version)
               \<or> experimental_vllm (release_tuple version)
                 \<and> source_revision parse py_str url = Inr (Some compat_revision))
            \<and> (''LLM_RIO_KVCACHED_VLLM026_SHIM'' \<in> fst ` set (kvcached_environment b pp os r)
                 \<longleftrightarrow> \<not> officially_tested (release_tuple version))))
    \<and> (mode = KV_REQUIRED \<longrightarrow> kr_enabled r)
    \<and> (memory_backend r = ''kvcached'' \<longleftrightarrow> kvcached_environment b pp os r \<noteq> [])"
  using assms
  by (auto simp: detect_kvcached_def disabled_runtime_def and_then_Inr Let_def memory_backend_def
      kvcached_environment_def split: if_splits option.splits prod.splits)

definition demo_parse :: "string \<Rightarrow> json option" where
  "demo_parse text = Some (JDict [(''vcs_info'', JDict [(''commit_id'', JStr compat_revision)])])"

definition demo_runtime :: kvcached_runtime where
  "demo_runtime =
     \<lparr>kr_enabled = True, kr_package = Some ''0.1.4'', kr_vllm = Some ''0.26.1rc2'', kr_tested = False,
      kr_reason = ''experimental_compatibility_revision'', kr_revision = Some compat_revision\<rparr>"

fun demo_str :: "json \<Rightarrow> string" where
  "demo_str (JStr s) = s"
| "demo_str _ = ''''"

lemma kvcached_runs_where_it_was_tried_witness:
  "detect_kvcached demo_parse demo_str KV_REQUIRED (Some (''0.1.4'', Some ''{}'')) (Some ''0.26.1rc2'')
     = Inr demo_runtime
   \<and> (memory_backend demo_runtime = ''kvcached''
        \<longleftrightarrow> kvcached_environment ''/shim'' None (Some ''/lib'') demo_runtime \<noteq> [])
   \<and> map_of (kvcached_environment ''/shim'' None (Some ''/lib'') demo_runtime) ''PYTHONPATH''
     = Some ''/shim:/lib''"
proof -
  have "detect_kvcached demo_parse demo_str KV_REQUIRED (Some (''0.1.4'', Some ''{}'')) (Some ''0.26.1rc2'')
      = Inr demo_runtime"
    by code_simp
  from kvcached_runs_where_it_was_tried [OF this, of "''/shim''" None "Some ''/lib''"] this
  show ?thesis by (auto simp: demo_runtime_def kvcached_environment_def release_tuple_def is_digit_def)
qed

end
