(* ===== verification/Validation.thy ===== *)
theory Validation
  imports Prism
begin

text \<open>
  \<open>ProfileValidator\<close> of \<^verbatim>\<open>src/src/llm_rio/validation.py\<close>: the command and environment an engine is
  probed with, the contracts it has to meet, the profile that is made of the measurements, and the
  loop over the GPU sets of a shape. What the engine, NVML, the clock and the scheduler answer at each
  step is an argument: a probe is a function of the observations made in it.
\<close>

section \<open>The engine under test\<close>

record validator =
  va_settings :: supervisor_settings
  va_runtime :: kvcached_runtime
  va_reserved :: int
  va_fingerprint :: string

definition va_weight_cache :: "validator \<Rightarrow> bool" where
  "va_weight_cache v \<longleftrightarrow> kr_enabled (va_runtime v) \<and> ws_cache_mode_ram (va_settings v)"

definition validation_port :: "validator \<Rightarrow> int" where
  "validation_port v = ws_port_end (va_settings v) + 1"

definition validation_command ::
  "validator \<Rightarrow> string \<Rightarrow> string \<Rightarrow> string \<Rightarrow> candidate_shape \<Rightarrow> string option \<times> string option
     \<Rightarrow> (string, json) dict \<Rightarrow> exn + arg list" where
  "validation_command v key path name c parsers launch_args =
     add_kvcached_vllm_flags (kr_enabled (va_runtime v))
       ([A (ws_vllm_executable (va_settings v)), A ''serve'', A path, A ''--host'', A ''127.0.0.1'',
         A ''--port'', AInt (validation_port v), A ''--api-key'', A key,
         A ''--served-model-name'', A name,
         A ''--tensor-parallel-size'', AInt (int (cs_gpu_count c)),
         A ''--dtype'', A (cs_dtype c), A ''--max-model-len'', AInt (cs_max_model_len c),
         A ''--gpu-memory-utilization'', AFloat (cs_utilization c)]
        @ opt_int ''--max-num-seqs'' (cs_max_num_seqs c)
        @ opt_int ''--max-num-batched-tokens'' (cs_max_num_batched_tokens c)
        @ (case cs_quantization c of
             Some q \<Rightarrow> if q = [] then [] else [A ''--quantization'', A q]
           | None \<Rightarrow> [])
        @ opt_str [''--enable-auto-tool-choice'', ''--tool-call-parser''] (fst parsers)
        @ opt_str [''--reasoning-parser''] (snd parsers)
        @ (if va_weight_cache v then [A ''--enable-sleep-mode''] else [])
        @ concat (map launch_flag launch_args))"

text \<open>\<open>base_env\<close> is the result of \<open>gpu_environment\<close>, \<open>kvcached_env\<close> that of the kvcached runtime.\<close>

definition validation_environment ::
  "validator \<Rightarrow> string \<Rightarrow> (string, string) dict \<Rightarrow> (string, string) dict \<Rightarrow> (string, string) dict" where
  "validation_environment v key base_env kvcached_env =
     (let env = dict_update (AList.update ''VLLM_API_KEY'' key base_env) kvcached_env
      in if va_weight_cache v then AList.update ''VLLM_SERVER_DEV_MODE'' ''1'' env else env)"

section \<open>Start and capacity\<close>

text \<open>One turn of the loop that waits for \<open>/health\<close>.\<close>

record health_turn =
  ht_expired :: bool
  ht_yield :: bool
  ht_exit :: "int option"
  ht_healthy :: bool

text \<open>\<open>None\<close>: the observed turns are over and the engine is still starting.\<close>

fun wait_for_health :: "health_turn list \<Rightarrow> (failure + unit) option" where
  "wait_for_health [] = None"
| "wait_for_health (t # ts) =
     (if ht_expired t then Some (Inl (invalid ''engine_startup'' ''engine health check timed out'' []))
      else if ht_yield t then Some (Inl Preempted)
      else case ht_exit t of
        Some status \<Rightarrow>
          Some (Inl (invalid ''engine_startup'' (''engine exited with status '' @ decimal status) []))
      | None \<Rightarrow> if ht_healthy t then Some (Inr ()) else wait_for_health ts)"

text \<open>The groups that a pattern captures in a text, in order: the pattern is tried at each position.\<close>

fun find_all :: "(string \<Rightarrow> string option) \<Rightarrow> string \<Rightarrow> string list" where
  "find_all match_at [] = (case match_at [] of None \<Rightarrow> [] | Some g \<Rightarrow> [g])"
| "find_all match_at (c # cs) =
     (case match_at (c # cs) of None \<Rightarrow> [] | Some g \<Rightarrow> [g]) @ find_all match_at cs"

definition strip_prefix :: "string \<Rightarrow> string \<Rightarrow> string option" where
  "strip_prefix p s = (if startswith p s then Some (drop (length p) s) else None)"

definition in_number :: "char \<Rightarrow> char \<Rightarrow> bool" where
  "in_number sep c \<longleftrightarrow> is_digit c \<or> c = sep"

text \<open>A run of number characters after spaces, before \<open>rest\<close>.\<close>

definition number_before :: "char \<Rightarrow> string \<Rightarrow> string \<Rightarrow> string option" where
  "number_before sep rest s =
     (let t = dropWhile is_space s; n = takeWhile (in_number sep) t
      in if n \<noteq> [] \<and> startswith rest (dropWhile (in_number sep) t) then Some n else None)"

definition capacity_at :: "string \<Rightarrow> string option" where
  "capacity_at s =
     Option.bind (strip_prefix ''GPU KV cache size:'' s) (number_before (CHR '','') '' tokens'')"

definition concurrency_at :: "string \<Rightarrow> string option" where
  "concurrency_at s =
     Option.bind (strip_prefix ''Maximum concurrency for '' s) (\<lambda>t.
       let n = takeWhile (in_number (CHR '','')) t in
       if n = [] then None
       else Option.bind (strip_prefix '' tokens per request:'' (dropWhile (in_number (CHR '','')) t))
              (number_before (CHR ''.'') ''x''))"

definition capacity_from_log ::
  "(string \<Rightarrow> rat option) \<Rightarrow> string \<Rightarrow> exn + int option \<times> rat option" where
  "capacity_from_log lit text =
     (let capacities = find_all capacity_at text; concurrencies = find_all concurrency_at text in
      and_then (if capacities = [] then Inr None
                else case int_literal (filter (\<lambda>c. c \<noteq> CHR '','') (last capacities)) of
                       None \<Rightarrow> Inl ValueError | Some n \<Rightarrow> Inr (Some n)) (\<lambda>capacity.
      and_then (if concurrencies = [] then Inr None
                else case lit (last concurrencies) of
                       None \<Rightarrow> Inl ValueError | Some q \<Rightarrow> Inr (Some q)) (\<lambda>concurrency.
        Inr (capacity, concurrency))))"

lemma capacity_of_a_log:
  "capacity_from_log (\<lambda>s. if s = ''4.37'' then Some (437 / 100) else None)
     (''INFO GPU KV cache size: 143,360 tokens'' @ [CHR 0x0A]
      @ ''INFO Maximum concurrency for 32,768 tokens per request: 4.37x'')
   = Inr (Some 143360, Some (437 / 100))"
  by code_simp

section \<open>The generation contract\<close>

record stream_turn =
  tn_yield :: bool
  tn_vram :: "int list"
  tn_line :: string

text \<open>\<open>[max(a, b) for a, b in zip(xs, ys, strict=True)]\<close>\<close>

definition pointwise_max :: "int list \<Rightarrow> int list \<Rightarrow> exn + int list" where
  "pointwise_max xs ys = (if length xs = length ys then Inr (map2 max xs ys) else Inl ValueError)"

fun usage_tokens :: "json \<Rightarrow> int \<Rightarrow> exn + int" where
  "usage_tokens chunk old =
     and_then (member JNull ''usage'' chunk) (\<lambda>u.
       if json_truthy u then and_then (member (JInt 0) ''completion_tokens'' u) json_int
       else Inr old)"

text \<open>The peak, the last count of tokens, and whether the end was announced.\<close>

fun read_stream ::
  "(string \<Rightarrow> json option) \<Rightarrow> stream_turn list \<Rightarrow> int list \<times> int \<times> bool
     \<Rightarrow> failure + int list \<times> int \<times> bool" where
  "read_stream parse [] acc = Inr acc"
| "read_stream parse (t # ts) (peak, tokens, done_seen) =
     (if tn_yield t then Inl Preempted
      else and_then (lift_exn (pointwise_max peak (tn_vram t))) (\<lambda>peak'.
        case strip_prefix ''data: '' (tn_line t) of
          None \<Rightarrow> read_stream parse ts (peak', tokens, done_seen)
        | Some text \<Rightarrow>
            if text = ''[DONE]'' then read_stream parse ts (peak', tokens, True)
            else case parse text of
              None \<Rightarrow> Inl (Crash ValueError)
            | Some chunk \<Rightarrow>
                and_then (lift_exn (usage_tokens chunk tokens)) (\<lambda>n.
                  read_stream parse ts (peak', n, done_seen))))"

text \<open>
  The answer: no connection (an exception that is not caught here), an error status with its
  body, or the lines of the stream and an exception that may end it.
\<close>

datatype generation_answer =
    NoAnswer exn
  | ErrorStatus int string
  | Streamed "stream_turn list" "exn option"

record generation_run =
  gr_first_vram :: "int list"
  gr_answer :: generation_answer
  gr_elapsed :: rat
  gr_exited :: bool

definition last_chars :: "nat \<Rightarrow> string \<Rightarrow> string" where
  "last_chars n s = drop (length s - n) s"

definition generation_contract ::
  "(string \<Rightarrow> json option) \<Rightarrow> generation_run \<Rightarrow> failure + rat \<times> int list" where
  "generation_contract parse g =
     (case gr_answer g of
        NoAnswer e \<Rightarrow> Inl (Crash e)
      | ErrorStatus status body \<Rightarrow>
          Inl (invalid ''generation'' (''generation returned HTTP '' @ decimal status)
            [(''body'', JStr (last_chars 2000 body))])
      | Streamed turns broken \<Rightarrow>
          and_then (read_stream parse turns (gr_first_vram g, 0, False)) (\<lambda>(peak, tokens, done_seen).
          case broken of
            Some e \<Rightarrow> Inl (Crash e)
          | None \<Rightarrow>
              if gr_exited g \<or> \<not> done_seen \<or> tokens \<le> 0
              then Inl (invalid ''streaming_contract'' ''stream or usage contract failed'' [])
              else Inr (of_int tokens / max (gr_elapsed g) (1 / 1000), peak)))"

section \<open>The sleep and wake contract\<close>

text \<open>An HTTP answer: a transport error's message, or the status, the text and the JSON in it.\<close>

datatype answer = Broken string | Answer int string "json option"

record sleep_run =
  sl_yield_before :: bool
  sl_sleep :: answer
  sl_offload :: rat
  sl_is_sleeping :: answer
  sl_vram :: "int list"
  sl_wake :: answer
  sl_activation :: rat
  sl_is_awake :: answer
  sl_yield_after :: bool

definition is_success :: "int \<Rightarrow> bool" where
  "is_success status \<longleftrightarrow> 200 \<le> status \<and> status < 300"

definition weight_cache_error :: "string \<Rightarrow> (string, json) dict \<Rightarrow> failure" where
  "weight_cache_error = invalid ''weight_cache''"

definition posted :: "string \<Rightarrow> answer \<Rightarrow> failure + unit" where
  "posted what a =
     (case a of
        Broken msg \<Rightarrow> Inl (weight_cache_error msg [])
      | Answer status body _ \<Rightarrow>
          if is_success status then Inr ()
          else Inl (weight_cache_error (what @ '' returned HTTP '' @ decimal status)
                 [(''body'', JStr (last_chars 2000 body))]))"

text \<open>\<open>raise_for_status\<close>, then the flag, which has to be the very boolean.\<close>

definition sleep_flag :: "bool \<Rightarrow> string \<Rightarrow> (int \<Rightarrow> string) \<Rightarrow> answer \<Rightarrow> failure + unit" where
  "sleep_flag want message status_text a =
     (case a of
        Broken msg \<Rightarrow> Inl (weight_cache_error msg [])
      | Answer status _ body \<Rightarrow>
          if \<not> is_success status then Inl (weight_cache_error (status_text status) [])
          else case body of
            None \<Rightarrow> Inl (weight_cache_error ''invalid JSON'' [])
          | Some v \<Rightarrow>
              and_then (lift_exn (member JNull ''is_sleeping'' v)) (\<lambda>flag.
                if flag = JBool want then Inr () else Inl (weight_cache_error message [])))"

definition sleep_wake_contract ::
  "(int \<Rightarrow> string) \<Rightarrow> sleep_run \<Rightarrow> failure + rat \<times> rat \<times> int list" where
  "sleep_wake_contract status_text r =
     (if sl_yield_before r then Inl Preempted
      else and_then (posted ''sleep'' (sl_sleep r)) (\<lambda>_.
      and_then (sleep_flag True ''engine did not enter level-1 sleep'' status_text (sl_is_sleeping r)) (\<lambda>_.
      and_then (posted ''wake'' (sl_wake r)) (\<lambda>_.
      and_then (sleep_flag False ''engine remained asleep after wake'' status_text (sl_is_awake r)) (\<lambda>_.
        if sl_yield_after r then Inl Preempted
        else Inr (sl_offload r, sl_activation r, sl_vram r))))))"

section \<open>A probe\<close>

text \<open>What a probe on one GPU set sees, in the order it looks.\<close>

record probe_run =
  pb_launch_args :: "exn + (string, json) dict"
  pb_parsers :: "exn + string option \<times> string option"
  pb_key :: string
  pb_log_path :: string
  pb_spawn_error :: "string option"
  pb_health :: "health_turn list"
  pb_load_seconds :: rat
  pb_log :: string
  pb_idle :: "int list"
  pb_generation :: generation_run
  pb_sleep :: sleep_run
  pb_after_wake :: generation_run
  pb_id :: string
  pb_version :: "string option"

record measured =
  ms_capacity :: "int option"
  ms_concurrency :: "rat option"
  ms_throughput :: rat
  ms_peak :: "int list"
  ms_offload :: "rat option"
  ms_activation :: "rat option"
  ms_sleep_vram :: "int list option"

text \<open>The contracts between the start of the process and its end; \<open>None\<close>: it is still starting.\<close>

definition measure_engine ::
  "(string \<Rightarrow> json option) \<Rightarrow> (string \<Rightarrow> rat option) \<Rightarrow> (int \<Rightarrow> string) \<Rightarrow> bool \<Rightarrow> probe_run
     \<Rightarrow> (failure + measured) option" where
  "measure_engine parse lit status_text cached r =
     (case wait_for_health (pb_health r) of
        None \<Rightarrow> None
      | Some healthy \<Rightarrow> Some
          (and_then healthy (\<lambda>_.
           and_then (lift_exn (capacity_from_log lit (pb_log r))) (\<lambda>(capacity, concurrency).
           and_then (generation_contract parse (pb_generation r)) (\<lambda>(throughput, peak).
           let m = \<lparr>ms_capacity = capacity, ms_concurrency = concurrency,
                    ms_throughput = throughput, ms_peak = peak, ms_offload = None,
                    ms_activation = None, ms_sleep_vram = None\<rparr>
           in if \<not> cached then Inr m
              else and_then (sleep_wake_contract status_text (pb_sleep r)) (\<lambda>(offload, activation, vram).
                   and_then (generation_contract parse (pb_after_wake r)) (\<lambda>(throughput', peak').
                   and_then (lift_exn (pointwise_max peak peak')) (\<lambda>top.
                     Inr (m\<lparr>ms_throughput := min throughput throughput', ms_peak := top,
                            ms_offload := Some offload, ms_activation := Some activation,
                            ms_sleep_vram := Some vram\<rparr>)))))))))"

definition with_log_path :: "string \<Rightarrow> failure \<Rightarrow> failure" where
  "with_log_path path f =
     (case f of
        Invalid e \<Rightarrow> Invalid (e\<lparr>ve_details := setdefault ''log_path'' (JStr path) (ve_details e)\<rparr>)
      | _ \<Rightarrow> f)"

definition probed_profile ::
  "validator \<Rightarrow> string \<Rightarrow> string \<Rightarrow> candidate_shape \<Rightarrow> string list \<Rightarrow> probe_run
     \<Rightarrow> (string, json) dict \<Rightarrow> string option \<times> string option \<Rightarrow> measured \<Rightarrow> placement_profile" where
  "probed_profile v model_id revision c gpus r launch_args parsers m =
     \<lparr>pf_id = pb_id r, pf_model_id = model_id, pf_model_revision = revision, pf_engine = VLLM,
      pf_engine_version = (case pb_version r of None \<Rightarrow> ''executable-managed'' | Some x \<Rightarrow> x),
      pf_machine_fingerprint = va_fingerprint v, pf_gpu_count = int (cs_gpu_count c),
      pf_tensor_parallel_size = int (cs_gpu_count c), pf_pipeline_parallel_size = 1,
      pf_eligible_gpu_sets = [gpus], pf_dtype = cs_dtype c, pf_quantization = cs_quantization c,
      pf_max_model_len = cs_max_model_len c, pf_max_num_seqs = cs_max_num_seqs c,
      pf_max_num_batched_tokens = cs_max_num_batched_tokens c,
      pf_predicted_tokens_per_second = ms_throughput m,
      pf_load_and_warmup_seconds = pb_load_seconds r, pf_idle_vram = pb_idle r,
      pf_peak_vram = ms_peak m, pf_headroom = map (\<lambda>_. va_reserved v) gpus,
      pf_capabilities =
        (if fst parsers \<noteq> None then {''chat'', ''streaming'', ''tools''} else {''chat'', ''streaming''}),
      pf_launch_args = launch_args, pf_gpu_memory_utilization = cs_utilization c,
      pf_kv_cache_capacity_tokens = ms_capacity m, pf_max_full_length_concurrency = ms_concurrency m,
      pf_memory_backend = memory_backend (va_runtime v), pf_sleep_vram = ms_sleep_vram m,
      pf_offload_seconds = ms_offload m, pf_activation_seconds = ms_activation m\<rparr>"

text \<open>What is done to the machine, in order.\<close>

datatype validation_step = Acquired "string list" | Launched | Terminated | GpusReleased "string list"

text \<open>The steps and the result; \<open>None\<close>: the engine is still starting.\<close>

definition probe_vllm ::
  "(string \<Rightarrow> json option) \<Rightarrow> (string \<Rightarrow> rat option) \<Rightarrow> (int \<Rightarrow> string) \<Rightarrow> validator \<Rightarrow> string
     \<Rightarrow> string \<Rightarrow> string \<Rightarrow> string \<Rightarrow> candidate_shape \<Rightarrow> string list \<Rightarrow> probe_run
     \<Rightarrow> validation_step list \<times> (failure + placement_profile) option" where
  "probe_vllm parse lit status_text v model_id revision path name c gpus r =
     (case lift_exn (and_then (pb_launch_args r) (\<lambda>launch_args. and_then (pb_parsers r) (\<lambda>parsers.
              and_then (validation_command v (pb_key r) path name c parsers launch_args)
                (\<lambda>command. Inr (launch_args, parsers))))) of
        Inl f \<Rightarrow> ([], Some (Inl f))
      | Inr (launch_args, parsers) \<Rightarrow>
          (case pb_spawn_error r of
             Some message \<Rightarrow>
               ([], Some (Inl (invalid ''engine_launch'' message [(''log_path'', JStr (pb_log_path r))])))
           | None \<Rightarrow>
               (case measure_engine parse lit status_text (va_weight_cache v) r of
                  None \<Rightarrow> ([Launched], None)
                | Some (Inl f) \<Rightarrow> ([Launched, Terminated], Some (Inl (with_log_path (pb_log_path r) f)))
                | Some (Inr m) \<Rightarrow> ([Launched, Terminated],
                    Some (Inr (probed_profile v model_id revision c gpus r launch_args parsers m))))))"

section \<open>All GPU sets of a shape\<close>

text \<open>
  \<open>probe\<close> is the probe of a GPU set. A set is acquired, however often the scheduler refuses it
  before, probed, and released whatever happened. A preemption or another exception ends the loop.
\<close>

fun validate_sets ::
  "(string list \<Rightarrow> validation_step list \<times> (failure + placement_profile) option) \<Rightarrow> string list list
     \<Rightarrow> placement_profile list \<Rightarrow> validation_error list
     \<Rightarrow> validation_step list \<times> (failure + placement_profile list) option" where
  "validate_sets probe [] profiles failures =
     ([], Some (if profiles = [] \<and> failures \<noteq> [] then Inl (Invalid (last failures)) else Inr profiles))"
| "validate_sets probe (g # gs) profiles failures =
     (case probe g of
        (steps, None) \<Rightarrow> (Acquired g # steps, None)
      | (steps, Some (Inr p)) \<Rightarrow>
          (case validate_sets probe gs (profiles @ [p]) failures of
             (later, result) \<Rightarrow> (Acquired g # steps @ GpusReleased g # later, result))
      | (steps, Some (Inl (Invalid e))) \<Rightarrow>
          (case validate_sets probe gs profiles (failures @ [e]) of
             (later, result) \<Rightarrow> (Acquired g # steps @ GpusReleased g # later, result))
      | (steps, Some (Inl f)) \<Rightarrow> (Acquired g # steps @ [GpusReleased g], Some (Inl f)))"

definition validate_vllm ::
  "(string \<Rightarrow> json option) \<Rightarrow> (string \<Rightarrow> rat option) \<Rightarrow> (int \<Rightarrow> string) \<Rightarrow> validator \<Rightarrow> string
     \<Rightarrow> string \<Rightarrow> string \<Rightarrow> string \<Rightarrow> candidate_shape \<Rightarrow> (string list \<Rightarrow> probe_run)
     \<Rightarrow> validation_step list \<times> (failure + placement_profile list) option" where
  "validate_vllm parse lit status_text v model_id revision path name c runs =
     validate_sets (\<lambda>g. probe_vllm parse lit status_text v model_id revision path name c g (runs g))
       (cs_gpu_sets c) [] []"

section \<open>Nothing is left running\<close>

text \<open>The GPUs held for validation and whether an engine runs; \<open>None\<close> for a step that is out of order.\<close>

fun machine_step :: "validation_step \<Rightarrow> string list option \<times> bool \<Rightarrow> (string list option \<times> bool) option" where
  "machine_step (Acquired g) (held, running) = (if held = None \<and> \<not> running then Some (Some g, False) else None)"
| "machine_step Launched (held, running) = (if held \<noteq> None \<and> \<not> running then Some (held, True) else None)"
| "machine_step Terminated (held, running) = (if running then Some (held, False) else None)"
| "machine_step (GpusReleased g) (held, running) = (if held = Some g \<and> \<not> running then Some (None, False) else None)"

fun machine_after :: "validation_step list \<Rightarrow> string list option \<times> bool \<Rightarrow> (string list option \<times> bool) option" where
  "machine_after [] s = Some s"
| "machine_after (x # xs) s = Option.bind (machine_step x s) (machine_after xs)"

lemma machine_after_append:
  "machine_after (xs @ ys) s = Option.bind (machine_after xs s) (machine_after ys)"
  by (induction xs arbitrary: s) (auto simp: Option.bind_assoc split: Option.bind_splits)

text \<open>A probe that returns has terminated what it launched.\<close>

definition tidy_probe :: "validation_step list \<times> (failure + 'a) option \<Rightarrow> bool" where
  "tidy_probe r \<longleftrightarrow>
     (\<forall>g. machine_after (fst r) (Some g, False) = Some (Some g, snd r = None))"

lemma probe_tidy: "tidy_probe (probe_vllm parse lit status_text v model_id revision path name c g r)"
  by (auto simp: tidy_probe_def probe_vllm_def split: sum.splits option.splits prod.splits)

lemma validate_sets_tidy:
  assumes "\<And>g. tidy_probe (probe g)"
  shows "machine_after (fst (validate_sets probe gs ps fs)) (None, False) =
    Some (if snd (validate_sets probe gs ps fs) = None
          then (Some (last (filter (\<lambda>g. snd (probe g) = None) [hd (dropWhile (\<lambda>g. snd (probe g) \<noteq> None) gs)])), True)
          else (None, False))"
proof (induction gs arbitrary: ps fs)
  case (Cons g gs)
  obtain steps result where p: "probe g = (steps, result)" by (cases "probe g")
  have t: "machine_after steps (Some g, False) = Some (Some g, result = None)"
    using assms [of g] by (simp add: tidy_probe_def p)
  show ?case
  proof (cases result)
    case None
    with p t show ?thesis by simp
  next
    case (Some x)
    show ?thesis
    proof (cases x)
      case (Inr q)
      with Some p t Cons.IH [of "ps @ [q]" fs] show ?thesis
        by (auto simp: machine_after_append split: prod.splits)
    next
      case (Inl f)
      show ?thesis
      proof (cases f)
        case (Invalid e)
        with Inl Some p t Cons.IH [of ps "fs @ [e]"] show ?thesis
          by (auto simp: machine_after_append split: prod.splits)
      qed (use Inl Some p t in \<open>simp_all add: machine_after_append\<close>)
    qed
  qed
qed simp


section \<open>What was validated is what is served\<close>

text \<open>A validation command with the worker's port and key, and the pipeline flag the worker adds.\<close>

definition as_served :: "int \<Rightarrow> string \<Rightarrow> arg list \<Rightarrow> arg list" where
  "as_served port key command =
     take 6 command @ [AInt port, A ''--api-key'', A key] @ take 4 (drop 9 command)
     @ [A ''--pipeline-parallel-size'', AInt 1] @ drop 13 command"

lemma probe_result:
  assumes "probe_vllm parse lit status_text v model_id revision path name c g r = (steps, Some (Inr p))"
  shows "\<exists>args parsers command m. pb_launch_args r = Inr args \<and> pb_parsers r = Inr parsers
    \<and> validation_command v (pb_key r) path name c parsers args = Inr command
    \<and> measure_engine parse lit status_text (va_weight_cache v) r = Some (Inr m)
    \<and> p = probed_profile v model_id revision c g r args parsers m"
proof -
  let ?x = "and_then (pb_launch_args r) (\<lambda>launch_args. and_then (pb_parsers r) (\<lambda>parsers.
    and_then (validation_command v (pb_key r) path name c parsers launch_args)
      (\<lambda>command. Inr (launch_args, parsers))))"
  show ?thesis
  proof (cases ?x)
    case (Inl e)
    with assms show ?thesis by (simp add: probe_vllm_def)
  next
    case (Inr y)
    obtain args parsers where y: "y = (args, parsers)" by (cases y)
    from Inr have "pb_launch_args r = Inr args \<and> pb_parsers r = Inr parsers
        \<and> (\<exists>command. validation_command v (pb_key r) path name c parsers args = Inr command)"
      by (auto simp: and_then_Inr y)
    moreover from assms Inr have "\<exists>m. measure_engine parse lit status_text (va_weight_cache v) r = Some (Inr m)
        \<and> p = probed_profile v model_id revision c g r args parsers m"
      by (auto simp: probe_vllm_def y split: option.splits sum.splits)
    ultimately show ?thesis by blast
  qed
qed

lemma as_served_parts:
  assumes "length pre = 6" "length mid = 4"
  shows "as_served port key (pre @ [a, b, c] @ mid @ rest) =
    pre @ [AInt port, A ''--api-key'', A key] @ mid @ [A ''--pipeline-parallel-size'', AInt 1] @ rest"
  using assms by (simp add: as_served_def)

text \<open>A key that is none of the two flags that kvcached is asked about.\<close>

definition harmless_key :: "string \<Rightarrow> bool" where
  "harmless_key k \<longleftrightarrow> k \<noteq> ''--enable-prefix-caching'' \<and> k \<noteq> ''--no-enable-prefix-caching''"

lemma add_flags_as_served:
  assumes "length pre = 6" "length mid = 4" "harmless_key k" "harmless_key k'"
    "add_kvcached_vllm_flags e (pre @ [AInt n, A ''--api-key'', A k] @ mid @ rest) = Inr command"
  shows "add_kvcached_vllm_flags e
      (pre @ [AInt n', A ''--api-key'', A k'] @ mid @ [A ''--pipeline-parallel-size'', AInt 1] @ rest)
    = Inr (as_served n' k' command)"
proof -
  let ?cmd = "pre @ [AInt n, A ''--api-key'', A k] @ mid @ rest"
  let ?srv = "pre @ [AInt n', A ''--api-key'', A k'] @ mid @ [A ''--pipeline-parallel-size'', AInt 1] @ rest"
  have flags: "A ''--enable-prefix-caching'' \<in> set ?srv \<longleftrightarrow> A ''--enable-prefix-caching'' \<in> set ?cmd"
    "A ''--no-enable-prefix-caching'' \<in> set ?srv \<longleftrightarrow> A ''--no-enable-prefix-caching'' \<in> set ?cmd"
    using assms(3,4) by (auto simp: harmless_key_def)
  have served: "as_served n' k' (pre @ [AInt n, A ''--api-key'', A k] @ mid @ (rest @ xs)) = ?srv @ xs" for xs
    using as_served_parts [OF assms(1,2)] by simp
  show ?thesis
  proof (cases "e \<and> A ''--no-enable-prefix-caching'' \<notin> set ?cmd")
    case True
    with assms(5) have "command = ?cmd @ [A ''--no-enable-prefix-caching'']"
      "A ''--enable-prefix-caching'' \<notin> set ?cmd"
      by (auto simp only: add_kvcached_vllm_flags_def if_True if_False sum.inject split: if_splits)
    with True flags served [of "[A ''--no-enable-prefix-caching'']"] show ?thesis
      by (simp only: add_kvcached_vllm_flags_def append_assoc) simp
  next
    case False
    with assms(5) have "command = ?cmd" "\<not> e \<or> A ''--enable-prefix-caching'' \<notin> set ?cmd"
      by (auto simp only: add_kvcached_vllm_flags_def split: if_splits)
    with False flags served [of "[]"] show ?thesis
      by (simp only: add_kvcached_vllm_flags_def append_Nil2) auto
  qed
qed

lemma serving_command:
  assumes "validation_command v key path name c parsers args = Inr command"
    "ws_kvcached_enabled (va_settings v) = kr_enabled (va_runtime v)"
    "harmless_key key" "harmless_key (ws_api_key (va_settings v))"
    "\<not> (case map_of args ''enable_sleep_mode'' of None \<Rightarrow> False | Some x \<Rightarrow> json_truthy x)"
    "wk_profile w = probed_profile v model_id revision c g r args parsers m"
  shows "worker_command (va_settings v) w path name parsers
    = Inr (as_served (wk_port w) (ws_api_key (va_settings v)) command)"
proof -
  let ?st = "va_settings v" and ?p = "wk_profile w" and ?e = "kr_enabled (va_runtime v)"
  let ?pre = "[A (ws_vllm_executable ?st), A ''serve'', A path, A ''--host'', A ''127.0.0.1'', A ''--port'']"
  let ?mid = "[A ''--served-model-name'', A name, A ''--tensor-parallel-size'', AInt (int (cs_gpu_count c))]"
  let ?sleep = "if va_weight_cache v then [A ''--enable-sleep-mode''] else []"
  let ?rest = "[A ''--dtype'', A (cs_dtype c), A ''--max-model-len'', AInt (cs_max_model_len c),
         A ''--gpu-memory-utilization'', AFloat (cs_utilization c)]
        @ opt_int ''--max-num-seqs'' (cs_max_num_seqs c)
        @ opt_int ''--max-num-batched-tokens'' (cs_max_num_batched_tokens c)
        @ (case cs_quantization c of
             Some q \<Rightarrow> if q = [] then [] else [A ''--quantization'', A q]
           | None \<Rightarrow> [])
        @ opt_str [''--enable-auto-tool-choice'', ''--tool-call-parser''] (fst parsers)
        @ opt_str [''--reasoning-parser''] (snd parsers)
        @ ?sleep @ concat (map launch_flag args)"
  have cmd: "add_kvcached_vllm_flags ?e
      (?pre @ [AInt (validation_port v), A ''--api-key'', A key] @ ?mid @ ?rest) = Inr command"
    using assms(1) by (simp add: validation_command_def)
  have fields: "pf_engine ?p = VLLM" "pf_tensor_parallel_size ?p = int (cs_gpu_count c)"
    "pf_pipeline_parallel_size ?p = 1" "pf_dtype ?p = cs_dtype c" "pf_max_model_len ?p = cs_max_model_len c"
    "pf_gpu_memory_utilization ?p = cs_utilization c" "pf_max_num_seqs ?p = cs_max_num_seqs c"
    "pf_max_num_batched_tokens ?p = cs_max_num_batched_tokens c" "pf_quantization ?p = cs_quantization c"
    "pf_launch_args ?p = args" "(pf_memory_backend ?p = ''kvcached'') = ?e"
    by (simp_all add: assms(6) probed_profile_def memory_backend_def)
  have sleep: "(if ram_weight_cache_enabled ?st \<and> pf_memory_backend ?p = ''kvcached''
      \<and> \<not> (case map_of (pf_launch_args ?p) ''enable_sleep_mode'' of None \<Rightarrow> False | Some x \<Rightarrow> json_truthy x)
      then [A ''--enable-sleep-mode''] else []) = ?sleep"
    using assms(2,5) by (simp add: fields ram_weight_cache_enabled_def va_weight_cache_def)
  have srv: "vllm_command ?st w path name parsers @ concat (map launch_flag (pf_launch_args ?p)) =
      ?pre @ [AInt (wk_port w), A ''--api-key'', A (ws_api_key ?st)] @ ?mid
      @ [A ''--pipeline-parallel-size'', AInt 1] @ ?rest"
    unfolding vllm_command_def Let_def sleep by (simp add: fields)
  have lens: "length ?pre = 6" "length ?mid = 4" by simp_all
  note added = add_flags_as_served [OF lens assms(3,4) cmd, of "wk_port w"]
  have "worker_command ?st w path name parsers =
      add_kvcached_vllm_flags ?e (vllm_command ?st w path name parsers @ concat (map launch_flag (pf_launch_args ?p)))"
    using assms(2) by (cases ?e) (simp_all add: worker_command_def Let_def fields add_kvcached_vllm_flags_def)
  also have "\<dots> = Inr (as_served (wk_port w) (ws_api_key ?st) command)"
    unfolding srv by (rule added)
  finally show ?thesis .
qed

lemma model_args_no_sleep_flag:
  "model_launch_args py_str config = Inr args \<Longrightarrow> map_of args ''enable_sleep_mode'' = None"
  by (auto simp: model_launch_args_def and_then_Inr split: json_file.splits if_splits)

lemma serving_environment:
  assumes "ws_kvcached_enabled (va_settings v) = kr_enabled (va_runtime v)"
    "wk_profile w = probed_profile v model_id revision c g r args parsers m"
  shows "worker_environment (va_settings v) w base (kvcached_environment b pp os (va_runtime v))
    = Inr (validation_environment v (ws_api_key (va_settings v)) base (kvcached_environment b pp os (va_runtime v)))"
proof (cases "kr_enabled (va_runtime v)")
  case True
  then show ?thesis
    by (simp add: worker_environment_def validation_environment_def Let_def assms probed_profile_def
        memory_backend_def ram_weight_cache_enabled_def va_weight_cache_def)
next
  case False
  then show ?thesis
    by (simp add: worker_environment_def validation_environment_def Let_def assms probed_profile_def
        memory_backend_def va_weight_cache_def kvcached_environment_def dict_update_def)
qed

lemma validated_set_is_launchable:
  assumes "ws_kvcached_enabled (va_settings v) = kr_enabled (va_runtime v)" "length g = cs_gpu_count c"
    "overlapping_workers sv g = []"
  shows "launch_checks (va_settings v) sv (probed_profile v model_id revision c g r args parsers m) g = None"
  using assms by (auto simp: launch_checks_def probed_profile_def kvcached_profile_def memory_backend_def)


definition demo_validator :: validator where
  "demo_validator =
     \<lparr>va_settings = demo_settings, va_runtime = demo_runtime, va_reserved = 2048, va_fingerprint = ''fp''\<rparr>"

definition demo_shape :: candidate_shape where
  "demo_shape = hd (build_candidate_shapes demo_shapes demo_inventory 107374182400 131072 ''bfloat16'' None)"

definition demo_stream :: "string \<Rightarrow> json option" where
  "demo_stream text =
     Some (JDict (if text = ''u'' then [(''usage'', JDict [(''completion_tokens'', JInt 24)])] else []))"

definition demo_generation :: "rat \<Rightarrow> generation_run" where
  "demo_generation elapsed =
     (let turn = (\<lambda>vram line. \<lparr>tn_yield = False, tn_vram = vram, tn_line = line\<rparr>)
      in \<lparr>gr_first_vram = [70000, 70100],
          gr_answer = Streamed [turn [70050, 70000] ''data: c'', turn [70000, 70200] '''',
            turn [70000, 70000] ''data: u'', turn [70000, 70000] ''data: [DONE]''] None,
          gr_elapsed = elapsed, gr_exited = False\<rparr>)"

definition demo_probe :: "string list \<Rightarrow> probe_run" where
  "demo_probe gpus =
     \<lparr>pb_launch_args = model_launch_args demo_str (Holds (JDict [(''architectures'', JList [])])),
      pb_parsers = Inr (Some ''qwen3_xml'', Some ''qwen3''), pb_key = ''rio_validation_k'',
      pb_log_path = ''/log'', pb_spawn_error = None,
      pb_health = [\<lparr>ht_expired = False, ht_yield = False, ht_exit = None, ht_healthy = False\<rparr>,
                   \<lparr>ht_expired = False, ht_yield = False,
                    ht_exit = (if ''GPU-a1'' \<in> set gpus then Some (-9) else None), ht_healthy = True\<rparr>],
      pb_load_seconds = 40, pb_log = ''GPU KV cache size: 143,360 tokens'', pb_idle = [69000, 69000],
      pb_generation = demo_generation 2,
      pb_sleep = \<lparr>sl_yield_before = False, sl_sleep = Answer 200 '''' None, sl_offload = 3,
        sl_is_sleeping = Answer 200 '''' (Some (JDict [(''is_sleeping'', JBool True)])),
        sl_vram = [900, 900], sl_wake = Answer 200 '''' None, sl_activation = 1,
        sl_is_awake = Answer 200 '''' (Some (JDict [(''is_sleeping'', JBool False)])),
        sl_yield_after = False\<rparr>,
      pb_after_wake = demo_generation 3, pb_id = ''p-'' @ concat gpus, pb_version = Some ''0.26.1''\<rparr>"

definition demo_validated :: "validation_step list \<times> (failure + placement_profile list) option" where
  "demo_validated =
     validate_vllm demo_stream (\<lambda>_. None) (\<lambda>_. ''status'') demo_validator ''m'' ''rev'' ''/models/m'' ''m''
       demo_shape demo_probe"

text \<open>The engine dies on the sets with the first GPU; the third set yields a profile.\<close>

lemma demo_validation:
  "fst demo_validated =
     [Acquired [''GPU-b2'', ''GPU-c3''], Launched, Terminated, GpusReleased [''GPU-b2'', ''GPU-c3''],
      Acquired [''GPU-a1'', ''GPU-c3''], Launched, Terminated, GpusReleased [''GPU-a1'', ''GPU-c3''],
      Acquired [''GPU-a1'', ''GPU-b2''], Launched, Terminated, GpusReleased [''GPU-a1'', ''GPU-b2'']]
   \<and> (case snd demo_validated of
        Some (Inr [p]) \<Rightarrow>
          pf_predicted_tokens_per_second p = 8 \<and> pf_peak_vram p = [70050, 70200]
          \<and> pf_kv_cache_capacity_tokens p = Some 143360 \<and> pf_sleep_vram p = Some [900, 900]
          \<and> pf_eligible_gpu_sets p = [[''GPU-b2'', ''GPU-c3'']] \<and> pf_memory_backend p = ''kvcached''
      | _ \<Rightarrow> False)"
  by code_simp

definition demo_probed :: placement_profile where
  "demo_probed =
     (case probe_vllm demo_stream (\<lambda>_. None) (\<lambda>_. ''status'') demo_validator ''m'' ''rev'' ''/models/m'' ''m''
             demo_shape [''GPU-b2'', ''GPU-c3''] (demo_probe [''GPU-b2'', ''GPU-c3'']) of
        (_, Some (Inr p)) \<Rightarrow> p)"


end
