(* ===== verification/Registration.thy ===== *)
theory Registration
  imports Validation Scheduler
begin

text \<open>
  \<open>RegistrationManager\<close> of \<^verbatim>\<open>src/src/llm_rio/registration.py\<close>: a job from its start to the published
  model or the recorded failure, with the validation of its shapes and the requeueing of preempted
  ones; and which jobs are running. What the hub, the disk, the model's files and the validator answer
  is given to a run; the clock is read anew for each statement.
\<close>

section \<open>Progress of a job\<close>

definition job_progress ::
  "string \<Rightarrow> string \<Rightarrow> catalog_state \<Rightarrow> (string, json) dict option \<Rightarrow> job_update" where
  "job_progress state stage catalog progress =
     \<lparr>ju_state = state, ju_stage = stage, ju_catalog = catalog, ju_progress = progress,
      ju_failure = None, ju_revision = None, ju_artifact = None, ju_capabilities = None\<rparr>"

text \<open>\<open>message\<close> and \<open>trace\<close> are the texts of the exception and of its traceback.\<close>

definition failure_record ::
  "machine_inventory \<Rightarrow> (exn \<Rightarrow> string) \<Rightarrow> (failure \<Rightarrow> string) \<Rightarrow> failure \<Rightarrow> (string, json) dict" where
  "failure_record mach message trace f =
     [(''stage'', JStr (case f of
         Invalid e \<Rightarrow> ve_stage e | Preempted \<Rightarrow> ''validation'' | Crash _ \<Rightarrow> ''unexpected'')),
      (''message'', JStr (case f of
         Invalid e \<Rightarrow> ve_message e | Preempted \<Rightarrow> ''validation yielded to production inference''
       | Crash e \<Rightarrow> message e)),
      (''details'', JDict (case f of Invalid e \<Rightarrow> ve_details e | _ \<Rightarrow> [])),
      (''environment'', JDict
         [(''machine_fingerprint'', JStr (mi_fingerprint mach)),
          (''driver'', JStr (mi_driver_version mach)),
          (''cuda'', json_opt JStr (mi_cuda_driver_version mach)),
          (''gpu_models'', JList (map (\<lambda>d. JStr (gd_name d)) (mi_gpus mach)))]),
      (''traceback'', JStr (last_chars 8000 (trace f)))]"

definition record_failure ::
  "machine_inventory \<Rightarrow> (exn \<Rightarrow> string) \<Rightarrow> (failure \<Rightarrow> string) \<Rightarrow> datetime \<Rightarrow> string \<Rightarrow> failure
     \<Rightarrow> database \<Rightarrow> exn + database" where
  "record_failure mach message trace now job_id f db =
     update_model_job now job_id
       ((job_progress ''FAILED''
          (case f of Invalid e \<Rightarrow> ve_stage e | Preempted \<Rightarrow> ''validation'' | Crash _ \<Rightarrow> ''unexpected'')
          NEEDS_ADMIN_REVIEW None)
        \<lparr>ju_failure := Some (failure_record mach message trace f)\<rparr>) db"

section \<open>Validating with requeueing\<close>

text \<open>
  \<open>results\<close> are the results of the successive validations of one shape; when they are over the
  job waits for the next. \<open>n\<close> counts the statements, so that \<open>clock n\<close> is the time of the next.
\<close>

datatype shape_outcome =
    Accepted "placement_profile list"
  | Refused validation_error
  | Aborted exn
  | Pending

fun attempt_shape ::
  "(nat \<Rightarrow> datetime) \<Rightarrow> string \<Rightarrow> candidate_shape \<Rightarrow> (failure + placement_profile list) list \<Rightarrow> nat
     \<Rightarrow> database \<Rightarrow> (nat \<times> database) \<times> shape_outcome" where
  "attempt_shape clock job_id c [] n db =
     (case update_model_job (clock n) job_id
             (job_progress ''RUNNING'' ''validating'' VALIDATING
               (Some [(''gpu_count'', JInt (int (cs_gpu_count c)))])) db of
        Inl e \<Rightarrow> ((Suc n, db), Aborted e)
      | Inr db1 \<Rightarrow> ((Suc n, db1), Pending))"
| "attempt_shape clock job_id c (r # results) n db =
     (case update_model_job (clock n) job_id
             (job_progress ''RUNNING'' ''validating'' VALIDATING
               (Some [(''gpu_count'', JInt (int (cs_gpu_count c)))])) db of
        Inl e \<Rightarrow> ((Suc n, db), Aborted e)
      | Inr db1 \<Rightarrow>
          (case r of
             Inr profiles \<Rightarrow> ((Suc n, db1), Accepted profiles)
           | Inl (Invalid e) \<Rightarrow> ((Suc n, db1), Refused e)
           | Inl (Crash e) \<Rightarrow> ((Suc n, db1), Aborted e)
           | Inl Preempted \<Rightarrow>
               (case update_model_job (clock (Suc n)) job_id
                       (job_progress ''QUEUED'' ''validation_requeued'' VALIDATION_PENDING None) db1 of
                  Inl e \<Rightarrow> ((n + 2, db1), Aborted e)
                | Inr db2 \<Rightarrow> attempt_shape clock job_id c results (n + 2) db2)))"

definition enough_shapes :: "placement_profile list \<Rightarrow> candidate_shape \<Rightarrow> bool" where
  "enough_shapes accepted c \<longleftrightarrow>
     (case map pf_gpu_count accepted of
        [] \<Rightarrow> False | k # ks \<Rightarrow> int (cs_gpu_count c) \<ge> fold min ks k + 1)"

definition validation_verdict ::
  "placement_profile list \<Rightarrow> validation_error option \<Rightarrow> failure + placement_profile list" where
  "validation_verdict accepted last_error =
     (case last_error of
        Some e \<Rightarrow> if accepted = [] then Inl (Invalid e) else Inr accepted
      | None \<Rightarrow> Inr accepted)"

text \<open>The shapes with the results of their validations; \<open>None\<close>: the job waits for a validation.\<close>

fun validate_shapes ::
  "(nat \<Rightarrow> datetime) \<Rightarrow> string \<Rightarrow> (candidate_shape \<times> (failure + placement_profile list) list) list
     \<Rightarrow> placement_profile list \<Rightarrow> validation_error option \<Rightarrow> nat \<Rightarrow> database
     \<Rightarrow> (nat \<times> database) \<times> (failure + placement_profile list) option" where
  "validate_shapes clock job_id [] accepted last_error n db =
     ((n, db), Some (validation_verdict accepted last_error))"
| "validate_shapes clock job_id ((c, results) # cs) accepted last_error n db =
     (case attempt_shape clock job_id c results n db of
        ((n', db'), Pending) \<Rightarrow> ((n', db'), None)
      | ((n', db'), Aborted e) \<Rightarrow> ((n', db'), Some (Inl (Crash e)))
      | ((n', db'), Refused e) \<Rightarrow>
          if enough_shapes accepted c then ((n', db'), Some (validation_verdict accepted (Some e)))
          else validate_shapes clock job_id cs accepted (Some e) n' db'
      | ((n', db'), Accepted profiles) \<Rightarrow>
          if enough_shapes (accepted @ profiles) c
          then ((n', db'), Some (validation_verdict (accepted @ profiles) last_error))
          else validate_shapes clock job_id cs (accepted @ profiles) last_error n' db')"

definition validate_with_requeue ::
  "shape_settings \<Rightarrow> machine_inventory \<Rightarrow> (nat \<Rightarrow> datetime) \<Rightarrow> string
     \<Rightarrow> (nat \<Rightarrow> (failure + placement_profile list) list) \<Rightarrow> inspection \<Rightarrow> nat \<Rightarrow> database
     \<Rightarrow> (nat \<times> database) \<times> (failure + placement_profile list) option" where
  "validate_with_requeue st mach clock job_id results i n db =
     (let shapes = build_candidate_shapes st mach (in_weight_bytes i) (in_max_model_len i)
                     (in_dtype i) (in_quantization i)
      in if shapes = []
         then ((n, db), Some (Inl (invalid ''candidate_shapes'' ''model cannot fit any homogeneous GPU set'' [])))
         else validate_shapes clock job_id (map (\<lambda>(k, c). (c, results k)) (enumerate 0 shapes)) [] None n db)"

section \<open>Publishing\<close>

text \<open>\<open>INSERT OR IGNORE\<close>: a grant that exists is skipped, a missing key or model is not.\<close>

fun grant_keys :: "datetime \<Rightarrow> string \<Rightarrow> string list \<Rightarrow> database \<Rightarrow> exn + database" where
  "grant_keys now mid [] db = Inr db"
| "grant_keys now mid (k # ks) db =
     (if has_model_grant k mid db then grant_keys now mid ks db
      else and_then (insert_grants now k [mid] db) (grant_keys now mid ks))"

definition common_capabilities :: "placement_profile list \<Rightarrow> string list" where
  "common_capabilities ps =
     sorted_list_of_set (fold (\<lambda>p caps. caps \<inter> pf_capabilities p) (tl ps) (pf_capabilities (hd ps)))"

definition published_model ::
  "datetime \<Rightarrow> resolved \<Rightarrow> string \<Rightarrow> placement_profile list \<Rightarrow> model_row \<Rightarrow> model_row" where
  "published_model now r path ps m =
     m\<lparr>mc_state := AVAILABLE, mc_resolved_revision := Some (rs_revision r),
       mc_artifact_path := Some path, mc_artifact_hashes := map artifact_json (rs_artifacts r),
       mc_capabilities := common_capabilities ps,
       mc_request_limits := [(''max_context_tokens'',
         JInt (fold min (map pf_max_model_len (tl ps)) (pf_max_model_len (hd ps))))],
       mc_updated_at := now\<rparr>"

definition deactivate_profiles :: "string \<Rightarrow> string \<Rightarrow> database \<Rightarrow> database" where
  "deactivate_profiles mid fp db =
     db\<lparr>db_profiles := update_rows (\<lambda>r. mp_model r = mid \<and> mp_fingerprint r = fp)
          (\<lambda>r. r\<lparr>mp_active := False\<rparr>) (db_profiles db)\<rparr>"

text \<open>The profile's key is the digest of its own identifying fields.\<close>

definition key_of :: "(json \<Rightarrow> string) \<Rightarrow> placement_profile \<Rightarrow> string" where
  "key_of hash p = profile_key hash (profile_to_dict p)"

definition publish ::
  "(json \<Rightarrow> string) \<Rightarrow> string \<Rightarrow> datetime \<Rightarrow> job_row \<Rightarrow> resolved \<Rightarrow> string \<Rightarrow> placement_profile list
     \<Rightarrow> database \<Rightarrow> exn + database" where
  "publish hash fp now j r path ps db =
     and_then (insert_each (\<lambda>p. save_profile now p (key_of hash p)) ps
                 (deactivate_profiles (mj_model j) fp db)) (\<lambda>db1.
     and_then (grant_keys now (mj_model j) (mj_grants j)
                 (db1\<lparr>db_models := update_rows (\<lambda>m. mc_id m = mj_model j)
                        (published_model now r path ps) (db_models db1)\<rparr>)) (\<lambda>db2.
       Inr (db2\<lparr>db_jobs := update_rows (\<lambda>x. mj_id x = mj_id j)
              (\<lambda>x. x\<lparr>mj_state := ''COMPLETED'', mj_stage := ''complete'',
                     mj_progress := [(''profiles'', JInt (int (length ps)))],
                     mj_updated_at := now\<rparr>) (db_jobs db2)\<rparr>)))"

section \<open>A run of a job\<close>

text \<open>What a run sees.\<close>

record job_run =
  jr_clock :: "nat \<Rightarrow> datetime"
  jr_resolved :: "exn + resolved"
  jr_free_disk :: int
  jr_download :: "exn + string"
  jr_config :: json_file
  jr_tokenizer :: json_file
  jr_validations :: "nat \<Rightarrow> (failure + placement_profile list) list"

record job_env =
  je_shapes :: shape_settings
  je_machine :: machine_inventory
  je_hash :: "json \<Rightarrow> string"
  je_template_hash :: "json \<Rightarrow> string"
  je_message :: "exn \<Rightarrow> string"
  je_trace :: "failure \<Rightarrow> string"

datatype run_status = NoSuchJob | Published string | Failed failure | Waiting_for_validation

text \<open>
  The body of the \<open>try\<close> block: the statements run so far with the database they left, and the
  profiles, a failure, or \<open>None\<close> while it waits.
\<close>

definition prepare_job ::
  "job_env \<Rightarrow> job_run \<Rightarrow> string \<Rightarrow> database
     \<Rightarrow> (nat \<times> database) \<times> (failure + resolved \<times> string \<times> inspection)" where
  "prepare_job env u job_id db =
     (case update_model_job (jr_clock u 0) job_id (job_progress ''RUNNING'' ''resolve'' DOWNLOADING None) db of
        Inl e \<Rightarrow> ((1, db), Inl (Crash e))
      | Inr db1 \<Rightarrow>
      (case and_then (lift_exn (jr_resolved u)) (\<lambda>r.
              and_then (check_disk (jr_free_disk u) (rs_bytes r)) (\<lambda>_. Inr r)) of
         Inl f \<Rightarrow> ((1, db1), Inl f)
       | Inr r \<Rightarrow>
      (case update_model_job (jr_clock u 1) job_id
              ((job_progress ''RUNNING'' ''download'' DOWNLOADING
                 (Some [(''download_bytes'', JInt (rs_bytes r))]))\<lparr>ju_revision := Some (rs_revision r)\<rparr>) db1 of
         Inl e \<Rightarrow> ((2, db1), Inl (Crash e))
       | Inr db2 \<Rightarrow>
      (case and_then (lift_exn (jr_download u)) (\<lambda>path.
              and_then (inspect (je_template_hash env) (jr_config u) (jr_tokenizer u) r) (\<lambda>i. Inr (path, i))) of
         Inl f \<Rightarrow> ((2, db2), Inl f)
       | Inr (path, i) \<Rightarrow>
      (case update_model_job (jr_clock u 2) job_id
              ((job_progress ''RUNNING'' ''validation_pending'' VALIDATION_PENDING
                 (Some [(''inspection'', JDict (inspection_json i))]))
               \<lparr>ju_artifact := Some path, ju_capabilities := Some (in_capabilities i)\<rparr>) db2 of
         Inl e \<Rightarrow> ((3, db2), Inl (Crash e))
       | Inr db3 \<Rightarrow> ((3, db3), Inr (r, path, i)))))))"

definition attempt_job ::
  "job_env \<Rightarrow> job_run \<Rightarrow> job_row \<Rightarrow> database \<Rightarrow> (nat \<times> database) \<times> (failure + unit) option" where
  "attempt_job env u j db =
     (case prepare_job env u (mj_id j) db of
        ((n, db1), Inl f) \<Rightarrow> ((n, db1), Some (Inl f))
      | ((n, db1), Inr (r, path, i)) \<Rightarrow>
          (case validate_with_requeue (je_shapes env) (je_machine env) (jr_clock u) (mj_id j)
                  (jr_validations u) i n db1 of
             ((n2, db2), None) \<Rightarrow> ((n2, db2), None)
           | ((n2, db2), Some (Inl f)) \<Rightarrow> ((n2, db2), Some (Inl f))
           | ((n2, db2), Some (Inr ps)) \<Rightarrow>
               if ps = []
               then ((n2, db2),
                     Some (Inl (invalid ''validation'' ''no candidate placement passed validation'' [])))
               else (case publish (je_hash env) (mi_fingerprint (je_machine env)) (jr_clock u n2) j r path
                            ps db2 of
                       Inl e \<Rightarrow> ((Suc n2, db2), Some (Inl (Crash e)))
                     | Inr db3 \<Rightarrow> ((Suc n2, db3), Some (Inr ())))))"

text \<open>When the failure cannot be recorded either, its exception ends the task with the job as it was.\<close>

definition run_job :: "job_env \<Rightarrow> job_run \<Rightarrow> string \<Rightarrow> database \<Rightarrow> database \<times> run_status" where
  "run_job env u job_id db =
     (case get_model_job job_id db of
        None \<Rightarrow> (db, NoSuchJob)
      | Some (j, m) \<Rightarrow>
          (case attempt_job env u j db of
             ((n, db1), None) \<Rightarrow> (db1, Waiting_for_validation)
           | ((n, db1), Some (Inr _)) \<Rightarrow> (db1, Published (mj_model j))
           | ((n, db1), Some (Inl f)) \<Rightarrow>
               (case record_failure (je_machine env) (je_message env) (je_trace env) (jr_clock u n) job_id f db1 of
                  Inl _ \<Rightarrow> (db1, Failed f)
                | Inr db2 \<Rightarrow> (db2, Failed f))))"

text \<open>The run in the service: a published model is warmed once.\<close>

definition register_and_warm ::
  "sched_env \<Rightarrow> job_env \<Rightarrow> job_run \<Rightarrow> datetime \<Rightarrow> string \<Rightarrow> scheduler \<Rightarrow> scheduler \<times> run_status" where
  "register_and_warm senv env u now job_id s =
     (case run_job env u job_id (sc_db s) of
        (db, Published mid) \<Rightarrow> (warm_model_once senv now mid (s\<lparr>sc_db := db\<rparr>), Published mid)
      | (db, status) \<Rightarrow> (s\<lparr>sc_db := db\<rparr>, status))"

section \<open>Which jobs run\<close>

text \<open>The tasks by job id; \<open>True\<close> when the task is done.\<close>

type_synonym job_tasks = "(string, bool) dict"

text \<open>The result tells whether a new task was created.\<close>

definition start_job :: "string \<Rightarrow> job_tasks \<Rightarrow> job_tasks \<times> bool" where
  "start_job job_id tasks =
     (if map_of tasks job_id \<in> {None, Some True} then (AList.update job_id False tasks, True)
      else (tasks, False))"

definition resumable :: "database \<Rightarrow> string list" where
  "resumable db = map mj_id [j \<leftarrow> db_jobs db. mj_state j \<in> {''QUEUED'', ''RUNNING''}]"

definition resume_jobs :: "database \<Rightarrow> job_tasks \<Rightarrow> job_tasks" where
  "resume_jobs db tasks = fold (\<lambda>job_id. fst \<circ> start_job job_id) (resumable db) tasks"

section \<open>A published model is served\<close>

lemma key_of_id [simp]: "key_of hash (p\<lparr>pf_id := x\<rparr>) = key_of hash p"
  by (simp add: key_of_def profile_key_def identifying_keys_def get_or_def profile_to_dict_def)

text \<open>A row that stores a profile under the row's own id.\<close>

definition stores :: "(json \<Rightarrow> string) \<Rightarrow> placement_profile \<Rightarrow> profile_row \<Rightarrow> bool" where
  "stores hash p r \<longleftrightarrow> mp_key r = key_of hash p
     \<and> mp_profile r = AList.update ''id'' (JStr (mp_id r)) (profile_to_dict p)"

lemma read_stored:
  assumes "stores hash p r" "finite (pf_capabilities p)" "pf_machine_fingerprint p = fp"
  shows "read_profile lit fp r = Inr (p\<lparr>pf_id := mp_id r\<rparr>)"
  unfolding read_profile_def
proof (rule read_written)
  let ?p = "p\<lparr>pf_id := mp_id r\<rparr>"
  show "finite (pf_capabilities ?p)" using assms(2) by simp
  show "\<forall>k \<in> set (keys (profile_to_dict ?p)).
      map_of (AList.update ''machine_fingerprint'' (JStr fp)
        (AList.update ''id'' (JStr (mp_id r)) (mp_profile r))) k = map_of (profile_to_dict ?p) k"
    using assms(1,3) by (simp add: stores_def update_conv' profile_to_dict_def)
qed

text \<open>
  While the profiles are saved: \<open>done\<close> are saved, \<open>ks\<close> are the keys of all of them. The active rows
  of the model on the machine store exactly the saved ones.
\<close>

definition saving :: "(json \<Rightarrow> string) \<Rightarrow> string \<Rightarrow> string \<Rightarrow> string set \<Rightarrow> placement_profile list \<Rightarrow> profile_row list \<Rightarrow> bool" where
  "saving hash fp mid ks saved rows \<longleftrightarrow>
     unique_on mp_key rows
     \<and> (\<forall>r \<in> set rows. mp_key r \<in> ks \<longrightarrow> mp_model r = mid \<and> mp_fingerprint r = fp)
     \<and> (\<forall>r \<in> set rows. mp_model r = mid \<and> mp_fingerprint r = fp \<and> mp_active r
          \<longrightarrow> (\<exists>p \<in> set saved. stores hash p r))
     \<and> (\<forall>p \<in> set saved. \<exists>r \<in> set rows. mp_key r = key_of hash p \<and> mp_active r)"

lemma saving_update:
  assumes s: "saving hash fp mid ks saved rows" and k: "key_of hash p \<in> ks" "has_row mp_key (key_of hash p) rows"
  shows "saving hash fp mid ks (saved @ [p]) (update_rows (\<lambda>r. mp_key r = key_of hash p)
    (\<lambda>r. r\<lparr>mp_profile := AList.update ''id'' (JStr (mp_id r)) (profile_to_dict p),
           mp_verified_at := now, mp_active := True\<rparr>) rows)"
proof -
  let ?f = "\<lambda>r. r\<lparr>mp_profile := AList.update ''id'' (JStr (mp_id r)) (profile_to_dict p),
           mp_verified_at := now, mp_active := True\<rparr>"
  let ?g = "\<lambda>r. if mp_key r = key_of hash p then ?f r else r"
  note s = s [unfolded saving_def]
  have rows: "set (update_rows (\<lambda>r. mp_key r = key_of hash p) ?f rows) = ?g ` set rows"
    by (rule set_update_rows)
  have g: "mp_key (?g r) = mp_key r" "mp_model (?g r) = mp_model r" "mp_fingerprint (?g r) = mp_fingerprint r"
    "mp_active r \<Longrightarrow> mp_active (?g r)" for r by simp_all
  have new: "stores hash p (?g r)" if "mp_key r = key_of hash p" for r
    using that by (simp add: stores_def)
  show ?thesis
    unfolding saving_def
  proof (intro conjI ballI impI)
    show "unique_on mp_key (update_rows (\<lambda>r. mp_key r = key_of hash p) ?f rows)"
      using s by (simp add: map_update_rows)
  next
    fix r' assume "r' \<in> set (update_rows (\<lambda>r. mp_key r = key_of hash p) ?f rows)" "mp_key r' \<in> ks"
    then obtain r where "r \<in> set rows" "r' = ?g r" "mp_key r \<in> ks" unfolding rows using g(1) by auto
    with s g show "mp_model r' = mid" "mp_fingerprint r' = fp" by auto
  next
    fix r' assume r': "r' \<in> set (update_rows (\<lambda>r. mp_key r = key_of hash p) ?f rows)"
      "mp_model r' = mid \<and> mp_fingerprint r' = fp \<and> mp_active r'"
    then obtain r where r: "r \<in> set rows" "r' = ?g r" unfolding rows by auto
    show "\<exists>q \<in> set (saved @ [p]). stores hash q r'"
    proof (cases "mp_key r = key_of hash p")
      case True
      with new r show ?thesis by auto
    next
      case False
      with r r' s show ?thesis by auto
    qed
  next
    fix q assume "q \<in> set (saved @ [p])"
    then consider "q \<in> set saved" | "q = p" by auto
    then show "\<exists>r \<in> set (update_rows (\<lambda>r. mp_key r = key_of hash p) ?f rows). mp_key r = key_of hash q \<and> mp_active r"
    proof cases
      case 1
      with s obtain r where "r \<in> set rows" "mp_key r = key_of hash q" "mp_active r" by blast
      then show ?thesis unfolding rows using g by (intro bexI [of _ "?g r"]) auto
    next
      case 2
      from k(2) obtain r where "r \<in> set rows" "mp_key r = key_of hash p" by auto
      with 2 show ?thesis unfolding rows by (intro bexI [of _ "?g r"]) auto
    qed
  qed
qed

lemma saving_insert:
  assumes s: "saving hash fp mid ks saved rows" and r: "\<not> has_row mp_key (key_of hash p) rows"
    "stores hash p r" "mp_model r = mid" "mp_fingerprint r = fp" "mp_active r"
  shows "saving hash fp mid ks (saved @ [p]) (rows @ [r])"
  using assms unfolding saving_def stores_def by auto

lemma save_step:
  assumes "save_profile now p (key_of hash p) db = Inr db'" "saving hash fp mid ks saved (db_profiles db)"
    "key_of hash p \<in> ks" "pf_model_id p = mid" "pf_machine_fingerprint p = fp"
  shows "saving hash fp mid ks (saved @ [p]) (db_profiles db') \<and> db_models db' = db_models db"
proof (cases "has_row mp_key (key_of hash p) (db_profiles db)")
  case True
  with assms(1) have "db' = db\<lparr>db_profiles := update_rows (\<lambda>r. mp_key r = key_of hash p)
      (\<lambda>r. r\<lparr>mp_profile := AList.update ''id'' (JStr (mp_id r)) (profile_to_dict p),
           mp_verified_at := now, mp_active := True\<rparr>) (db_profiles db)\<rparr>"
    by (simp add: save_profile_def)
  with saving_update [OF assms(2,3) True] show ?thesis by simp
next
  case False
  let ?r = "\<lparr>mp_id = pf_id p, mp_model = pf_model_id p, mp_fingerprint = pf_machine_fingerprint p,
      mp_key = key_of hash p, mp_profile = profile_to_dict p, mp_verified_at = now, mp_active = True\<rparr>"
  from False assms(1) have "insert_profile ?r db = Inr db'" by (simp add: save_profile_def)
  then have db': "db' = db\<lparr>db_profiles := db_profiles db @ [?r]\<rparr>"
    by (simp add: insert_profile_def split: if_splits)
  have "stores hash p ?r" by (simp add: stores_def profile_to_dict_def)
  from saving_insert [OF assms(2) False this] assms(4,5) show ?thesis by (simp add: db')
qed

lemma save_all:
  assumes "insert_each (\<lambda>p. save_profile now p (key_of hash p)) ps db = Inr db'"
    "saving hash fp mid ks saved (db_profiles db)" "key_of hash ` set ps \<subseteq> ks"
    "\<forall>p \<in> set ps. pf_model_id p = mid \<and> pf_machine_fingerprint p = fp"
  shows "saving hash fp mid ks (saved @ ps) (db_profiles db') \<and> db_models db' = db_models db"
  using assms
proof (induction ps arbitrary: db saved)
  case (Cons p ps)
  from Cons.prems(1) obtain db1 where d: "save_profile now p (key_of hash p) db = Inr db1"
    "insert_each (\<lambda>p. save_profile now p (key_of hash p)) ps db1 = Inr db'"
    by (auto simp: and_then_Inr)
  have "key_of hash p \<in> ks" "pf_model_id p = mid" "pf_machine_fingerprint p = fp"
    using Cons.prems(3,4) by auto
  note one = save_step [OF d(1) Cons.prems(2) this]
  have "key_of hash ` set ps \<subseteq> ks" "\<forall>p \<in> set ps. pf_model_id p = mid \<and> pf_machine_fingerprint p = fp"
    using Cons.prems(3,4) by auto
  from Cons.IH [OF d(2) conjunct1 [OF one] this] one show ?case by simp
qed simp

lemma saving_start:
  assumes "unique_on mp_key (db_profiles db)"
    "\<forall>r \<in> set (db_profiles db). mp_key r \<in> ks \<longrightarrow> mp_model r = mid \<and> mp_fingerprint r = fp"
  shows "saving hash fp mid ks [] (db_profiles (deactivate_profiles mid fp db))"
proof -
  let ?g = "\<lambda>r. if mp_model r = mid \<and> mp_fingerprint r = fp then r\<lparr>mp_active := False\<rparr> else r"
  have rows: "set (db_profiles (deactivate_profiles mid fp db)) = ?g ` set (db_profiles db)"
    by (simp add: deactivate_profiles_def set_update_rows)
  have g: "mp_key (?g r) = mp_key r" "mp_model (?g r) = mp_model r" "mp_fingerprint (?g r) = mp_fingerprint r"
    "mp_model r = mid \<Longrightarrow> mp_fingerprint r = fp \<Longrightarrow> \<not> mp_active (?g r)" for r by simp_all
  show ?thesis
    unfolding saving_def
  proof (intro conjI ballI impI)
    show "unique_on mp_key (db_profiles (deactivate_profiles mid fp db))"
      using assms(1) by (simp add: deactivate_profiles_def map_update_rows)
  next
    fix r' assume "r' \<in> set (db_profiles (deactivate_profiles mid fp db))" "mp_key r' \<in> ks"
    moreover from this(1) obtain r where r: "r \<in> set (db_profiles db)" "r' = ?g r"
      unfolding rows by blast
    ultimately have "mp_key r \<in> ks" by (simp only: g(1))
    with assms(2) r(1) have "mp_model r = mid \<and> mp_fingerprint r = fp" by blast
    then show "mp_model r' = mid" "mp_fingerprint r' = fp" unfolding r(2) by simp_all
  next
    fix r' assume r': "r' \<in> set (db_profiles (deactivate_profiles mid fp db))"
      "mp_model r' = mid \<and> mp_fingerprint r' = fp \<and> mp_active r'"
    then obtain r where r: "r' = ?g r" unfolding rows by blast
    have False using r'(2) unfolding r g(2,3) using g(4) [of r] by blast
    then show "\<exists>p \<in> set []. stores hash p r'" ..
  qed simp
qed

lemma grant_keys_frame:
  assumes "grant_keys now mid ks db = Inr db'"
  shows "db_profiles db' = db_profiles db \<and> db_models db' = db_models db
    \<and> (\<forall>k \<in> set ks. has_model_grant k mid db') \<and> (\<forall>k. has_model_grant k mid db \<longrightarrow> has_model_grant k mid db')"
  using assms
proof (induction ks arbitrary: db)
  case (Cons k ks)
  show ?case
  proof (cases "has_model_grant k mid db")
    case True
    with Cons.prems have "grant_keys now mid ks db = Inr db'" by simp
    from Cons.IH [OF this] True show ?thesis by simp
  next
    case False
    then obtain db1 where d: "insert_grants now k [mid] db = Inr db1" "grant_keys now mid ks db1 = Inr db'"
      using Cons.prems by (auto simp: and_then_Inr)
    then have "db1 = db\<lparr>db_grants := db_grants db @ [\<lparr>mg_key = k, mg_model = mid, mg_created_at = now\<rparr>]\<rparr>"
      by (simp split: if_splits)
    then have "db_profiles db1 = db_profiles db" "db_models db1 = db_models db" "has_model_grant k mid db1"
      "\<forall>k'. has_model_grant k' mid db \<longrightarrow> has_model_grant k' mid db1"
      by (auto simp: has_model_grant_def)
    with Cons.IH [OF d(2)] show ?thesis by simp
  qed
qed simp

lemma set_ordered_profiles [simp]: "set (ordered_profiles rows) = set rows"
  by (simp add: ordered_profiles_def sort_desc_def)

lemma served_of_saving:
  assumes "saving hash fp mid ks ps (db_profiles db)" "key_of hash ` set ps \<subseteq> ks"
    "\<forall>p \<in> set ps. pf_model_id p = mid \<and> pf_machine_fingerprint p = fp \<and> finite (pf_capabilities p)"
  shows "\<exists>served. profiles_for_model lit fp mid db = Inr served
    \<and> (\<forall>q \<in> set served. \<exists>p \<in> set ps. q = p\<lparr>pf_id := pf_id q\<rparr>)
    \<and> key_of hash ` set served = key_of hash ` set ps"
proof -
  let ?rows = "active_rows fp mid db"
  note s = assms(1) [unfolded saving_def]
  have "\<forall>r \<in> set ?rows. \<exists>p. p \<in> set ps \<and> stores hash p r"
    using s unfolding active_rows_def machine_rows_def by (simp only: set_filter) blast
  from bchoice [OF this] obtain pick where
    pick: "\<forall>r \<in> set ?rows. pick r \<in> set ps \<and> stores hash (pick r) r" by blast
  let ?q = "\<lambda>r. (pick r)\<lparr>pf_id := mp_id r\<rparr>"
  have "profiles_for_model lit fp mid db = Inr (map ?q (ordered_profiles ?rows))"
    unfolding profiles_for_model_def
  proof (rule traverse_Inr)
    fix r assume "r \<in> set (ordered_profiles ?rows)"
    then have "pick r \<in> set ps \<and> stores hash (pick r) r" using pick by simp
    with assms(3) show "read_profile lit fp r = Inr (?q r)" by (blast intro: read_stored)
  qed
  moreover have "\<forall>q \<in> set (map ?q (ordered_profiles ?rows)). \<exists>p \<in> set ps. q = p\<lparr>pf_id := pf_id q\<rparr>"
    using pick by fastforce
  moreover have "key_of hash ` set (map ?q (ordered_profiles ?rows)) = key_of hash ` set ps"
  proof -
    have "key_of hash ` set (map ?q (ordered_profiles ?rows)) = mp_key ` set ?rows"
      using pick by (auto simp: stores_def image_iff)
    also have "\<dots> = key_of hash ` set ps"
    proof
      show "mp_key ` set ?rows \<subseteq> key_of hash ` set ps" using pick by (auto simp: stores_def)
      show "key_of hash ` set ps \<subseteq> mp_key ` set ?rows"
      proof
        fix k assume "k \<in> key_of hash ` set ps"
        then obtain p where p: "p \<in> set ps" "k = key_of hash p" by blast
        with s obtain r where r: "r \<in> set (db_profiles db)" "mp_key r = k" "mp_active r" by blast
        with s assms(2) p have "mp_model r = mid \<and> mp_fingerprint r = fp" by blast
        with r show "k \<in> mp_key ` set ?rows" by (auto simp: active_rows_def machine_rows_def)
      qed
    qed
    finally show ?thesis .
  qed
  ultimately show ?thesis by blast
qed

lemma publish_parts:
  assumes "publish hash fp now j r path ps db = Inr db'"
  shows "\<exists>db1. insert_each (\<lambda>p. save_profile now p (key_of hash p)) ps (deactivate_profiles (mj_model j) fp db) = Inr db1
    \<and> db_profiles db' = db_profiles db1
    \<and> db_models db' = update_rows (\<lambda>m. mc_id m = mj_model j) (published_model now r path ps) (db_models db1)
    \<and> (\<forall>k \<in> set (mj_grants j). has_model_grant k (mj_model j) db')
    \<and> (\<forall>x \<in> set (db_jobs db'). mj_id x = mj_id j \<longrightarrow> mj_state x = ''COMPLETED'')"
proof -
  from assms obtain db1 db2 where d:
    "insert_each (\<lambda>p. save_profile now p (key_of hash p)) ps (deactivate_profiles (mj_model j) fp db) = Inr db1"
    "grant_keys now (mj_model j) (mj_grants j)
       (db1\<lparr>db_models := update_rows (\<lambda>m. mc_id m = mj_model j) (published_model now r path ps) (db_models db1)\<rparr>)
       = Inr db2"
    "db' = db2\<lparr>db_jobs := update_rows (\<lambda>x. mj_id x = mj_id j)
              (\<lambda>x. x\<lparr>mj_state := ''COMPLETED'', mj_stage := ''complete'',
                     mj_progress := [(''profiles'', JInt (int (length ps)))],
                     mj_updated_at := now\<rparr>) (db_jobs db2)\<rparr>"
    unfolding publish_def and_then_Inr by blast
  note g = grant_keys_frame [OF d(2)]
  have "has_model_grant k m db' = has_model_grant k m db2" for k m
    by (simp add: d(3) has_model_grant_def)
  moreover have "mj_state x = ''COMPLETED''" if "x \<in> set (db_jobs db')" "mj_id x = mj_id j" for x
    using that by (auto simp: d(3) set_update_rows split: if_splits)
  ultimately show ?thesis using d(1) g by (intro exI [of _ db1]) (simp add: d(3))
qed

definition smallest_context :: "placement_profile list \<Rightarrow> int" where
  "smallest_context ps = fold min (map pf_max_model_len (tl ps)) (pf_max_model_len (hd ps))"

lemma smallest_context_le:
  assumes "p \<in> set ps"
  shows "smallest_context ps \<le> pf_max_model_len p"
proof -
  from assms have "ps \<noteq> []" by auto
  then have "set (pf_max_model_len (hd ps) # map pf_max_model_len (tl ps)) = pf_max_model_len ` set ps"
    by (cases ps) auto
  with assms show ?thesis unfolding smallest_context_def by (intro fold_min_le) auto
qed


section \<open>Every run is decided\<close>

definition job_at :: "string \<Rightarrow> string \<Rightarrow> database \<Rightarrow> bool" where
  "job_at job_id mid db \<longleftrightarrow>
     (\<exists>j. find_row mj_id job_id (db_jobs db) = Some j \<and> mj_model j = mid)"

definition job_states :: "string \<Rightarrow> string \<Rightarrow> string \<Rightarrow> catalog_state \<Rightarrow> database \<Rightarrow> bool" where
  "job_states job_id mid st cat db \<longleftrightarrow>
     (\<forall>x \<in> set (db_jobs db). mj_id x = job_id \<longrightarrow> mj_state x = st)
     \<and> (\<forall>m \<in> set (db_models db). mc_id m = mid \<longrightarrow> mc_state m = cat)"

text \<open>A run before its publication touches neither profiles nor grants, and its job stays.\<close>

definition keeps_catalog :: "string \<Rightarrow> string \<Rightarrow> database \<Rightarrow> database \<Rightarrow> bool" where
  "keeps_catalog job_id mid db db' \<longleftrightarrow>
     job_at job_id mid db' \<and> db_profiles db' = db_profiles db \<and> db_grants db' = db_grants db"

lemma keeps_trans:
  "keeps_catalog job_id mid db db1 \<Longrightarrow> keeps_catalog job_id mid db1 db2 \<Longrightarrow> keeps_catalog job_id mid db db2"
  by (simp add: keeps_catalog_def)

lemma keeps_refl: "job_at job_id mid db \<Longrightarrow> keeps_catalog job_id mid db db"
  by (simp add: keeps_catalog_def)

lemma keeps_job: "keeps_catalog job_id mid db db' \<Longrightarrow> job_at job_id mid db'"
  by (simp add: keeps_catalog_def)

lemma update_job_runs:
  assumes "job_at job_id mid db"
  shows "\<exists>db'. update_model_job now job_id u db = Inr db' \<and> keeps_catalog job_id mid db db'
    \<and> job_states job_id mid (ju_state u) (ju_catalog u) db'
    \<and> (\<forall>x \<in> set (db_jobs db'). mj_id x = job_id \<longrightarrow>
         mj_failure x = (case ju_failure u of Some [] \<Rightarrow> None | f \<Rightarrow> f))"
proof -
  from assms obtain j where j: "find_row mj_id job_id (db_jobs db) = Some j" "mj_model j = mid"
    by (auto simp: job_at_def)
  let ?f = "\<lambda>x. x\<lparr>mj_state := ju_state u, mj_stage := ju_stage u, mj_progress := or_keep (ju_progress u) [],
                   mj_failure := (case ju_failure u of Some [] \<Rightarrow> None | f \<Rightarrow> f), mj_updated_at := now\<rparr>"
  let ?g = "\<lambda>m. m\<lparr>mc_state := ju_catalog u, mc_updated_at := now,
                   mc_resolved_revision := (case ju_revision u of None \<Rightarrow> mc_resolved_revision m | r \<Rightarrow> r),
                   mc_artifact_path := (case ju_artifact u of None \<Rightarrow> mc_artifact_path m | p \<Rightarrow> p),
                   mc_capabilities := or_keep (ju_capabilities u) (mc_capabilities m)\<rparr>"
  let ?db = "db\<lparr>db_jobs := update_rows (\<lambda>x. mj_id x = job_id) ?f (db_jobs db),
          db_models := update_rows (\<lambda>m. mc_id m = mid) ?g (db_models db)\<rparr>"
  have "update_model_job now job_id u db = Inr ?db" using j by (simp add: update_model_job_def)
  moreover have "find_row mj_id job_id (db_jobs ?db) = Some (?f j)"
    using find_row_key [OF j(1)] j(1) by (simp add: find_update_rows)
  then have "keeps_catalog job_id mid db ?db" using j(2) by (simp add: keeps_catalog_def job_at_def)
  moreover have "mj_state x = ju_state u \<and> mj_failure x = (case ju_failure u of Some [] \<Rightarrow> None | f \<Rightarrow> f)"
    if "x \<in> set (db_jobs ?db)" "mj_id x = job_id" for x
  proof -
    from that(1) have "x \<in> (\<lambda>y. if mj_id y = job_id then ?f y else y) ` set (db_jobs db)"
      by (simp add: set_update_rows)
    then obtain y where "x = (if mj_id y = job_id then ?f y else y)" by (rule imageE)
    with that(2) show ?thesis by (cases "mj_id y = job_id") simp_all
  qed
  moreover have "mc_state m = ju_catalog u" if "m \<in> set (db_models ?db)" "mc_id m = mid" for m
  proof -
    from that(1) have "m \<in> (\<lambda>y. if mc_id y = mid then ?g y else y) ` set (db_models db)"
      by (simp add: set_update_rows)
    then obtain y where "m = (if mc_id y = mid then ?g y else y)" by (rule imageE)
    with that(2) show ?thesis by (cases "mc_id y = mid") simp_all
  qed
  ultimately show ?thesis by (intro exI [of _ ?db]) (simp only: job_states_def, blast)
qed

lemma job_progress_simps [simp]:
  "ju_state (job_progress st stage cat p) = st" "ju_catalog (job_progress st stage cat p) = cat"
  by (simp_all add: job_progress_def)

lemma attempt_shape_keeps:
  assumes "job_at job_id mid db" "attempt_shape clock job_id c results n db = ((n', db'), out)"
  shows "keeps_catalog job_id mid db db' \<and> (out = Pending \<longrightarrow> job_states job_id mid ''RUNNING'' VALIDATING db')"
  using assms
proof (induction results arbitrary: n db)
  case Nil
  from update_job_runs [OF Nil.prems(1), of "clock n"
      "job_progress ''RUNNING'' ''validating'' VALIDATING (Some [(''gpu_count'', JInt (int (cs_gpu_count c)))])"]
  obtain db1 where "update_model_job (clock n) job_id
      (job_progress ''RUNNING'' ''validating'' VALIDATING (Some [(''gpu_count'', JInt (int (cs_gpu_count c)))])) db = Inr db1"
    "keeps_catalog job_id mid db db1" "job_states job_id mid ''RUNNING'' VALIDATING db1" by auto
  with Nil.prems(2) show ?case by simp
next
  case (Cons r results)
  from update_job_runs [OF Cons.prems(1), of "clock n"
      "job_progress ''RUNNING'' ''validating'' VALIDATING (Some [(''gpu_count'', JInt (int (cs_gpu_count c)))])"]
  obtain db1 where d1: "update_model_job (clock n) job_id
      (job_progress ''RUNNING'' ''validating'' VALIDATING (Some [(''gpu_count'', JInt (int (cs_gpu_count c)))])) db = Inr db1"
    "keeps_catalog job_id mid db db1" by auto
  from update_job_runs [OF keeps_job [OF d1(2)], of "clock (Suc n)"
      "job_progress ''QUEUED'' ''validation_requeued'' VALIDATION_PENDING None"]
  obtain db2 where d2: "update_model_job (clock (Suc n)) job_id
      (job_progress ''QUEUED'' ''validation_requeued'' VALIDATION_PENDING None) db1 = Inr db2"
    "keeps_catalog job_id mid db1 db2" by auto
  show ?case
  proof (cases "r = Inl Preempted")
    case True
    with Cons.prems(2) d1 d2 have "attempt_shape clock job_id c results (n + 2) db2 = ((n', db'), out)" by simp
    from Cons.IH [OF keeps_job [OF d2(2)] this] keeps_trans [OF keeps_trans [OF d1(2) d2(2)]]
    show ?thesis by blast
  next
    case False
    with Cons.prems(2) d1 show ?thesis by (auto split: sum.splits failure.splits)
  qed
qed

lemma validate_shapes_keeps:
  assumes "job_at job_id mid db" "validate_shapes clock job_id cs acc le n db = ((n', db'), out)"
  shows "keeps_catalog job_id mid db db' \<and> (out = None \<longrightarrow> job_states job_id mid ''RUNNING'' VALIDATING db')"
  using assms
proof (induction cs arbitrary: acc le n db)
  case Nil
  then show ?case by (auto intro: keeps_refl)
next
  case (Cons cr cs)
  obtain c results where cr: "cr = (c, results)" by (cases cr)
  obtain n1 db1 o1 where a: "attempt_shape clock job_id c results n db = ((n1, db1), o1)"
    by (metis prod.exhaust)
  note k = attempt_shape_keeps [OF Cons.prems(1) a]
  note IH = Cons.IH [OF keeps_job [OF conjunct1 [OF k]]]
  show ?case
  proof (cases o1)
    case (Accepted ps)
    with Cons.prems(2) cr a IH [of "acc @ ps" le n1] k keeps_trans [OF conjunct1 [OF k]]
    show ?thesis by (auto split: if_splits)
  next
    case (Refused e)
    with Cons.prems(2) cr a IH [of acc "Some e" n1] k keeps_trans [OF conjunct1 [OF k]]
    show ?thesis by (auto split: if_splits)
  qed (use Cons.prems(2) cr a k in auto)
qed

lemma validate_with_requeue_keeps:
  assumes "job_at job_id mid db" "validate_with_requeue st mach clock job_id results i n db = ((n', db'), out)"
  shows "keeps_catalog job_id mid db db' \<and> (out = None \<longrightarrow> job_states job_id mid ''RUNNING'' VALIDATING db')"
  using assms validate_shapes_keeps [OF assms(1)]
  by (auto simp: validate_with_requeue_def Let_def keeps_refl split: if_splits)

lemma prepare_job_keeps:
  assumes "job_at job_id mid db" "prepare_job env u job_id db = ((n, db'), out)"
  shows "keeps_catalog job_id mid db db'"
proof -
  obtain db1 where d1: "update_model_job (jr_clock u 0) job_id
      (job_progress ''RUNNING'' ''resolve'' DOWNLOADING None) db = Inr db1" "keeps_catalog job_id mid db db1"
    using update_job_runs [OF assms(1)] by blast
  show ?thesis
  proof (cases "and_then (lift_exn (jr_resolved u)) (\<lambda>r. and_then (check_disk (jr_free_disk u) (rs_bytes r)) (\<lambda>_. Inr r))")
    case (Inl f)
    with assms(2) d1 show ?thesis by (simp add: prepare_job_def)
  next
    case (Inr r)
    obtain db2 where d2: "update_model_job (jr_clock u 1) job_id
        ((job_progress ''RUNNING'' ''download'' DOWNLOADING
           (Some [(''download_bytes'', JInt (rs_bytes r))]))\<lparr>ju_revision := Some (rs_revision r)\<rparr>) db1 = Inr db2"
      "keeps_catalog job_id mid db1 db2"
      using update_job_runs [OF keeps_job [OF d1(2)]] by blast
    note k2 = keeps_trans [OF d1(2) d2(2)]
    show ?thesis
    proof (cases "and_then (lift_exn (jr_download u)) (\<lambda>path.
        and_then (inspect (je_template_hash env) (jr_config u) (jr_tokenizer u) r) (\<lambda>i. Inr (path, i)))")
      case (Inl f)
      with assms(2) d1(1) d2(1) k2 Inr show ?thesis by (simp add: prepare_job_def)
    next
      case i: (Inr p)
      obtain path i where p: "p = (path, i)" by (cases p)
      obtain db3 where d3: "update_model_job (jr_clock u 2) job_id
          ((job_progress ''RUNNING'' ''validation_pending'' VALIDATION_PENDING
             (Some [(''inspection'', JDict (inspection_json i))]))
           \<lparr>ju_artifact := Some path, ju_capabilities := Some (in_capabilities i)\<rparr>) db2 = Inr db3"
        "keeps_catalog job_id mid db2 db3"
        using update_job_runs [OF keeps_job [OF d2(2)]] by blast
      with assms(2) d1(1) d2(1) Inr i p keeps_trans [OF k2 d3(2)] show ?thesis
        by (simp add: prepare_job_def)
    qed
  qed
qed

lemma publish_states:
  assumes "publish hash fp now j r path ps db = Inr db'"
  shows "job_states (mj_id j) (mj_model j) ''COMPLETED'' AVAILABLE db'"
proof -
  from publish_parts [OF assms] obtain db1 :: database where d:
    "db_models db' = update_rows (\<lambda>m. mc_id m = mj_model j) (published_model now r path ps) (db_models db1)"
    "\<forall>x \<in> set (db_jobs db'). mj_id x = mj_id j \<longrightarrow> mj_state x = ''COMPLETED''"
    by blast
  have "mc_state m = AVAILABLE" if "m \<in> set (db_models db')" "mc_id m = mj_model j" for m
    using that by (auto simp: d(1) set_update_rows published_model_def split: if_splits)
  with d(2) show ?thesis by (simp add: job_states_def)
qed

lemma attempt_job_keeps:
  assumes "job_at (mj_id j) (mj_model j) db" "attempt_job env u j db = ((n, db'), out)"
  shows "(out \<noteq> Some (Inr ()) \<longrightarrow> keeps_catalog (mj_id j) (mj_model j) db db')
    \<and> (out = None \<longrightarrow> job_states (mj_id j) (mj_model j) ''RUNNING'' VALIDATING db')
    \<and> (out = Some (Inr ()) \<longrightarrow> job_states (mj_id j) (mj_model j) ''COMPLETED'' AVAILABLE db')"
proof -
  obtain n1 db1 o1 where p: "prepare_job env u (mj_id j) db = ((n1, db1), o1)" by (metis prod.exhaust)
  note k1 = prepare_job_keeps [OF assms(1) p]
  show ?thesis
  proof (cases o1)
    case (Inl f)
    with assms(2) p k1 show ?thesis by (auto simp: attempt_job_def)
  next
    case (Inr x)
    obtain r path i where x: "x = (r, path, i)" by (cases x)
    obtain n2 db2 o2 where v: "validate_with_requeue (je_shapes env) (je_machine env) (jr_clock u) (mj_id j)
        (jr_validations u) i n1 db1 = ((n2, db2), o2)" by (metis prod.exhaust)
    note k2 = validate_with_requeue_keeps [OF keeps_job [OF k1] v]
    note k = keeps_trans [OF k1 conjunct1 [OF k2]]
    show ?thesis
    proof (cases o2)
      case None
      with assms(2) p Inr x v k k2 show ?thesis by (auto simp: attempt_job_def)
    next
      case (Some res)
      show ?thesis
      proof (cases res)
        case (Inl f)
        with assms(2) p Inr x v k Some show ?thesis by (auto simp: attempt_job_def)
      next
        case ps: (Inr ps)
        show ?thesis
        proof (cases "publish (je_hash env) (mi_fingerprint (je_machine env)) (jr_clock u n2) j r path ps db2")
          case (Inl e)
          with assms(2) p Inr x v k Some ps show ?thesis by (auto simp: attempt_job_def split: if_splits)
        next
          case pub: (Inr db3)
          with assms(2) p Inr x v k Some ps publish_states [OF pub] show ?thesis
            by (auto simp: attempt_job_def split: if_splits)
        qed
      qed
    qed
  qed
qed

lemma job_not_resumable:
  "job_states job_id mid st cat db \<Longrightarrow> st \<noteq> ''QUEUED'' \<Longrightarrow> st \<noteq> ''RUNNING'' \<Longrightarrow> job_id \<notin> set (resumable db)"
  by (auto simp: job_states_def resumable_def)

lemma job_resumable:
  "job_at job_id mid db \<Longrightarrow> job_states job_id mid ''RUNNING'' cat db \<Longrightarrow> job_id \<in> set (resumable db)"
  by (force simp: job_at_def job_states_def resumable_def dest: find_row_key)


text \<open>
  A model on a machine with one GPU, registered for the key of the demonstration database: its first
  validation is preempted, the second accepts it.
\<close>

definition demo_one_gpu :: machine_inventory where
  "demo_one_gpu =
     \<lparr>mi_machine_id = ''local'', mi_driver_version = ''570'', mi_cuda_driver_version = None,
      mi_gpus = [\<lparr>gd_uuid = ''g0'', gd_index = 0, gd_name = ''L4'', gd_total_vram_mib = 24000,
        gd_compute_capability = None, gd_pci_bus_id = None, gd_numa_node = None\<rparr>],
      mi_topology_hash = ''topo'', mi_fingerprint = ''f'', mi_topology = []\<rparr>"

definition demo_job_db :: database where
  "demo_job_db = (case create_model_job ''m9'' ''j9'' 1 ''nine'' ''org/nine'' None (ak_id demo_key) [ak_id demo_key] demo_db of
     Inr (_, db) \<Rightarrow> db)"

definition demo_job_env :: job_env where
  "demo_job_env =
     \<lparr>je_shapes = demo_shapes, je_machine = demo_one_gpu,
      je_hash = (\<lambda>v. case v of JDict ((_, JInt n) # _) \<Rightarrow> ''k'' | _ \<Rightarrow> ''h''), je_template_hash = (\<lambda>_. ''t''),
      je_message = (\<lambda>_. ''msg''), je_trace = (\<lambda>_. ''trace'')\<rparr>"

definition demo_accepted :: placement_profile where
  "demo_accepted = demo_sup_profile\<lparr>pf_id := ''p9'', pf_model_id := ''m9''\<rparr>"

definition demo_run :: "exn + string \<Rightarrow> job_run" where
  "demo_run download =
     \<lparr>jr_clock = (\<lambda>n. 10 + int n),
      jr_resolved = Inr (resolve_snapshot ''abc'' (Some [\<lparr>hf_name = ''model.safetensors'',
        hf_size = Some 5368709120, hf_blob = None, hf_lfs = Some (Some ''d'')\<rparr>])),
      jr_free_disk = 9000000000, jr_download = download,
      jr_config = Holds (JDict [(''architectures'', JList []), (''max_position_embeddings'', JInt 131072)]),
      jr_tokenizer = Absent,
      jr_validations = (\<lambda>_. [Inl Preempted, Inr [demo_accepted]])\<rparr>"

definition demo_registered :: database where
  "demo_registered = fst (run_job demo_job_env (demo_run (Inr ''/models/nine'')) ''j9'' demo_job_db)"

lemma demo_registration:
  "snd (run_job demo_job_env (demo_run (Inr ''/models/nine'')) ''j9'' demo_job_db) = Published ''m9''
   \<and> map mj_state (db_jobs demo_registered) = [''COMPLETED'']
   \<and> snd (run_job demo_job_env (demo_run (Inl (RuntimeError ''hub''))) ''j9'' demo_job_db)
       = Failed (Crash (RuntimeError ''hub''))"
  by code_simp


lemma demo_publication:
  "let db = deactivate_profiles ''m9'' ''f'' demo_job_db;
       j = hd (db_jobs demo_job_db);
       r = resolve_snapshot ''abc'' None
   in mj_model j = ''m9'' \<and> mj_grants j = [''k''] \<and> db_profiles demo_job_db = []
      \<and> (case publish (je_hash demo_job_env) ''f'' 20 j r ''/models/nine'' [demo_accepted] demo_job_db of
           Inr db' \<Rightarrow> map mc_id (db_models db') = [''m'', ''m9''] | Inl _ \<Rightarrow> False)"
  by code_simp


text \<open>
  The publication does not look at the state of the model: a model that an administrator disabled
  while its job was waiting is available again.
\<close>

lemma disabled_model_is_published:
  "case publish (je_hash demo_job_env) ''f'' 20 (hd (db_jobs demo_job_db)) (resolve_snapshot ''abc'' None)
      ''/models/nine'' [demo_accepted] (snd (disable_model 15 ''m9'' demo_job_db)) of
     Inr db \<Rightarrow> map mc_state (filter (\<lambda>m. mc_id m = ''m9'') (db_models db)) = [AVAILABLE]
   | Inl _ \<Rightarrow> False"
  by code_simp

end
