(* ===== verification/ProfileEdit.thy ===== *)
theory ProfileEdit
  imports Registration Inference
begin

text \<open>
  An administrator's edit of a placement profile: \<open>_apply_profile_edit\<close> and what it uses in
  \<^verbatim>\<open>src/src/llm_rio/api/routes_admin.py\<close>. The resolution of paths and the files of the machine are
  arguments.
\<close>

section \<open>The request\<close>

text \<open>A field of the request: \<open>None\<close> when it is not set, \<open>Some None\<close> when it is null.\<close>

record profile_edit =
  ed_engine :: "engine option option"
  ed_tensor_parallel :: "int option option"
  ed_max_model_len :: "int option option"
  ed_max_num_seqs :: "int option option"
  ed_max_num_batched_tokens :: "int option option"
  ed_utilization :: "rat option option"
  ed_gguf_file :: "string option option"
  ed_n_gpu_layers :: "int option option"
  ed_make_default :: bool
  ed_restart_workers :: bool

text \<open>The constraints of the schema.\<close>

definition edit_request_ok :: "profile_edit \<Rightarrow> bool" where
  "edit_request_ok e \<longleftrightarrow>
     list_all (\<lambda>f. case f of Some (Some n) \<Rightarrow> 0 < n | _ \<Rightarrow> True)
       [ed_tensor_parallel e, ed_max_model_len e, ed_max_num_seqs e, ed_max_num_batched_tokens e]
     \<and> (case ed_utilization e of Some (Some u) \<Rightarrow> 0 < u \<and> u \<le> 1 | _ \<Rightarrow> True)
     \<and> (case ed_gguf_file e of Some (Some f) \<Rightarrow> f \<noteq> [] | _ \<Rightarrow> True)
     \<and> (case ed_n_gpu_layers e of Some (Some n) \<Rightarrow> 0 \<le> n | _ \<Rightarrow> True)"

definition edit_is_empty :: "profile_edit \<Rightarrow> bool" where
  "edit_is_empty e \<longleftrightarrow>
     ed_engine e = None \<and> ed_tensor_parallel e = None \<and> ed_max_model_len e = None
     \<and> ed_max_num_seqs e = None \<and> ed_max_num_batched_tokens e = None \<and> ed_utilization e = None
     \<and> ed_gguf_file e = None \<and> ed_n_gpu_layers e = None"

section \<open>GGUF files\<close>

text \<open>
  The machine's files: \<open>fl_resolve\<close> is the resolved path of a path below a directory, \<open>fl_is_file\<close>
  and \<open>fl_is_dir\<close> tell what a path is, \<open>fl_below\<close> lists the files below a directory by their
  relative paths.
\<close>

record files =
  fl_resolve :: "string \<Rightarrow> string"
  fl_join :: "string \<Rightarrow> string \<Rightarrow> string"
  fl_is_file :: "string \<Rightarrow> bool"
  fl_is_dir :: "string \<Rightarrow> bool"
  fl_below :: "string \<Rightarrow> string list"

definition path_parts :: "string \<Rightarrow> string list" where
  "path_parts p = [x \<leftarrow> split_on (CHR ''/'') p. x \<noteq> []]"

text \<open>\<open>Path.suffix\<close>: from the last dot of the name, if it is neither its first nor its last character.\<close>

definition path_suffix :: "string \<Rightarrow> string" where
  "path_suffix p =
     (case rev (path_parts p) of
        [] \<Rightarrow> []
      | name # _ \<Rightarrow>
          let tail = takeWhile (\<lambda>c. c \<noteq> CHR ''.'') (rev name)
          in if tail = [] \<or> length name \<le> Suc (length tail) then []
             else CHR ''.'' # rev tail)"

definition is_gguf :: "string \<Rightarrow> bool" where
  "is_gguf p \<longleftrightarrow> map lower_char (path_suffix p) = ''.gguf''"

definition is_relative_to :: "string \<Rightarrow> string \<Rightarrow> bool" where
  "is_relative_to base p \<longleftrightarrow> take (length (path_parts base)) (path_parts p) = path_parts base"

definition gguf_files :: "files \<Rightarrow> model_row \<Rightarrow> string list" where
  "gguf_files fs m =
     (case mc_artifact_path m of
        None \<Rightarrow> []
      | Some base \<Rightarrow> if base = [] \<or> \<not> fl_is_dir fs base then [] else sort (filter is_gguf (fl_below fs base)))"

definition available_gguf :: "files \<Rightarrow> model_row \<Rightarrow> string \<times> json" where
  "available_gguf fs m = (''available_gguf_files'', JList (map JStr (gguf_files fs m)))"

definition resolve_gguf_file :: "files \<Rightarrow> model_row \<Rightarrow> string \<Rightarrow> exn + string" where
  "resolve_gguf_file fs m relative =
     (if mc_artifact_path m \<in> {None, Some []}
      then Inl (rio ''model_artifact_missing'' ''The model artifact is not available on this machine'' 409 [])
      else
        let base = fl_resolve fs (case mc_artifact_path m of None \<Rightarrow> [] | Some p \<Rightarrow> p);
            candidate = fl_resolve fs (fl_join fs base relative)
        in if \<not> is_gguf candidate \<or> \<not> is_relative_to base candidate
           then Inl (rio ''invalid_gguf_file''
                  ''GGUF files must be paths inside this model's downloaded artifact'' 422 [])
           else if \<not> fl_is_file fs candidate
           then Inl (rio ''gguf_file_not_found''
                  (''GGUF file '' @ quoted relative @ '' was not found in this model artifact'') 404
                  [available_gguf fs m])
           else Inr candidate)"

section \<open>Applying an edit\<close>

definition resize_per_gpu :: "int list \<Rightarrow> nat \<Rightarrow> int list" where
  "resize_per_gpu values n =
     (if values = [] then replicate n 0
      else map (\<lambda>i. values ! min i (length values - 1)) [0..<n])"

definition unprocessable :: "string \<Rightarrow> string \<Rightarrow> exn" where
  "unprocessable code message = rio code message 422 []"

definition edit_parallelism ::
  "profile_edit \<Rightarrow> nat \<Rightarrow> string list list \<Rightarrow> placement_profile \<Rightarrow> exn + placement_profile" where
  "edit_parallelism e managed gpu_sets p =
     (case ed_tensor_parallel e of
        None \<Rightarrow> Inr p
      | Some v \<Rightarrow>
          let refusal = Inl (unprocessable ''invalid_tensor_parallel_size''
                (''Tensor parallelism must be between 1 and '' @ decimal (int managed) @ '' on this machine''))
          in case v of
               None \<Rightarrow> refusal
             | Some n \<Rightarrow>
                 if n > int managed \<or> gpu_sets = [] then refusal
                 else Inr (p\<lparr>pf_gpu_count := n, pf_tensor_parallel_size := n,
                        pf_eligible_gpu_sets := gpu_sets,
                        pf_idle_vram := resize_per_gpu (pf_idle_vram p) (nat n),
                        pf_peak_vram := resize_per_gpu (pf_peak_vram p) (nat n),
                        pf_headroom := resize_per_gpu (pf_headroom p) (nat n)\<rparr>))"

definition edit_limits :: "profile_edit \<Rightarrow> placement_profile \<Rightarrow> exn + placement_profile" where
  "edit_limits e p =
     and_then (case ed_max_model_len e of
                 None \<Rightarrow> Inr p
               | Some None \<Rightarrow> Inl (unprocessable ''invalid_max_model_len'' ''max_model_len cannot be null'')
               | Some (Some n) \<Rightarrow> Inr (p\<lparr>pf_max_model_len := n\<rparr>)) (\<lambda>p1.
     let p2 = (case ed_max_num_seqs e of None \<Rightarrow> p1 | Some v \<Rightarrow> p1\<lparr>pf_max_num_seqs := v\<rparr>);
         p3 = (case ed_max_num_batched_tokens e of
                 None \<Rightarrow> p2 | Some v \<Rightarrow> p2\<lparr>pf_max_num_batched_tokens := v\<rparr>)
     in and_then (case ed_utilization e of
                    None \<Rightarrow> Inr p3
                  | Some None \<Rightarrow> Inl (unprocessable ''invalid_gpu_memory_utilization''
                                     ''gpu_memory_utilization cannot be null'')
                  | Some (Some u) \<Rightarrow> Inr (p3\<lparr>pf_gpu_memory_utilization := u\<rparr>)) (\<lambda>p4.
          Inr (case ed_engine e of Some (Some g) \<Rightarrow> p4\<lparr>pf_engine := g\<rparr> | _ \<Rightarrow> p4)))"

definition edit_gguf ::
  "files \<Rightarrow> model_row \<Rightarrow> profile_edit \<Rightarrow> engine \<Rightarrow> (string, json) dict \<Rightarrow> exn + (string, json) dict" where
  "edit_gguf fs m e eng args =
     (case ed_gguf_file e of
        None \<Rightarrow> Inr args
      | Some v \<Rightarrow>
          if eng \<noteq> LLAMA_CPP
          then Inl (unprocessable ''gguf_requires_llama_cpp'' ''Select llama.cpp before choosing a GGUF model file'')
          else case v of
            None \<Rightarrow> Inl (unprocessable ''invalid_gguf_file'' ''gguf_file cannot be null'')
          | Some f \<Rightarrow> and_then (resolve_gguf_file fs m f) (\<lambda>path.
              Inr (AList.update ''model'' (JStr path) args)))"

definition llama_only_args :: "string list" where
  "llama_only_args = [''model'', ''n_gpu_layers'', ''tensor_split'', ''split_mode'']"

definition edit_engine_args ::
  "files \<Rightarrow> model_row \<Rightarrow> profile_edit \<Rightarrow> bool \<Rightarrow> (string, json) dict \<Rightarrow> placement_profile
     \<Rightarrow> exn + placement_profile" where
  "edit_engine_args fs m e llama_enabled args p =
     (if pf_engine p = LLAMA_CPP
      then
        if \<not> llama_enabled
        then Inl (rio ''llama_cpp_disabled''
               ''Set engines.enable_llama_cpp = true before selecting llama.cpp manually'' 409 [])
        else if ''model'' \<notin> set (keys args)
        then Inl (rio ''gguf_file_required''
               ''Choose a GGUF file when switching this profile to llama.cpp'' 422 [available_gguf fs m])
        else and_then (case ed_n_gpu_layers e of
                         None \<Rightarrow> Inr (setdefault ''n_gpu_layers'' (JInt 99) args)
                       | Some None \<Rightarrow> Inl (unprocessable ''invalid_n_gpu_layers'' ''n_gpu_layers cannot be null'')
                       | Some (Some n) \<Rightarrow> Inr (AList.update ''n_gpu_layers'' (JInt n) args)) (\<lambda>args'.
               Inr (p\<lparr>pf_dtype := ''gguf'',
                      pf_quantization := (case pf_quantization p of
                        Some q \<Rightarrow> if q = [] then Some ''gguf'' else Some q | None \<Rightarrow> Some ''gguf''),
                      pf_launch_args := args'\<rparr>))
      else if ed_gguf_file e \<noteq> None \<or> ed_n_gpu_layers e \<noteq> None
      then Inl (unprocessable ''llama_cpp_option_requires_llama_cpp''
             ''GGUF and n_gpu_layers are llama.cpp-only settings'')
      else Inr (p\<lparr>pf_dtype := ''auto'', pf_quantization := None,
                  pf_launch_args := fold AList.delete llama_only_args args\<rparr>))"

definition apply_profile_edit ::
  "files \<Rightarrow> placement_profile \<Rightarrow> model_row \<Rightarrow> profile_edit \<Rightarrow> nat \<Rightarrow> string list list \<Rightarrow> bool
     \<Rightarrow> exn + placement_profile" where
  "apply_profile_edit fs p m e managed gpu_sets llama_enabled =
     and_then (edit_parallelism e managed gpu_sets p) (\<lambda>p1.
     and_then (edit_limits e p1) (\<lambda>p2.
     and_then (edit_gguf fs m e (pf_engine p2) (pf_launch_args p2)) (\<lambda>args.
       edit_engine_args fs m e llama_enabled args p2)))"

section \<open>What an edit keeps\<close>

text \<open>
  The shape of a placement: one measurement per GPU, and eligible sets of that many GPUs. It is
  what the planner and the launch read.
\<close>

definition well_shaped :: "placement_profile \<Rightarrow> bool" where
  "well_shaped p \<longleftrightarrow>
     0 < pf_gpu_count p \<and> pf_eligible_gpu_sets p \<noteq> []
     \<and> (\<forall>g \<in> set (pf_eligible_gpu_sets p). int (length g) = pf_gpu_count p)
     \<and> (\<forall>xs \<in> {pf_idle_vram p, pf_peak_vram p, pf_headroom p}. int (length xs) = pf_gpu_count p)"

lemma length_resize [simp]: "length (resize_per_gpu xs n) = n"
  by (simp add: resize_per_gpu_def)

lemma resize_same: "n = length xs \<Longrightarrow> resize_per_gpu xs n = xs"
  by (intro nth_equalityI) (auto simp: resize_per_gpu_def min_def)

lemma candidate_length: "g \<in> set (candidate_gpu_sets mach n) \<Longrightarrow> length g = n"
  by (auto simp: candidate_gpu_sets_def dest: combinations_length)

text \<open>Two profiles of one shape, identity and speed.\<close>

definition same_shape :: "placement_profile \<Rightarrow> placement_profile \<Rightarrow> bool" where
  "same_shape q p \<longleftrightarrow> (well_shaped q \<longleftrightarrow> well_shaped p) \<and> pf_id q = pf_id p \<and> pf_model_id q = pf_model_id p
     \<and> pf_model_revision q = pf_model_revision p \<and> pf_machine_fingerprint q = pf_machine_fingerprint p
     \<and> pf_predicted_tokens_per_second q = pf_predicted_tokens_per_second p"

lemma same_shape_updates [simp]:
  "same_shape p p"
  "same_shape (p\<lparr>pf_max_model_len := n\<rparr>) r = same_shape p r"
  "same_shape (p\<lparr>pf_max_num_seqs := v\<rparr>) r = same_shape p r"
  "same_shape (p\<lparr>pf_max_num_batched_tokens := v\<rparr>) r = same_shape p r"
  "same_shape (p\<lparr>pf_gpu_memory_utilization := u\<rparr>) r = same_shape p r"
  "same_shape (p\<lparr>pf_engine := g\<rparr>) r = same_shape p r"
  "same_shape (p\<lparr>pf_dtype := d, pf_quantization := k, pf_launch_args := args\<rparr>) r = same_shape p r"
  by (simp_all add: same_shape_def well_shaped_def)

lemma edit_limits_result:
  assumes "edit_limits e p = Inr q"
  shows "same_shape q p
    \<and> pf_max_model_len q = (case ed_max_model_len e of Some (Some n) \<Rightarrow> n | _ \<Rightarrow> pf_max_model_len p)
    \<and> pf_max_num_seqs q = (case ed_max_num_seqs e of Some v \<Rightarrow> v | None \<Rightarrow> pf_max_num_seqs p)"
proof -
  let ?seqs = "\<lambda>p1. case ed_max_num_seqs e of None \<Rightarrow> p1 | Some v \<Rightarrow> p1\<lparr>pf_max_num_seqs := v\<rparr>"
  let ?batched = "\<lambda>p2. case ed_max_num_batched_tokens e of None \<Rightarrow> p2 | Some v \<Rightarrow> p2\<lparr>pf_max_num_batched_tokens := v\<rparr>"
  from assms obtain p1 p4 where
    p1: "(case ed_max_model_len e of
            None \<Rightarrow> Inr p
          | Some None \<Rightarrow> Inl (unprocessable ''invalid_max_model_len'' ''max_model_len cannot be null'')
          | Some (Some n) \<Rightarrow> Inr (p\<lparr>pf_max_model_len := n\<rparr>)) = Inr p1" and
    p4: "(case ed_utilization e of
            None \<Rightarrow> Inr (?batched (?seqs p1))
          | Some None \<Rightarrow> Inl (unprocessable ''invalid_gpu_memory_utilization'' ''gpu_memory_utilization cannot be null'')
          | Some (Some u) \<Rightarrow> Inr ((?batched (?seqs p1))\<lparr>pf_gpu_memory_utilization := u\<rparr>)) = Inr p4" and
    q: "q = (case ed_engine e of Some (Some g) \<Rightarrow> p4\<lparr>pf_engine := g\<rparr> | _ \<Rightarrow> p4)"
    unfolding edit_limits_def and_then_Inr Let_def by blast
  have 1: "same_shape p1 p \<and> pf_max_num_seqs p1 = pf_max_num_seqs p
      \<and> pf_max_model_len p1 = (case ed_max_model_len e of Some (Some n) \<Rightarrow> n | _ \<Rightarrow> pf_max_model_len p)"
  proof (cases "ed_max_model_len e")
    case None
    with p1 show ?thesis by simp
  next
    case (Some w)
    with p1 show ?thesis by (cases w) auto
  qed
  have 2: "same_shape (?batched (?seqs p1)) p1 \<and> pf_max_model_len (?batched (?seqs p1)) = pf_max_model_len p1
      \<and> pf_max_num_seqs (?batched (?seqs p1)) = (case ed_max_num_seqs e of Some v \<Rightarrow> v | None \<Rightarrow> pf_max_num_seqs p1)"
    by (simp split: option.split)
  have 4: "same_shape p4 (?batched (?seqs p1)) \<and> pf_max_model_len p4 = pf_max_model_len (?batched (?seqs p1))
      \<and> pf_max_num_seqs p4 = pf_max_num_seqs (?batched (?seqs p1))"
  proof (cases "ed_utilization e")
    case None
    with p4 show ?thesis by simp
  next
    case (Some w)
    with p4 show ?thesis by (cases w) auto
  qed
  have 5: "same_shape q p4 \<and> pf_max_model_len q = pf_max_model_len p4 \<and> pf_max_num_seqs q = pf_max_num_seqs p4"
    by (simp add: q split: option.split)
  show ?thesis using 1 2 4 5 by (simp add: same_shape_def cong: option.case_cong)
qed

lemma edit_engine_result:
  assumes "edit_engine_args fs m e llama_enabled args p = Inr q"
  shows "same_shape q p \<and> pf_max_model_len q = pf_max_model_len p \<and> pf_max_num_seqs q = pf_max_num_seqs p
    \<and> (if pf_engine q = LLAMA_CPP then llama_enabled \<and> ''model'' \<in> set (keys (pf_launch_args q))
       else set llama_only_args \<inter> set (keys (pf_launch_args q)) = {})"
proof (cases "pf_engine p = LLAMA_CPP")
  case True
  with assms obtain args' where a: "llama_enabled" "''model'' \<in> set (keys args)"
    "(case ed_n_gpu_layers e of
        None \<Rightarrow> Inr (setdefault ''n_gpu_layers'' (JInt 99) args)
      | Some None \<Rightarrow> Inl (unprocessable ''invalid_n_gpu_layers'' ''n_gpu_layers cannot be null'')
      | Some (Some n) \<Rightarrow> Inr (AList.update ''n_gpu_layers'' (JInt n) args)) = Inr args'"
    "q = p\<lparr>pf_dtype := ''gguf'',
           pf_quantization := (case pf_quantization p of
             Some q \<Rightarrow> if q = [] then Some ''gguf'' else Some q | None \<Rightarrow> Some ''gguf''),
           pf_launch_args := args'\<rparr>"
    unfolding edit_engine_args_def and_then_Inr by (simp split: if_splits add: and_then_Inr) blast
  have "''model'' \<in> set (keys args')"
  proof (cases "ed_n_gpu_layers e")
    case None
    with a(3) have "args' = setdefault ''n_gpu_layers'' (JInt 99) args" by simp
    with a(2) show ?thesis by (simp only: set_map set_keys_setdefault) blast
  next
    case (Some w)
    with a(3) obtain n where "args' = AList.update ''n_gpu_layers'' (JInt n) args" by (cases w) auto
    with a(2) show ?thesis by (simp only: keys_update_set) blast
  qed
  with a(1) True show ?thesis unfolding a(4) by (simp only: same_shape_updates) simp
next
  case False
  with assms have q: "q = p\<lparr>pf_dtype := ''auto'', pf_quantization := None,
      pf_launch_args := fold AList.delete llama_only_args args\<rparr>"
    by (simp add: edit_engine_args_def split: if_splits)
  have "set llama_only_args \<inter> set (keys (fold AList.delete llama_only_args args)) = {}"
    by (auto simp: llama_only_args_def set_keys_delete)
  with False show ?thesis unfolding q by simp
qed

text \<open>
  C40: an edit keeps a profile launchable. From a profile with one measurement per GPU and sets of
  its GPU count, an accepted edit with the machine's candidate sets makes another one; the ids, the
  model, the revision, the machine and the measured speed are as before; every limit is the given one
  or as before; and a llama.cpp profile names its GGUF file, a vLLM profile none of llama.cpp's options.
\<close>

theorem edit_keeps_the_profile_launchable:
  assumes "apply_profile_edit fs p m e (length (mi_gpus mach)) gpu_sets llama_enabled = Inr q"
    "well_shaped p" "edit_request_ok e"
    "gpu_sets = candidate_gpu_sets mach (nat (case ed_tensor_parallel e of
       Some (Some n) \<Rightarrow> n | _ \<Rightarrow> pf_tensor_parallel_size p))"
  shows "well_shaped q
    \<and> pf_id q = pf_id p \<and> pf_model_id q = pf_model_id p \<and> pf_model_revision q = pf_model_revision p
    \<and> pf_machine_fingerprint q = pf_machine_fingerprint p
    \<and> pf_predicted_tokens_per_second q = pf_predicted_tokens_per_second p
    \<and> pf_max_model_len q = (case ed_max_model_len e of Some (Some n) \<Rightarrow> n | _ \<Rightarrow> pf_max_model_len p)
    \<and> pf_max_num_seqs q = (case ed_max_num_seqs e of Some v \<Rightarrow> v | None \<Rightarrow> pf_max_num_seqs p)
    \<and> (if pf_engine q = LLAMA_CPP then llama_enabled \<and> ''model'' \<in> set (keys (pf_launch_args q))
       else set llama_only_args \<inter> set (keys (pf_launch_args q)) = {})"
proof -
  from assms(1) obtain p1 p2 args where d: "edit_parallelism e (length (mi_gpus mach)) gpu_sets p = Inr p1"
    "edit_limits e p1 = Inr p2" "edit_gguf fs m e (pf_engine p2) (pf_launch_args p2) = Inr args"
    "edit_engine_args fs m e llama_enabled args p2 = Inr q"
    unfolding apply_profile_edit_def and_then_Inr by blast
  have p1: "well_shaped p1 \<and> pf_id p1 = pf_id p \<and> pf_model_id p1 = pf_model_id p
      \<and> pf_model_revision p1 = pf_model_revision p \<and> pf_machine_fingerprint p1 = pf_machine_fingerprint p
      \<and> pf_predicted_tokens_per_second p1 = pf_predicted_tokens_per_second p
      \<and> pf_max_model_len p1 = pf_max_model_len p \<and> pf_max_num_seqs p1 = pf_max_num_seqs p"
  proof (cases "ed_tensor_parallel e")
    case None
    with d(1) assms(2) show ?thesis by (simp add: edit_parallelism_def)
  next
    case (Some v)
    with d(1) obtain n where v: "v = Some n" "n \<le> int (length (mi_gpus mach))" "gpu_sets \<noteq> []"
      and q: "p1 = p\<lparr>pf_gpu_count := n, pf_tensor_parallel_size := n, pf_eligible_gpu_sets := gpu_sets,
                        pf_idle_vram := resize_per_gpu (pf_idle_vram p) (nat n),
                        pf_peak_vram := resize_per_gpu (pf_peak_vram p) (nat n),
                        pf_headroom := resize_per_gpu (pf_headroom p) (nat n)\<rparr>"
      by (auto simp: edit_parallelism_def Let_def split: option.splits if_splits)
    have n: "0 < n" using assms(3) Some v(1) by (simp add: edit_request_ok_def)
    have "\<forall>g \<in> set gpu_sets. length g = nat n"
      using assms(4) Some v(1) candidate_length by simp
    with n v(3) show ?thesis by (simp add: q well_shaped_def)
  qed
  show ?thesis
    using p1 edit_limits_result [OF d(2)] edit_engine_result [OF d(4)]
    by (cases "pf_engine q = LLAMA_CPP") (simp_all add: same_shape_def cong: option.case_cong)
qed

definition demo_edit :: profile_edit where
  "demo_edit =
     \<lparr>ed_engine = None, ed_tensor_parallel = Some (Some 2), ed_max_model_len = Some (Some 8192),
      ed_max_num_seqs = Some None, ed_max_num_batched_tokens = None, ed_utilization = None,
      ed_gguf_file = None, ed_n_gpu_layers = None, ed_make_default = True, ed_restart_workers = True\<rparr>"

definition demo_files :: files where
  "demo_files =
     \<lparr>fl_resolve = id, fl_join = (\<lambda>base p. base @ ''/'' @ p), fl_is_file = (\<lambda>p. p = ''/models/m/q4.gguf''),
      fl_is_dir = (\<lambda>_. True), fl_below = (\<lambda>_. [''q4.gguf'', ''config.json''])\<rparr>"

definition demo_fp8 :: placement_profile where
  "demo_fp8 = demo_sup_profile\<lparr>pf_dtype := ''bfloat16'', pf_quantization := Some ''fp8''\<rparr>"

definition demo_edited :: placement_profile where
  "demo_edited =
     demo_fp8\<lparr>pf_gpu_count := 2, pf_tensor_parallel_size := 2,
       pf_eligible_gpu_sets := [[''GPU-b2'', ''GPU-c3''], [''GPU-a1'', ''GPU-c3''], [''GPU-a1'', ''GPU-b2'']],
       pf_idle_vram := [9000, 9000], pf_peak_vram := [9000, 9000], pf_headroom := [0, 0],
       pf_max_model_len := 8192, pf_max_num_seqs := None, pf_dtype := ''auto'', pf_quantization := None\<rparr>"

text \<open>
  The edit of the parallelism and the context also resets the data type and drops the validated
  quantization: the last branch sets both for every vLLM profile, whatever the request names.
\<close>

lemma edit_drops_quantization:
  "apply_profile_edit demo_files demo_fp8 demo_model demo_edit 4
     [[''GPU-b2'', ''GPU-c3''], [''GPU-a1'', ''GPU-c3''], [''GPU-a1'', ''GPU-b2'']] False = Inr demo_edited
   \<and> pf_quantization demo_fp8 = Some ''fp8'' \<and> pf_quantization demo_edited = None"
  by code_simp

lemma edit_keeps_the_profile_launchable_witness:
  "well_shaped demo_edited \<and> pf_max_model_len demo_edited = 8192"
proof -
  have sets: "candidate_gpu_sets demo_inventory 2
      = [[''GPU-b2'', ''GPU-c3''], [''GPU-a1'', ''GPU-c3''], [''GPU-a1'', ''GPU-b2'']]"
    using demo_discovered by blast
  have "length (map gd_uuid (mi_gpus demo_inventory)) = 4" using demo_discovered by simp
  then have len: "length (mi_gpus demo_inventory) = 4" by simp
  have e: "apply_profile_edit demo_files demo_fp8 demo_model demo_edit (length (mi_gpus demo_inventory))
      (candidate_gpu_sets demo_inventory 2) False = Inr demo_edited"
    unfolding sets len using edit_drops_quantization by blast
  have "well_shaped demo_fp8" by (simp add: well_shaped_def demo_fp8_def demo_sup_profile_def)
  moreover have "edit_request_ok demo_edit" by (simp add: edit_request_ok_def demo_edit_def)
  ultimately show ?thesis
    using edit_keeps_the_profile_launchable [OF e] by (simp add: demo_edit_def)
qed

text \<open>GGUF files: only below the artifact, only existing ones, and only for llama.cpp.\<close>

lemma demo_gguf:
  "let m = demo_model\<lparr>mc_artifact_path := Some ''/models/m''\<rparr> in
   map_sum exn_code id (resolve_gguf_file demo_files m ''q4.gguf'') = Inr ''/models/m/q4.gguf''
   \<and> map_sum exn_code id (resolve_gguf_file demo_files m ''q8.GGUF'') = Inl ''gguf_file_not_found''
   \<and> map_sum exn_code id (resolve_gguf_file (demo_files\<lparr>fl_join := \<lambda>base p. ''/etc/x.gguf''\<rparr>) m ''../x.gguf'')
       = Inl ''invalid_gguf_file''
   \<and> gguf_files demo_files m = [''q4.gguf'']"
  by code_simp

end
