(* ===== verification/AdminRoutes.thy ===== *)
theory AdminRoutes
  imports ProfileEdit SchedulerSteps
begin

text \<open>
  The administration and staff handlers of \<^verbatim>\<open>src/src/llm_rio/api/routes_admin.py\<close> and
  \<^verbatim>\<open>src/src/llm_rio/api/routes_staff.py\<close>, with the constraints of their requests
  (\<^verbatim>\<open>src/src/llm_rio/api/schemas.py\<close>) and the answers to exceptions of
  \<^verbatim>\<open>src/src/llm_rio/api/app.py\<close>. A handler is a function of the service's state: it returns the new
  state with an error or the answer. The principal's role is checked before (theory \<open>Security\<close>).
\<close>

section \<open>Answers\<close>

text \<open>\<open>HTTPException\<close>, which the framework answers itself, and the exceptions a handler lets out.\<close>

datatype http_error = HttpError int string | Raised exn

fun http_status :: "http_error \<Rightarrow> int" where
  "http_status (HttpError status _) = status"
| "http_status (Raised (Rio e)) = re_status e"
| "http_status (Raised (IntegrityError _)) = 409"
| "http_status (Raised _) = 500"

text \<open>\<open>None\<close>: the framework's own answer to an exception nobody handles.\<close>

fun http_body :: "http_error \<Rightarrow> json option" where
  "http_body (HttpError _ message) = Some (JDict [(''detail'', JStr message)])"
| "http_body (Raised (Rio e)) = Some (openai_body e)"
| "http_body (Raised (IntegrityError _)) = Some (JDict [(''error'', JDict
     [(''message'', JStr ''The requested nickname, grant, or related record conflicts with existing state''),
      (''type'', JStr ''state_conflict''), (''code'', JStr ''state_conflict'')])])"
| "http_body (Raised _) = None"

fun retry_after :: "http_error \<Rightarrow> int option" where
  "retry_after (Raised (Rio e)) = (if re_status e = 503 then Some 30 else None)"
| "retry_after _ = None"

type_synonym 'a reply = "scheduler \<times> (http_error + 'a)"

text \<open>A call of the database that tells whether it found its row.\<close>

definition when_found :: "string \<Rightarrow> exn + (bool \<times> database) \<Rightarrow> scheduler \<Rightarrow> unit reply" where
  "when_found detail r s =
     (case r of
        Inl e \<Rightarrow> (s, Inl (Raised e))
      | Inr (found, db) \<Rightarrow> (s\<lparr>sc_db := db\<rparr>, if found then Inr () else Inl (HttpError 404 detail)))"

section \<open>Keys and quotas\<close>

definition new_key_request_ok :: "new_key_request \<Rightarrow> bool" where
  "new_key_request_ok b \<longleftrightarrow>
     1 \<le> length (nk_nickname b) \<and> length (nk_nickname b) \<le> 100
     \<and> (case nk_limit b of None \<Rightarrow> True | Some n \<Rightarrow> 0 \<le> n)
     \<and> (case nk_api_key b of None \<Rightarrow> True | Some k \<Rightarrow> 24 \<le> length k \<and> startswith ''rio_'' k)"

definition create_key_route ::
  "string \<Rightarrow> string \<Rightarrow> string \<Rightarrow> (string \<Rightarrow> string) \<Rightarrow> (string \<Rightarrow> string) \<Rightarrow> datetime
     \<Rightarrow> new_key_request \<Rightarrow> scheduler \<Rightarrow> json reply" where
  "create_key_route key_id account_id secret hash encrypt now b s =
     (case admin_create_key key_id account_id secret hash encrypt now b (sc_db s) of
        (Inl e, db) \<Rightarrow> (s\<lparr>sc_db := db\<rparr>, Inl (Raised e))
      | (Inr (kid, token), db) \<Rightarrow> (s\<lparr>sc_db := db\<rparr>,
          Inr (JDict [(''id'', JStr kid), (''nickname'', JStr (nk_nickname b)), (''api_key'', JStr token)])))"

definition rotate_key_route ::
  "string \<Rightarrow> string \<Rightarrow> (string \<Rightarrow> string) \<Rightarrow> (string \<Rightarrow> string) \<Rightarrow> scheduler \<Rightarrow> string reply" where
  "rotate_key_route kid secret hash encrypt s =
     (case rotate_key kid secret hash encrypt (sc_db s) of
        Inl e \<Rightarrow> (s, Inl (Raised e))
      | Inr (None, db) \<Rightarrow> (s\<lparr>sc_db := db\<rparr>, Inl (HttpError 404 ''Key not found''))
      | Inr (Some token, db) \<Rightarrow> (s\<lparr>sc_db := db\<rparr>, Inr token))"

definition revoke_key :: "string \<Rightarrow> scheduler \<Rightarrow> unit reply" where
  "revoke_key kid s = when_found ''Key not found'' (set_key_active kid False (sc_db s)) s"

definition restore_key :: "string \<Rightarrow> scheduler \<Rightarrow> unit reply" where
  "restore_key kid s = when_found ''Key not found'' (set_key_active kid True (sc_db s)) s"

definition delete_key_route :: "string \<Rightarrow> string \<Rightarrow> scheduler \<Rightarrow> unit reply" where
  "delete_key_route encrypted kid s = when_found ''Key not found'' (delete_key encrypted kid (sc_db s)) s"

definition update_quota_route :: "string \<Rightarrow> int \<Rightarrow> bool \<Rightarrow> scheduler \<Rightarrow> unit reply" where
  "update_quota_route kid limit unlimited s =
     when_found ''Key not found'' (update_quota kid limit unlimited (sc_db s)) s"

definition reset_usage_route :: "datetime \<Rightarrow> string \<Rightarrow> scheduler \<Rightarrow> reset_report reply" where
  "reset_usage_route now kid s =
     (case reset_usage now kid (sc_db s) of
        (None, db) \<Rightarrow> (s\<lparr>sc_db := db\<rparr>, Inl (HttpError 404 ''Key not found''))
      | (Some r, db) \<Rightarrow> (s\<lparr>sc_db := db\<rparr>, Inr r))"

text \<open>\<open>stamp\<close> writes a time as the report does.\<close>

definition summarize_usage_route ::
  "(datetime \<Rightarrow> rat) \<Rightarrow> (datetime \<Rightarrow> string) \<Rightarrow> datetime \<Rightarrow> (bool \<times> datetime) option \<Rightarrow> scheduler
     \<Rightarrow> summary_result reply" where
  "summarize_usage_route jd stamp now through s =
     (case summarize_usage jd now through (sc_db s) of
        Inl e \<Rightarrow> (s, Inl (Raised e))
      | Inr (r, db) \<Rightarrow>
          (log_event now ''USAGE_SUMMARIZED'' None
             [(''period_start'', JStr (stamp (sr_start r))), (''period_end'', JStr (stamp (sr_end r))),
              (''deleted'', JDict [(''inference_requests'', JInt (int (sr_deleted_requests r))),
                 (''quota_reservations'', JInt (int (sr_deleted_reservations r))),
                 (''quota_ledger'', JInt (int (sr_deleted_ledger r)))])] (s\<lparr>sc_db := db\<rparr>), Inr r))"

section \<open>Models and profiles\<close>

text \<open>
  What the handlers use of the application's state beside the scheduler's: the machine, its files,
  the setting that allows llama.cpp, and the ways numbers are read and profiles and times written.
\<close>

record admin_env =
  ae_sched :: sched_env
  ae_inventory :: machine_inventory
  ae_files :: files
  ae_llama_enabled :: bool
  ae_lit :: "string \<Rightarrow> rat option"
  ae_hash :: "json \<Rightarrow> string"
  ae_stamp :: "datetime \<Rightarrow> string"

definition ae_fingerprint :: "admin_env \<Rightarrow> string" where
  "ae_fingerprint env = mi_fingerprint (ae_inventory env)"

definition model_not_found :: http_error where
  "model_not_found = HttpError 404 ''Model not found''"

definition profile_not_found :: http_error where
  "profile_not_found = HttpError 404 ''Placement profile not found''"

definition profile_payload :: "stored_profile \<Rightarrow> json" where
  "profile_payload r =
     JDict (AList.update ''active'' (JBool (sp_active r)) (profile_to_dict (sp_profile r)))"

definition list_model_profiles :: "admin_env \<Rightarrow> string \<Rightarrow> scheduler \<Rightarrow> json reply" where
  "list_model_profiles env mid s =
     (case model_by_id mid (sc_db s) of
        None \<Rightarrow> (s, Inl model_not_found)
      | Some m \<Rightarrow>
          (case records_for_model (ae_lit env) (ae_fingerprint env) mid (sc_db s) of
             Inl e \<Rightarrow> (s, Inl (Raised e))
           | Inr records \<Rightarrow>
               (s, Inr (JDict [(''data'', JList (map profile_payload records)),
                               available_gguf (ae_files env) m]))))"

definition update_model_defaults_route ::
  "datetime \<Rightarrow> string \<Rightarrow> (string \<times> json option) list \<Rightarrow> scheduler \<Rightarrow> model_row reply" where
  "update_model_defaults_route now mid updates s =
     (if updates = []
      then (s, Inl (Raised (rio ''model_default_update_empty''
                     ''Provide at least one request default to change.'' 422 [])))
      else case update_model_request_defaults now mid updates (sc_db s) of
        (None, db) \<Rightarrow> (s\<lparr>sc_db := db\<rparr>, Inl model_not_found)
      | (Some m, db) \<Rightarrow>
          (log_event now ''MODEL_REQUEST_DEFAULTS_UPDATED'' (Some mid)
             [(''request_defaults'', JDict (mc_request_defaults m))] (s\<lparr>sc_db := db\<rparr>), Inr m))"

text \<open>\<open>fresh\<close> gives the ids of the new model and of its profiles, \<open>config\<close> the model's configuration.\<close>

definition clone_model_route ::
  "admin_env \<Rightarrow> (string \<Rightarrow> json option) \<Rightarrow> datetime \<Rightarrow> string \<Rightarrow> (nat \<Rightarrow> string)
     \<Rightarrow> (model_row \<Rightarrow> (string, json) dict option) \<Rightarrow> string \<Rightarrow> clone_request \<Rightarrow> scheduler
     \<Rightarrow> (model_row \<times> json list) reply" where
  "clone_model_route env parse_json now new_id fresh config mid c s =
     (case model_by_id mid (sc_db s) of
        None \<Rightarrow> (s, Inl model_not_found)
      | Some source \<Rightarrow>
          (case clone_model (ae_lit env) parse_json (ae_hash env) (ae_stamp env) now
                  (ae_fingerprint env) new_id fresh (config source) source c (sc_db s) of
             Inl e \<Rightarrow> (s, Inl (Raised e))
           | Inr ((m, profiles), db) \<Rightarrow>
               (log_event now ''MODEL_PROFILE_CLONED'' (Some (mc_id m))
                  [(''source_model_id'', JStr mid), (''nickname'', JStr (cl_nickname c)),
                   (''profile_count'', JInt (int (length profiles))),
                   (''request_defaults'', JDict (mc_request_defaults m)),
                   (''max_context_tokens'', get_or JNull ''max_context_tokens'' (mc_request_limits m)),
                   (''yarn_factor'', json_opt JFloat (cl_yarn c)),
                   (''shared_artifact_path'', json_opt JStr (mc_artifact_path m))] (s\<lparr>sc_db := db\<rparr>),
                Inr (m, map (\<lambda>p. profile_payload \<lparr>sp_profile = p, sp_active = True\<rparr>) profiles))))"

text \<open>The workers that satisfy a condition on what never changes of them, drained one after another.\<close>

definition matching_workers :: "(worker \<Rightarrow> bool) \<Rightarrow> scheduler \<Rightarrow> string list" where
  "matching_workers P s = map wk_id (filter P (vals (sv_workers (sc_sup s))))"

definition drain_matching ::
  "sched_env \<Rightarrow> datetime \<Rightarrow> (worker \<Rightarrow> bool) \<Rightarrow> scheduler \<Rightarrow> scheduler" where
  "drain_matching env now P s = fold (\<lambda>wid. with_sup env now (drain wid now)) (matching_workers P s) s"

text \<open>The profile that is edited and its edited form.\<close>

definition edited_profile ::
  "admin_env \<Rightarrow> string \<Rightarrow> string \<Rightarrow> profile_edit \<Rightarrow> database
     \<Rightarrow> http_error + (stored_profile \<times> placement_profile)" where
  "edited_profile env mid pid e db =
     (if edit_is_empty e
      then Inl (Raised (unprocessable ''profile_update_empty'' ''Provide at least one profile setting to change''))
      else case model_by_id mid db of
        None \<Rightarrow> Inl model_not_found
      | Some m \<Rightarrow>
          (case records_for_model (ae_lit env) (ae_fingerprint env) mid db of
             Inl x \<Rightarrow> Inl (Raised x)
           | Inr records \<Rightarrow>
               (case find (\<lambda>r. pf_id (sp_profile r) = pid) records of
                  None \<Rightarrow> Inl profile_not_found
                | Some selected \<Rightarrow>
                    if ed_tensor_parallel e = Some None
                    then Inl (Raised (unprocessable ''invalid_tensor_parallel_size''
                           ''tensor_parallel_size cannot be null''))
                    else
                      let target = (case ed_tensor_parallel e of
                            Some (Some n) \<Rightarrow> n | _ \<Rightarrow> pf_tensor_parallel_size (sp_profile selected))
                      in (case apply_profile_edit (ae_files env) (sp_profile selected) m e
                                 (length (mi_gpus (ae_inventory env)))
                                 (candidate_gpu_sets (ae_inventory env) (nat target))
                                 (ae_llama_enabled env) of
                            Inl x \<Rightarrow> Inl (Raised x)
                          | Inr updated \<Rightarrow> Inr (selected, updated)))))"

definition duplicate_profile :: exn where
  "duplicate_profile = rio ''duplicate_profile''
     ''Another placement profile already has these identifying settings'' 409 []"

record edit_answer =
  ea_profile :: stored_profile
  ea_drained :: "string list"
  ea_restart_required :: bool

definition update_model_profile ::
  "admin_env \<Rightarrow> datetime \<Rightarrow> string \<Rightarrow> string \<Rightarrow> profile_edit \<Rightarrow> scheduler \<Rightarrow> edit_answer reply" where
  "update_model_profile env now mid pid e s =
     (case edited_profile env mid pid e (sc_db s) of
        Inl x \<Rightarrow> (s, Inl x)
      | Inr (selected, updated) \<Rightarrow>
          (case update_profile (ae_hash env) (ae_stamp env) now (ae_fingerprint env) updated
                  (ed_make_default e) (sc_db s) of
             Inl (IntegrityError _) \<Rightarrow> (s, Inl (Raised duplicate_profile))
           | Inl x \<Rightarrow> (s, Inl (Raised x))
           | Inr (saved, db) \<Rightarrow>
               if \<not> saved then (s\<lparr>sc_db := db\<rparr>, Inl profile_not_found)
               else
                 let s1 = log_event now ''MODEL_PROFILE_OVERRIDDEN'' (Some (pf_id updated))
                       [(''model_id'', JStr mid), (''engine'', JStr (engine_value (pf_engine updated))),
                        (''tensor_parallel_size'', JInt (pf_tensor_parallel_size updated)),
                        (''max_model_len'', JInt (pf_max_model_len updated)),
                        (''make_default'', JBool (ed_make_default e))] (s\<lparr>sc_db := db\<rparr>);
                     mine = (\<lambda>w. ed_restart_workers e \<and> wk_model_id w = mid)
                 in (drain_matching (ae_sched env) now mine s1,
                     Inr \<lparr>ea_profile = \<lparr>sp_profile = updated,
                                         sp_active = ed_make_default e \<or> sp_active selected\<rparr>,
                          ea_drained = matching_workers mine s1,
                          ea_restart_required = \<not> ed_restart_workers e\<rparr>)))"

text \<open>The action is the last part of the path.\<close>

definition set_model_profile_active ::
  "admin_env \<Rightarrow> datetime \<Rightarrow> string \<Rightarrow> string \<Rightarrow> string \<Rightarrow> scheduler \<Rightarrow> string list reply" where
  "set_model_profile_active env now mid pid action s =
     (if action \<notin> {''enable'', ''disable''}
      then (s, Inl (HttpError 404 ''Profile action not found''))
      else
        let active = (action = ''enable'')
        in if model_by_id mid (sc_db s) = None then (s, Inl model_not_found)
           else (case set_profile_active now (ae_fingerprint env) mid pid active (sc_db s) of
               Inl x \<Rightarrow> (s, Inl (Raised x))
             | Inr (saved, db) \<Rightarrow>
                 if \<not> saved then (s\<lparr>sc_db := db\<rparr>, Inl profile_not_found)
                 else
                   let s1 = s\<lparr>sc_db := db\<rparr>;
                       mine = (\<lambda>w. \<not> active \<and> pf_id (wk_profile w) = pid)
                   in (log_event now (''MODEL_PROFILE_'' @ (if active then ''ENABLED'' else ''DISABLED''))
                         (Some pid) [(''model_id'', JStr mid), (''active'', JBool active)]
                         (drain_matching (ae_sched env) now mine s1),
                       Inr (matching_workers mine s1))))"

section \<open>Staff\<close>

definition is_alnum :: "char \<Rightarrow> bool" where
  "is_alnum c \<longleftrightarrow>
     (let n = of_char c :: nat
      in 48 \<le> n \<and> n \<le> 57 \<or> 65 \<le> n \<and> n \<le> 90 \<or> 97 \<le> n \<and> n \<le> 122)"

text \<open>The pattern \<open>^[A-Za-z0-9][A-Za-z0-9._-]{0,99}$\<close>.\<close>

definition model_name_ok :: "string \<Rightarrow> bool" where
  "model_name_ok n \<longleftrightarrow>
     (case n of
        [] \<Rightarrow> False
      | c # cs \<Rightarrow> is_alnum c \<and> length cs \<le> 99
          \<and> list_all (\<lambda>x. is_alnum x \<or> x \<in> {CHR ''.'', CHR ''_'', CHR ''-''}) cs)"

text \<open>The pattern \<open>^[^/\s]+/[^/\s]+$\<close>, whose \<open>\s\<close> is Unicode white space.\<close>

definition white_space :: "char \<Rightarrow> bool" where
  "white_space c \<longleftrightarrow> (let n = of_char c :: nat in 9 \<le> n \<and> n \<le> 13 \<or> n \<in> {32, 133, 160})"

definition repo_ok :: "string \<Rightarrow> bool" where
  "repo_ok r \<longleftrightarrow>
     (case split_on (CHR ''/'') r of
        [owner, name] \<Rightarrow> owner \<noteq> [] \<and> name \<noteq> [] \<and> list_all (\<lambda>c. \<not> white_space c) (owner @ name)
      | _ \<Rightarrow> False)"

record new_model_request =
  nm_nickname :: string
  nm_repo :: string
  nm_revision :: "string option"
  nm_grants :: "string list"

definition new_model_request_ok :: "new_model_request \<Rightarrow> bool" where
  "new_model_request_ok b \<longleftrightarrow> model_name_ok (nm_nickname b) \<and> repo_ok (nm_repo b)"

definition unknown_selector :: "string \<Rightarrow> exn" where
  "unknown_selector selector = rio ''grant_key_not_found''
     (''API key '' @ quoted selector @ '' does not exist or is inactive'') 404 []"

text \<open>With the tasks of the registration jobs.\<close>

definition register_model ::
  "(string \<Rightarrow> string \<Rightarrow> bool option) \<Rightarrow> datetime \<Rightarrow> string \<Rightarrow> string \<Rightarrow> principal \<Rightarrow> new_model_request
     \<Rightarrow> job_tasks \<Rightarrow> scheduler \<Rightarrow> job_tasks \<times> (string \<times> string) reply" where
  "register_model verify now model_id job_id p b tasks s =
     (case and_then
             (traverse (\<lambda>sel. case key_by_selector verify True sel (sc_db s) of
                          None \<Rightarrow> Inl (unknown_selector sel) | Some (kid, _) \<Rightarrow> Inr kid) (nm_grants b))
             (\<lambda>grants. create_model_job model_id job_id now (nm_nickname b) (nm_repo b) (nm_revision b)
                (pr_key_id p) grants (sc_db s)) of
        Inl e \<Rightarrow> (tasks, s, Inl (Raised e))
      | Inr (ids, db) \<Rightarrow> (fst (start_job job_id tasks), s\<lparr>sc_db := db\<rparr>, Inr ids))"

definition job_not_found :: http_error where
  "job_not_found = HttpError 404 ''Job not found''"

definition model_job :: "string \<Rightarrow> scheduler \<Rightarrow> (job_row \<times> model_row) reply" where
  "model_job job_id s =
     (s, case get_model_job job_id (sc_db s) of None \<Rightarrow> Inl job_not_found | Some j \<Rightarrow> Inr j)"

definition retry_model_job ::
  "datetime \<Rightarrow> string \<Rightarrow> job_tasks \<Rightarrow> scheduler \<Rightarrow> job_tasks \<times> (string \<times> string) reply" where
  "retry_model_job now job_id tasks s =
     (case get_model_job job_id (sc_db s) of
        None \<Rightarrow> (tasks, s, Inl job_not_found)
      | Some (j, _) \<Rightarrow>
          if mj_state j \<in> {''QUEUED'', ''RUNNING''}
          then (tasks, s, Inl (HttpError 409 ''The model job is already running''))
          else (case update_model_job now job_id (job_progress ''QUEUED'' ''resolve'' REQUESTED None) (sc_db s) of
              Inl e \<Rightarrow> (tasks, s, Inl (Raised e))
            | Inr db \<Rightarrow> (fst (start_job job_id tasks), s\<lparr>sc_db := db\<rparr>, Inr (mj_model j, job_id))))"

text \<open>
  The loop runs over the supervisor's own dictionary: a worker that is launched while one is being
  drained makes the iteration fail. Here nothing is launched in between.
\<close>

definition disable_model_route :: "sched_env \<Rightarrow> datetime \<Rightarrow> string \<Rightarrow> scheduler \<Rightarrow> unit reply" where
  "disable_model_route env now mid s =
     (case disable_model now mid (sc_db s) of
        (False, db) \<Rightarrow> (s\<lparr>sc_db := db\<rparr>, Inl model_not_found)
      | (True, db) \<Rightarrow> (drain_matching env now (\<lambda>w. wk_model_id w = mid) (s\<lparr>sc_db := db\<rparr>), Inr ()))"

definition update_model_access_route ::
  "(string \<Rightarrow> string \<Rightarrow> bool option) \<Rightarrow> datetime \<Rightarrow> string \<Rightarrow> string list \<Rightarrow> access_mode \<Rightarrow> scheduler
     \<Rightarrow> (string \<times> string list) reply" where
  "update_model_access_route verify now selector models mode s =
     (case key_by_selector verify True selector (sc_db s) of
        None \<Rightarrow> (s, Inl (Raised (unknown_selector selector)))
      | Some (kid, nickname) \<Rightarrow>
          (case update_model_access now kid models mode (sc_db s) of
             Inl e \<Rightarrow> (s, Inl (Raised e))
           | Inr (granted, db) \<Rightarrow> (s\<lparr>sc_db := db\<rparr>, Inr (nickname, granted))))"

definition update_grants_route :: "datetime \<Rightarrow> string \<Rightarrow> string list \<Rightarrow> scheduler \<Rightarrow> unit reply" where
  "update_grants_route now kid model_ids s =
     (case replace_model_grants now kid model_ids (sc_db s) of
        Inl (KeyError _) \<Rightarrow> (s, Inl (HttpError 404 ''Key not found''))
      | Inl e \<Rightarrow> (s, Inl (Raised e))
      | Inr db \<Rightarrow> (s\<lparr>sc_db := db\<rparr>, Inr ()))"

section \<open>Maintenance\<close>

definition change_maintenance :: "sched_env \<Rightarrow> datetime \<Rightarrow> bool \<Rightarrow> scheduler \<Rightarrow> service_mode reply" where
  "change_maintenance env now draining s =
     (if draining
      then let s1 = enter_maintenance env now s in (s1, Inr (service_mode_of (sc_db s1)))
      else case resume now s of
        (s1, Inl e) \<Rightarrow> (s1, Inl (Raised e))
      | (s1, Inr _) \<Rightarrow> (s1, Inr (service_mode_of (sc_db s1))))"

section \<open>Status\<close>

fun runtime_state_value :: "runtime_state \<Rightarrow> string" where
  "runtime_state_value COLD = ''COLD''"
| "runtime_state_value LOADING = ''LOADING''"
| "runtime_state_value READY = ''READY''"
| "runtime_state_value DRAINING = ''DRAINING''"
| "runtime_state_value OFFLOADING = ''OFFLOADING''"
| "runtime_state_value SLEEPING = ''SLEEPING''"
| "runtime_state_value WAKING = ''WAKING''"
| "runtime_state_value STOPPING = ''STOPPING''"

definition weight_storage :: "worker \<Rightarrow> string" where
  "weight_storage w =
     (if wk_state w = SLEEPING then ''host_ram''
      else if wk_state w \<in> {OFFLOADING, WAKING} then ''transitioning''
      else if wk_host_cached w then ''gpu+host_ram''
      else if wk_state w \<noteq> COLD then ''gpu'' else ''none'')"

definition nickname_of :: "database \<Rightarrow> string \<Rightarrow> string" where
  "nickname_of db mid =
     (case find_row mc_id mid (list_models None db) of None \<Rightarrow> mid | Some m \<Rightarrow> mc_nickname m)"

text \<open>\<open>len(queues.for_model(mid))\<close> for each of a list of models: a queue that is missing is created.\<close>

definition looked_up :: "string list \<Rightarrow> model_queues \<Rightarrow> model_queues" where
  "looked_up mids mq = fold (\<lambda>mid q. fst (for_model q mid)) mids mq"

definition queued_requests :: "model_queues \<Rightarrow> string \<Rightarrow> json" where
  "queued_requests mq mid = JInt (drr_len (snd (for_model mq mid)))"

definition status_worker ::
  "(datetime \<Rightarrow> string) \<Rightarrow> database \<Rightarrow> model_queues \<Rightarrow> worker \<Rightarrow> json" where
  "status_worker stamp db mq w =
     JDict
       [(''worker_id'', JStr (wk_id w)), (''model'', JStr (nickname_of db (wk_model_id w))),
        (''state'', JStr (if wk_state w = COLD then ''STOPPED'' else runtime_state_value (wk_state w))),
        (''weight_storage'', JStr (weight_storage w)),
        (''gpu_uuids'', JList (map JStr (wk_gpu_uuids w))),
        (''profile_id'', JStr (pf_id (wk_profile w))),
        (''ready_at'', json_opt (JStr \<circ> stamp) (wk_ready_at w)),
        (''sleeping_at'', json_opt (JStr \<circ> stamp) (wk_sleeping_at w)),
        (''last_activation_seconds'', json_opt JFloat (wk_last_activation w)),
        (''last_offload_seconds'', json_opt JFloat (wk_last_offload w)),
        (''tensor_parallel_size'', JInt (pf_tensor_parallel_size (wk_profile w))),
        (''active_requests'', JInt (int (card (wk_admitted w)))),
        (''queued_requests'', queued_requests mq (wk_model_id w)),
        (''accepted_requests'', JInt (wk_accepted w))]"

definition scheduler_status ::
  "sched_env \<Rightarrow> (datetime \<Rightarrow> string) \<Rightarrow> scheduler \<Rightarrow> scheduler \<times> json" where
  "scheduler_status env stamp s =
     (let db = sc_db s; mq = sc_queues s; ws = vals (sv_workers (sc_sup s)) in
      (s\<lparr>sc_queues := looked_up (map wk_model_id ws) mq\<rparr>,
       JDict
         [(''mode'', JStr (mode_name (service_mode_of db))),
          (''prism'', JDict
            [(''kvcached'', JBool (se_kvcached env)),
             (''weight_cache'',
               JStr (if ram_weight_cache_enabled (se_settings env) then ''host_ram'' else ''disabled'')),
             (''cached_workers'', JInt (int (length (filter (\<lambda>w. wk_state w = SLEEPING) ws))))]),
          (''workers'', JList (map (status_worker stamp db mq) ws)),
          (''queued_models'', JDict (fold (\<lambda>mid.
             AList.update (nickname_of db mid) (queued_requests mq mid)) (pending_models mq) []))]))"

definition gpu_placement :: "database \<Rightarrow> model_queues \<Rightarrow> worker \<Rightarrow> json" where
  "gpu_placement db mq w =
     (let active = int (card (wk_admitted w)); capacity = pf_max_num_seqs (wk_profile w) in
      JDict
        [(''worker_id'', JStr (wk_id w)), (''model_id'', JStr (wk_model_id w)),
         (''model'', JStr (nickname_of db (wk_model_id w))),
         (''engine'', JStr (engine_value (pf_engine (wk_profile w)))),
         (''state'', JStr (runtime_state_value (wk_state w))),
         (''weight_storage'', JStr (weight_storage w)),
         (''last_activation_seconds'', json_opt JFloat (wk_last_activation w)),
         (''last_offload_seconds'', json_opt JFloat (wk_last_offload w)),
         (''continuous_batching_slots'', JDict
           [(''active'', JInt active), (''capacity'', json_opt JInt capacity),
            (''available'', json_opt (\<lambda>n. JInt (max 0 (n - active))) capacity)]),
         (''max_batched_tokens'', json_opt JInt (pf_max_num_batched_tokens (wk_profile w))),
         (''outstanding_token_work'', JInt (wk_outstanding w)),
         (''queued_requests'', queued_requests mq (wk_model_id w))])"

text \<open>A worker is listed once for each mention of the GPU among its own.\<close>

definition placements_on :: "database \<Rightarrow> model_queues \<Rightarrow> worker list \<Rightarrow> string \<Rightarrow> json list" where
  "placements_on db mq ws gpu =
     concat (map (\<lambda>w. map (\<lambda>_. gpu_placement db mq w) (filter (\<lambda>g. g = gpu) (wk_gpu_uuids w))) ws)"

record admin_dashboard =
  ad_mode :: service_mode
  ad_usage :: dashboard
  ad_gpus :: "(string, json) dict list"

text \<open>\<open>samples\<close> are those of \<open>read_live_gpu_status\<close>, which hold the GPU's UUID.\<close>

definition dashboard_page ::
  "(datetime \<Rightarrow> rat) \<Rightarrow> datetime \<Rightarrow> (string, json) dict list \<Rightarrow> scheduler \<Rightarrow> scheduler \<times> admin_dashboard" where
  "dashboard_page jd now samples s =
     (let db = sc_db s; mq = sc_queues s;
          ws = filter (\<lambda>w. wk_state w \<noteq> COLD) (vals (sv_workers (sc_sup s))) in
      (s\<lparr>sc_queues := looked_up (map wk_model_id ws) mq\<rparr>,
       \<lparr>ad_mode = service_mode_of db, ad_usage = usage_dashboard jd now db,
        ad_gpus = map (\<lambda>sample.
          AList.update ''placements'' (JList (placements_on db mq ws
            (case get_or JNull ''uuid'' sample of JStr u \<Rightarrow> u | _ \<Rightarrow> []))) sample) samples\<rparr>))"

text \<open>The requests of a test run with the placement they were served at.\<close>

record logged_request =
  lr_request :: inference_row
  lr_model :: string
  lr_gpus :: "string list"
  lr_tensor_parallel :: json

definition logged :: "database \<Rightarrow> inference_row \<Rightarrow> logged_request list" where
  "logged db r =
     (case find_row mc_id (ir_model r) (db_models db) of
        None \<Rightarrow> []
      | Some m \<Rightarrow>
          let w = Option.bind (ir_worker r) (\<lambda>wid. find_row wr_id wid (db_workers db));
              p = Option.bind w (\<lambda>x. find_row mp_id (wr_profile x) (db_profiles db))
          in [\<lparr>lr_request = r, lr_model = mc_nickname m,
               lr_gpus = (case w of None \<Rightarrow> [] | Some x \<Rightarrow> wr_gpus x),
               lr_tensor_parallel = (case p of None \<Rightarrow> JNull
                 | Some x \<Rightarrow> get_or JNull ''tensor_parallel_size'' (mp_profile x))\<rparr>])"

definition inference_requests_for_test_run :: "string \<Rightarrow> database \<Rightarrow> logged_request list" where
  "inference_requests_for_test_run run db =
     concat (map (logged db) (sort_key (\<lambda>r. (ir_created_at r, ir_id r))
       (filter (\<lambda>r. ir_test_run r = Some run) (db_requests db))))"

definition inference_request_logs :: "string \<Rightarrow> scheduler \<Rightarrow> logged_request list reply" where
  "inference_request_logs run s =
     (s, if run = [] \<or> 128 < length run
         then Inl (Raised (rio ''invalid_test_run_id'' ''A valid test_run_id is required'' 400 []))
         else Inr (inference_requests_for_test_run run (sc_db s)))"

section \<open>What draining does\<close>

text \<open>The catalog: what the accounting never changes.\<close>

definition same_catalog :: "database \<Rightarrow> database \<Rightarrow> bool" where
  "same_catalog db db' \<longleftrightarrow> db_models db' = db_models db \<and> db_profiles db' = db_profiles db
     \<and> db_grants db' = db_grants db"

lemma same_catalog_refl [simp]: "same_catalog db db"
  by (simp add: same_catalog_def)

lemma same_catalog_trans: "same_catalog a b \<Longrightarrow> same_catalog b c \<Longrightarrow> same_catalog a c"
  by (simp add: same_catalog_def)

lemma catalog_settle: "settle_quota lid now rid actual p k e db = Inr db' \<Longrightarrow> same_catalog db db'"
  by (auto simp: settle_quota_def refund_account_def add_balance_def insert_or_ignore_ledger_def
      same_catalog_def Let_def split: option.splits if_splits sum.splits)

lemma catalog_release: "same_catalog (sc_db s) (sc_db (release_quota env now rid reason s))"
  by (auto simp: release_quota_def release_reservation_def dest: catalog_settle split: sum.splits)

lemma catalog_fold:
  assumes "\<And>x s. same_catalog (sc_db s) (sc_db (f x s))"
  shows "same_catalog (sc_db s) (sc_db (fold f xs s))"
  by (induction xs arbitrary: s) (auto intro: same_catalog_trans [OF assms])

lemma catalog_event: "same_catalog (sc_db s) (sc_db (worker_event env now wid event s))"
  unfolding worker_event_def
  by (auto intro!: catalog_fold same_catalog_trans [OF _ catalog_release])

lemma catalog_with_sup: "same_catalog (sc_db s) (sc_db (with_sup env now f s))"
proof -
  have "same_catalog (sc_db s) (sc_db (deliver env now s))" for s :: scheduler
    unfolding deliver_def
    using catalog_fold [of "\<lambda>e. worker_event env now (fst e) (snd e)" "s\<lparr>sc_sup := (sc_sup s)\<lparr>sv_emitted := []\<rparr>\<rparr>"]
      catalog_event by (simp add: split_def)
  then show ?thesis unfolding with_sup_def by (rule same_catalog_trans [rotated]) simp
qed

lemma catalog_drain_matching: "same_catalog (sc_db s) (sc_db (drain_matching env now P s))"
  unfolding drain_matching_def by (rule catalog_fold) (rule catalog_with_sup)

definition drained :: "datetime \<Rightarrow> worker \<Rightarrow> worker" where
  "drained now w =
     (if wk_state w \<in> {DRAINING, STOPPING, COLD} then w
      else w\<lparr>wk_state := DRAINING, wk_drain_started_at := Some now\<rparr>)"

lemma drained_sel [simp]:
  "wk_profile (drained now w) = wk_profile w" "wk_id (drained now w) = wk_id w"
  "wk_admitted (drained now w) = wk_admitted w" "wk_state (drained now w) \<noteq> READY"
  "drained now (drained now w) = drained now w"
  by (auto simp: drained_def)

lemma drain_get:
  "get_worker (drain wid now sv) i =
     (if i = wid then map_option (drained now) (get_worker sv i) else get_worker sv i)"
  by (auto simp: drain_def drained_def Let_def split: option.splits)

lemma drain_fold_get:
  "get_worker (sc_sup (fold (\<lambda>wid. with_sup env now (drain wid now)) ids s)) i =
     (if i \<in> set ids then map_option (drained now) (get_worker (sc_sup s) i)
      else get_worker (sc_sup s) i)"
  by (induction ids arbitrary: s) (auto simp: drain_get option.map_comp comp_def)

lemma inv_db:
  "sched_inv s \<Longrightarrow> service_mode_of db = service_mode_of (sc_db s) \<Longrightarrow> sched_inv (s\<lparr>sc_db := db\<rparr>)"
  by (simp add: sched_inv_def all_cold_def)

lemma inv_log: "sched_inv s \<Longrightarrow> sched_inv (log_event now k i ps s)"
  unfolding log_event_def by (rule inv_db) (simp_all add: record_runtime_event_def service_mode_of_def)

lemma inv_drain_matching: "sched_inv s \<Longrightarrow> sched_inv (drain_matching env now P s)"
proof (rule inv_stay [where env = env])
  show "sup_moves env False s (drain_matching env now P s)" unfolding drain_matching_def
    by (intro moves_fold moves_with_sup) (simp_all add: sup_step.drain op_keys)
  show "same_frame s (drain_matching env now P s)" "sc_queues (drain_matching env now P s) = sc_queues s"
    by (simp_all add: drain_matching_def same_frame_def fold_same [where f = sc_queues]
        fold_same [where f = sc_validation] fold_same [where f = sc_maintenance]
        fold_same [where f = "\<lambda>s. service_mode_of (sc_db s)"])
qed

lemma vals_get:
  assumes "distinct (keys d)"
  shows "vals d = map (\<lambda>k. the (map_of d k)) (keys d)"
  using assms by auto

text \<open>Under the invariant a worker is filed under its id.\<close>

lemma filed_under_id:
  assumes "sched_inv s" "(k, w) \<in> set (sv_workers (sc_sup s))"
  shows "wk_id w = k"
proof -
  have "get_worker (sc_sup s) k = Some w"
    using assms(2) sched_invD(2) [OF assms(1)] by (simp add: get_worker_def)
  then show ?thesis using sup_invD [OF sched_invD(1) [OF assms(1)]] by (simp add: worker_ok_def)
qed

lemma drained_workers:
  assumes "sched_inv s"
  shows "vals (sv_workers (sc_sup (drain_matching env now P s)))
    = map (\<lambda>w. if P w then drained now w else w) (vals (sv_workers (sc_sup s)))"
proof -
  let ?ws = "sv_workers (sc_sup s)" and ?ws' = "sv_workers (sc_sup (drain_matching env now P s))"
  have keys: "keys ?ws' = keys ?ws"
    unfolding drain_matching_def by (rule run_keys [of "se_settings env"], rule moves_fold, rule moves_with_sup)
      (simp_all add: sup_step.drain op_keys)
  have dist: "distinct (keys ?ws)" by (rule sched_invD [OF assms])
  have "the (map_of ?ws' k) = (if P w then drained now w else w)" if "(k, w) \<in> set ?ws" for k w
  proof -
    have "get_worker (sc_sup s) k = Some w" using that dist by (simp add: get_worker_def)
    moreover have "k \<in> set (matching_workers P s) \<longleftrightarrow> P w"
      using that dist filed_under_id [OF assms] unfolding matching_workers_def
      by (force simp: distinct_map inj_on_def)
    ultimately show ?thesis
      using drain_fold_get [of env now "matching_workers P s" s k]
      by (simp add: drain_matching_def [symmetric] get_worker_def)
  qed
  then show ?thesis unfolding vals_get [OF dist] vals_get [OF dist [folded keys]] keys
    using dist by (auto simp: map_of_eq_Some_iff)
qed

end
