(* ===== verification/AdminSpec.thy ===== *)
theory AdminSpec
  imports AdminRoutes KeyAdmin
begin

text \<open>
  What the handlers of the theory \<open>AdminRoutes\<close> promise: an edited default profile is the one that is
  served, a disabled model takes no more requests, and a refused call changes nothing, while any call
  leaves the scheduler in a state it can go on from.
\<close>

section \<open>An edited default is what is served\<close>

lemma edit_identity:
  assumes "apply_profile_edit fs p m e k gpu_sets llama = Inr q"
  shows "pf_id q = pf_id p \<and> pf_model_id q = pf_model_id p \<and> pf_capabilities q = pf_capabilities p
    \<and> pf_machine_fingerprint q = pf_machine_fingerprint p"
proof -
  from assms obtain p1 p2 args where d: "edit_parallelism e k gpu_sets p = Inr p1"
    "edit_limits e p1 = Inr p2" "edit_engine_args fs m e llama args p2 = Inr q"
    unfolding apply_profile_edit_def and_then_Inr by blast
  let ?same = "\<lambda>a b. pf_id b = pf_id a \<and> pf_model_id b = pf_model_id a
    \<and> pf_capabilities b = pf_capabilities a \<and> pf_machine_fingerprint b = pf_machine_fingerprint a"
  have "?same p p1" using d(1)
    by (auto simp: edit_parallelism_def Let_def split: option.splits if_splits)
  moreover have "?same p1 p2" using d(2)
    by (auto simp: edit_limits_def Let_def and_then_Inr split: option.splits)
  moreover have "?same p2 q" using d(3)
    by (auto simp: edit_engine_args_def Let_def and_then_Inr split: option.splits if_splits)
  ultimately show ?thesis by simp
qed

lemma profile_from_dict_model:
  "holds (\<lambda>p. string_field ''model_id'' raw = Inr (pf_model_id p)) (profile_from_dict lit raw)"
  unfolding profile_from_dict_def
  by (intro holds_and_then holds_Inr) (simp only: placement_profile.simps simp_thms)

text \<open>The stored object names the model of its row.\<close>

definition names_its_model :: "profile_row \<Rightarrow> bool" where
  "names_its_model r \<longleftrightarrow> map_of (mp_profile r) ''model_id'' = Some (JStr (mp_model r))"

lemma read_profile_model:
  "read_profile lit fp r = Inr p \<Longrightarrow> names_its_model r \<Longrightarrow> pf_model_id p = mp_model r"
  unfolding read_profile_def by (drule holdsD [OF profile_from_dict_model])
    (simp add: string_field_def field_def update_conv' names_its_model_def)

lemma records_of_model:
  assumes "records_for_model lit fp mid db = Inr records" "r \<in> set records"
    "list_all names_its_model (db_profiles db)"
  shows "pf_model_id (sp_profile r) = mid"
proof -
  let ?f = "\<lambda>r. and_then (read_profile lit fp r) (\<lambda>p. Inr \<lparr>sp_profile = p, sp_active = mp_active r\<rparr>)"
  let ?rows = "sort_key (\<lambda>r. \<not> mp_active r) (ordered_profiles (machine_rows fp mid db))"
  from assms(1) have "traverse ?f ?rows = Inr records" by (simp only: records_for_model_def)
  then obtain x where x: "x \<in> set ?rows" "?f x = Inr r" using traverse_mem assms(2) by meson
  from x(1) have "x \<in> set (db_profiles db)" "mp_model x = mid"
    by (simp_all add: ordered_profiles_def sort_desc_def machine_rows_def)
  moreover from x(2) obtain p where "read_profile lit fp x = Inr p" "sp_profile r = p"
    by (auto simp: and_then_Inr)
  ultimately show ?thesis using read_profile_model assms(3) by (auto simp: list_all_iff)
qed

lemma edited_profile_is:
  assumes "edited_profile env mid pid e db = Inr (selected, updated)"
    "list_all names_its_model (db_profiles db)"
  shows "pf_id updated = pid \<and> pf_model_id updated = mid \<and> finite (pf_capabilities updated)
    \<and> pf_machine_fingerprint updated = ae_fingerprint env"
proof -
  from assms(1) obtain m records k gpu_sets where d:
    "records_for_model (ae_lit env) (ae_fingerprint env) mid db = Inr records"
    "find (\<lambda>r. pf_id (sp_profile r) = pid) records = Some selected"
    "apply_profile_edit (ae_files env) (sp_profile selected) m e k gpu_sets (ae_llama_enabled env) = Inr updated"
    by (auto simp: edited_profile_def Let_def split: if_splits option.splits sum.splits)
  then have s: "selected \<in> set records" "pf_id (sp_profile selected) = pid"
    by (auto simp: find_Some_iff)
  show ?thesis using edit_identity [OF d(3)] records_on_machine [OF d(1) s(1)]
      records_of_model [OF d(1) s(1) assms(2)] s(2) by simp
qed

lemma update_model_profile_Inr:
  assumes "update_model_profile env now mid pid e s = (s', Inr a)"
  obtains selected updated db where
    "edited_profile env mid pid e (sc_db s) = Inr (selected, updated)"
    "update_profile (ae_hash env) (ae_stamp env) now (ae_fingerprint env) updated (ed_make_default e) (sc_db s)
       = Inr (True, db)"
    "sp_profile (ea_profile a) = updated"
    "s' = drain_matching (ae_sched env) now (\<lambda>w. ed_restart_workers e \<and> wk_model_id w = mid)
       (log_event now ''MODEL_PROFILE_OVERRIDDEN'' (Some (pf_id updated))
         [(''model_id'', JStr mid), (''engine'', JStr (engine_value (pf_engine updated))),
          (''tensor_parallel_size'', JInt (pf_tensor_parallel_size updated)),
          (''max_model_len'', JInt (pf_max_model_len updated)),
          (''make_default'', JBool (ed_make_default e))] (s\<lparr>sc_db := db\<rparr>))"
  using assms
  by (auto simp: update_model_profile_def Let_def split: sum.splits prod.splits exn.splits if_splits)

lemma update_profile_service:
  "update_profile hash stamp now fp p d db = Inr (b, db') \<Longrightarrow> service_mode_of db' = service_mode_of db"
  by (auto simp: update_profile_def sync_context_limit_def and_then_Inr service_mode_of_def Let_def
      split: option.splits if_splits)

lemma filter_drained:
  "filter (\<lambda>w. wk_model_id w = mid \<and> is_routable w) (map (\<lambda>w. if P w then drained now w else w) ws)
    = filter (\<lambda>w. wk_model_id w = mid \<and> is_routable w \<and> \<not> P w) ws"
  by (induction ws) (auto simp: is_routable_def)

lemma ready_after_drain:
  "sched_inv s \<Longrightarrow> ready_workers mid (drain_matching env now P s)
    = filter (\<lambda>w. wk_model_id w = mid \<and> is_routable w \<and> \<not> P w) (vals (sv_workers (sc_sup s)))"
  unfolding ready_workers_def by (simp only: drained_workers filter_drained)


section \<open>A disabled model takes no request\<close>

lemma available_is_offered:
  "m \<in> set (available_models p db) \<Longrightarrow> m \<in> set (db_models db) \<and> mc_state m = AVAILABLE"
  by (auto simp: available_models_def list_models_def granted_models_def split: if_splits)


section \<open>A refused call changes nothing\<close>

definition failure_of :: "http_error + 'a \<Rightarrow> http_error option" where
  "failure_of r = (case r of Inl e \<Rightarrow> Some e | Inr _ \<Rightarrow> None)"

lemma failure_of_simps [simp]: "failure_of (Inl e) = Some e" "failure_of (Inr x) = None"
  by (simp_all add: failure_of_def)

text \<open>A call of one of the handlers, its failure if it has one, and the state it leaves.\<close>

inductive handled :: "admin_env \<Rightarrow> scheduler \<Rightarrow> http_error option \<Rightarrow> scheduler \<Rightarrow> bool"
  for env :: admin_env and s :: scheduler where
  create_key: "create_key_route kid aid secret hash encrypt now b s = (s', r) \<Longrightarrow> handled env s (failure_of r) s'"
| rotate_key: "rotate_key_route kid secret hash encrypt s = (s', r) \<Longrightarrow> handled env s (failure_of r) s'"
| revoke_key: "revoke_key kid s = (s', r) \<Longrightarrow> handled env s (failure_of r) s'"
| restore_key: "restore_key kid s = (s', r) \<Longrightarrow> handled env s (failure_of r) s'"
| delete_key: "delete_key_route encrypted kid s = (s', r) \<Longrightarrow> handled env s (failure_of r) s'"
| update_quota: "update_quota_route kid limit unlimited s = (s', r) \<Longrightarrow> handled env s (failure_of r) s'"
| reset_usage: "reset_usage_route now kid s = (s', r) \<Longrightarrow> handled env s (failure_of r) s'"
| summarize: "summarize_usage_route jd stamp now through s = (s', r) \<Longrightarrow> handled env s (failure_of r) s'"
| list_profiles: "list_model_profiles env mid s = (s', r) \<Longrightarrow> handled env s (failure_of r) s'"
| defaults: "update_model_defaults_route now mid updates s = (s', r) \<Longrightarrow> handled env s (failure_of r) s'"
| clone: "clone_model_route env parse_json now new_id fresh config mid c s = (s', r) \<Longrightarrow> handled env s (failure_of r) s'"
| edit: "update_model_profile env now mid pid e s = (s', r) \<Longrightarrow> handled env s (failure_of r) s'"
| profile_active: "set_model_profile_active env now mid pid action s = (s', r) \<Longrightarrow> handled env s (failure_of r) s'"
| maintenance: "change_maintenance (ae_sched env) now draining s = (s', r) \<Longrightarrow> handled env s (failure_of r) s'"
| register: "register_model verify now model_id job_id p b tasks s = (tasks', s', r) \<Longrightarrow> handled env s (failure_of r) s'"
| retry: "retry_model_job now job_id tasks s = (tasks', s', r) \<Longrightarrow> handled env s (failure_of r) s'"
| disable: "disable_model_route (ae_sched env) now mid s = (s', r) \<Longrightarrow> handled env s (failure_of r) s'"
| access: "update_model_access_route verify now selector models mode s = (s', r) \<Longrightarrow> handled env s (failure_of r) s'"
| grants: "update_grants_route now kid model_ids s = (s', r) \<Longrightarrow> handled env s (failure_of r) s'"
| logs: "inference_request_logs run s = (s', r) \<Longrightarrow> handled env s (failure_of r) s'"

section \<open>What each call does to the mode\<close>

named_theorems mode_kept

lemma mode_keys [mode_kept]:
  "set_key_active kid b db = Inr (ok, db') \<Longrightarrow> service_mode_of db' = service_mode_of db"
  "delete_key x kid db = Inr (ok, db') \<Longrightarrow> service_mode_of db' = service_mode_of db"
  "rotate_key kid secret hash encrypt db = Inr (t, db') \<Longrightarrow> service_mode_of db' = service_mode_of db"
  "update_quota kid limit unlimited db = Inr (ok, db') \<Longrightarrow> service_mode_of db' = service_mode_of db"
  "reset_usage now kid db = (rr, db') \<Longrightarrow> service_mode_of db' = service_mode_of db"
  by (auto simp: set_key_active_def delete_key_def rotate_key_def replace_key_secret_def issue_api_key_def
      update_quota_def reset_usage_def service_mode_of_def and_then_Inr Let_def
      split: option.splits if_splits)

lemma mode_grants [mode_kept]:
  "insert_grants now kid mids db = Inr db' \<Longrightarrow> service_mode_of db' = service_mode_of db"
  by (induction mids arbitrary: db) (auto simp: service_mode_of_def split: if_splits)

lemma mode_access [mode_kept]:
  "update_model_access now kid ns mode db = Inr (granted, db') \<Longrightarrow> service_mode_of db' = service_mode_of db"
  "replace_model_grants now kid mids db = Inr db' \<Longrightarrow> service_mode_of db' = service_mode_of db"
  by (auto simp: update_model_access_def replace_model_grants_def drop_grants_def service_mode_of_def and_then_Inr Let_def
      dest!: mode_grants split: if_splits)

lemma mode_create [mode_kept]:
  "create_key now sp db = Inr db' \<Longrightarrow> service_mode_of db' = service_mode_of db"
  by (auto simp: create_key_def insert_key_def insert_or_ignore_account_def service_mode_of_def Let_def
      split: if_splits)

lemma mode_models [mode_kept]:
  "create_model_job model_id job_id now n repo wanted creator gs db = Inr (ids, db') \<Longrightarrow>
     service_mode_of db' = service_mode_of db"
  "update_model_job now job_id u db = Inr db' \<Longrightarrow> service_mode_of db' = service_mode_of db"
  "update_model_request_defaults now mid us db = (m, db') \<Longrightarrow> service_mode_of db' = service_mode_of db"
  "disable_model now mid db = (ok, db') \<Longrightarrow> service_mode_of db' = service_mode_of db"
  by (auto simp: create_model_job_def insert_model_def update_model_job_def update_model_request_defaults_def
      disable_model_def service_mode_of_def and_then_Inr Let_def split: option.splits if_splits)

lemma mode_profiles [mode_kept]:
  "set_profile_active now fp mid pid active db = Inr (ok, db') \<Longrightarrow> service_mode_of db' = service_mode_of db"
  by (auto simp: set_profile_active_def sync_context_limit_def service_mode_of_def and_then_Inr Let_def
      split: if_splits)

lemma mode_insert_each:
  assumes "\<And>x db db'. f x db = Inr db' \<Longrightarrow> service_mode_of db' = service_mode_of db"
  shows "insert_each f xs db = Inr db' \<Longrightarrow> service_mode_of db' = service_mode_of db"
  by (induction xs arbitrary: db) (auto simp: and_then_Inr dest: assms)

lemma mode_insert_profile:
  "insert_profile r db = Inr db' \<Longrightarrow> service_mode_of db' = service_mode_of db"
  by (auto simp: insert_profile_def service_mode_of_def split: if_splits)

lemma mode_insert_model:
  "insert_model m db = Inr db' \<Longrightarrow> service_mode_of db' = service_mode_of db"
  by (auto simp: insert_model_def service_mode_of_def split: if_splits)

lemma holds_if: "(b \<Longrightarrow> holds P x) \<Longrightarrow> (\<not> b \<Longrightarrow> holds P y) \<Longrightarrow> holds P (if b then x else y)"
  by simp

lemma holds_Inl: "holds P (Inl e)"
  by (simp add: holds_def)

lemma mode_insert_grants:
  "insert_each (\<lambda>k. insert_grants now k mids) ks db = Inr db' \<Longrightarrow> service_mode_of db' = service_mode_of db"
  by (rule mode_insert_each) (rule mode_grants)

lemma mode_clone [mode_kept]:
  assumes "clone_model lit parse hash stamp now fp new_id fresh config source c db = Inr (x, db')"
  shows "service_mode_of db' = service_mode_of db"
proof -
  have "holds (\<lambda>r. service_mode_of (snd r) = service_mode_of db)
    (clone_model lit parse hash stamp now fp new_id fresh config source c db)"
    unfolding clone_model_def Let_def
  proof (intro holds_if holds_Inl holds_and_then, goal_cases)
    case (1 stored yarn cloned db1 db2 db3)
    from 1(9) have "service_mode_of db3 = service_mode_of db2"
      using mode_insert_grants by (cases "cl_inherit c") auto
    then have "service_mode_of db3 = service_mode_of db"
      using mode_insert_model [OF 1(7)] mode_insert_each [OF mode_insert_profile 1(8)] by simp
    then show ?case by (cases "model_by_id new_id db3") (simp_all add: holds_def)
  qed
  from holdsD [OF this assms] show ?thesis by simp
qed

lemma mode_summary [mode_kept]:
  "summarize_usage jd now through db = Inr (x, db') \<Longrightarrow> service_mode_of db' = service_mode_of db"
  by (auto simp: summarize_usage_def summarize_usage_records_def summarize_from_def summarized_db_def
      service_mode_of_def Let_def split: option.splits if_splits prod.splits)

section \<open>What is not found is not changed\<close>

lemma not_found_same:
  "set_key_active kid b db = Inr (False, db') \<Longrightarrow> db' = db"
  "delete_key x kid db = Inr (False, db') \<Longrightarrow> db' = db"
  "rotate_key kid secret hash encrypt db = Inr (None, db') \<Longrightarrow> db' = db"
  "update_quota kid limit unlimited db = Inr (False, db') \<Longrightarrow> db' = db"
  "reset_usage now kid db = (None, db') \<Longrightarrow> db' = db"
  "set_profile_active now fp mid pid active db = Inr (False, db') \<Longrightarrow> db' = db"
  by (auto simp: set_key_active_def delete_key_def rotate_key_def issue_api_key_def update_quota_def
      reset_usage_def set_profile_active_def and_then_Inr Let_def split: option.splits if_splits)

lemma update_profile_not_found:
  "update_profile hash stamp now fp p d db = Inr (False, db') \<Longrightarrow> db' = db"
  by (auto simp: update_profile_def and_then_Inr Let_def split: option.splits if_splits)

lemma disable_not_found: "disable_model now mid db = (False, db') \<Longrightarrow> db' = db"
  using update_rows_none [of "db_models db" "\<lambda>m. mc_id m = mid"
      "\<lambda>m. m\<lparr>mc_state := DISABLED, mc_updated_at := now\<rparr>"]
  by (fastforce simp: disable_model_def)

lemma defaults_not_found: "update_model_request_defaults now mid us db = (None, db') \<Longrightarrow> db' = db"
  by (auto simp: update_model_request_defaults_def model_by_id_def Let_def find_update_rows split: option.splits)

lemma create_key_found:
  assumes "create_key now sp db = Inr db'"
  shows "db_models db' = db_models db \<and> (\<exists>k \<in> set (db_keys db'). ak_id k = ks_id sp \<and> ak_active k)"
  using assms by (auto simp: create_key_def insert_key_def insert_or_ignore_account_def Let_def split: if_splits)

lemma admin_create_key_failed:
  assumes "admin_create_key kid aid secret hash encrypt now b db = (Inl e, db')" "catalog_ok db"
  shows "db' = db"
proof (cases "db' = db")
  case False
  let ?missing = "sort (remdups (filter (\<lambda>n. n \<notin> mc_nickname ` set (db_models db)) (nk_models b)))"
  have none: "?missing = []" using assms(1) False by (auto simp: admin_create_key_def split: if_splits)
  from assms(1) False obtain sp db1 where c: "create_key now sp db = Inr db1" "ks_id sp = kid"
    and u: "update_model_access now kid (nk_models b) ACC_REPLACE db1 = Inl e"
    unfolding admin_create_key_def Let_def
    by (auto simp: none[simplified] split: sum.splits prod.splits if_splits)
  note found = create_key_found [OF c(1)]
  have "catalog_ok db1" using assms(2) found by (simp add: catalog_ok_def)
  moreover have "set (nk_models b) \<subseteq> mc_nickname ` set (db_models db1)"
    using arg_cong [OF none, of set] found by auto
  ultimately show ?thesis
    using access_update_grants [where db = db1 and kid = kid and requested = "nk_models b" and now = now
        and mode = ACC_REPLACE] found c(2) u by auto
qed

text \<open>A reply that leaves the state as it was when it is a failure, and one the scheduler goes on from.\<close>

definition sound_reply :: "scheduler \<Rightarrow> 'a reply \<Rightarrow> bool" where
  "sound_reply s r \<longleftrightarrow> sched_inv (fst r) \<and> (failure_of (snd r) \<noteq> None \<longrightarrow> fst r = s)"

lemma sound_refusal [simp]: "sched_inv s \<Longrightarrow> sound_reply s (s, r)"
  by (simp add: sound_reply_def)

lemma sound_refused: "sched_inv s \<Longrightarrow> db = sc_db s \<Longrightarrow> sound_reply s (s\<lparr>sc_db := db\<rparr>, r)"
  by (simp add: sound_reply_def)

lemma sound_answer: "sched_inv s' \<Longrightarrow> sound_reply s (s', Inr x)"
  by (simp add: sound_reply_def)

lemma sound_found:
  assumes "sched_inv s" "\<And>ok db. r = Inr (ok, db) \<Longrightarrow> service_mode_of db = service_mode_of (sc_db s)"
    "\<And>db. r = Inr (False, db) \<Longrightarrow> db = sc_db s"
  shows "sound_reply s (when_found detail r s)"
proof (cases r)
  case (Inr p)
  then show ?thesis using assms by (cases p; cases "fst p")
    (auto simp: when_found_def intro: sound_refused sound_answer inv_db)
qed (simp add: when_found_def assms(1))

lemma sound_keys:
  assumes "sched_inv s"
  shows "sound_reply s (revoke_key kid s)" "sound_reply s (restore_key kid s)"
    "sound_reply s (delete_key_route x kid s)" "sound_reply s (update_quota_route kid limit unlimited s)"
  unfolding revoke_key_def restore_key_def delete_key_route_def update_quota_route_def
  by (rule sound_found [OF assms]; fact mode_kept not_found_same)+

lemma sound_rotate: "sched_inv s \<Longrightarrow> sound_reply s (rotate_key_route kid secret hash encrypt s)"
  by (auto simp: rotate_key_route_def split: sum.splits option.splits prod.splits
      intro!: sound_answer inv_db dest: not_found_same mode_kept)

lemma sound_reset: "sched_inv s \<Longrightarrow> sound_reply s (reset_usage_route now kid s)"
  by (auto simp: reset_usage_route_def split: option.splits prod.splits
      intro!: sound_answer inv_db dest: not_found_same mode_kept)

lemma sound_summarize: "sched_inv s \<Longrightarrow> sound_reply s (summarize_usage_route jd stamp now through s)"
  by (auto simp: summarize_usage_route_def split: sum.splits
      intro!: sound_answer inv_log inv_db dest: mode_kept)

lemma sound_defaults: "sched_inv s \<Longrightarrow> sound_reply s (update_model_defaults_route now mid updates s)"
  by (auto simp: update_model_defaults_route_def split: option.splits prod.splits
      intro!: sound_answer inv_log inv_db dest: defaults_not_found mode_kept)

lemma sound_clone:
  "sched_inv s \<Longrightarrow> sound_reply s (clone_model_route env parse now new_id fresh config mid c s)"
  by (auto simp: clone_model_route_def split: option.splits sum.splits
      intro!: sound_answer inv_log inv_db dest: mode_kept)

lemma sound_profile_active:
  "sched_inv s \<Longrightarrow> sound_reply s (set_model_profile_active env now mid pid action s)"
  by (auto simp: set_model_profile_active_def Let_def split: sum.splits prod.splits
      intro!: sound_answer inv_log inv_drain_matching inv_db dest: not_found_same mode_kept)

lemma sound_edit: "sched_inv s \<Longrightarrow> sound_reply s (update_model_profile env now mid pid e s)"
  by (auto simp: update_model_profile_def Let_def split: sum.splits prod.splits exn.splits
      intro!: sound_answer inv_log inv_drain_matching inv_db dest: update_profile_not_found update_profile_service)

lemma sound_disable: "sched_inv s \<Longrightarrow> sound_reply s (disable_model_route env now mid s)"
  by (auto simp: disable_model_route_def split: prod.splits bool.splits
      intro!: sound_answer inv_drain_matching inv_db dest: disable_not_found mode_kept)

lemma inv_resumed:
  "sched_inv s \<Longrightarrow> all_cold s \<Longrightarrow>
     sched_inv (s\<lparr>sc_db := set_service_mode now ACTIVE (sc_db s), sc_maintenance := False\<rparr>)"
  by (simp add: sched_inv_def)

lemma sound_maintenance: "sched_inv s \<Longrightarrow> sound_reply s (change_maintenance env now draining s)"
  by (auto simp: change_maintenance_def Let_def resume_def inv_maintenance split: prod.splits sum.splits
      intro!: sound_answer inv_resumed)

lemma sound_jobs:
  assumes "sched_inv s"
  shows "sound_reply s (snd (register_model verify now model_id job_id p b tasks s))"
    "sound_reply s (snd (retry_model_job now job_id tasks s))"
  using assms
  by (auto simp: register_model_def retry_model_job_def and_then_Inr split: sum.splits option.splits prod.splits
      intro!: sound_answer inv_db dest: mode_kept)

lemma sound_access:
  assumes "sched_inv s"
  shows "sound_reply s (update_model_access_route verify now selector models mode s)"
    "sound_reply s (update_grants_route now kid model_ids s)"
  using assms
  by (auto simp: update_model_access_route_def update_grants_route_def split: sum.splits option.splits
      prod.splits exn.splits intro!: sound_answer inv_db dest: mode_kept)

lemma sound_create:
  assumes "sched_inv s" "catalog_ok (sc_db s)"
  shows "sound_reply s (create_key_route kid aid secret hash encrypt now b s)"
proof -
  obtain r db where run: "admin_create_key kid aid secret hash encrypt now b (sc_db s) = (r, db)" by fastforce
  show ?thesis
  proof (cases r)
    case (Inl e)
    then show ?thesis using admin_create_key_failed [of kid aid secret hash encrypt now b "sc_db s" e db] run assms
      by (simp add: create_key_route_def)
  next
    case (Inr t)
    have "service_mode_of db = service_mode_of (sc_db s)"
      using run unfolding Inr admin_create_key_def Let_def
      by (auto split: if_splits sum.splits prod.splits dest!: mode_kept)
    then show ?thesis using run Inr by (cases t) (auto simp: create_key_route_def intro!: sound_answer inv_db assms(1))
  qed
qed

lemma sound_replyD:
  "sound_reply s r \<Longrightarrow> r = (s', x) \<Longrightarrow> sched_inv s' \<and> (failure_of x \<noteq> None \<longrightarrow> s' = s)"
  "sound_reply s (snd r') \<Longrightarrow> r' = (tasks, s', x) \<Longrightarrow> sched_inv s' \<and> (failure_of x \<noteq> None \<longrightarrow> s' = s)"
  by (simp_all add: sound_reply_def)


section \<open>Concrete calls\<close>

text \<open>One model with two profiles and a ready worker that serves a request.\<close>

definition demo_service_env :: sched_env where
  "demo_service_env =
     \<lparr>se_settings = demo_settings, se_planner = demo_cfg, se_gpus = [''g0''],
      se_stream_timeout = None, se_validation_idle = 60, se_kvcached = True,
      se_ledger_id = (\<lambda>rid. ''refund-'' @ rid)\<rparr>"

definition demo_admin_env :: admin_env where
  "demo_admin_env =
     \<lparr>ae_sched = demo_service_env,
      ae_inventory = demo_one_gpu,
      ae_files = demo_files, ae_llama_enabled = False, ae_lit = (\<lambda>_. None), ae_hash = (\<lambda>_. ''h''),
      ae_stamp = (\<lambda>_. ''now'')\<rparr>"

definition demo_serving_worker :: worker where
  "demo_serving_worker =
     (new_worker ''w'' demo_sup_profile [''g0''] 9000 0)\<lparr>wk_state := READY, wk_admitted := {''q1''}\<rparr>"

definition demo_service :: scheduler where
  "demo_service = (sched_init None None 0 demo_store)\<lparr>sc_sup :=
     sup_init\<lparr>sv_workers := [(''w'', demo_serving_worker)]\<rparr>\<rparr>"

lemma demo_service_ready: "ready_workers ''m'' demo_service = [demo_serving_worker]"
  by code_simp

lemma demo_service_inv: "sched_inv demo_service"
proof -
  have w: "wk_id demo_serving_worker = ''w''" "wk_state demo_serving_worker = READY" "wk_outstanding demo_serving_worker = 0"
    by (simp_all add: demo_serving_worker_def new_worker_def)
  have "service_mode_of demo_store = ACTIVE" by code_simp
  then show ?thesis using w
    by (simp add: demo_service_def sched_init_def sched_inv_def sup_inv_def worker_ok_def get_worker_def
        sup_init_def finishers_def queues_ok_def pending_models_def)
qed

definition demo_context_edit :: profile_edit where
  "demo_context_edit = demo_edit\<lparr>ed_tensor_parallel := None, ed_max_model_len := Some (Some 2048)\<rparr>"

definition edit_of :: "admin_env \<Rightarrow> edit_answer reply" where
  "edit_of env = update_model_profile env 5 ''m'' ''p'' demo_context_edit demo_service"

lemma demo_edit_run:
  "case snd (edit_of demo_admin_env) of
     Inl _ \<Rightarrow> False
   | Inr a \<Rightarrow> ea_drained a = [''w''] \<and> pf_max_model_len (sp_profile (ea_profile a)) = 2048"
  by code_simp

lemma demo_edit_duplicate:
  "(case snd (edit_of (demo_admin_env\<lparr>ae_hash := \<lambda>_. ''k2''\<rparr>)) of
     Inl e \<Rightarrow> http_status e = 409 | Inr _ \<Rightarrow> False)"
  by code_simp

lemma demo_disable_run:
  "snd (disable_model_route demo_service_env 5 ''m'' demo_service) = Inr ()"
  by code_simp

lemma demo_store_names: "list_all names_its_model (db_profiles demo_store)"
  by code_simp




end
