(* ===== verification/Startup.thy ===== *)
theory Startup
  imports KeyAdmin Registration SchedulerSteps
begin

text \<open>
  The start of the service: the lifespan of \<^verbatim>\<open>src/src/llm_rio/api/app.py\<close> up to the first request,
  the engines left over from a run before (\<^verbatim>\<open>src/src/llm_rio/recovery.py\<close>), the first administrator,
  and the start of the scheduler and of the registration jobs. What \<open>/proc\<close> and the signals answer is
  an argument.
\<close>

section \<open>Engines of a run before\<close>

text \<open>
  What is seen of a recorded process: its command line, with spaces for NULs (\<open>None\<close>: it cannot be
  read), at first and after the wait for its end; whether it exists at first, after the wait and at
  the end; and the exception of the first and of the second signal.
\<close>

record leftover =
  lo_command :: "string option"
  lo_exists :: bool
  lo_term_error :: "string option"
  lo_stays :: bool
  lo_command_after :: "string option"
  lo_kill_error :: "string option"
  lo_exists_after :: bool

definition matching_managed_process :: "string option \<Rightarrow> int \<Rightarrow> bool" where
  "matching_managed_process command port =
     (case command of
        None \<Rightarrow> False
      | Some c \<Rightarrow> (contains ''vllm'' c \<or> contains ''llama-server'' c)
          \<and> contains (''--port '' @ decimal port) c)"

datatype signal_sent = Sigterm int | Sigkill int

definition recovery_action :: "string \<Rightarrow> string \<Rightarrow> (string, json) dict" where
  "recovery_action wid action = [(''worker_id'', JStr wid), (''action'', JStr action)]"

text \<open>The signals that are sent to the process's group, and the report.\<close>

definition terminate_recorded ::
  "string \<Rightarrow> int \<Rightarrow> int \<Rightarrow> string \<Rightarrow> leftover \<Rightarrow> signal_sent list \<times> (string, json) dict" where
  "terminate_recorded wid pid port gpus seen =
     (if \<not> matching_managed_process (lo_command seen) port
      then ([], recovery_action wid (if lo_exists seen then ''pid_identity_mismatch'' else ''already_gone''))
      else case lo_term_error seen of
        Some e \<Rightarrow> ([], recovery_action wid ''failed'' @ [(''reason'', JStr e)])
      | None \<Rightarrow>
          let again = lo_stays seen \<and> matching_managed_process (lo_command_after seen) port
          in case (if again then lo_kill_error seen else None) of
               Some e \<Rightarrow> ([Sigterm pid], recovery_action wid ''failed'' @ [(''reason'', JStr e)])
             | None \<Rightarrow>
                 ([Sigterm pid] @ (if again then [Sigkill pid] else []),
                  recovery_action wid (if lo_exists_after seen then ''termination_unverified'' else ''terminated'')
                    @ [(''pid'', JInt pid), (''gpu_uuids_json'', JStr gpus)]))"

definition recorded_workers :: "database \<Rightarrow> worker_row list" where
  "recorded_workers db = filter (\<lambda>w. wr_state w \<noteq> COLD \<and> wr_pid w \<noteq> None) (db_workers db)"

text \<open>\<open>dump\<close> is the stored JSON text of a list of UUIDs.\<close>

definition terminate_recorded_workers ::
  "(string list \<Rightarrow> string) \<Rightarrow> bool \<Rightarrow> (string \<Rightarrow> leftover) \<Rightarrow> database \<Rightarrow> signal_sent list \<times> (string, json) dict list" where
  "terminate_recorded_workers dump posix seen db =
     (let reports = map (\<lambda>w. case wr_pid w of
            None \<Rightarrow> ([], [])
          | Some pid \<Rightarrow>
              if \<not> posix
              then ([], recovery_action (wr_id w) ''manual_review'' @ [(''reason'', JStr ''non_posix_host'')])
              else terminate_recorded (wr_id w) pid (wr_port w) (dump (wr_gpus w)) (seen (wr_id w)))
          (recorded_workers db)
      in (concat (map fst reports), map snd reports))"

text \<open>No process that is not an engine on its recorded port is signalled.\<close>

lemma only_engines_are_signalled:
  assumes "fst (terminate_recorded wid pid port gpus seen) \<noteq> []"
  shows "matching_managed_process (lo_command seen) port"
    "Sigkill pid \<in> set (fst (terminate_recorded wid pid port gpus seen)) \<Longrightarrow>
       lo_stays seen \<and> matching_managed_process (lo_command_after seen) port"
  using assms by (auto simp: terminate_recorded_def Let_def split: option.splits if_splits)

section \<open>The first administrator\<close>

text \<open>\<open>token\<close> is the key that is written to the log.\<close>

definition ensure_initial_admin ::
  "string \<Rightarrow> string \<Rightarrow> string \<Rightarrow> (string \<Rightarrow> string) \<Rightarrow> (string \<Rightarrow> string) \<Rightarrow> datetime \<Rightarrow> database
     \<Rightarrow> exn + (string option \<times> database)" where
  "ensure_initial_admin key_id account_id secret hash encrypt now db =
     (if key_count db \<noteq> 0 then Inr (None, db)
      else case issue_api_key key_id secret of (token, public) \<Rightarrow>
        and_then (create_key now
          \<lparr>ks_id = key_id, ks_nickname = ''admin'', ks_role = ADMIN, ks_account = account_id,
           ks_account_nickname = ''admin-account'', ks_prefix = public, ks_hash = hash token,
           ks_encrypted = encrypt token, ks_limit = 0, ks_unlimited = True\<rparr> db)
          (\<lambda>db'. Inr (Some token, db')))"

section \<open>The database at the start\<close>

definition note_fingerprint :: "datetime \<Rightarrow> string \<Rightarrow> database \<Rightarrow> database" where
  "note_fingerprint now fp db =
     (case set_machine_fingerprint now fp db of (previous, db') \<Rightarrow>
        (case previous of
           None \<Rightarrow> db'
         | Some p \<Rightarrow>
             if p \<noteq> [] \<and> p \<noteq> fp
             then record_runtime_event now ''MACHINE_FINGERPRINT_CHANGED'' None
                    [(''previous'', JStr p), (''current'', JStr fp)] db'
             else db'))"

definition startup_database ::
  "(string \<Rightarrow> string) \<Rightarrow> string \<Rightarrow> string \<Rightarrow> string \<Rightarrow> (string \<Rightarrow> string) \<Rightarrow> (string \<Rightarrow> string)
     \<Rightarrow> datetime \<Rightarrow> string \<Rightarrow> (string, json) dict list \<Rightarrow> database \<Rightarrow> exn + (string option \<times> database)" where
  "startup_database lid key_id account_id secret hash encrypt now fp reports db =
     (let db1 = fold (record_runtime_event now ''STARTUP_WORKER_RECONCILIATION'' None) reports db
      in and_then (recover_orphaned_state lid now db1) (\<lambda>db2.
           ensure_initial_admin key_id account_id secret hash encrypt now (note_fingerprint now fp db2)))"

section \<open>The components at the start\<close>

definition json_string :: "string option \<Rightarrow> json" where
  "json_string = json_opt JStr"

text \<open>\<open>_configure_prism\<close>: the event that tells whether kvcached is used, then the preloads.\<close>

record prism_settings =
  ps_mode :: kvcached_mode
  ps_runtime :: kvcached_runtime
  ps_max_workers_per_gpu :: int
  ps_weight_cache :: bool
  ps_max_cached_per_gpu :: int
  ps_idle_sleep :: rat
  ps_preload :: "string list"

definition configure_prism :: "datetime \<Rightarrow> prism_settings \<Rightarrow> scheduler \<Rightarrow> scheduler" where
  "configure_prism now ps s =
     (let r = ps_runtime ps in
      if \<not> kr_enabled r
      then if ps_mode ps = KV_DISABLED then s
           else log_event now ''PRISM_UNAVAILABLE'' None [(''reason'', JStr (kr_reason r))] s
      else
        let s1 = log_event now ''PRISM_ENABLED'' None
              [(''kvcached_version'', json_string (kr_package r)),
               (''kvcached_revision'', json_string (kr_revision r)),
               (''vllm_version'', json_string (kr_vllm r)),
               (''officially_tested'', JBool (kr_tested r)),
               (''max_workers_per_gpu'', JInt (ps_max_workers_per_gpu ps)),
               (''weight_cache'', JStr (if ps_weight_cache ps then ''vllm_sleep_level_1'' else ''disabled'')),
               (''max_cached_workers_per_gpu'', JInt (ps_max_cached_per_gpu ps)),
               (''idle_sleep_seconds'', JFloat (ps_idle_sleep ps))] s
        in if ps_preload ps = [] then s1 else configure_preload now (ps_preload ps) s1)"

text \<open>The service when it begins to answer: the scheduler, the registration's tasks, the first key.\<close>

definition start_service ::
  "(string list \<Rightarrow> string) \<Rightarrow> (string \<Rightarrow> string) \<Rightarrow> string \<Rightarrow> string \<Rightarrow> string \<Rightarrow> (string \<Rightarrow> string)
     \<Rightarrow> (string \<Rightarrow> string) \<Rightarrow> datetime \<Rightarrow> string \<Rightarrow> bool \<Rightarrow> (string \<Rightarrow> leftover) \<Rightarrow> int option \<Rightarrow> int option \<Rightarrow> prism_settings
     \<Rightarrow> database \<Rightarrow> exn + (scheduler \<times> job_tasks \<times> string option)" where
  "start_service dump lid key_id account_id secret hash encrypt now fp posix seen capacity per_tenant ps db =
     and_then (startup_database lid key_id account_id secret hash encrypt now fp
                 (snd (terminate_recorded_workers dump posix seen db)) db) (\<lambda>(token, db').
       let s = configure_prism now ps (sched_init capacity per_tenant now db')
       in Inr (s, resume_jobs (sc_db s) [], token))"

section \<open>The service starts clean\<close>

lemma books_event [simp]: "books_ok (record_runtime_event now kind i ps db) = books_ok db"
proof -
  have "request_ok (record_runtime_event now kind i ps db) = request_ok db"
    by (simp add: fun_eq_iff request_ok_def record_runtime_event_def)
  then show ?thesis
    by (simp add: books_ok_def accounts_ok_def reservations_ok_def ledger_ok_def requests_ok_def
        record_runtime_event_def)
qed

lemma event_sel [simp]:
  "db_keys (record_runtime_event now kind i ps db) = db_keys db"
  "db_accounts (record_runtime_event now kind i ps db) = db_accounts db"
  "db_reservations (record_runtime_event now kind i ps db) = db_reservations db"
  "db_workers (record_runtime_event now kind i ps db) = db_workers db"
  "db_jobs (record_runtime_event now kind i ps db) = db_jobs db"
  by (simp_all add: record_runtime_event_def)

lemma fold_events:
  "books_ok (fold (record_runtime_event now kind i) pss db) = books_ok db"
  "db_keys (fold (record_runtime_event now kind i) pss db) = db_keys db"
  "db_accounts (fold (record_runtime_event now kind i) pss db) = db_accounts db"
  by (induction pss arbitrary: db) simp_all

lemma note_fingerprint_sel [simp]:
  "db_keys (note_fingerprint now fp db) = db_keys db"
  "db_accounts (note_fingerprint now fp db) = db_accounts db"
  "db_reservations (note_fingerprint now fp db) = db_reservations db"
  "db_workers (note_fingerprint now fp db) = db_workers db"
  "db_jobs (note_fingerprint now fp db) = db_jobs db"
  by (simp_all add: note_fingerprint_def set_machine_fingerprint_def Let_def split: option.splits)

lemma all_updated:
  assumes "\<And>r. P r \<Longrightarrow> Q (f r)" "\<And>r. \<not> P r \<Longrightarrow> Q r"
  shows "\<forall>r \<in> set (update_rows P f rows). Q r"
  using assms by (auto simp: set_update_rows)

text \<open>What a settlement leaves alone.\<close>

lemma settle_others:
  "settle_quota lid now rid actual p k e db = Inr db' \<Longrightarrow>
     db_keys db' = db_keys db \<and> (db_accounts db = [] \<longrightarrow> db_accounts db' = [])"
  by (auto simp: settle_quota_def refund_account_def add_balance_def insert_or_ignore_ledger_def
      update_rows_def Let_def split: option.splits if_splits sum.splits)

lemma release_all_others:
  "release_all lid now rids db = Inr db' \<Longrightarrow>
     db_keys db' = db_keys db \<and> (db_accounts db = [] \<longrightarrow> db_accounts db' = [])"
  by (induction rids arbitrary: db) (auto simp: and_then_Inr release_reservation_def dest!: settle_others)

lemma recover_others:
  assumes "recover_orphaned_state lid now db = Inr db'"
  shows "db_keys db' = db_keys db" "db_accounts db = [] \<Longrightarrow> db_accounts db' = []"
    "\<forall>w \<in> set (db_workers db'). wr_state w = COLD \<and> wr_pid w = None"
proof -
  from assms obtain db1 where "release_all lid now (reserved_ids db) db = Inr db1"
    and db': "db' = db1\<lparr>
         db_workers := update_rows (\<lambda>w. wr_state w \<noteq> COLD \<or> wr_pid w \<noteq> None)
           (\<lambda>w. w\<lparr>wr_state := COLD, wr_pid := None, wr_updated_at := now\<rparr>) (db_workers db1),
         db_jobs := update_rows
           (\<lambda>j. mj_state j = ''RUNNING'' \<and> map ascii_lower (take 7 (mj_stage j)) = ''validat'')
           (\<lambda>j. j\<lparr>mj_state := ''QUEUED'', mj_stage := ''validation_requeued'',
                  mj_updated_at := now\<rparr>) (db_jobs db1)\<rparr>"
    unfolding recover_orphaned_state_def and_then_Inr by blast
  from release_all_others [OF this(1)]
  show "db_keys db' = db_keys db" "db_accounts db = [] \<Longrightarrow> db_accounts db' = []" unfolding db' by simp_all
  have "\<forall>w \<in> set (update_rows (\<lambda>w. wr_state w \<noteq> COLD \<or> wr_pid w \<noteq> None)
           (\<lambda>w. w\<lparr>wr_state := COLD, wr_pid := None, wr_updated_at := now\<rparr>) ws). wr_state w = COLD \<and> wr_pid w = None" for ws
    by (rule all_updated) simp_all
  then show "\<forall>w \<in> set (db_workers db'). wr_state w = COLD \<and> wr_pid w = None" unfolding db' by simp
qed

lemma start_jobs_running:
  "map_of tasks j = Some False \<or> j \<in> set ids \<Longrightarrow>
     map_of (fold (\<lambda>job_id. fst \<circ> start_job job_id) ids tasks) j = Some False"
  by (induction ids arbitrary: tasks) (auto simp: start_job_def update_conv')

lemma first_key_logs_in:
  assumes "db_keys db = []" "db_accounts db = []" "verify (hash (fst (issue_api_key kid secret))) (fst (issue_api_key kid secret)) = Some True"
  obtains db' where
    "ensure_initial_admin kid aid secret hash encrypt now db = Inr (Some (fst (issue_api_key kid secret)), db')"
    "db_reservations db' = db_reservations db" "db_workers db' = db_workers db" "db_jobs db' = db_jobs db"
    "\<And>later. case fst (authenticate verify later (take 24 (fst (issue_api_key kid secret)))
        (fst (issue_api_key kid secret)) db') of None \<Rightarrow> False | Some p \<Rightarrow> pr_role p = ADMIN"
proof -
  obtain token public where t: "issue_api_key kid secret = (token, public)" by fastforce
  then have p: "public = take 24 token" by (auto simp: issue_api_key_def Let_def)
  show thesis
    by (rule that, simp add: ensure_initial_admin_def key_count_def t create_key_def insert_key_def
        insert_or_ignore_account_def assms(1,2) Let_def)
      (use assms(3) t p in \<open>simp_all add: authenticate_def verify_api_key_def\<close>)
qed

lemma configure_prism_sel [simp]:
  "sc_sup (configure_prism now ps s) = sc_sup s" "sc_queues (configure_prism now ps s) = sc_queues s"
  "sc_validation (configure_prism now ps s) = sc_validation s"
  "sc_maintenance (configure_prism now ps s) = sc_maintenance s"
  "service_mode_of (sc_db (configure_prism now ps s)) = service_mode_of (sc_db s)"
  by (simp_all add: configure_prism_def Let_def)

text \<open>The parts of the database that the events of the start leave alone.\<close>

definition same_records :: "database \<Rightarrow> database \<Rightarrow> bool" where
  "same_records db db' \<longleftrightarrow> db_keys db' = db_keys db \<and> db_accounts db' = db_accounts db
     \<and> db_reservations db' = db_reservations db \<and> db_workers db' = db_workers db \<and> db_jobs db' = db_jobs db"

lemma same_records_log: "same_records (sc_db s) (sc_db (log_event now k i ps s))"
  by (simp add: same_records_def log_event_def)

lemma same_records_fold:
  assumes "\<And>x s. same_records (sc_db s) (sc_db (f x s))"
  shows "same_records (sc_db s) (sc_db (fold f xs s))"
proof (induction xs arbitrary: s)
  case (Cons x xs)
  show ?case using assms [of s x] Cons [of "f x s"] by (simp add: same_records_def)
qed (simp add: same_records_def)

lemma same_records_preload: "same_records (sc_db s) (sc_db (preload_model now m s))"
  using same_records_log by (simp add: preload_model_def same_records_def)

lemma same_records_prism: "same_records (sc_db s) (sc_db (configure_prism now ps s))"
proof -
  have "same_records (sc_db s) (sc_db (configure_preload now sel s))" for sel s
    using same_records_fold [of "preload_model now", OF same_records_preload]
      same_records_fold [of "\<lambda>n. log_event now ''PRISM_PRELOAD_SKIPPED'' None
                      [(''nickname'', JStr n), (''reason'', JStr ''model_not_found'')]", OF same_records_log]
    by (simp add: configure_preload_def Let_def same_records_def)
  then show ?thesis using same_records_log
    by (simp add: configure_prism_def Let_def same_records_def)
qed

lemma authenticate_keys:
  "db_keys db' = db_keys db \<Longrightarrow> db_accounts db' = db_accounts db \<Longrightarrow>
     fst (authenticate verify now public token db') = fst (authenticate verify now public token db)"
  by (simp add: authenticate_def split: option.splits)

lemma configured_start_inv: "sched_inv (configure_prism now ps (sched_init capacity per_tenant now' db))"
proof -
  have "sched_inv (sched_init capacity per_tenant now' db)"
    by (rule reachable_sched_inv) (rule sched_reachable.init)
  then show ?thesis by (simp add: sched_inv_def all_cold_def)
qed

text \<open>The database the start leaves, before the components are built on it.\<close>

lemma startup_database_clean:
  assumes "books_ok db" "db_keys db = [] \<Longrightarrow> db_accounts db = []" "\<And>t. verify (hash t) t = Some True"
  obtains token db' where
    "startup_database lid kid aid secret hash encrypt now fp reports db = Inr (token, db')"
    "reserved_ids db' = []" "\<forall>w \<in> set (db_workers db'). wr_state w = COLD \<and> wr_pid w = None"
    "case token of
       None \<Rightarrow> db_keys db \<noteq> [] \<and> db_keys db' = db_keys db
     | Some t \<Rightarrow> db_keys db = []
         \<and> (case fst (authenticate verify later (take 24 t) t db') of
              None \<Rightarrow> False | Some p \<Rightarrow> pr_role p = ADMIN)"
proof -
  define db1 where "db1 = fold (record_runtime_event now ''STARTUP_WORKER_RECONCILIATION'' None) reports db"
  have "books_ok db1" using assms(1) by (simp add: db1_def fold_events)
  then obtain db2 where r: "recover_orphaned_state lid now db1 = Inr db2"
    and held: "\<And>r. r \<in> set (db_reservations db2) \<Longrightarrow> qr_state r \<noteq> RESERVED"
    by (rule recover_total [where lid = lid and now = now]) blast
  let ?db3 = "note_fingerprint now fp db2"
  have keys: "db_keys ?db3 = db_keys db" "db_keys db = [] \<Longrightarrow> db_accounts ?db3 = []"
    using recover_others(1,2) [OF r] assms(2) by (simp_all add: db1_def fold_events)
  have run: "startup_database lid kid aid secret hash encrypt now fp reports db
      = ensure_initial_admin kid aid secret hash encrypt now ?db3"
    by (simp add: startup_database_def db1_def [symmetric] r)
  have clean: "reserved_ids db' = []" "\<forall>w \<in> set (db_workers db'). wr_state w = COLD \<and> wr_pid w = None"
    if "db_reservations db' = db_reservations ?db3" "db_workers db' = db_workers ?db3" for db'
    using that held recover_others(3) [OF r] by (simp_all add: reserved_ids_def filter_empty_conv)
  show thesis
  proof (cases "db_keys db = []")
    case True
    obtain db' where new:
      "ensure_initial_admin kid aid secret hash encrypt now ?db3 = Inr (Some (fst (issue_api_key kid secret)), db')"
      "db_reservations db' = db_reservations ?db3" "db_workers db' = db_workers ?db3"
      "case fst (authenticate verify later (take 24 (fst (issue_api_key kid secret)))
          (fst (issue_api_key kid secret)) db') of None \<Rightarrow> False | Some p \<Rightarrow> pr_role p = ADMIN"
      by (rule first_key_logs_in [where db = ?db3 and verify = verify and hash = hash and kid = kid
            and secret = secret and aid = aid and encrypt = encrypt and now = now])
        (use True keys assms(3) in auto)
    show thesis by (rule that [OF run [unfolded new(1)] clean [OF new(2,3)]]) (use True new(4) in simp)
  next
    case False
    then have "ensure_initial_admin kid aid secret hash encrypt now ?db3 = Inr (None, ?db3)"
      using keys(1) by (simp add: ensure_initial_admin_def key_count_def del: note_fingerprint_sel)
    with run have "startup_database lid kid aid secret hash encrypt now fp reports db = Inr (None, ?db3)" by simp
    then show thesis by (rule that [OF _ clean]) (use False keys(1) in simp_all)
  qed
qed

text \<open>
  C32: the service starts clean. With books in order, the start cannot fail, whatever is left of the
  run before: no reservation is held, every recorded worker is cold and the scheduler has none, its
  invariant holds, and every unfinished registration job has a task. On the first start, before there
  is any key, the key that is logged authenticates an administrator; otherwise the keys stay as they are.
\<close>

theorem service_starts_clean:
  assumes "books_ok db" "db_keys db = [] \<Longrightarrow> db_accounts db = []" "\<And>t. verify (hash t) t = Some True"
  shows "\<exists>s tasks token.
    start_service dump lid kid aid secret hash encrypt now fp posix seen capacity per_tenant ps db
      = Inr (s, tasks, token)
    \<and> sched_inv s \<and> sv_workers (sc_sup s) = [] \<and> reserved_ids (sc_db s) = []
    \<and> (\<forall>w \<in> set (db_workers (sc_db s)). wr_state w = COLD \<and> wr_pid w = None)
    \<and> (\<forall>j \<in> set (resumable (sc_db s)). map_of tasks j = Some False)
    \<and> (case token of
         None \<Rightarrow> db_keys db \<noteq> [] \<and> db_keys (sc_db s) = db_keys db
       | Some t \<Rightarrow> db_keys db = []
           \<and> (case fst (authenticate verify later (take 24 t) t (sc_db s)) of
                None \<Rightarrow> False | Some p \<Rightarrow> pr_role p = ADMIN))"
proof -
  obtain token db' where start:
    "startup_database lid kid aid secret hash encrypt now fp
       (snd (terminate_recorded_workers dump posix seen db)) db = Inr (token, db')"
    and held: "reserved_ids db' = []"
    and workers: "\<forall>w \<in> set (db_workers db'). wr_state w = COLD \<and> wr_pid w = None"
    and key: "case token of
       None \<Rightarrow> db_keys db \<noteq> [] \<and> db_keys db' = db_keys db
     | Some t \<Rightarrow> db_keys db = []
         \<and> (case fst (authenticate verify later (take 24 t) t db') of
              None \<Rightarrow> False | Some p \<Rightarrow> pr_role p = ADMIN)"
    by (rule startup_database_clean [of db verify hash, OF assms])
  let ?s = "configure_prism now ps (sched_init capacity per_tenant now db')"
  have "start_service dump lid kid aid secret hash encrypt now fp posix seen capacity per_tenant ps db
      = Inr (?s, resume_jobs (sc_db ?s) [], token)"
    by (simp add: start_service_def Let_def start)
  moreover have "same_records db' (sc_db ?s)"
    using same_records_prism [of "sched_init capacity per_tenant now db'" now ps] by (simp add: sched_init_def)
  then have rec: "db_keys (sc_db ?s) = db_keys db'" "db_accounts (sc_db ?s) = db_accounts db'"
    "reserved_ids (sc_db ?s) = []" "db_workers (sc_db ?s) = db_workers db'"
    using held by (simp_all add: same_records_def reserved_ids_def)
  moreover have "\<forall>j \<in> set (resumable (sc_db ?s)). map_of (resume_jobs (sc_db ?s) []) j = Some False"
    unfolding resume_jobs_def using start_jobs_running by blast
  moreover have "sv_workers (sc_sup ?s) = []" by (simp add: sched_init_def sup_init_def)
  ultimately show ?thesis
    using workers key configured_start_inv authenticate_keys [OF rec(1,2)]
    by (intro exI [of _ ?s] exI [of _ "resume_jobs (sc_db ?s) []"] exI [of _ token])
      (cases token; simp)
qed

text \<open>A first start on an empty database.\<close>

definition demo_prism :: prism_settings where
  "demo_prism = \<lparr>ps_mode = KV_AUTO, ps_runtime = disabled_runtime None None ''kvcached_not_installed'' None,
     ps_max_workers_per_gpu = 2, ps_weight_cache = False, ps_max_cached_per_gpu = 8, ps_idle_sleep = 45,
     ps_preload = []\<rparr>"

definition demo_leftover :: leftover where
  "demo_leftover = \<lparr>lo_command = None, lo_exists = False, lo_term_error = None, lo_stays = False,
     lo_command_after = None, lo_kill_error = None, lo_exists_after = False\<rparr>"

lemma service_starts_clean_witness:
  "\<exists>s tasks token.
    start_service (\<lambda>_. []) id ''0000-1'' ''a0'' ''secret-of-the-first-key'' (\<lambda>t. ''h'' @ t) id 3 ''f'' True
      (\<lambda>_. demo_leftover) None None demo_prism (empty_database 0) = Inr (s, tasks, token)
    \<and> reserved_ids (sc_db s) = [] \<and> token \<noteq> None"
proof -
  have b: "books_ok (empty_database 0)" by code_simp
  have k: "db_keys (empty_database 0) = []" "db_accounts (empty_database 0) = []"
    by (simp_all add: empty_database_def)
  from service_starts_clean [where dump = "\<lambda>_. []" and lid = id and kid = "''0000-1''" and aid = "''a0''"
      and secret = "''secret-of-the-first-key''" and hash = "\<lambda>t. ''h'' @ t" and encrypt = id and now = 3
      and fp = "''f''" and posix = True and seen = "\<lambda>_. demo_leftover" and capacity = None and per_tenant = None
      and ps = demo_prism and verify = "\<lambda>h t. Some (h = ''h'' @ t)" and later = 4, OF b k(2)]
  show ?thesis using k(1) by (fastforce split: option.splits)
qed

end
